(* ===== verification/Prelude.thy ===== *)
theory Prelude
  imports Main "HOL-Library.Char_ord" "HOL-Library.List_Lexorder"
begin

text \<open>
  What every component shares: the exceptions of the code as values, the plumbing of a
  computation that may throw, the JavaScript string and array operations the code calls
  (\<open>trim\<close>, \<open>join\<close>, \<open>startsWith\<close>, \<open>includes\<close>, \<open>toSorted\<close> with and without a comparator, a
  \<open>Set\<close> built from an array), the character classes of its identifiers, and the two host
  functions (\<open>createHash("sha256")\<close> and \<open>localeCompare\<close>) that are arguments of the model.
  A JavaScript string is a list of characters: the code units below 256.
\<close>

named_theorems result_simps \<open>inversion of a computation that returned\<close>
named_theorems frame_simps \<open>fields an operation leaves alone\<close>

section \<open>Exceptions and results\<close>

datatype exn =
    Error string
  | TypeError string
  | IntegrityError string
  | CanonicalError string
  | SchemaError string
  | StoreError string
  | LockError string
  | RepositoryError string

type_synonym 'a result = "exn + 'a"

definition bindr :: "'e + 'a \<Rightarrow> ('a \<Rightarrow> 'e + 'b) \<Rightarrow> 'e + 'b" where
  "bindr m k = (case m of Inl e \<Rightarrow> Inl e | Inr x \<Rightarrow> k x)"

lemma bindr_simps [simp]:
  "bindr (Inl e) k = Inl e"
  "bindr (Inr x) k = k x"
  by (simp_all add: bindr_def)

lemma bindr_eq_Inr [result_simps]:
  "bindr m k = Inr y \<longleftrightarrow> (\<exists>x. m = Inr x \<and> k x = Inr y)"
  by (cases m) simp_all

lemma if_Inl_eq_Inr [result_simps]:
  "(if b then Inl e else m) = Inr y \<longleftrightarrow> \<not> b \<and> m = Inr y"
  by simp

lemma bindr_cong [fundef_cong]:
  "m = m' \<Longrightarrow> (\<And>x. m' = Inr x \<Longrightarrow> k x = k' x) \<Longrightarrow> bindr m k = bindr m' k'"
  by (cases m') simp_all

text \<open>Run a list of computations left to right; the first exception wins.\<close>

fun sequence :: "('e + 'a) list \<Rightarrow> 'e + 'a list" where
  "sequence [] = Inr []"
| "sequence (m # ms) = bindr m (\<lambda>x. bindr (sequence ms) (\<lambda>xs. Inr (x # xs)))"

lemma sequence_eq_Inr: "sequence ms = Inr xs \<longleftrightarrow> ms = map Inr xs"
  by (induction ms arbitrary: xs) (auto simp: result_simps Cons_eq_map_conv)

definition ok :: "'e + 'a \<Rightarrow> bool" where
  "ok m = (case m of Inl _ \<Rightarrow> False | Inr _ \<Rightarrow> True)"

lemma ok_simps [simp]: "\<not> ok (Inl e)" "ok (Inr x)"
  by (simp_all add: ok_def)

lemma ok_iff: "ok m \<longleftrightarrow> (\<exists>x. m = Inr x)"
  by (cases m) simp_all

text \<open>A loop whose body only checks: every element passes, or the first failure is thrown.\<close>

fun for_each :: "('a \<Rightarrow> 'e + unit) \<Rightarrow> 'a list \<Rightarrow> 'e + unit" where
  "for_each f [] = Inr ()"
| "for_each f (x # xs) = bindr (f x) (\<lambda>_. for_each f xs)"

lemma for_each_ok [result_simps]:
  "for_each f xs = Inr u \<longleftrightarrow> (\<forall>x \<in> set xs. f x = Inr ())"
  by (induction xs) (auto simp: result_simps)

lemma if_unit_result [result_simps]:
  "(if b then Inl e else Inr ()) = Inr u \<longleftrightarrow> \<not> b"
  by simp

text \<open>A guard, and a chain of guards: the first that fails is the exception thrown.\<close>

definition require :: "bool \<Rightarrow> 'e \<Rightarrow> 'e + unit" where
  "require b e = (if b then Inr () else Inl e)"

fun checks :: "('e + unit) list \<Rightarrow> 'e + unit" where
  "checks [] = Inr ()"
| "checks (m # ms) = bindr m (\<lambda>_. checks ms)"

lemma require_ok [result_simps]: "require b e = Inr u \<longleftrightarrow> b"
  by (simp add: require_def)

lemma require_True [simp]: "require True e = Inr ()"
  by (simp add: require_def)

lemma checks_ok [result_simps]: "checks ms = Inr u \<longleftrightarrow> (\<forall>m \<in> set ms. m = Inr ())"
  by (induction ms) (auto simp: result_simps)

section \<open>The host functions\<close>

text \<open>
  \<open>sha256_hex s\<close> is \<open>createHash("sha256").update(s).digest("hex")\<close>; \<open>locale_compare a b\<close> is
  \<open>a.localeCompare(b)\<close> in the locale of the process. What a theorem relies on is a named
  hypothesis: \<open>collation\<close> says that \<open>localeCompare\<close> orders strings (reflexive, sign-symmetric,
  transitive), not that it tells different strings apart; \<open>hash_apart\<close> says that two given
  texts do not collide.
\<close>

record host =
  sha256_hex :: "string \<Rightarrow> string"
  locale_compare :: "string \<Rightarrow> string \<Rightarrow> int"

definition collation :: "host \<Rightarrow> bool" where
  "collation E \<longleftrightarrow>
     (\<forall>a. locale_compare E a a = 0) \<and>
     (\<forall>a b. locale_compare E a b \<le> 0 \<longleftrightarrow> 0 \<le> locale_compare E b a) \<and>
     (\<forall>a b c. locale_compare E a b \<le> 0 \<longrightarrow> locale_compare E b c \<le> 0 \<longrightarrow> locale_compare E a c \<le> 0)"

definition hash_apart :: "host \<Rightarrow> string \<Rightarrow> string \<Rightarrow> bool" where
  "hash_apart E s t \<longleftrightarrow> (sha256_hex E s = sha256_hex E t \<longrightarrow> s = t)"

section \<open>Sorting\<close>

text \<open>
  \<open>toSorted()\<close> on strings compares code units from the left: \<open>sort\<close> with the lexicographic
  order of the library. \<open>toSorted(compare)\<close> is a stable sort by a comparator.
\<close>

fun insert_by :: "('a \<Rightarrow> 'a \<Rightarrow> int) \<Rightarrow> 'a \<Rightarrow> 'a list \<Rightarrow> 'a list" where
  "insert_by c x [] = [x]"
| "insert_by c x (y # ys) = (if c x y \<le> 0 then x # y # ys else y # insert_by c x ys)"

definition sort_by :: "('a \<Rightarrow> 'a \<Rightarrow> int) \<Rightarrow> 'a list \<Rightarrow> 'a list" where
  "sort_by c xs = foldr (insert_by c) xs []"

definition sorted_by :: "('a \<Rightarrow> 'a \<Rightarrow> int) \<Rightarrow> 'a list \<Rightarrow> bool" where
  "sorted_by c = sorted_wrt (\<lambda>x y. c x y \<le> 0)"

lemma sort_by_simps [simp]:
  "sort_by c [] = []"
  "sort_by c (x # xs) = insert_by c x (sort_by c xs)"
  by (simp_all add: sort_by_def)

lemma set_insert_by [simp]: "set (insert_by c x xs) = insert x (set xs)"
  by (induction xs) auto

lemma set_sort_by [simp]: "set (sort_by c xs) = set xs"
  by (induction xs) simp_all

lemma length_insert_by [simp]: "length (insert_by c x xs) = Suc (length xs)"
  by (induction xs) simp_all

lemma length_sort_by [simp]: "length (sort_by c xs) = length xs"
  by (induction xs) simp_all

lemma distinct_insert_by: "distinct (map f (insert_by c x xs)) \<longleftrightarrow> distinct (map f (x # xs))"
  by (induction xs) auto

lemma distinct_sort_by: "distinct (map f (sort_by c xs)) \<longleftrightarrow> distinct (map f xs)"
  by (induction xs) (auto simp: distinct_insert_by)

text \<open>Sorting a list that is in order already changes nothing: no law on the comparator is needed.\<close>

lemma insert_by_head: "\<forall>y \<in> set xs. c x y \<le> 0 \<Longrightarrow> insert_by c x xs = x # xs"
  by (cases xs) auto

lemma sort_by_idem: "sorted_by c xs \<Longrightarrow> sort_by c xs = xs"
  by (induction xs) (auto simp: sorted_by_def insert_by_head)

definition comparator :: "('a \<Rightarrow> 'a \<Rightarrow> int) \<Rightarrow> bool" where
  "comparator c \<longleftrightarrow> (\<forall>x y. c x y \<le> 0 \<or> c y x \<le> 0) \<and> (\<forall>x y z. c x y \<le> 0 \<longrightarrow> c y z \<le> 0 \<longrightarrow> c x z \<le> 0)"

lemma sorted_insert_by:
  assumes "comparator c" and "sorted_by c xs"
  shows "sorted_by c (insert_by c x xs)"
  using assms(2)
proof (induction xs)
  case Nil
  show ?case by (simp add: sorted_by_def)
next
  case (Cons y ys)
  have total: "c x y \<le> 0 \<or> c y x \<le> 0"
    and trans: "\<And>z. c x y \<le> 0 \<Longrightarrow> c y z \<le> 0 \<Longrightarrow> c x z \<le> 0"
    using assms(1) unfolding comparator_def by blast+
  from Cons show ?case
    using total by (auto simp: sorted_by_def intro: trans)
qed

lemma sorted_sort_by: "comparator c \<Longrightarrow> sorted_by c (sort_by c xs)"
  by (induction xs) (auto simp: sorted_insert_by, simp add: sorted_by_def)

lemma collation_comparator: "collation E \<Longrightarrow> comparator (\<lambda>x y. locale_compare E (f x) (f y))"
  unfolding collation_def comparator_def by (metis linorder_le_cases)

section \<open>Sets and strings of JavaScript\<close>

text \<open>\<open>[...new Set(xs)]\<close> keeps the first occurrence of every element.\<close>

fun uniq :: "'a list \<Rightarrow> 'a list" where
  "uniq [] = []"
| "uniq (x # xs) = x # filter (\<lambda>y. y \<noteq> x) (uniq xs)"

lemma set_uniq [simp]: "set (uniq xs) = set xs"
  by (induction xs) auto

lemma distinct_uniq [simp]: "distinct (uniq xs)"
  by (induction xs) auto

lemma uniq_distinct: "distinct xs \<Longrightarrow> uniq xs = xs"
  by (induction xs) (auto simp: filter_id_conv)

text \<open>\<open>[...new Set(xs)].toSorted()\<close>\<close>

definition sorted_uniq :: "string list \<Rightarrow> string list" where
  "sorted_uniq xs = sort (uniq xs)"

lemma sorted_uniq_simps [simp]:
  "set (sorted_uniq xs) = set xs" "distinct (sorted_uniq xs)" "sorted (sorted_uniq xs)"
  by (simp_all add: sorted_uniq_def)

lemma sorted_uniq_eq: "sorted_uniq xs = sorted_list_of_set (set xs)"
  by (rule sorted_distinct_set_unique) simp_all

lemma sorted_uniq_idem [simp]: "sorted_uniq (sorted_uniq xs) = sorted_uniq xs"
  by (simp add: sorted_uniq_eq)

definition js_space :: "char \<Rightarrow> bool" where
  "js_space c \<longleftrightarrow> of_char c \<in> {9, 10, 11, 12, 13, 32, 160 :: nat}"

definition trim_end :: "string \<Rightarrow> string" where
  "trim_end s = rev (dropWhile js_space (rev s))"

definition trim :: "string \<Rightarrow> string" where
  "trim s = trim_end (dropWhile js_space s)"

lemma trim_Nil [simp]: "trim [] = []"
  by (simp add: trim_def trim_end_def)

fun join :: "string \<Rightarrow> string list \<Rightarrow> string" where
  "join sep [] = []"
| "join sep [x] = x"
| "join sep (x # y # xs) = x @ sep @ join sep (y # xs)"

fun starts_with :: "string \<Rightarrow> string \<Rightarrow> bool" where
  "starts_with [] s = True"
| "starts_with (p # ps) [] = False"
| "starts_with (p # ps) (c # s) = (p = c \<and> starts_with ps s)"

definition ends_with :: "string \<Rightarrow> string \<Rightarrow> bool" where
  "ends_with p s = starts_with (rev p) (rev s)"

fun js_includes :: "string \<Rightarrow> string \<Rightarrow> bool" where
  "js_includes p [] = (p = [])"
| "js_includes p (c # s) = (starts_with p (c # s) \<or> js_includes p s)"

text \<open>\<open>s.split(c)\<close> for a one-character separator.\<close>

fun split_on :: "char \<Rightarrow> string \<Rightarrow> string list" where
  "split_on d [] = [[]]"
| "split_on d (c # s) =
     (if c = d then [] # split_on d s
      else (case split_on d s of [] \<Rightarrow> [[c]] | p # ps \<Rightarrow> (c # p) # ps))"

lemma starts_with_iff: "starts_with p s \<longleftrightarrow> (\<exists>t. s = p @ t)"
  by (induction p s rule: starts_with.induct) auto

section \<open>Identifier shapes\<close>

definition is_digit :: "char \<Rightarrow> bool" where
  "is_digit c \<longleftrightarrow> CHR ''0'' \<le> c \<and> c \<le> CHR ''9''"

definition is_hex :: "char \<Rightarrow> bool" where
  "is_hex c \<longleftrightarrow> is_digit c \<or> (CHR ''a'' \<le> c \<and> c \<le> CHR ''f'')"

definition is_alpha :: "char \<Rightarrow> bool" where
  "is_alpha c \<longleftrightarrow> (CHR ''a'' \<le> c \<and> c \<le> CHR ''z'') \<or> (CHR ''A'' \<le> c \<and> c \<le> CHR ''Z'')"

definition is_alnum :: "char \<Rightarrow> bool" where
  "is_alnum c \<longleftrightarrow> is_alpha c \<or> is_digit c"

text \<open>\<open>Number.isSafeInteger\<close> on an integer.\<close>

definition safe_integer :: "int \<Rightarrow> bool" where
  "safe_integer n \<longleftrightarrow> \<bar>n\<bar> \<le> 9007199254740991"

text \<open>The identifiers checked by regular expressions of a fixed shape.\<close>

definition OBJECT_ID :: "string \<Rightarrow> bool" where
  "OBJECT_ID s \<longleftrightarrow> 40 \<le> length s \<and> length s \<le> 64 \<and> list_all is_hex s"

definition LINEAGE_ID :: "string \<Rightarrow> bool" where
  "LINEAGE_ID s \<longleftrightarrow> s \<noteq> [] \<and> is_alnum (hd s) \<and> length s \<le> 128 \<and>
     list_all (\<lambda>c. is_alnum c \<or> c = CHR ''.'' \<or> c = CHR ''_'' \<or> c = CHR ''-'') (tl s)"

end
