(* ===== verification/PathRegex.thy ===== *)
theory PathRegex
  imports Prelude
begin

text \<open>
  The regular expressions the route and risk classifiers test paths with: a datatype of
  expressions with the anchors \<open>^\<close> and \<open>$\<close>, an executable matcher by derivatives that knows
  whether it stands at the start or the end of the string, and the meaning it implements
  (\<open>rx_match u r i j\<close>: \<open>r\<close> matches the part of \<open>u\<close> from \<open>i\<close> to \<open>j\<close>). \<open>regex_test\<close> is
  \<open>RegExp.prototype.test\<close>: a match somewhere in the string.
\<close>

section \<open>Expressions and the matcher\<close>

datatype rx =
    RFail
  | REps
  | RBol
  | REol
  | RSet "char \<Rightarrow> bool"
  | RSeq rx rx
  | RAlt rx rx
  | RStar rx

fun nullable :: "bool \<Rightarrow> bool \<Rightarrow> rx \<Rightarrow> bool" where
  "nullable a e RFail = False"
| "nullable a e REps = True"
| "nullable a e RBol = a"
| "nullable a e REol = e"
| "nullable a e (RSet p) = False"
| "nullable a e (RSeq r s) = (nullable a e r \<and> nullable a e s)"
| "nullable a e (RAlt r s) = (nullable a e r \<or> nullable a e s)"
| "nullable a e (RStar r) = True"

fun seq :: "rx \<Rightarrow> rx \<Rightarrow> rx" where
  "seq RFail s = RFail"
| "seq REps s = s"
| "seq r s = RSeq r s"

fun alt :: "rx \<Rightarrow> rx \<Rightarrow> rx" where
  "alt RFail s = s"
| "alt r RFail = r"
| "alt r s = RAlt r s"

fun deriv :: "bool \<Rightarrow> char \<Rightarrow> rx \<Rightarrow> rx" where
  "deriv a c RFail = RFail"
| "deriv a c REps = RFail"
| "deriv a c RBol = RFail"
| "deriv a c REol = RFail"
| "deriv a c (RSet p) = (if p c then REps else RFail)"
| "deriv a c (RSeq r s) =
     alt (seq (deriv a c r) s) (if nullable a False r then deriv a c s else RFail)"
| "deriv a c (RAlt r s) = alt (deriv a c r) (deriv a c s)"
| "deriv a c (RStar r) = seq (deriv a c r) (RStar r)"

fun full_match :: "bool \<Rightarrow> rx \<Rightarrow> string \<Rightarrow> bool" where
  "full_match a r [] = nullable a True r"
| "full_match a r (c # s) = full_match False (deriv a c r) s"

definition RAny :: rx where
  "RAny = RStar (RSet (\<lambda>_. True))"

definition regex_test :: "rx \<Rightarrow> string \<Rightarrow> bool" where
  "regex_test r s = full_match True (RSeq RAny (RSeq r RAny)) s"

section \<open>Abbreviated forms\<close>

definition RChr :: "char \<Rightarrow> rx" where "RChr c = RSet (\<lambda>d. d = c)"
definition ROpt :: "rx \<Rightarrow> rx" where "ROpt r = RAlt REps r"
definition RPlus :: "rx \<Rightarrow> rx" where "RPlus r = RSeq r (RStar r)"
definition RStr :: "string \<Rightarrow> rx" where "RStr s = foldr (\<lambda>c. RSeq (RChr c)) s REps"
definition RSeqs :: "rx list \<Rightarrow> rx" where "RSeqs rs = foldr RSeq rs REps"
definition RAlts :: "rx list \<Rightarrow> rx" where "RAlts rs = foldr RAlt rs RFail"
definition RWords :: "string list \<Rightarrow> rx" where "RWords ws = RAlts (map RStr ws)"

text \<open>\<open>.\<close> without the \<open>s\<close> flag: any character but a line terminator.\<close>

definition RDot :: rx where
  "RDot = RSet (\<lambda>c. of_char c \<notin> {10, 13 :: nat})"

text \<open>
  The \<open>i\<close> flag, for a pattern written in lower case: only the ASCII letters of the subject
  are folded, since no other character folds to a letter of the patterns below.
\<close>

definition ascii_lower :: "char \<Rightarrow> char" where
  "ascii_lower c = (if CHR ''A'' \<le> c \<and> c \<le> CHR ''Z'' then char_of (of_char c + 32 :: nat) else c)"

definition regex_test_i :: "rx \<Rightarrow> string \<Rightarrow> bool" where
  "regex_test_i r s = regex_test r (map ascii_lower s)"

section \<open>The meaning of an expression\<close>

inductive rx_match :: "string \<Rightarrow> rx \<Rightarrow> nat \<Rightarrow> nat \<Rightarrow> bool" for u where
  eps: "i \<le> length u \<Longrightarrow> rx_match u REps i i"
| bol: "rx_match u RBol 0 0"
| eol: "rx_match u REol (length u) (length u)"
| chr: "i < length u \<Longrightarrow> p (u ! i) \<Longrightarrow> rx_match u (RSet p) i (Suc i)"
| seq: "rx_match u r i j \<Longrightarrow> rx_match u s j k \<Longrightarrow> rx_match u (RSeq r s) i k"
| alt1: "rx_match u r i j \<Longrightarrow> rx_match u (RAlt r s) i j"
| alt2: "rx_match u s i j \<Longrightarrow> rx_match u (RAlt r s) i j"
| star0: "i \<le> length u \<Longrightarrow> rx_match u (RStar r) i i"
| star1: "rx_match u r i j \<Longrightarrow> rx_match u (RStar r) j k \<Longrightarrow> rx_match u (RStar r) i k"

inductive_cases failE [elim!]: "rx_match u RFail i j"
inductive_simps match_simps [simp]:
  "rx_match u REps i j" "rx_match u RBol i j" "rx_match u REol i j" "rx_match u (RSet p) i j"
  "rx_match u (RSeq r s) i j" "rx_match u (RAlt r s) i j"

lemma match_fail [simp]: "\<not> rx_match u RFail i j"
  by blast

lemma match_bounds: "rx_match u r i j \<Longrightarrow> i \<le> j \<and> j \<le> length u"
  by (induction rule: rx_match.induct) auto

lemma match_seq_smart [simp]: "i \<le> length u \<Longrightarrow> rx_match u (seq r s) i j \<longleftrightarrow> rx_match u (RSeq r s) i j"
  by (cases r) auto

lemma match_alt_smart [simp]: "rx_match u (alt r s) i j \<longleftrightarrow> rx_match u (RAlt r s) i j"
  by (cases r; cases s) auto

lemma nullable_iff: "i \<le> length u \<Longrightarrow> nullable (i = 0) (i = length u) r \<longleftrightarrow> rx_match u r i i"
proof (induction r)
  case (RSeq r s)
  then show ?case using match_bounds by (auto intro: order_antisym dest: match_bounds)
      (metis order_antisym match_bounds)+
qed (auto intro: rx_match.star0)

text \<open>A match of a repetition that consumes something starts with an iteration that does.\<close>

lemma star_nonempty:
  assumes "rx_match u (RStar r) i k" "i < k"
  shows "\<exists>j. i < j \<and> rx_match u r i j \<and> rx_match u (RStar r) j k"
  using assms
proof (induction "RStar r" i k rule: rx_match.induct)
  case (star1 i j k)
  show ?case
  proof (cases "i = j")
    case True
    with star1 show ?thesis by simp
  next
    case False
    with match_bounds[OF star1(1)] have "i < j" by simp
    with star1(1,3) show ?thesis by blast
  qed
qed simp

lemma deriv_match:
  assumes "i < length u"
  shows "rx_match u (deriv (i = 0) (u ! i) r) (Suc i) j \<longleftrightarrow> i < j \<and> rx_match u r i j"
  using assms
proof (induction r arbitrary: j)
  case (RSeq r s)
  have "(\<exists>k. (i < k \<and> rx_match u r i k) \<and> rx_match u s k j) \<or> (rx_match u r i i \<and> i < j \<and> rx_match u s i j)
      \<longleftrightarrow> i < j \<and> (\<exists>k. rx_match u r i k \<and> rx_match u s k j)"
    using match_bounds by (metis le_neq_implies_less less_le_trans)
  with RSeq show ?case
    using nullable_iff[of i u r] by auto
next
  case (RStar r)
  have "(\<exists>k. (i < k \<and> rx_match u r i k) \<and> rx_match u (RStar r) k j) \<longleftrightarrow> i < j \<and> rx_match u (RStar r) i j"
    using star_nonempty match_bounds rx_match.star1 by (metis less_le_trans)
  with RStar show ?case by simp
qed (auto simp: less_Suc_eq_le)

lemma full_match_iff:
  "i \<le> length u \<Longrightarrow> full_match (i = 0) r (drop i u) \<longleftrightarrow> rx_match u r i (length u)"
proof (induction "length u - i" arbitrary: i r)
  case 0
  then show ?case using nullable_iff[of i u r] by simp
next
  case (Suc n)
  then have lt: "i < length u" by simp
  then have "drop i u = u ! i # drop (Suc i) u" by (simp add: Cons_nth_drop_Suc)
  moreover have "full_match False (deriv (i = 0) (u ! i) r) (drop (Suc i) u) \<longleftrightarrow>
      rx_match u (deriv (i = 0) (u ! i) r) (Suc i) (length u)"
    using Suc(1)[of "Suc i"] Suc(2) lt by simp
  ultimately show ?case using deriv_match[OF lt] lt by simp
qed

lemma match_any [simp]: "rx_match u RAny i j \<longleftrightarrow> i \<le> j \<and> j \<le> length u"
proof
  assume *: "i \<le> j \<and> j \<le> length u"
  then show "rx_match u RAny i j"
  proof (induction "j - i" arbitrary: i)
    case 0
    then show ?case by (simp add: RAny_def rx_match.star0)
  next
    case (Suc n)
    then have lt: "i < j" and le: "j \<le> length u" by simp_all
    with Suc have "rx_match u RAny (Suc i) j" by simp
    moreover have "rx_match u (RSet (\<lambda>_. True)) i (Suc i)" using lt le by simp
    ultimately show ?case unfolding RAny_def by (blast intro: rx_match.star1)
  qed
qed (simp add: match_bounds)

lemma regex_test_iff: "regex_test r s \<longleftrightarrow> (\<exists>i j. rx_match s r i j)"
proof -
  have "regex_test r s \<longleftrightarrow> rx_match s (RSeq RAny (RSeq r RAny)) 0 (length s)"
    unfolding regex_test_def using full_match_iff[of 0 s] by simp
  also have "\<dots> \<longleftrightarrow> (\<exists>i j. rx_match s r i j)"
    using match_bounds[of s r] by (simp, meson le_trans)
  finally show ?thesis .
qed

lemma match_word: "rx_match u (RStr w) i j \<longleftrightarrow> i \<le> j \<and> j \<le> length u \<and> take (j - i) (drop i u) = w"
proof (induction w arbitrary: i)
  case Nil
  then show ?case by (auto simp: RStr_def)
next
  case (Cons c w)
  have "rx_match u (RStr (c # w)) i j \<longleftrightarrow> i < length u \<and> u ! i = c \<and> rx_match u (RStr w) (Suc i) j"
    by (auto simp: RStr_def RChr_def)
  moreover have "take (j - i) (drop i u) = u ! i # take (j - Suc i) (drop (Suc i) u)"
    if "i < length u" "i < j"
    using that by (simp add: Cons_nth_drop_Suc[symmetric] take_Cons')
  ultimately show ?case
    using Cons[of "Suc i"] by (cases "i < length u \<and> i < j") auto
qed

lemma match_words: "rx_match u (RWords ws) i j \<longleftrightarrow> (\<exists>w \<in> set ws. rx_match u (RStr w) i j)"
  unfolding RWords_def RAlts_def by (induction ws) auto

end
