(* ===== verification/ReviewTriggers.thy ===== *)
theory ReviewTriggers
  imports PathRegex
begin

text \<open>
  \<open>lib/review-triggers.ts\<close>: the lenses and routes of a review, the path patterns, the evidence
  drawn from a diff and the route chosen from it when an ordinary transaction starts.
\<close>

section \<open>Events, routes, lenses\<close>

datatype trigger_event =
    ORDINARY_START | PRE_COMMIT | PRE_PUSH | PRE_PR | PRE_RELEASE | POST_SDD_PHASE | ON_CI | ON_SCHEDULE

datatype review_route = TRIVIAL | STANDARD | FULL_4R

datatype review_lens = LENS_RISK | LENS_RESILIENCE | LENS_READABILITY | LENS_RELIABILITY

datatype triviality = PROVEN | UNPROVEN | NON_TRIVIAL

fun route_text :: "review_route \<Rightarrow> string" where
  "route_text TRIVIAL = ''trivial''"
| "route_text STANDARD = ''standard''"
| "route_text FULL_4R = ''full-4R''"

fun lens_text :: "review_lens \<Rightarrow> string" where
  "lens_text LENS_RISK = ''review-risk''"
| "lens_text LENS_RESILIENCE = ''review-resilience''"
| "lens_text LENS_READABILITY = ''review-readability''"
| "lens_text LENS_RELIABILITY = ''review-reliability''"

definition LARGE_CHANGED_LINE_THRESHOLD :: int where
  "LARGE_CHANGED_LINE_THRESHOLD = 400"

definition FULL_4R_LENSES :: "review_lens list" where
  "FULL_4R_LENSES = [LENS_RISK, LENS_RESILIENCE, LENS_READABILITY, LENS_RELIABILITY]"

record changed_diff =
  changedPaths :: "string list"
  diffChangedLines :: int

record diff_evidence =
  event :: trigger_event
  changedLines :: int
  triviality_of :: triviality
  evidenceComplete :: bool
  executableChanged :: bool
  configurationChanged :: bool
  hotPathChanged :: bool
  riskSignal :: bool
  resilienceSignal :: bool
  reliabilitySignal :: bool

record review_plan =
  plan_route :: review_route
  plan_lenses :: "review_lens list"
  plan_reason :: string

section \<open>Path patterns\<close>

definition SLASH :: rx where "SLASH = RChr (CHR ''/'')"
definition DOT_CHR :: rx where "DOT_CHR = RChr (CHR ''.'')"
definition NOT_SLASH :: rx where "NOT_SLASH = RSet (\<lambda>c. c \<noteq> CHR ''/'')"
definition SEGMENT_START :: rx where "SEGMENT_START = RAlt RBol SLASH"
definition SEGMENT_END :: rx where "SEGMENT_END = RAlt SLASH REol"

definition DOCUMENTATION_PATH :: rx where
  "DOCUMENTATION_PATH =
     RAlt (RSeqs [SEGMENT_START, RWords [''readme'', ''changelog'', ''contributing'', ''license''],
                  ROpt (RSeq DOT_CHR (RWords [''md'', ''mdx'', ''rst'', ''adoc'', ''txt''])), REol])
          (RSeqs [SEGMENT_START, RAlt (RSeq (RStr ''doc'') (ROpt (RStr ''s''))) (RStr ''documentation''),
                  SLASH, RPlus RDot, DOT_CHR, RWords [''md'', ''mdx'', ''rst'', ''adoc'', ''txt''], REol])"

definition CONFIG_EXTENSION :: rx where
  "CONFIG_EXTENSION =
     RAlts [RSeq (RStr ''json'') (ROpt (RStr ''c'')), RSeqs [RStr ''y'', ROpt (RStr ''a''), RStr ''ml''],
            RStr ''toml'', RStr ''ini'', RStr ''conf'', RStr ''config'']"

definition CONFIGURATION_PATH :: rx where
  "CONFIGURATION_PATH =
     RSeqs [SEGMENT_START,
       RAlts [RSeqs [RStr ''requirements'', ROpt (RSeq (RStr ''-'') (RStar NOT_SLASH)), RStr ''.txt''],
              RStr ''cmakelists.txt'',
              RSeqs [RStr ''package'', ROpt (RStr ''-lock''), RStr ''.json''],
              RStr ''pnpm-lock.yaml'', RStr ''yarn.lock'',
              RSeqs [RStr ''tsconfig'', ROpt (RSeq DOT_CHR (RStar NOT_SLASH)), RStr ''.json''],
              RStr ''dockerfile'', RStr ''makefile'',
              RSeq (RStr ''.env'') (ROpt (RSeq DOT_CHR (RStar NOT_SLASH))),
              RSeqs [RPlus NOT_SLASH, DOT_CHR, RAlt CONFIG_EXTENSION (RStr ''lock'')]],
       REol]"

definition SENSITIVE_CONFIGURATION_PATH :: rx where
  "SENSITIVE_CONFIGURATION_PATH =
     RSeqs [SEGMENT_START,
       RAlt (RSeq (RStr ''.env'') (ROpt (RSeq DOT_CHR (RStar NOT_SLASH))))
            (RSeqs [RAlts [RSeq (RStr ''env'') (ROpt (RStr ''ironment'')),
                           RSeq (RStr ''credential'') (ROpt (RStr ''s'')), RSeq (RStr ''secret'') (ROpt (RStr ''s'')),
                           RSeq (RStr ''token'') (ROpt (RStr ''s'')), RSeq (RStr ''permission'') (ROpt (RStr ''s'')),
                           RSeq (RStr ''polic'') (RWords [''y'', ''ies'']), RStr ''security''],
                    DOT_CHR, CONFIG_EXTENSION]),
       REol]"

definition PACKAGE_RUNTIME_MARKDOWN_PATH :: rx where
  "PACKAGE_RUNTIME_MARKDOWN_PATH =
     RSeqs [SEGMENT_START,
       RAlt (RSeqs [RStr ''assets/agents/'', RPlus NOT_SLASH, RStr ''.md''])
            (RSeqs [RStr ''skills/'', RPlus NOT_SLASH, RStr ''/skill.md'']),
       REol]"

definition HOT_PATH :: rx where
  "HOT_PATH = RSeqs [SEGMENT_START, RWords [''auth'', ''update'', ''security'', ''payments''], SEGMENT_END]"

definition RISK_PATH :: rx where
  "RISK_PATH =
     RAlt (RSeqs [SEGMENT_START,
             RAlts [RStr ''auth'', RStr ''security'', RStr ''payments'',
                    RSeq (RStr ''permission'') (ROpt (RStr ''s'')), RSeq (RStr ''secret'') (ROpt (RStr ''s'')),
                    RSeq (RStr ''credential'') (ROpt (RStr ''s'')), RSeq (RStr ''token'') (ROpt (RStr ''s'')),
                    RSeq (RStr ''polic'') (RWords [''y'', ''ies''])],
             SEGMENT_END])
          (RSeq (RAlts [RSeqs [RStr ''package'', ROpt (RStr ''-lock''), RStr ''.json''],
                        RStr ''pnpm-lock.yaml'', RStr ''yarn.lock'']) REol)"

definition RESILIENCE_PATH :: rx where
  "RESILIENCE_PATH =
     RSeqs [SEGMENT_START,
       RAlts [RStr ''update'', RStr ''deploy'', RStr ''deployment'', RStr ''infra'', RStr ''infrastructure'', RStr ''ops'',
              RSeq (RStr ''migration'') (ROpt (RStr ''s'')), RStr ''rollback'', RStr ''recovery''],
       SEGMENT_END]"

definition RELIABILITY_PATH :: rx where
  "RELIABILITY_PATH =
     RAlt (RSeqs [SEGMENT_START,
             RAlts [RSeq (RStr ''test'') (ROpt (RStr ''s'')), RSeq (RStr ''spec'') (ROpt (RStr ''s'')),
                    RStr ''runtime'', RStr ''api''],
             SEGMENT_END])
          (RSeqs [RWords [''.test'', ''.spec''], DOT_CHR, RPlus NOT_SLASH, REol])"

definition pathMatchesAny :: "string list \<Rightarrow> rx \<Rightarrow> bool" where
  "pathMatchesAny paths pattern = list_ex (regex_test_i pattern) paths"

definition isConfigurationPath :: "string \<Rightarrow> bool" where
  "isConfigurationPath path = regex_test_i CONFIGURATION_PATH path"

definition isDocumentationPath :: "string \<Rightarrow> bool" where
  "isDocumentationPath path \<longleftrightarrow>
     regex_test_i DOCUMENTATION_PATH path \<and> \<not> isConfigurationPath path \<and>
     \<not> regex_test_i PACKAGE_RUNTIME_MARKDOWN_PATH path"

section \<open>Evidence and route\<close>

definition dominantLens :: "diff_evidence \<Rightarrow> review_lens" where
  "dominantLens evidence =
     (if riskSignal evidence then LENS_RISK
      else if resilienceSignal evidence then LENS_RESILIENCE
      else if reliabilitySignal evidence then LENS_RELIABILITY
      else LENS_READABILITY)"

definition buildDiffEvidence :: "trigger_event \<Rightarrow> changed_diff \<Rightarrow> bool \<Rightarrow> diff_evidence" where
  "buildDiffEvidence ev diff complete =
     (let configuration = pathMatchesAny (changedPaths diff) CONFIGURATION_PATH;
          executable = list_ex (\<lambda>path. \<not> isDocumentationPath path \<and> \<not> isConfigurationPath path) (changedPaths diff);
          documentationOnly = changedPaths diff \<noteq> [] \<and> list_all isDocumentationPath (changedPaths diff)
      in \<lparr>event = ev, changedLines = diffChangedLines diff,
          triviality_of =
            (if complete \<and> documentationOnly \<and> \<not> configuration \<and> \<not> executable then PROVEN else UNPROVEN),
          evidenceComplete = complete, executableChanged = executable, configurationChanged = configuration,
          hotPathChanged = pathMatchesAny (changedPaths diff) HOT_PATH,
          riskSignal = pathMatchesAny (changedPaths diff) RISK_PATH \<or>
            pathMatchesAny (changedPaths diff) SENSITIVE_CONFIGURATION_PATH,
          resilienceSignal = pathMatchesAny (changedPaths diff) RESILIENCE_PATH,
          reliabilitySignal = pathMatchesAny (changedPaths diff) RELIABILITY_PATH\<rparr>)"

definition classifyReviewRoute :: "diff_evidence \<Rightarrow> review_plan result" where
  "classifyReviewRoute evidence =
     (if event evidence \<noteq> ORDINARY_START
      then Inl (Error ''Review route classification is allowed only at ordinary transaction start'')
      else if evidenceComplete evidence \<and> triviality_of evidence = PROVEN \<and>
              \<not> executableChanged evidence \<and> \<not> configurationChanged evidence
      then Inr \<lparr>plan_route = TRIVIAL, plan_lenses = [],
                plan_reason = ''objective triviality proven for every changed path''\<rparr>
      else if hotPathChanged evidence \<or> changedLines evidence > LARGE_CHANGED_LINE_THRESHOLD
      then Inr \<lparr>plan_route = FULL_4R, plan_lenses = FULL_4R_LENSES,
                plan_reason = (if hotPathChanged evidence
                               then ''non-trivial hot-path diff requires full 4R''
                               else ''diff exceeds 400 changed lines'')\<rparr>
      else Inr \<lparr>plan_route = STANDARD, plan_lenses = [dominantLens evidence],
                plan_reason = ''non-trivial or unproven diff uses one dominant-risk lens''\<rparr>)"

section \<open>The route of a diff\<close>

definition documentation_only :: "changed_diff \<Rightarrow> bool" where
  "documentation_only d \<longleftrightarrow> changedPaths d \<noteq> [] \<and> list_all isDocumentationPath (changedPaths d)"

definition full_review :: "changed_diff \<Rightarrow> bool" where
  "full_review d \<longleftrightarrow> pathMatchesAny (changedPaths d) HOT_PATH \<or> diffChangedLines d > 400"

lemma documentation_only_plain:
  assumes "documentation_only d"
  shows "\<not> pathMatchesAny (changedPaths d) CONFIGURATION_PATH"
    and "\<not> list_ex (\<lambda>p. \<not> isDocumentationPath p \<and> \<not> isConfigurationPath p) (changedPaths d)"
  using assms
  by (auto simp: documentation_only_def pathMatchesAny_def list_ex_iff list_all_iff
      isDocumentationPath_def isConfigurationPath_def)

lemma classify_built:
  "classifyReviewRoute (buildDiffEvidence ORDINARY_START d complete) =
     Inr (if complete \<and> documentation_only d
          then \<lparr>plan_route = TRIVIAL, plan_lenses = [],
                plan_reason = ''objective triviality proven for every changed path''\<rparr>
          else if full_review d
          then \<lparr>plan_route = FULL_4R, plan_lenses = FULL_4R_LENSES,
                plan_reason = (if pathMatchesAny (changedPaths d) HOT_PATH
                               then ''non-trivial hot-path diff requires full 4R''
                               else ''diff exceeds 400 changed lines'')\<rparr>
          else \<lparr>plan_route = STANDARD,
                plan_lenses = [dominantLens (buildDiffEvidence ORDINARY_START d complete)],
                plan_reason = ''non-trivial or unproven diff uses one dominant-risk lens''\<rparr>)"
  using documentation_only_plain[of d]
  by (auto simp: classifyReviewRoute_def buildDiffEvidence_def Let_def documentation_only_def full_review_def
      LARGE_CHANGED_LINE_THRESHOLD_def)

fun route_rank :: "review_route \<Rightarrow> nat" where
  "route_rank TRIVIAL = 0"
| "route_rank STANDARD = 1"
| "route_rank FULL_4R = 2"

lemma pathMatchesAny_mono: "set ps \<subseteq> set qs \<Longrightarrow> pathMatchesAny ps r \<Longrightarrow> pathMatchesAny qs r"
  by (auto simp: pathMatchesAny_def list_ex_iff)

text \<open>
  C33: growing a diff never lowers its review. Adding changed paths or changed lines to a non-empty
  diff, or losing completeness of its evidence, keeps the route or moves it up the order trivial,
  standard, full 4R.
\<close>

theorem route_monotone:
  assumes "changedPaths d \<noteq> []" and "set (changedPaths d) \<subseteq> set (changedPaths d')"
    and "diffChangedLines d \<le> diffChangedLines d'" and "complete' \<longrightarrow> complete"
    and "classifyReviewRoute (buildDiffEvidence ORDINARY_START d complete) = Inr p"
    and "classifyReviewRoute (buildDiffEvidence ORDINARY_START d' complete') = Inr p'"
  shows "route_rank (plan_route p) \<le> route_rank (plan_route p')"
proof -
  have "full_review d \<Longrightarrow> full_review d'"
    using assms(2,3) pathMatchesAny_mono by (auto simp: full_review_def)
  moreover have "documentation_only d' \<Longrightarrow> documentation_only d"
    using assms(1,2) by (auto simp: documentation_only_def list_all_iff)
  ultimately show ?thesis
    using assms(4-6) unfolding classify_built by (auto split: if_splits)
qed

theorem route_monotone_witness:
  "\<exists>p p'. classifyReviewRoute (buildDiffEvidence ORDINARY_START \<lparr>changedPaths = [''README.md''], diffChangedLines = 3\<rparr> True) = Inr p \<and>
     classifyReviewRoute (buildDiffEvidence ORDINARY_START \<lparr>changedPaths = [''README.md'', ''src/a.ts''], diffChangedLines = 9\<rparr> True) = Inr p' \<and>
     route_rank (plan_route p) \<le> route_rank (plan_route p')"
proof -
  let ?d = "\<lparr>changedPaths = [''README.md''], diffChangedLines = 3\<rparr>"
  let ?d' = "\<lparr>changedPaths = [''README.md'', ''src/a.ts''], diffChangedLines = 9\<rparr>"
  obtain p p' where p: "classifyReviewRoute (buildDiffEvidence ORDINARY_START ?d True) = Inr p"
    and p': "classifyReviewRoute (buildDiffEvidence ORDINARY_START ?d' True) = Inr p'"
    unfolding classify_built by blast
  from route_monotone[of ?d ?d' True True, OF _ _ _ _ p p'] p p' show ?thesis by auto
qed

text \<open>
  A diff skips review exactly when its evidence is complete, it changes at least one path and
  every path is documentation; no other evidence and no other event gives the trivial route, and
  the lenses follow the route (none, all four in order, or one). Outside an ordinary start the
  classifier throws.
\<close>

theorem trivial_route_exact:
  "(case classifyReviewRoute (buildDiffEvidence ev d complete) of
      Inl e \<Rightarrow> ev \<noteq> ORDINARY_START
    | Inr p \<Rightarrow>
        ev = ORDINARY_START \<and>
        (plan_route p = TRIVIAL) = (complete \<and> changedPaths d \<noteq> [] \<and> list_all isDocumentationPath (changedPaths d)) \<and>
        (case plan_route p of TRIVIAL \<Rightarrow> plan_lenses p = [] | FULL_4R \<Rightarrow> plan_lenses p = FULL_4R_LENSES
         | STANDARD \<Rightarrow> length (plan_lenses p) = 1))"
proof (cases "ev = ORDINARY_START")
  case True
  then show ?thesis
    unfolding True classify_built by (simp add: documentation_only_def)
next
  case False
  then show ?thesis by (simp add: classifyReviewRoute_def buildDiffEvidence_def Let_def)
qed

end
