(* ===== verification/ReviewRisk.thy ===== *)
theory ReviewRisk
  imports ReviewTriggers
begin

text \<open>
  \<open>lib/review-risk.ts\<close>: the lines a review was asked about, the correction budget they allow and
  the risk tier of a list of diff statistics. \<open>extname\<close> of \<open>node:path\<close> and \<open>toLowerCase\<close> are
  modelled on the characters below 256.
\<close>

section \<open>Statistics and classification\<close>

datatype review_risk_tier = TIER_LOW | TIER_MEDIUM | TIER_HIGH

definition MAX_CORRECTION_CHANGED_LINES :: int where "MAX_CORRECTION_CHANGED_LINES = 200"
definition LARGE_AUTHORED_CHANGE_LINES :: int where "LARGE_AUTHORED_CHANGE_LINES = 400"

record review_diff_stat =
  path :: string
  additions :: int
  deletions :: int
  binary :: bool
  mode_only :: bool

record review_risk_classification =
  tier :: review_risk_tier
  original_changed_lines :: int
  correction_budget :: int
  selected_lenses :: "review_lens list"

definition GENERATED_GOLDEN_PATH :: rx where
  "GENERATED_GOLDEN_PATH = RSeqs [RBol, RStr ''testdata/golden'', SEGMENT_END]"

definition s_opt :: "string \<Rightarrow> rx" where
  "s_opt w = RSeq (RStr w) (ROpt (RStr ''s''))"

definition HIGH_RISK_TOKEN :: rx where
  "HIGH_RISK_TOKEN =
     RSeqs [RBol,
       RAlts [RStr ''auth'', RStr ''authentication'', RStr ''authorization'', RStr ''update'', RStr ''updater'',
              RStr ''security'', s_opt ''payment'', s_opt ''permission'', RStr ''shell'', RStr ''process'', RStr ''processes'',
              s_opt ''secret'', s_opt ''credential'', s_opt ''token''],
       REol]"

definition PHRASE_GAP :: rx where
  "PHRASE_GAP = ROpt (RSet (\<lambda>c. c \<in> {CHR ''-'', CHR ''_'', CHR ''/'', CHR '' ''}))"

definition HIGH_RISK_PHRASE :: rx where
  "HIGH_RISK_PHRASE =
     RAlt (RSeqs [RStr ''data'', PHRASE_GAP, RWords [''exposure'', ''loss'']])
          (RSeqs [RStr ''privilege'', PHRASE_GAP, RStr ''escalation''])"

definition canonical_path :: "string \<Rightarrow> bool" where
  "canonical_path p \<longleftrightarrow>
     p \<noteq> [] \<and> \<not> starts_with ''/'' p \<and> \<not> js_includes [CHR 0x5C] p \<and>
     \<not> list_ex (\<lambda>part. part = '''' \<or> part = ''.'' \<or> part = ''..'') (split_on (CHR ''/'') p)"

definition assertCanonicalPath :: "string \<Rightarrow> unit result" where
  "assertCanonicalPath p =
     (if \<not> canonical_path p then Inl (Error (''Review diff path is not canonical: '' @ p)) else Inr ())"

definition isGeneratedGoldenPath :: "string \<Rightarrow> bool result" where
  "isGeneratedGoldenPath p = bindr (assertCanonicalPath p) (\<lambda>_. Inr (regex_test GENERATED_GOLDEN_PATH p))"

fun count_loop :: "review_diff_stat list \<Rightarrow> string list \<Rightarrow> int \<Rightarrow> int result" where
  "count_loop [] seen acc = Inr acc"
| "count_loop (stat # stats) seen acc =
     bindr (assertCanonicalPath (path stat)) (\<lambda>_.
       if path stat \<in> set seen then Inl (Error (''Duplicate review diff path: '' @ path stat))
       else if \<not> safe_integer (additions stat) \<or> \<not> safe_integer (deletions stat) \<or>
               additions stat < 0 \<or> deletions stat < 0
       then Inl (Error (''Review diff stat is invalid for '' @ path stat))
       else bindr (isGeneratedGoldenPath (path stat)) (\<lambda>golden.
         if golden \<or> binary stat \<or> mode_only stat then count_loop stats (path stat # seen) acc
         else count_loop stats (path stat # seen) (acc + (additions stat + deletions stat))))"

definition countAuthoredChangedLines :: "review_diff_stat list \<Rightarrow> int result" where
  "countAuthoredChangedLines stats = count_loop stats [] 0"

text \<open>\<open>Math.ceil(n / 2)\<close> of a non-negative safe integer: halving a double is exact.\<close>

definition correctionBudget :: "int \<Rightarrow> int result" where
  "correctionBudget originalChangedLines =
     (if \<not> safe_integer originalChangedLines \<or> originalChangedLines < 0
      then Inl (Error ''Original changed lines must be a non-negative integer'')
      else Inr (min MAX_CORRECTION_CHANGED_LINES ((originalChangedLines + 1) div 2)))"

definition js_lower :: "char \<Rightarrow> char" where
  "js_lower c =
     (let n = of_char c :: nat in
      if (65 \<le> n \<and> n \<le> 90) \<or> (192 \<le> n \<and> n \<le> 222 \<and> n \<noteq> 215) then char_of (n + 32) else c)"

fun tokens_of :: "string \<Rightarrow> string \<Rightarrow> string list" where
  "tokens_of acc [] = [rev acc]"
| "tokens_of acc (c # s) =
     (if c \<in> {CHR ''/'', CHR ''.'', CHR ''_'', CHR ''-''} then rev acc # tokens_of [] s
      else tokens_of (c # acc) s)"

text \<open>Splitting on runs of separators and dropping empty tokens is splitting on each one and dropping them.\<close>

definition pathTokens :: "string \<Rightarrow> string list" where
  "pathTokens p = filter (\<lambda>t. t \<noteq> []) (tokens_of [] (map js_lower p))"

definition isHighRiskPath :: "string \<Rightarrow> bool" where
  "isHighRiskPath p \<longleftrightarrow> regex_test_i HIGH_RISK_PHRASE p \<or> list_ex (regex_test_i HIGH_RISK_TOKEN) (pathTokens p)"

definition riskDominantLens :: "string list \<Rightarrow> review_lens" where
  "riskDominantLens paths =
     (if list_ex isHighRiskPath paths then LENS_RISK
      else if list_ex (regex_test_i RESILIENCE_PATH) paths then LENS_RESILIENCE
      else if list_ex (regex_test_i RELIABILITY_PATH) paths then LENS_RELIABILITY
      else LENS_READABILITY)"

definition extname :: "string \<Rightarrow> string" where
  "extname p =
     (let base = last (split_on (CHR ''/'') p);
          ext = takeWhile (\<lambda>c. c \<noteq> CHR ''.'') (rev base)
      in if base = ''..'' \<or> length base \<le> Suc (length ext) then [] else CHR ''.'' # rev ext)"

definition riskDocumentationPath :: "string \<Rightarrow> bool" where
  "riskDocumentationPath p \<longleftrightarrow>
     (if regex_test_i DOCUMENTATION_PATH p then True
      else map js_lower (extname p) \<in> {''.md'', ''.mdx'', ''.rst'', ''.adoc''})"

fun candidate_stats :: "review_diff_stat list \<Rightarrow> review_diff_stat list result" where
  "candidate_stats [] = Inr []"
| "candidate_stats (stat # stats) =
     bindr (isGeneratedGoldenPath (path stat)) (\<lambda>golden.
       bindr (candidate_stats stats) (\<lambda>rest. Inr (if \<not> golden then stat # rest else rest)))"

definition risk_tier_of :: "review_diff_stat list \<Rightarrow> int \<Rightarrow> review_risk_tier" where
  "risk_tier_of candidateStats originalChangedLines =
     (let candidatePaths = map path candidateStats;
          hasOpaqueCandidate = list_ex (\<lambda>stat. binary stat \<or> mode_only stat) candidateStats;
          high = originalChangedLines > LARGE_AUTHORED_CHANGE_LINES \<or> list_ex isHighRiskPath candidatePaths;
          low = \<not> high \<and> \<not> hasOpaqueCandidate \<and>
                \<not> list_ex (regex_test_i CONFIGURATION_PATH) candidatePaths \<and>
                list_all riskDocumentationPath candidatePaths
      in if high then TIER_HIGH else if low then TIER_LOW else TIER_MEDIUM)"

definition classifyReviewRisk :: "review_diff_stat list \<Rightarrow> review_risk_classification result" where
  "classifyReviewRisk stats =
     bindr (countAuthoredChangedLines stats) (\<lambda>originalChangedLines.
     bindr (candidate_stats stats) (\<lambda>candidateStats.
       let t = risk_tier_of candidateStats originalChangedLines in
       bindr (correctionBudget originalChangedLines) (\<lambda>budget.
         Inr \<lparr>tier = t, original_changed_lines = originalChangedLines, correction_budget = budget,
              selected_lenses = (case t of TIER_LOW \<Rightarrow> [] | TIER_HIGH \<Rightarrow> FULL_4R_LENSES
                                 | TIER_MEDIUM \<Rightarrow> [riskDominantLens (map path candidateStats)])\<rparr>)))"

section \<open>What the classifier computes\<close>

definition excluded_stat :: "review_diff_stat \<Rightarrow> bool" where
  "excluded_stat s \<longleftrightarrow> regex_test GENERATED_GOLDEN_PATH (path s) \<or> binary s \<or> mode_only s"

definition valid_stat :: "review_diff_stat \<Rightarrow> bool" where
  "valid_stat s \<longleftrightarrow> canonical_path (path s) \<and> safe_integer (additions s) \<and> safe_integer (deletions s) \<and>
     0 \<le> additions s \<and> 0 \<le> deletions s"

definition authored_lines :: "review_diff_stat list \<Rightarrow> int" where
  "authored_lines stats = (\<Sum>s \<leftarrow> filter (\<lambda>s. \<not> excluded_stat s) stats. additions s + deletions s)"

lemma count_loop_iff:
  "count_loop stats seen acc = Inr t \<longleftrightarrow>
     list_all valid_stat stats \<and> distinct (map path stats) \<and> set (map path stats) \<inter> set seen = {} \<and>
     t = acc + authored_lines stats"
proof (induction stats arbitrary: seen acc)
  case Nil
  then show ?case by (auto simp: authored_lines_def)
next
  case (Cons s stats)
  have "count_loop (s # stats) seen acc = Inr t \<longleftrightarrow>
      valid_stat s \<and> path s \<notin> set seen \<and>
      count_loop stats (path s # seen)
        (if excluded_stat s then acc else acc + (additions s + deletions s)) = Inr t"
    by (auto simp: result_simps assertCanonicalPath_def isGeneratedGoldenPath_def valid_stat_def excluded_stat_def)
  then show ?case
    unfolding Cons.IH by (auto simp: authored_lines_def)
qed

lemma countAuthored_iff:
  "countAuthoredChangedLines stats = Inr t \<longleftrightarrow>
     list_all valid_stat stats \<and> distinct (map path stats) \<and> t = authored_lines stats"
  by (simp add: countAuthoredChangedLines_def count_loop_iff)

lemma authored_nonneg: "list_all valid_stat stats \<Longrightarrow> 0 \<le> authored_lines stats"
  unfolding authored_lines_def by (rule sum_list_nonneg) (auto simp: list_all_iff valid_stat_def)

lemma candidate_stats_valid:
  "list_all valid_stat stats \<Longrightarrow>
     candidate_stats stats = Inr (filter (\<lambda>s. \<not> regex_test GENERATED_GOLDEN_PATH (path s)) stats)"
  by (induction stats) (simp_all add: isGeneratedGoldenPath_def assertCanonicalPath_def valid_stat_def)

lemma correctionBudget_bounds:
  assumes "correctionBudget n = Inr b"
  shows "0 \<le> b \<and> b \<le> 200 \<and> b \<le> n \<and> (n \<le> 400 \<longrightarrow> n \<le> 2 * b \<and> 2 * b \<le> n + 1) \<and> (400 \<le> n \<longrightarrow> b = 200)"
  using assms
  by (auto simp: correctionBudget_def MAX_CORRECTION_CHANGED_LINES_def min_def split: if_splits)

text \<open>The paths a classification is about: those that are not generated goldens.\<close>

definition candidate_paths :: "review_diff_stat list \<Rightarrow> string list" where
  "candidate_paths stats = filter (\<lambda>p. \<not> regex_test GENERATED_GOLDEN_PATH p) (map path stats)"

lemma candidate_paths_map:
  "map path (filter (\<lambda>s. \<not> regex_test GENERATED_GOLDEN_PATH (path s)) stats) = candidate_paths stats"
  by (induction stats) (simp_all add: candidate_paths_def)

lemma classified:
  assumes "classifyReviewRisk stats = Inr c"
  shows "list_all valid_stat stats" and "distinct (map path stats)" and "safe_integer (authored_lines stats)"
    and "tier c = risk_tier_of (filter (\<lambda>s. \<not> regex_test GENERATED_GOLDEN_PATH (path s)) stats) (authored_lines stats)"
    and "original_changed_lines c = authored_lines stats"
    and "correction_budget c = min 200 ((authored_lines stats + 1) div 2)"
    and "selected_lenses c = (case tier c of TIER_LOW \<Rightarrow> [] | TIER_HIGH \<Rightarrow> FULL_4R_LENSES
           | TIER_MEDIUM \<Rightarrow> [riskDominantLens (candidate_paths stats)])"
  using assms by (auto simp: classifyReviewRisk_def result_simps countAuthored_iff candidate_stats_valid Let_def
      correctionBudget_def MAX_CORRECTION_CHANGED_LINES_def candidate_paths_map split: review_risk_tier.split)

lemma tier_high_iff:
  "risk_tier_of (filter (\<lambda>s. \<not> regex_test GENERATED_GOLDEN_PATH (path s)) stats) n = TIER_HIGH \<longleftrightarrow>
    400 < n \<or> list_ex isHighRiskPath (candidate_paths stats)"
  by (simp add: risk_tier_of_def candidate_paths_map LARGE_AUTHORED_CHANGE_LINES_def Let_def)

lemma medium_lens:
  "\<not> list_ex isHighRiskPath paths \<Longrightarrow> riskDominantLens paths =
    (if list_ex (regex_test_i RESILIENCE_PATH) paths then LENS_RESILIENCE
     else if list_ex (regex_test_i RELIABILITY_PATH) paths then LENS_RELIABILITY else LENS_READABILITY)"
  by (simp add: riskDominantLens_def)

text \<open>
  C32: the risk classifier. It returns exactly on the lists of statistics whose paths are canonical
  and pairwise different, whose counts are non-negative safe integers and whose authored lines
  (everything but generated goldens, binary and mode-only entries) add up to a safe integer; and
  then the correction budget is half the authored lines rounded up, capped at 200; the tier is high
  exactly when there are more than 400 authored lines or a path, generated goldens aside, is of high
  risk; a high tier selects each of the risk, resilience, readability and reliability lenses
  once; a low tier selects none; and a medium tier selects one, never the risk lens:
  resilience where a path asks for it, else reliability where a path asks for it, else readability.
\<close>

theorem classifyReviewRisk_spec:
  "case classifyReviewRisk stats of
     Inl _ \<Rightarrow> \<not> (list_all valid_stat stats \<and> distinct (map path stats) \<and> safe_integer (authored_lines stats))
   | Inr c \<Rightarrow>
       list_all valid_stat stats \<and> distinct (map path stats) \<and> safe_integer (authored_lines stats) \<and>
       original_changed_lines c = authored_lines stats \<and>
       correction_budget c = min 200 ((authored_lines stats + 1) div 2) \<and> 0 \<le> correction_budget c \<and>
       (tier c = TIER_HIGH \<longleftrightarrow> 400 < authored_lines stats \<or> list_ex isHighRiskPath (candidate_paths stats)) \<and>
       (case tier c of
          TIER_HIGH \<Rightarrow> set (selected_lenses c) = {LENS_RISK, LENS_RESILIENCE, LENS_READABILITY, LENS_RELIABILITY} \<and>
            length (selected_lenses c) = 4
        | TIER_LOW \<Rightarrow> selected_lenses c = []
        | TIER_MEDIUM \<Rightarrow> selected_lenses c =
            [if list_ex (regex_test_i RESILIENCE_PATH) (candidate_paths stats) then LENS_RESILIENCE
             else if list_ex (regex_test_i RELIABILITY_PATH) (candidate_paths stats) then LENS_RELIABILITY
             else LENS_READABILITY])"
proof (cases "classifyReviewRisk stats")
  case (Inl e)
  then show ?thesis
    using authored_nonneg[of stats]
    by (auto simp: classifyReviewRisk_def candidate_stats_valid correctionBudget_def Let_def
        countAuthored_iff[of stats "authored_lines stats", THEN iffD2])
next
  case (Inr c)
  note c = classified[OF Inr]
  have h: "tier c = TIER_HIGH \<longleftrightarrow> 400 < authored_lines stats \<or> list_ex isHighRiskPath (candidate_paths stats)"
    unfolding c(4) by (rule tier_high_iff)
  have "selected_lenses c = [if list_ex (regex_test_i RESILIENCE_PATH) (candidate_paths stats) then LENS_RESILIENCE
      else if list_ex (regex_test_i RELIABILITY_PATH) (candidate_paths stats) then LENS_RELIABILITY else LENS_READABILITY]"
    if "tier c = TIER_MEDIUM" using c(7) h medium_lens that by simp
  with c h authored_nonneg[of stats] Inr show ?thesis
    by (cases "tier c") (simp_all add: FULL_4R_LENSES_def)
qed

end
