(* ===== verification/Canonical.thy ===== *)
theory Canonical
  imports Prelude
begin

text \<open>
  Canonical JSON and the hashes over it: \<open>canonicalize\<close>, \<open>canonicalHash\<close>
  (\<open>lib/review-transaction.ts\<close>) and \<open>canonicalJsonV1\<close>, \<open>domainHashV1\<close>,
  \<open>parseCanonicalJsonV1\<close> (\<open>lib/review-canonical.ts\<close>). A JavaScript value is a \<open>json\<close>; the
  numbers are the integers the records hold (\<open>JInt\<close>) and the non-finite ones, which the code
  rejects. The main lemma is that the canonical text determines the value up to the order of
  keys and the entries that are undefined, which is what every hash comparison relies on.
\<close>

section \<open>Values and their text\<close>

datatype json =
    JUndefined
  | JNull
  | JBool bool
  | JInt int
  | JNonFinite
  | JStr string
  | JArr "json list"
  | JObj "(string \<times> json) list"
  | JOther string

text \<open>\<open>JSON.stringify\<close> of a string.\<close>

definition hex_digit :: "nat \<Rightarrow> char" where
  "hex_digit n = (if n < 10 then char_of (48 + n) else char_of (87 + n))"

definition escape_char :: "char \<Rightarrow> string" where
  "escape_char c =
     (let n = of_char c :: nat in
      if n = 34 then [CHR 0x5C, CHR 0x22]
      else if n = 92 then [CHR 0x5C, CHR 0x5C]
      else if n = 8 then [CHR 0x5C, CHR ''b'']
      else if n = 9 then [CHR 0x5C, CHR ''t'']
      else if n = 10 then [CHR 0x5C, CHR ''n'']
      else if n = 12 then [CHR 0x5C, CHR ''f'']
      else if n = 13 then [CHR 0x5C, CHR ''r'']
      else if n < 32 then [CHR 0x5C, CHR ''u'', CHR ''0'', CHR ''0'', hex_digit (n div 16), hex_digit (n mod 16)]
      else [c])"

definition quote :: "string \<Rightarrow> string" where
  "quote s = CHR 0x22 # concat (map escape_char s) @ [CHR 0x22]"

text \<open>\<open>JSON.stringify\<close> of an integer.\<close>

fun digits :: "nat \<Rightarrow> string" where
  "digits n = (if n < 10 then [char_of (48 + n)] else digits (n div 10) @ [char_of (48 + n mod 10)])"

declare digits.simps [simp del]

definition decimal :: "int \<Rightarrow> string" where
  "decimal i = (if i < 0 then CHR ''-'' # digits (nat (- i)) else digits (nat i))"

section \<open>The encoders of the code\<close>

definition object_text :: "(string \<times> (exn + string)) list \<Rightarrow> exn + string" where
  "object_text entries =
     bindr (sequence (map (\<lambda>(k, r). bindr r (\<lambda>t. Inr (quote k @ '':'' @ t))) (sort_key fst entries)))
       (\<lambda>ts. Inr (''{'' @ join '','' ts @ ''}''))"

fun canonicalize :: "json \<Rightarrow> exn + string" where
  "canonicalize JNull = Inr ''null''"
| "canonicalize (JStr s) = Inr (quote s)"
| "canonicalize (JBool b) = Inr (if b then ''true'' else ''false'')"
| "canonicalize JNonFinite = Inl (TypeError ''Canonical JSON rejects non-finite numbers'')"
| "canonicalize (JInt i) = Inr (decimal i)"
| "canonicalize (JArr vs) =
     bindr (sequence (map canonicalize vs)) (\<lambda>ts. Inr (''['' @ join '','' ts @ '']''))"
| "canonicalize (JObj kvs) =
     object_text (map (\<lambda>(k, v). (k, canonicalize v)) (filter (\<lambda>(k, v). v \<noteq> JUndefined) kvs))"
| "canonicalize JUndefined = Inl (TypeError ''Canonical JSON rejects undefined'')"
| "canonicalize (JOther t) = Inl (TypeError (''Canonical JSON rejects '' @ t))"

fun canonicalJsonV1 :: "bool \<Rightarrow> json \<Rightarrow> exn + string" where
  "canonicalJsonV1 inArray JNull = Inr ''null''"
| "canonicalJsonV1 inArray (JStr s) = Inr (quote s)"
| "canonicalJsonV1 inArray (JBool b) = Inr (if b then ''true'' else ''false'')"
| "canonicalJsonV1 inArray JNonFinite = Inl (CanonicalError ''Canonical JSON rejects non-finite numbers'')"
| "canonicalJsonV1 inArray (JInt i) = Inr (decimal i)"
| "canonicalJsonV1 inArray JUndefined =
     (if inArray then Inl (CanonicalError ''Canonical JSON rejects undefined array values'')
      else Inl (CanonicalError ''Canonical JSON rejects undefined values''))"
| "canonicalJsonV1 inArray (JArr vs) =
     bindr (sequence (map (canonicalJsonV1 True) vs)) (\<lambda>ts. Inr (''['' @ join '','' ts @ '']''))"
| "canonicalJsonV1 inArray (JObj kvs) =
     object_text (map (\<lambda>(k, v). (k, canonicalJsonV1 False v)) (filter (\<lambda>(k, v). v \<noteq> JUndefined) kvs))"
| "canonicalJsonV1 inArray (JOther t) = Inl (CanonicalError (''Canonical JSON rejects '' @ t))"

definition canonicalHash :: "host \<Rightarrow> json \<Rightarrow> exn + string" where
  "canonicalHash E v = bindr (canonicalize v) (\<lambda>t. Inr (sha256_hex E t))"

definition domain_ok :: "string \<Rightarrow> bool" where
  "domain_ok d \<longleftrightarrow> d \<noteq> [] \<and> list_all (\<lambda>c. (CHR ''a'' \<le> c \<and> c \<le> CHR ''z'') \<or> is_digit c \<or> c = CHR ''-'') d"

definition domain_text :: "string \<Rightarrow> string \<Rightarrow> string" where
  "domain_text d t = ''gentle-ai.review-'' @ d @ ''/v1'' @ [CHR 0x00] @ t"

definition domainHashV1 :: "host \<Rightarrow> string \<Rightarrow> json \<Rightarrow> exn + string" where
  "domainHashV1 E d v =
     (if \<not> domain_ok d then Inl (CanonicalError ''Canonical hash domain is invalid'')
      else bindr (canonicalJsonV1 False v) (\<lambda>t. Inr (sha256_hex E (domain_text d t))))"

text \<open>
  \<open>parseCanonicalJsonV1\<close> on an ASCII text, whose UTF-8 bytes are its characters. \<open>JSON.parse\<close> is
  the argument \<open>parse\<close>: None where it throws.
\<close>

definition parseCanonicalJsonV1 :: "(string \<Rightarrow> json option) \<Rightarrow> string \<Rightarrow> int \<Rightarrow> json result" where
  "parseCanonicalJsonV1 parse input maxBytes =
     (if \<not> safe_integer maxBytes \<or> maxBytes < 0 \<or> int (length input) > maxBytes
      then Inl (CanonicalError ''Canonical JSON exceeds the configured byte limit'')
      else (case parse input of
              None \<Rightarrow> Inl (CanonicalError ''Canonical JSON is invalid'')
            | Some parsed \<Rightarrow>
                bindr (canonicalJsonV1 False parsed) (\<lambda>t.
                  if t \<noteq> input then Inl (CanonicalError ''JSON input is not canonical'')
                  else Inr parsed)))"

definition DIGEST :: "string \<Rightarrow> bool" where
  "DIGEST s \<longleftrightarrow> length s = 64 \<and> list_all is_hex s"

text \<open>A field of a value, undefined where there is none.\<close>

definition jget :: "string \<Rightarrow> json \<Rightarrow> json" where
  "jget k v = (case v of JObj kvs \<Rightarrow> (case map_of kvs k of None \<Rightarrow> JUndefined | Some x \<Rightarrow> x) | _ \<Rightarrow> JUndefined)"

section \<open>The meaning of a value\<close>

text \<open>Two values mean the same when they agree after undefined entries are dropped and keys sorted.\<close>

fun norm :: "json \<Rightarrow> json" where
  "norm (JArr vs) = JArr (map norm vs)"
| "norm (JObj kvs) =
     JObj (sort_key fst (map (\<lambda>(k, v). (k, norm v)) (filter (\<lambda>(k, v). v \<noteq> JUndefined) kvs)))"
| "norm v = v"

fun encodable :: "json \<Rightarrow> bool" where
  "encodable (JArr vs) = list_all encodable vs"
| "encodable (JObj kvs) = list_all (\<lambda>(k, v). v = JUndefined \<or> encodable v) kvs"
| "encodable v = (v \<notin> {JUndefined, JNonFinite} \<and> (\<forall>t. v \<noteq> JOther t))"

section \<open>Numbers and strings are self-delimiting\<close>

text \<open>A number ends where no digit follows; every other text ends by itself.\<close>

definition stop :: "string \<Rightarrow> bool" where
  "stop s \<longleftrightarrow> s = [] \<or> \<not> is_digit (hd s)"

definition digits_value :: "string \<Rightarrow> nat" where
  "digits_value = foldl (\<lambda>a c. 10 * a + (of_char c - 48)) 0"

lemma is_digit_code: "is_digit c \<longleftrightarrow> 48 \<le> (of_char c :: nat) \<and> (of_char c :: nat) \<le> 57"
  by (simp add: is_digit_def less_eq_char_def)

lemma is_digit_char_of [simp]: "n < (10 :: nat) \<Longrightarrow> is_digit (char_of (48 + n))"
  by (simp add: is_digit_code)

lemma digits_value_digits: "digits_value (digits n) = n"
proof (induction n rule: digits.induct)
  case (1 n)
  show ?case
  proof (cases "n < 10")
    case True
    then show ?thesis by (subst digits.simps) (simp add: digits_value_def)
  next
    case False
    with 1 have "digits_value (digits (n div 10)) = n div 10" by simp
    then have "digits_value (digits (n div 10) @ [char_of (48 + n mod 10)]) = 10 * (n div 10) + n mod 10"
      by (simp add: digits_value_def)
    with False show ?thesis by (subst digits.simps) simp
  qed
qed

lemma digits_all: "\<forall>c \<in> set (digits n). is_digit c"
proof (induction n rule: digits.induct)
  case (1 n)
  then show ?case
    by (cases "n < 10") (subst digits.simps, simp)+
qed

lemma digits_ne [simp]: "digits n \<noteq> []"
  by (subst digits.simps) simp

lemma hd_digits: "is_digit (hd (digits n))"
  using digits_all[of n] by simp

lemma takeWhile_digits: "stop s \<Longrightarrow> takeWhile is_digit (digits n @ s) = digits n"
  using digits_all[of n] by (cases s) (auto simp: stop_def takeWhile_append)

lemma digits_unambiguous:
  assumes "digits n @ s = digits m @ s'" "stop s" "stop s'"
  shows "n = m \<and> s = s'"
proof -
  have "digits n = digits m"
    using assms takeWhile_digits by metis
  then have "n = m"
    using digits_value_digits by metis
  with assms(1) show ?thesis by simp
qed

lemma decimal_hd: "hd (decimal i) = CHR ''-'' \<or> is_digit (hd (decimal i))"
  by (simp add: decimal_def hd_digits)

lemma decimal_ne [simp]: "decimal i \<noteq> []"
  by (simp add: decimal_def)

lemma minus_not_digit [simp]: "\<not> is_digit (CHR ''-'')"
  by (simp add: is_digit_code)

lemma decimal_unambiguous:
  assumes "decimal i @ s = decimal j @ s'" "stop s" "stop s'"
  shows "i = j \<and> s = s'"
proof -
  have sign: "(i < 0) = (j < 0)"
  proof -
    have "decimal i \<noteq> []" "decimal j \<noteq> []" by (simp_all add: decimal_def)
    with arg_cong[OF assms(1), of hd] have "hd (decimal i) = hd (decimal j)" by simp
    then show ?thesis
      using hd_digits[of "nat i"] hd_digits[of "nat j"] minus_not_digit
      unfolding decimal_def by (metis list.sel(1))
  qed
  show ?thesis
  proof (cases "i < 0")
    case True
    with sign assms(1) have "digits (nat (- i)) @ s = digits (nat (- j)) @ s'"
      by (simp add: decimal_def)
    from digits_unambiguous[OF this assms(2,3)] True sign show ?thesis by auto
  next
    case False
    with sign assms(1) have "digits (nat i) @ s = digits (nat j) @ s'"
      by (simp add: decimal_def)
    from digits_unambiguous[OF this assms(2,3)] False sign show ?thesis by auto
  qed
qed

text \<open>A decoder for one escape, whose existence makes the escapes prefix-free.\<close>

definition hex_value :: "char \<Rightarrow> nat" where
  "hex_value c = (if is_digit c then of_char c - 48 else of_char c - 87)"

lemma hex_value_hex_digit: "n < 16 \<Longrightarrow> hex_value (hex_digit n) = n"
  by (simp add: hex_value_def hex_digit_def is_digit_code)

fun unescape :: "string \<Rightarrow> nat \<times> string" where
  "unescape (c # x) =
     (if c \<noteq> CHR 0x5C then (of_char c, x)
      else (case x of
              [] \<Rightarrow> (92, [])
            | d # y \<Rightarrow>
                (if d = CHR ''b'' then (8, y) else if d = CHR ''t'' then (9, y)
                 else if d = CHR ''n'' then (10, y) else if d = CHR ''f'' then (12, y)
                 else if d = CHR ''r'' then (13, y)
                 else if d = CHR ''u'' then (16 * hex_value (y ! 2) + hex_value (y ! 3), drop 4 y)
                 else (of_char d, y))))"
| "unescape [] = (0, [])"

lemma char_eq_code: "c = CHR 0x5C \<longleftrightarrow> of_char c = (92 :: nat)"
proof -
  have "of_char (CHR 0x5C) = (92 :: nat)" by simp
  then show ?thesis by (metis of_char_eq_iff)
qed

lemma unescape_escape: "unescape (escape_char c @ x) = (of_char c, x)"
  by (simp add: escape_char_def Let_def hex_value_hex_digit char_eq_code)

text \<open>A plain character stands for itself; every escape starts with a backslash.\<close>

definition plain :: "char \<Rightarrow> bool" where
  "plain c \<longleftrightarrow> 32 \<le> (of_char c :: nat) \<and> of_char c \<noteq> (34 :: nat) \<and> of_char c \<noteq> (92 :: nat)"

lemma escape_plain: "plain c \<Longrightarrow> escape_char c = [c]"
  by (simp add: plain_def escape_char_def)

lemma escape_special: "\<not> plain c \<Longrightarrow> \<exists>r. escape_char c = CHR 0x5C # r"
  by (auto simp: plain_def escape_char_def Let_def)

lemma escape_unambiguous:
  assumes "escape_char c @ x = escape_char d @ y"
  shows "c = d \<and> x = y"
proof -
  have "unescape (escape_char c @ x) = unescape (escape_char d @ y)" using assms by simp
  then show ?thesis by (simp add: unescape_escape)
qed

lemma escape_ne_quote: "escape_char c @ x \<noteq> CHR 0x22 # y"
  using escape_special[of c] by (cases "plain c") (auto simp: escape_plain plain_def)

lemma quote_unambiguous: "quote s @ x = quote t @ y \<Longrightarrow> s = t \<and> x = y"
proof (induction s arbitrary: t)
  case Nil
  then show ?case
    using escape_ne_quote by (cases t) (auto simp: quote_def, metis)
next
  case (Cons c s)
  then show ?case
  proof (cases t)
    case Nil
    with Cons.prems show ?thesis
      using escape_ne_quote[of c "concat (map escape_char s) @ CHR 0x22 # x" y] by (simp add: quote_def)
  next
    case (Cons d t')
    with Cons.prems have "escape_char c @ concat (map escape_char s) @ CHR 0x22 # x =
        escape_char d @ concat (map escape_char t') @ CHR 0x22 # y"
      by (simp add: quote_def)
    from escape_unambiguous[OF this]
    have "c = d" and "quote s @ x = quote t' @ y" by (simp_all add: quote_def)
    with Cons.IH[of t'] Cons show ?thesis by simp
  qed
qed

section \<open>The canonical text determines the value\<close>

text \<open>
  Lists of texts: if every element is readable before a delimiter, so is the joined list
  before its closing bracket.
\<close>

lemma join_unambiguous:
  assumes "\<And>x y s s'. x \<in> set xs \<Longrightarrow> y \<in> set ys \<Longrightarrow> stop s \<Longrightarrow> stop s' \<Longrightarrow>
             f x @ s = f y @ s' \<Longrightarrow> g x = g y \<and> s = s'"
    and "\<And>x. x \<in> set xs \<union> set ys \<Longrightarrow> f x \<noteq> [] \<and> hd (f x) \<noteq> cl"
    and "\<not> is_digit cl" "cl \<noteq> CHR '',''"
    and "join '','' (map f xs) @ cl # s = join '','' (map f ys) @ cl # s'"
  shows "map g xs = map g ys \<and> s = s'"
  using assms
proof (induction xs arbitrary: ys)
  case Nil
  show ?case
  proof (cases ys)
    case Nil
    with Nil.prems(5) show ?thesis by simp
  next
    case (Cons y ys')
    have "f y \<noteq> [] \<and> hd (f y) \<noteq> cl" using Nil.prems(2)[of y] Cons by simp
    then have "hd (join '','' (map f ys) @ cl # s') \<noteq> cl"
      using Cons by (cases ys') auto
    moreover have "hd (join '','' (map f ys) @ cl # s') = cl"
      using Nil.prems(5) by (simp flip: Nil.prems(5))
    ultimately show ?thesis by simp
  qed
next
  case (Cons x xs)
  have fx: "f x \<noteq> [] \<and> hd (f x) \<noteq> cl" using Cons.prems(2)[of x] by simp
  show ?case
  proof (cases ys)
    case Nil
    with Cons.prems(5) fx show ?thesis by (cases xs; cases "f x") auto
  next
    case (Cons y ys')
    define r where "r zs u = (if zs = [] then cl # u else CHR '','' # join '','' (map f zs) @ cl # u)" for zs u
    have unfold: "join '','' (map f (z # zs)) @ cl # u = f z @ r zs u" for z zs u
      by (cases zs) (simp_all add: r_def)
    have stops: "stop (r zs u)" for zs u
      using Cons.prems(3) by (auto simp: r_def stop_def is_digit_code)
    have "g x = g y \<and> r xs s = r ys' s'"
      using Cons.prems(1)[of x y "r xs s" "r ys' s'"] Cons.prems(5) stops
      unfolding \<open>ys = y # ys'\<close> unfold by simp
    then have gxy: "g x = g y" and r: "r xs s = r ys' s'" by simp_all
    show ?thesis
    proof (cases "xs = [] \<or> ys' = []")
      case True
      with r gxy Cons Cons.prems(4) show ?thesis by (auto simp: r_def split: if_splits)
    next
      case False
      with r have "join '','' (map f xs) @ cl # s = join '','' (map f ys') @ cl # s'"
        by (simp add: r_def)
      then have "map g xs = map g ys' \<and> s = s'"
        by (intro Cons.IH[OF _ _ Cons.prems(3,4)])
          (use Cons.prems(1,2) Cons in \<open>auto\<close>)
      with gxy Cons show ?thesis by simp
    qed
  qed
qed

lemma sort_entries:
  "sort_key fst (map (\<lambda>(k, v). (k, c v)) kvs) = map (\<lambda>(k, v). (k, c v)) (sort_key fst kvs)"
proof (induction kvs)
  case (Cons x kvs)
  have "insort_key fst (case x of (k, v) \<Rightarrow> (k, c v)) (map (\<lambda>(k, v). (k, c v)) ys) =
      map (\<lambda>(k, v). (k, c v)) (insort_key fst x ys)" for ys
    by (induction ys) (auto split: prod.split)
  with Cons show ?case by simp
qed simp

definition entries :: "(string \<times> json) list \<Rightarrow> (string \<times> json) list" where
  "entries kvs = sort_key fst (filter (\<lambda>(k, v). v \<noteq> JUndefined) kvs)"

definition text_of :: "exn + string \<Rightarrow> string" where
  "text_of r = (case r of Inl _ \<Rightarrow> [] | Inr t \<Rightarrow> t)"

definition entry_text :: "(json \<Rightarrow> exn + string) \<Rightarrow> string \<times> json \<Rightarrow> string" where
  "entry_text c = (\<lambda>(k, v). quote k @ '':'' @ text_of (c v))"

lemma set_entries: "set (entries kvs) = {(k, v) \<in> set kvs. v \<noteq> JUndefined}"
  by (auto simp: entries_def)

lemma object_text_eq:
  "object_text (map (\<lambda>(k, v). (k, c v)) (filter (\<lambda>(k, v). v \<noteq> JUndefined) kvs)) = Inr t \<longleftrightarrow>
     (\<forall>(k, v) \<in> set (entries kvs). ok (c v)) \<and>
     t = ''{'' @ join '','' (map (entry_text c) (entries kvs)) @ ''}''"
proof -
  have "map (\<lambda>(k, r). bindr r (\<lambda>t. Inr (quote k @ '':'' @ t))) (map (\<lambda>(k, v). (k, c v)) es) = map Inr ts
      \<longleftrightarrow> (\<forall>(k, v) \<in> set es. ok (c v)) \<and> ts = map (entry_text c) es" for es ts
  proof (induction es arbitrary: ts)
    case (Cons e es)
    then show ?case
      by (cases e; cases ts) (auto simp: entry_text_def text_of_def result_simps ok_iff)
  qed simp
  then show ?thesis
    unfolding object_text_def sort_entries entries_def[symmetric]
    by (auto simp: result_simps sequence_eq_Inr)
qed

lemma norm_entries: "norm (JObj kvs) = JObj (map (\<lambda>(k, v). (k, norm v)) (entries kvs))"
  by (simp add: sort_entries entries_def)

lemma array_text_eq:
  "canonicalize (JArr vs) = Inr t \<longleftrightarrow>
     (\<forall>v \<in> set vs. ok (canonicalize v)) \<and>
     t = ''['' @ join '','' (map (text_of \<circ> canonicalize) vs) @ '']''"
proof -
  have "map canonicalize vs = map Inr ts \<longleftrightarrow>
      (\<forall>v \<in> set vs. ok (canonicalize v)) \<and> ts = map (text_of \<circ> canonicalize) vs" for ts
    by (induction vs arbitrary: ts) (auto simp: Cons_eq_map_conv ok_iff text_of_def)
  then show ?thesis by (auto simp: result_simps sequence_eq_Inr)
qed

lemma object_text_canonicalize:
  "canonicalize (JObj kvs) = Inr t \<longleftrightarrow>
     (\<forall>(k, v) \<in> set (entries kvs). ok (canonicalize v)) \<and>
     t = ''{'' @ join '','' (map (entry_text canonicalize) (entries kvs)) @ ''}''"
  by (simp add: object_text_eq)

text \<open>The first character of a text tells the kind of the value.\<close>

datatype kind = KNull | KTrue | KFalse | KNumber | KString | KArray | KObject

fun kind_of :: "json \<Rightarrow> kind" where
  "kind_of (JBool b) = (if b then KTrue else KFalse)"
| "kind_of (JInt i) = KNumber"
| "kind_of (JStr s) = KString"
| "kind_of (JArr vs) = KArray"
| "kind_of (JObj kvs) = KObject"
| "kind_of v = KNull"

definition first_kind :: "char \<Rightarrow> kind" where
  "first_kind c =
     (if c = CHR ''n'' then KNull else if c = CHR ''t'' then KTrue else if c = CHR ''f'' then KFalse
      else if c = CHR 0x22 then KString else if c = CHR ''['' then KArray
      else if c = CHR ''{'' then KObject else KNumber)"

lemma first_kind_number: "c = CHR ''-'' \<or> is_digit c \<Longrightarrow> first_kind c = KNumber"
  by (auto simp: first_kind_def is_digit_code)

lemma text_hd:
  assumes "canonicalize v = Inr t"
  shows "t \<noteq> [] \<and> first_kind (hd t) = kind_of v \<and> hd t \<noteq> CHR '']'' \<and> hd t \<noteq> CHR ''}''"
proof (cases v)
  case (JInt i)
  with assms decimal_hd[of i] show ?thesis
    by (auto simp: first_kind_number is_digit_code)
next
  case (JArr vs)
  with assms array_text_eq[of vs t] show ?thesis by (simp add: first_kind_def)
next
  case (JObj kvs)
  with assms object_text_canonicalize[of kvs t] show ?thesis by (simp add: first_kind_def)
qed (use assms in \<open>auto simp: first_kind_def quote_def split: if_splits\<close>)

lemma canonicalize_unambiguous:
  assumes "canonicalize a = Inr t" "canonicalize b = Inr u" "stop s" "stop s'" "t @ s = u @ s'"
  shows "norm a = norm b \<and> s = s'"
  using assms
proof (induction a arbitrary: b t u s s')
  case (JArr vs)
  from JArr.prems text_hd[OF JArr.prems(1)] text_hd[OF JArr.prems(2)]
  have "kind_of b = KArray" by (metis hd_append2 kind_of.simps(4))
  then obtain ws where b: "b = JArr ws" by (cases b) (auto split: if_splits)
  let ?f = "text_of \<circ> canonicalize"
  have t: "t = ''['' @ join '','' (map ?f vs) @ '']''" and okv: "\<forall>v \<in> set vs. ok (canonicalize v)"
    using JArr.prems(1) array_text_eq by blast+
  have u: "u = ''['' @ join '','' (map ?f ws) @ '']''" and okw: "\<forall>v \<in> set ws. ok (canonicalize v)"
    using JArr.prems(2) array_text_eq unfolding b by blast+
  have "map norm vs = map norm ws \<and> s = s'"
  proof (rule join_unambiguous[where f = ?f and cl = "CHR '']''"])
    fix x y r r'
    assume *: "x \<in> set vs" "y \<in> set ws" "stop r" "stop r'" "?f x @ r = ?f y @ r'"
    obtain tx ty where "canonicalize x = Inr tx" "canonicalize y = Inr ty"
      using * okv okw by (meson ok_iff)
    with * JArr.IH[OF *(1), of tx y ty r r'] show "norm x = norm y \<and> r = r'"
      by (simp add: text_of_def)
  next
    fix x assume "x \<in> set vs \<union> set ws"
    then obtain tx where "canonicalize x = Inr tx" using okv okw by (auto simp: ok_iff)
    with text_hd[OF this] show "?f x \<noteq> [] \<and> hd (?f x) \<noteq> CHR '']''" by (simp add: text_of_def)
  qed (use JArr.prems(5) in \<open>simp_all add: t u is_digit_code\<close>)
  then show ?case by (simp add: b)
next
  case (JObj kvs)
  from JObj.prems text_hd[OF JObj.prems(1)] text_hd[OF JObj.prems(2)]
  have "kind_of b = KObject" by (metis hd_append2 kind_of.simps(5))
  then obtain lws where b: "b = JObj lws" by (cases b) (auto split: if_splits)
  let ?f = "entry_text canonicalize"
  let ?g = "\<lambda>(k, v). (k, norm v)"
  have t: "t = ''{'' @ join '','' (map ?f (entries kvs)) @ ''}''"
    and okv: "\<forall>(k, v) \<in> set (entries kvs). ok (canonicalize v)"
    using JObj.prems(1) object_text_canonicalize by blast+
  have u: "u = ''{'' @ join '','' (map ?f (entries lws)) @ ''}''"
    and okw: "\<forall>(k, v) \<in> set (entries lws). ok (canonicalize v)"
    using JObj.prems(2) object_text_canonicalize unfolding b by blast+
  have "map ?g (entries kvs) = map ?g (entries lws) \<and> s = s'"
  proof (rule join_unambiguous[where f = ?f and cl = "CHR ''}''"])
    fix x y r r'
    assume *: "x \<in> set (entries kvs)" "y \<in> set (entries lws)" "stop r" "stop r'" "?f x @ r = ?f y @ r'"
    obtain k v l w where xy: "x = (k, v)" "y = (l, w)" by (cases x; cases y) auto
    obtain tv tw where tvw: "canonicalize v = Inr tv" "canonicalize w = Inr tw"
      using * okv okw xy by (metis (mono_tags, lifting) case_prodD ok_iff)
    from *(5) have "quote k @ '':'' @ tv @ r = quote l @ '':'' @ tw @ r'"
      by (simp add: xy entry_text_def tvw text_of_def)
    from quote_unambiguous[OF this] have "k = l" "tv @ r = tw @ r'" by simp_all
    moreover have "(k, v) \<in> set kvs" using *(1) by (simp add: xy set_entries)
    ultimately show "?g x = ?g y \<and> r = r'"
      using JObj.IH[of "(k, v)" v tv w tw r r'] tvw *(3,4) by (simp add: xy)
  next
    fix x assume "x \<in> set (entries kvs) \<union> set (entries lws)"
    show "?f x \<noteq> [] \<and> hd (?f x) \<noteq> CHR ''}''" by (cases x) (simp add: entry_text_def quote_def)
  qed (use JObj.prems(5) in \<open>simp_all add: t u is_digit_code\<close>)
  then show ?case by (simp add: b norm_entries del: norm.simps)
next
  case (JInt i)
  from JInt.prems text_hd[OF JInt.prems(1)] text_hd[OF JInt.prems(2)]
  have "kind_of b = KNumber" by (metis hd_append2 kind_of.simps(2))
  then obtain j where "b = JInt j"
    using JInt.prems(2) by (cases b) (auto split: if_splits)
  then have "decimal i @ s = decimal j @ s'" using JInt.prems by simp
  from decimal_unambiguous[OF this JInt.prems(3,4)] \<open>b = JInt j\<close> show ?case by simp
next
  case (JStr x)
  from JStr.prems text_hd[OF JStr.prems(1)] text_hd[OF JStr.prems(2)]
  have "kind_of b = KString" by (metis hd_append2 kind_of.simps(3))
  then obtain y where "b = JStr y" by (cases b) (auto split: if_splits)
  then have "quote x @ s = quote y @ s'" using JStr.prems by simp
  from quote_unambiguous[OF this] \<open>b = JStr y\<close> show ?case by simp
next
  case (JBool x)
  from JBool.prems text_hd[OF JBool.prems(1)] text_hd[OF JBool.prems(2)]
  have "kind_of b = kind_of (JBool x)" by (metis hd_append2)
  then obtain y where "b = JBool y" "x = y" using JBool.prems(2) by (cases b) (auto split: if_splits)
  with JBool.prems show ?case by simp
next
  case JNull
  from JNull.prems text_hd[OF JNull.prems(1)] text_hd[OF JNull.prems(2)]
  have "kind_of b = kind_of JNull" by (metis hd_append2)
  then have "b = JNull" using JNull.prems(2) by (cases b) (auto split: if_splits)
  with JNull.prems show ?case by simp
qed simp_all

text \<open>Conversely the text is a function of the meaning.\<close>

lemma norm_undefined [simp]: "norm v = JUndefined \<longleftrightarrow> v = JUndefined"
  by (cases v) simp_all

lemma filter_entries [simp]: "filter (\<lambda>(k, v). v \<noteq> JUndefined) (entries kvs) = entries kvs"
  by (rule filter_True) (auto simp: set_entries)

lemma object_text_sort: "object_text (sort_key fst es) = object_text es"
  by (simp add: object_text_def sort_key_id_if_sorted)

lemma canonicalize_object:
  "canonicalize (JObj kvs) = object_text (map (\<lambda>(k, v). (k, canonicalize v)) (entries kvs))"
proof -
  have "object_text (map (\<lambda>(k, v). (k, canonicalize v)) (entries kvs)) =
      object_text (sort_key fst (map (\<lambda>(k, v). (k, canonicalize v)) (filter (\<lambda>(k, v). v \<noteq> JUndefined) kvs)))"
    by (simp add: sort_entries entries_def)
  then show ?thesis by (simp add: object_text_sort)
qed

lemma canonicalize_norm: "canonicalize (norm v) = canonicalize v"
proof (induction v)
  case (JArr vs)
  then show ?case by (simp cong: map_cong)
next
  case (JObj kvs)
  let ?es = "entries kvs"
  have "filter (\<lambda>(k, v). v \<noteq> JUndefined) (map (\<lambda>(k, v). (k, norm v)) ?es) = map (\<lambda>(k, v). (k, norm v)) ?es"
    by (rule filter_True) (auto simp: set_entries)
  then have "canonicalize (norm (JObj kvs)) =
      object_text (map (\<lambda>(k, v). (k, canonicalize v)) (map (\<lambda>(k, v). (k, norm v)) ?es))"
    unfolding norm_entries by simp
  also have "map (\<lambda>(k, v). (k, canonicalize v)) (map (\<lambda>(k, v). (k, norm v)) ?es) =
      map (\<lambda>(k, v). (k, canonicalize v)) ?es"
    using JObj.IH by (fastforce simp: set_entries)
  also have "object_text \<dots> = canonicalize (JObj kvs)" by (rule canonicalize_object [symmetric])
  finally show ?case .
qed simp_all

section \<open>Encodable values, hashes and fields\<close>

lemma ok_bindr_Inr: "ok (bindr m (\<lambda>x. Inr (f x))) = ok m"
  by (cases m) simp_all

lemma object_text_ok: "ok (object_text es) \<longleftrightarrow> (\<forall>(k, r) \<in> set es. ok r)"
proof -
  have "ok (sequence (map (\<lambda>(k, r). bindr r (\<lambda>t. Inr (quote k @ '':'' @ t))) es)) \<longleftrightarrow>
      (\<forall>(k, r) \<in> set es. ok r)" for es :: "(string \<times> (exn + string)) list"
  proof (induction es)
    case (Cons e es)
    then show ?case
      by (cases e; cases "snd e"; cases "sequence (map (\<lambda>(k, r). bindr r (\<lambda>t. Inr (quote k @ '':'' @ t))) es)") auto
  qed simp
  then have "ok (sequence (map (\<lambda>(k, r). bindr r (\<lambda>t. Inr (quote k @ '':'' @ t))) (sort_key fst es))) \<longleftrightarrow>
      (\<forall>(k, r) \<in> set es. ok r)"
    by simp
  then show ?thesis unfolding object_text_def by (simp only: ok_bindr_Inr)
qed

lemma sequence_map_ok: "ok (sequence (map f xs)) \<longleftrightarrow> (\<forall>x \<in> set xs. ok (f x))"
proof (induction xs)
  case (Cons x xs)
  then show ?case by (cases "f x"; cases "sequence (map f xs)") auto
qed simp

lemma encodable_iff: "encodable v \<longleftrightarrow> ok (canonicalize v)"
proof (induction v)
  case (JArr vs)
  then show ?case
    using sequence_map_ok[of canonicalize vs]
    by (cases "sequence (map canonicalize vs)") (auto simp: list_all_iff)
next
  case (JObj kvs)
  then show ?case by (fastforce simp: object_text_ok list_all_iff)
qed auto

lemma canonicalJsonV1_agrees: "canonicalJsonV1 a v = Inr t \<longleftrightarrow> canonicalize v = Inr t"
proof (induction v arbitrary: a t)
  case (JArr vs)
  have "map (canonicalJsonV1 True) vs = map Inr ts \<longleftrightarrow> map canonicalize vs = map Inr ts" for ts
    using JArr.IH by (auto simp: list_eq_iff_nth_eq)
  then show ?case by (simp add: result_simps sequence_eq_Inr)
next
  case (JObj kvs)
  have "(\<forall>(k, v) \<in> set (entries kvs). ok (canonicalJsonV1 False v)) \<longleftrightarrow>
      (\<forall>(k, v) \<in> set (entries kvs). ok (canonicalize v))"
    using JObj.IH by (fastforce simp: set_entries ok_iff)
  moreover have "map (entry_text (canonicalJsonV1 False)) (entries kvs) = map (entry_text canonicalize) (entries kvs)"
    if oks: "\<forall>(k, v) \<in> set (entries kvs). ok (canonicalize v)"
  proof (rule map_cong [OF refl])
    fix e assume e: "e \<in> set (entries kvs)"
    obtain k v where kv: "e = (k, v)" by (cases e)
    with e oks obtain t where "canonicalize v = Inr t" by (auto simp: ok_iff)
    moreover from this e kv have "canonicalJsonV1 False v = Inr t"
      using JObj.IH[of "(k, v)" v False t] by (simp add: set_entries)
    ultimately show "entry_text (canonicalJsonV1 False) e = entry_text canonicalize e"
      by (simp add: kv entry_text_def)
  qed
  ultimately show ?case
    by (simp only: object_text_canonicalize canonicalJsonV1.simps object_text_eq cong: conj_cong)
qed simp_all

text \<open>
  The records of the review state hold only integers, strings, booleans, arrays and objects:
  on their encodings \<open>canonicalHash\<close> does not throw and its value is \<open>chash\<close>.
\<close>

definition chash :: "host \<Rightarrow> json \<Rightarrow> string" where
  "chash E v = sha256_hex E (text_of (canonicalize v))"

lemma canonicalHash_chash: "encodable v \<Longrightarrow> canonicalHash E v = Inr (chash E v)"
  by (auto simp: encodable_iff ok_iff canonicalHash_def chash_def text_of_def)

lemma canonicalize_eq_iff:
  assumes "encodable a" "encodable b"
  shows "canonicalize a = canonicalize b \<longleftrightarrow> norm a = norm b"
proof
  assume eq: "canonicalize a = canonicalize b"
  obtain t where a: "canonicalize a = Inr t" using assms(1) unfolding encodable_iff ok_iff by blast
  with eq have b: "canonicalize b = Inr t" by simp
  from canonicalize_unambiguous[OF a b, of "[]" "[]"] show "norm a = norm b"
    by (simp add: stop_def)
next
  assume "norm a = norm b"
  then have "canonicalize (norm a) = canonicalize (norm b)" by simp
  then show "canonicalize a = canonicalize b" unfolding canonicalize_norm .
qed

lemma chash_norm:
  assumes "norm a = norm b"
  shows "chash E a = chash E b"
proof -
  have "canonicalize a = canonicalize b"
    using arg_cong[OF assms, of canonicalize] by (simp only: canonicalize_norm)
  then show ?thesis by (simp add: chash_def)
qed

definition texts_apart :: "host \<Rightarrow> json \<Rightarrow> json \<Rightarrow> bool" where
  "texts_apart E a b \<longleftrightarrow> hash_apart E (text_of (canonicalize a)) (text_of (canonicalize b))"

lemma chash_eqD:
  assumes "chash E a = chash E b" "texts_apart E a b" "encodable a" "encodable b"
  shows "norm a = norm b"
proof -
  obtain t u where "canonicalize a = Inr t" "canonicalize b = Inr u"
    using assms(3,4) unfolding encodable_iff ok_iff by blast
  with assms have "canonicalize a = canonicalize b"
    by (simp add: chash_def texts_apart_def hash_apart_def text_of_def)
  with assms show ?thesis by (simp add: canonicalize_eq_iff)
qed

text \<open>Fields of an object, undefined ones being absent; equal meanings have equal fields.\<close>

lemma distinct_sort_key: "distinct (map f (sort_key g xs)) \<longleftrightarrow> distinct (map f xs)"
proof (induction xs)
  case (Cons x xs)
  have "distinct (map f (insort_key g x ys)) \<longleftrightarrow> distinct (map f (x # ys))" for ys
    by (induction ys) (auto simp: set_insort_key)
  with Cons show ?case by simp
qed simp

definition present :: "json \<Rightarrow> json option" where
  "present v = (if v = JUndefined then None else Some v)"

lemma present_simps [simp]: "present JUndefined = None" "v \<noteq> JUndefined \<Longrightarrow> present v = Some v"
  by (simp_all add: present_def)

fun obj_field :: "string \<Rightarrow> (string \<times> json) list \<Rightarrow> json option" where
  "obj_field k [] = None"
| "obj_field k ((l, v) # kvs) = (if l = k then present v else obj_field k kvs)"

lemma obj_field_map_of:
  "distinct (map fst kvs) \<Longrightarrow> map_of (filter (\<lambda>(k, v). v \<noteq> JUndefined) kvs) k = obj_field k kvs"
proof (induction kvs)
  case (Cons e kvs)
  have "map_of (filter (\<lambda>(k, v). v \<noteq> JUndefined) kvs) (fst e) = None"
    using Cons.prems by (force simp: map_of_eq_None_iff)
  with Cons show ?case by (cases e) (auto simp: present_def)
qed simp

lemma obj_field_norm:
  assumes "norm (JObj kvs) = norm (JObj lws)" "distinct (map fst kvs)" "distinct (map fst lws)"
  shows "map_option norm (obj_field k kvs) = map_option norm (obj_field k lws)"
proof -
  have "map_of (entries ks) = map_of (filter (\<lambda>(k, v). v \<noteq> JUndefined) ks)"
    if "distinct (map fst ks)" for ks
  proof (rule map_of_inject_set [THEN iffD2])
    show "distinct (map fst (entries ks))"
      using that unfolding entries_def by (simp add: distinct_map_filter distinct_sort_key)
    show "distinct (map fst (filter (\<lambda>(k, v). v \<noteq> JUndefined) ks))"
      using that by (simp add: distinct_map_filter)
  qed (simp add: entries_def)
  moreover have "map_of (map (\<lambda>(k, v). (k, norm v)) es) k = map_option norm (map_of es k)" for es
    by (induction es) auto
  moreover have "map (\<lambda>(k, v). (k, norm v)) (entries kvs) = map (\<lambda>(k, v). (k, norm v)) (entries lws)"
    using assms(1) unfolding norm_entries by simp
  ultimately show ?thesis
    using assms(2,3) obj_field_map_of by metis
qed

text \<open>The domain hash of a value the encoder accepts, as a total function.\<close>

definition dhash :: "host \<Rightarrow> string \<Rightarrow> json \<Rightarrow> string" where
  "dhash E d v = sha256_hex E (domain_text d (text_of (canonicalize v)))"

lemma domainHashV1_dhash:
  assumes "domain_ok d" "encodable v"
  shows "domainHashV1 E d v = Inr (dhash E d v)"
proof -
  obtain t where t: "canonicalize v = Inr t" using assms(2) unfolding encodable_iff ok_iff by blast
  then have "canonicalJsonV1 False v = Inr t" by (simp add: canonicalJsonV1_agrees)
  with t assms(1) show ?thesis by (simp add: domainHashV1_def dhash_def text_of_def)
qed

section \<open>The length of a text\<close>

text \<open>A bound that is cheap to compute: an escaped code unit takes at most six.\<close>

fun text_bound :: "json \<Rightarrow> nat" where
  "text_bound (JStr s) = 2 + 6 * length s"
| "text_bound (JInt i) = 2 + nat \<bar>i\<bar>"
| "text_bound (JArr vs) = 2 + sum_list (map (\<lambda>v. text_bound v + 1) vs)"
| "text_bound (JObj kvs) = 2 + sum_list (map (\<lambda>(k, v). 6 * length k + text_bound v + 4) kvs)"
| "text_bound v = 5"

lemma quote_length: "length (quote s) \<le> 2 + 6 * length s"
proof -
  have "length (escape_char c) \<le> 6" for c by (simp add: escape_char_def Let_def)
  then have "length (concat (map escape_char s)) \<le> 6 * length s"
    by (induction s) (simp_all, metis add_le_mono)
  then show ?thesis by (simp add: quote_def)
qed

lemma digits_length: "length (digits n) \<le> Suc n"
proof (induction n rule: digits.induct)
  case (1 n)
  show ?case
  proof (cases "n < 10")
    case True
    then show ?thesis by (subst digits.simps) simp
  next
    case False
    then have "length (digits (n div 10)) \<le> Suc (n div 10)" using 1 by simp
    moreover have "digits n = digits (n div 10) @ [char_of (48 + n mod 10)]" using False by (subst digits.simps) simp
    moreover have "n div 10 + 1 \<le> n" using False by linarith
    ultimately show ?thesis by simp
  qed
qed

lemma join_length: "length (join '','' ts) \<le> sum_list (map (\<lambda>t. length t + 1) ts)"
  by (induction "'',''" ts rule: join.induct) simp_all

lemma sum_list_bound: "list_all2 (\<lambda>t v. f t \<le> (g v :: nat)) ts vs \<Longrightarrow> sum_list (map f ts) \<le> sum_list (map g vs)"
  by (induction rule: list_all2_induct) simp_all

lemma sum_list_sort_key: "sum_list (map f (sort_key g xs)) = (sum_list (map f xs) :: nat)"
proof -
  have "sum_list (map f (insort_key g x ys)) = f x + sum_list (map f ys)" for x ys by (induction ys) simp_all
  then show ?thesis by (induction xs) simp_all
qed

lemma canonical_length: "canonicalize v = Inr t \<Longrightarrow> length t \<le> text_bound v"
proof (induction v arbitrary: t rule: canonicalize.induct)
  case (5 i)
  then show ?case using digits_length[of "nat (- i)"] digits_length[of "nat i"] by (auto simp: decimal_def)
next
  case (6 vs)
  then obtain ts where ts: "map canonicalize vs = map Inr ts" "t = ''['' @ join '','' ts @ '']''"
    by (auto simp: result_simps sequence_eq_Inr)
  then have l: "length ts = length vs" by (metis length_map)
  have "length (ts ! i) + 1 \<le> text_bound (vs ! i) + 1" if "i < length vs" for i
  proof -
    have "canonicalize (vs ! i) = Inr (ts ! i)" using ts(1) l that by (metis nth_map)
    with 6(1)[of "vs ! i"] that show ?thesis by simp
  qed
  then have "sum_list (map (\<lambda>t. length t + 1) ts) \<le> sum_list (map (\<lambda>v. text_bound v + 1) vs)"
    using l by (intro sum_list_bound) (simp add: list_all2_conv_all_nth)
  with join_length[of ts] ts(2) show ?case by simp
next
  case (7 kvs)
  let ?es = "filter (\<lambda>(k, v). v \<noteq> JUndefined) kvs"
  let ?cs = "sort_key fst (map (\<lambda>(k, v). (k, canonicalize v)) ?es)"
  let ?w = "\<lambda>(k, r). 6 * length k + (case r of Inl _ \<Rightarrow> 0 | Inr u \<Rightarrow> length u) + (4 :: nat)"
  obtain ts where ts: "map (\<lambda>(k, r). bindr r (\<lambda>t. Inr (quote k @ '':'' @ t))) ?cs = map Inr ts"
      "t = ''{'' @ join '','' ts @ ''}''"
    using 7(2) by (auto simp: object_text_def result_simps sequence_eq_Inr)
  then have l: "length ts = length ?cs" by (metis length_map)
  have "length (ts ! i) + 1 \<le> ?w (?cs ! i)" if "i < length ts" for i
  proof -
    obtain k r where c: "?cs ! i = (k, r)" by fastforce
    have "(\<lambda>(k, r). bindr r (\<lambda>t. Inr (quote k @ '':'' @ t))) (?cs ! i) = Inr (ts ! i)"
      using arg_cong[OF ts(1), of "\<lambda>xs. xs ! i"] l that by simp
    with c obtain u where "r = Inr u" "ts ! i = quote k @ '':'' @ u" by (auto simp: result_simps)
    with c quote_length[of k] show ?thesis by simp
  qed
  then have "sum_list (map (\<lambda>t. length t + 1) ts) \<le> sum_list (map ?w ?cs)"
    using l by (intro sum_list_bound) (simp add: list_all2_conv_all_nth)
  also have "\<dots> = sum_list (map ?w (map (\<lambda>(k, v). (k, canonicalize v)) ?es))"
    by (rule sum_list_sort_key)
  also have "\<dots> \<le> sum_list (map (\<lambda>(k, v). 6 * length k + text_bound v + 4) ?es)"
    unfolding map_map
  proof (rule sum_list_mono)
    fix e assume e: "e \<in> set ?es"
    obtain k v where kv: "e = (k, v)" by fastforce
    have "length u \<le> text_bound v" if "canonicalize v = Inr u" for u using 7(1)[OF e kv[symmetric] that] .
    then show "(?w \<circ> (\<lambda>(k, v). (k, canonicalize v))) e \<le> (case e of (k, v) \<Rightarrow> 6 * length k + text_bound v + 4)"
      using kv by (simp split: sum.splits)
  qed
  also have "\<dots> \<le> sum_list (map (\<lambda>(k, v). 6 * length k + text_bound v + 4) kvs)"
    by (rule sum_list_filter_le_nat)
  finally show ?case using join_length[of ts] ts(2) by simp
qed (auto simp: quote_length[simplified])

text \<open>
  \<open>parseCanonicalJsonV1\<close> reads at most one mebibyte of UTF-8; code units from 128 on take two bytes.
\<close>

definition utf8_length :: "string \<Rightarrow> nat" where
  "utf8_length s = length s + length (filter (\<lambda>c. 128 \<le> (of_char c :: nat)) s)"

definition fits :: "json \<Rightarrow> bool" where
  "fits v \<longleftrightarrow> utf8_length (text_of (canonicalize v)) \<le> 1048576"

lemma fits_bound:
  assumes "encodable v" "text_bound v \<le> 524288"
  shows "fits v"
proof -
  obtain t where t: "canonicalize v = Inr t" using assms(1) unfolding encodable_iff ok_iff by blast
  have "utf8_length t \<le> 2 * length t" using length_filter_le[of _ t] by (simp add: utf8_length_def)
  with canonical_length[OF t] assms(2) t show ?thesis by (simp add: fits_def text_of_def)
qed

section \<open>Properties\<close>

lemma domain_text_inj:
  assumes "domain_ok d" "domain_ok d'" "domain_text d t = domain_text d' t'"
  shows "d = d' \<and> t = t'"
proof -
  have pre: "takeWhile (\<lambda>c. c \<noteq> CHR ''/'') (x @ CHR ''/'' # r) = x" if "domain_ok x" for x r
    using that by (subst takeWhile_append2) (auto simp: domain_ok_def list_all_iff is_digit_code less_eq_char_def)
  from assms(3) have eq: "d @ CHR ''/'' # ''v1'' @ [CHR 0x00] @ t = d' @ CHR ''/'' # ''v1'' @ [CHR 0x00] @ t'"
    by (simp add: domain_text_def)
  from arg_cong[OF eq, of "takeWhile (\<lambda>c. c \<noteq> CHR ''/'')"] have "d = d'"
    by (simp only: pre[OF assms(1)] pre[OF assms(2)])
  with eq show ?thesis by simp
qed

text \<open>
  C31: canonical JSON is a faithful name for a value. Two values the encoder accepts get the same
  text exactly when they are the same value up to the order of object keys and the keys whose
  value is undefined; so the texts that the review code hashes and compares identify the records.
\<close>

theorem canonical_text_determines_value:
  assumes "encodable a" and "encodable b"
  shows "canonicalize a = canonicalize b \<longleftrightarrow> norm a = norm b"
  using assms by (rule canonicalize_eq_iff)

theorem canonical_text_determines_value_witness:
  "canonicalize (JObj [(''b'', JInt 12), (''a'', JStr ''x''), (''c'', JUndefined)]) =
     canonicalize (JObj [(''a'', JStr ''x''), (''b'', JInt 12)]) \<and>
   canonicalize (JArr [JInt 1, JInt 2]) \<noteq> canonicalize (JArr [JInt 12])"
proof -
  have "norm (JObj [(''b'', JInt 12), (''a'', JStr ''x''), (''c'', JUndefined)]) =
      norm (JObj [(''a'', JStr ''x''), (''b'', JInt 12)])"
    by (simp add: less_list_code less_eq_list_code less_char_def less_eq_char_def)
  then show ?thesis
    using canonical_text_determines_value[of "JObj [(''b'', JInt 12), (''a'', JStr ''x''), (''c'', JUndefined)]"
        "JObj [(''a'', JStr ''x''), (''b'', JInt 12)]"]
      canonical_text_determines_value[of "JArr [JInt 1, JInt 2]" "JArr [JInt 12]"]
    by (simp del: canonicalize.simps norm.simps(2))
qed

text \<open>
  a domain hash binds its domain and its value. If two calls of \<open>domainHashV1\<close> return the
  same digest and the digest function does not collide on the two texts it was given, both the
  domains and the values are the same; no value of one domain passes for one of another.
\<close>

theorem domain_hash_binds:
  assumes "domainHashV1 E d a = Inr h" and "domainHashV1 E d' b = Inr h"
    and "hash_apart E (domain_text d (text_of (canonicalize a))) (domain_text d' (text_of (canonicalize b)))"
  shows "d = d' \<and> norm a = norm b"
proof -
  obtain t u where t: "canonicalize a = Inr t" "canonicalize b = Inr u"
    and dom: "domain_ok d" "domain_ok d'"
    and "sha256_hex E (domain_text d t) = h" "sha256_hex E (domain_text d' u) = h"
    using assms(1,2) by (auto simp: domainHashV1_def canonicalJsonV1_agrees result_simps split: if_splits)
  with assms(3) have "domain_text d t = domain_text d' u"
    by (simp add: hash_apart_def text_of_def)
  with domain_text_inj[OF dom] have "d = d'" "t = u" by simp_all
  with t canonicalize_unambiguous[of a t b t "[]" "[]"] show ?thesis by (simp add: stop_def)
qed

theorem domain_hash_binds_witness:
  "\<exists>h. domainHashV1 \<lparr>sha256_hex = \<lambda>s. s, locale_compare = \<lambda>a b. 0\<rparr> ''event'' JNull = Inr h \<and>
     ''event'' = ''event'' \<and> norm JNull = norm JNull"
proof -
  let ?E = "\<lparr>sha256_hex = \<lambda>s. s, locale_compare = \<lambda>a b. 0\<rparr>"
  have h: "domainHashV1 ?E ''event'' JNull = Inr (domain_text ''event'' ''null'')"
    by (simp add: domainHashV1_def domain_ok_def less_eq_char_def)
  from domain_hash_binds[OF h h] h show ?thesis by (auto simp: hash_apart_def)
qed

text \<open>
  \<open>parseCanonicalJsonV1\<close> accepts the canonical texts and nothing else. Where \<open>JSON.parse\<close>
  reads a text of at most \<open>maxBytes\<close> bytes as the value \<open>w\<close>, the text is accepted, with result
  \<open>w\<close>, exactly when it is the canonical text of \<open>w\<close>: whitespace, other key orders and duplicate
  keys are all refused.
\<close>

theorem parse_accepts_exactly_canonical:
  assumes "parse input = Some w" and "safe_integer maxBytes" and "int (length input) \<le> maxBytes"
  shows "parseCanonicalJsonV1 parse input maxBytes = Inr v \<longleftrightarrow> v = w \<and> canonicalize w = Inr input"
proof -
  have "0 \<le> maxBytes" using assms(3) by simp
  with assms show ?thesis
    by (auto simp: parseCanonicalJsonV1_def result_simps canonicalJsonV1_agrees)
qed

theorem parse_accepts_exactly_canonical_witness:
  "parseCanonicalJsonV1 (\<lambda>s. Some (JArr [JInt 7])) ''[7]'' 64 = Inr (JArr [JInt 7]) \<and>
   parseCanonicalJsonV1 (\<lambda>s. Some (JArr [JInt 7])) ''[7 ]'' 64 \<noteq> Inr (JArr [JInt 7])"
proof -
  have d: "canonicalize (JArr [JInt 7]) = Inr ''[7]''"
    by code_simp
  show ?thesis
    using parse_accepts_exactly_canonical[of "\<lambda>s. Some (JArr [JInt 7])" "''[7]''" "JArr [JInt 7]" 64 "JArr [JInt 7]"]
      parse_accepts_exactly_canonical[of "\<lambda>s. Some (JArr [JInt 7])" "''[7 ]''" "JArr [JInt 7]" 64 "JArr [JInt 7]"]
    unfolding d by (simp add: safe_integer_def)
qed

end
