(* ===== verification/ReviewData.thy ===== *)
theory ReviewData
  imports Canonical ReviewTriggers
begin

text \<open>
  The records of \<open>lib/review-transaction.ts\<close> (and the mode, projection and object store of
  \<open>lib/review-snapshot.ts\<close>) and their JSON encodings. Optional properties are options, encoded
  as undefined when absent. Text the code checks at run time against a list of allowed values
  (lens, severity, status, evidence class of a row; outcome of a resolution) stays a string or
  has a constructor for the other values; the enumerations the code sets itself are datatypes.
\<close>

section \<open>Enumerations\<close>

datatype review_mode = ORDINARY | JUDGMENT_DAY

datatype review_phase =
    STARTED | DISCOVERY_COMPLETE | REFUTATION_COMPLETE | FIX_COMPLETE | VALIDATION_COMPLETE
  | FINAL_VERIFICATION | JUDGMENT_COMPLETE | TERMINAL

datatype terminal_outcome = APPROVED | ESCALATED

datatype journal_status = PENDING | COMPLETED

datatype resolution_outcome =
    CORROBORATED | REFUTED | INCONCLUSIVE | VERIFIED | REGRESSION | OTHER_OUTCOME string

datatype resolution_source = CONTROLLER | REFUTER | VALIDATOR | JUDGE

datatype review_operation =
    OP_START | FREEZE_LEDGER | RESOLVE_EVIDENCE | AUTHORIZE_FIX | VALIDATE_FIX | VERIFY | GATE

datatype review_transition =
    ORDINARY_DISCOVERY | ORDINARY_EVIDENCE | ORDINARY_FIX | ORDINARY_NO_FIX | ORDINARY_VALIDATION
  | ORDINARY_FINAL_VERIFICATION | JUDGMENT_DAY_DISCOVERY | JUDGMENT_DAY_FIX | JUDGMENT_DAY_REJUDGMENT
  | JUDGMENT_DAY_FINAL_VERIFICATION

fun mode_text :: "review_mode \<Rightarrow> string" where
  "mode_text ORDINARY = ''ordinary''"
| "mode_text JUDGMENT_DAY = ''judgment-day''"

fun phase_text :: "review_phase \<Rightarrow> string" where
  "phase_text STARTED = ''started''"
| "phase_text DISCOVERY_COMPLETE = ''discovery-complete''"
| "phase_text REFUTATION_COMPLETE = ''refutation-complete''"
| "phase_text FIX_COMPLETE = ''fix-complete''"
| "phase_text VALIDATION_COMPLETE = ''validation-complete''"
| "phase_text FINAL_VERIFICATION = ''final-verification''"
| "phase_text JUDGMENT_COMPLETE = ''judgment-complete''"
| "phase_text TERMINAL = ''terminal''"

fun terminal_text :: "terminal_outcome \<Rightarrow> string" where
  "terminal_text APPROVED = ''approved''"
| "terminal_text ESCALATED = ''escalated''"

fun status_text :: "journal_status \<Rightarrow> string" where
  "status_text PENDING = ''pending''"
| "status_text COMPLETED = ''completed''"

fun outcome_text :: "resolution_outcome \<Rightarrow> string" where
  "outcome_text CORROBORATED = ''corroborated''"
| "outcome_text REFUTED = ''refuted''"
| "outcome_text INCONCLUSIVE = ''inconclusive''"
| "outcome_text VERIFIED = ''verified''"
| "outcome_text REGRESSION = ''regression''"
| "outcome_text (OTHER_OUTCOME s) = s"

fun source_text :: "resolution_source \<Rightarrow> string" where
  "source_text CONTROLLER = ''controller''"
| "source_text REFUTER = ''refuter''"
| "source_text VALIDATOR = ''validator''"
| "source_text JUDGE = ''judge''"

fun operation_text :: "review_operation \<Rightarrow> string" where
  "operation_text OP_START = ''start''"
| "operation_text FREEZE_LEDGER = ''freeze-ledger''"
| "operation_text RESOLVE_EVIDENCE = ''resolve-evidence''"
| "operation_text AUTHORIZE_FIX = ''authorize-fix''"
| "operation_text VALIDATE_FIX = ''validate-fix''"
| "operation_text VERIFY = ''verify''"
| "operation_text GATE = ''gate''"

fun transition_text :: "review_transition \<Rightarrow> string" where
  "transition_text ORDINARY_DISCOVERY = ''ordinary-discovery''"
| "transition_text ORDINARY_EVIDENCE = ''ordinary-evidence''"
| "transition_text ORDINARY_FIX = ''ordinary-fix''"
| "transition_text ORDINARY_NO_FIX = ''ordinary-no-fix''"
| "transition_text ORDINARY_VALIDATION = ''ordinary-validation''"
| "transition_text ORDINARY_FINAL_VERIFICATION = ''ordinary-final-verification''"
| "transition_text JUDGMENT_DAY_DISCOVERY = ''judgment-day-discovery''"
| "transition_text JUDGMENT_DAY_FIX = ''judgment-day-fix''"
| "transition_text JUDGMENT_DAY_REJUDGMENT = ''judgment-day-rejudgment''"
| "transition_text JUDGMENT_DAY_FINAL_VERIFICATION = ''judgment-day-final-verification''"

section \<open>Counters\<close>

text \<open>\<open>ReviewBudgetV1\<close> and \<open>ReviewCountersV1\<close> have the same eight keys; the code indexes them by key.\<close>

datatype counter_key =
    review_batches | review_actors | refuter_batches | fix_batches | validator_runs
  | final_verifications | judgment_rounds | judge_runs

type_synonym review_counters = "counter_key \<Rightarrow> int"

definition COUNTER_KEYS :: "counter_key list" where
  "COUNTER_KEYS = [review_batches, review_actors, refuter_batches, fix_batches, validator_runs,
                   final_verifications, judgment_rounds, judge_runs]"

fun key_text :: "counter_key \<Rightarrow> string" where
  "key_text review_batches = ''review_batches''"
| "key_text review_actors = ''review_actors''"
| "key_text refuter_batches = ''refuter_batches''"
| "key_text fix_batches = ''fix_batches''"
| "key_text validator_runs = ''validator_runs''"
| "key_text final_verifications = ''final_verifications''"
| "key_text judgment_rounds = ''judgment_rounds''"
| "key_text judge_runs = ''judge_runs''"

lemma COUNTER_KEYS_all: "k \<in> set COUNTER_KEYS"
  by (cases k) (simp_all add: COUNTER_KEYS_def)

definition zeroCounters :: review_counters where
  "zeroCounters = (\<lambda>_. 0)"

section \<open>Records\<close>

record frozen_row =
  row_id :: string
  row_lens :: string
  location :: string
  severity :: string
  status_at_freeze :: string
  evidence_class :: string
  evidence_claim :: string

record frozen_ledger =
  ledger_schema :: string
  rows :: "frozen_row list"
  frozen_ledger_hash :: string

record journal_entry =
  operation :: review_operation
  idempotency_key :: string
  request_hash :: string
  status :: journal_status
  authorization :: "json option"
  canonical_result :: "json option"

record finding_resolution =
  res_id :: string
  outcome :: resolution_outcome
  source :: resolution_source

record fix_batch =
  candidate_tree :: string
  fixed_ids :: "string list"
  fix_diff :: string
  fix_diff_hash :: string
  changed_paths :: "string list option"

record follow_up =
  follow_id :: string
  follow_location :: string
  follow_summary :: string
  follow_hash :: string

record regression_row =
  finding_id :: string
  regression_hash :: string
  regression_passed :: bool

record validation_proof =
  acceptance_passed :: bool
  acceptance_hash :: string
  correction_regressions :: "regression_row list"
  original_criterion_regressions :: "string list"
  follow_ups :: "follow_up list"

record child_claim =
  claim_parent :: string
  claim_tree :: string
  claim_lineage :: string
  claim_budget :: review_counters

datatype projection = COMPLETE | INTENDED_COMMIT string

record snapshot_store =
  snapshot_directory :: string
  object_directory :: string
  alternate_object_directory :: string
  metadata_path :: string
  sensitivity :: string
  cleanup_trigger :: string
  cleanup_action :: string

record review_state =
  schema :: string
  lineage_id :: string
  parent_lineage_id :: "string option"
  mode :: review_mode
  revision :: int
  phase :: review_phase
  base_tree :: string
  complete_snapshot_tree :: string
  review_projection :: projection
  initial_review_tree :: string
  genesis_paths :: "string list option"
  snapshot_object_store :: "snapshot_store option"
  current_candidate_tree :: string
  final_candidate_tree :: "string option"
  route :: review_route
  lenses :: "review_lens list"
  policy_hash :: string
  ledger :: "frozen_ledger option"
  evidence_hash :: string
  budget :: review_counters
  counters :: review_counters
  resolutions :: "finding_resolution list option"
  fix_record :: "fix_batch option"
  validation_evidence :: "validation_proof option"
  active_finding_ids :: "string list option"
  escalation_reasons :: "string list option"
  child_claims :: "child_claim list option"
  request_journal :: "journal_entry list"
  terminal_state :: "terminal_outcome option"

text \<open>\<open>x ?? []\<close>\<close>

definition or_empty :: "'a list option \<Rightarrow> 'a list" where
  "or_empty opt = (case opt of None \<Rightarrow> [] | Some xs \<Rightarrow> xs)"

lemma or_empty_simps [simp]: "or_empty None = []" "or_empty (Some xs) = xs"
  by (simp_all add: or_empty_def)

section \<open>Encodings\<close>

definition enc_opt :: "('a \<Rightarrow> json) \<Rightarrow> 'a option \<Rightarrow> json" where
  "enc_opt f opt = (case opt of None \<Rightarrow> JUndefined | Some x \<Rightarrow> f x)"

definition enc_list :: "('a \<Rightarrow> json) \<Rightarrow> 'a list \<Rightarrow> json" where
  "enc_list f xs = JArr (map f xs)"

definition enc_strings :: "string list \<Rightarrow> json" where
  "enc_strings = enc_list JStr"

definition enc_lenses :: "review_lens list \<Rightarrow> json" where
  "enc_lenses = enc_list (\<lambda>l. JStr (lens_text l))"

definition enc_counters :: "review_counters \<Rightarrow> json" where
  "enc_counters c = JObj (map (\<lambda>k. (key_text k, JInt (c k))) COUNTER_KEYS)"

definition enc_row :: "frozen_row \<Rightarrow> json" where
  "enc_row r = JObj [(''id'', JStr (row_id r)), (''lens'', JStr (row_lens r)), (''location'', JStr (location r)),
     (''severity'', JStr (severity r)), (''status_at_freeze'', JStr (status_at_freeze r)),
     (''evidence_class'', JStr (evidence_class r)), (''evidence_claim'', JStr (evidence_claim r))]"

definition enc_rows :: "frozen_row list \<Rightarrow> json" where
  "enc_rows = enc_list enc_row"

definition enc_ledger :: "frozen_ledger \<Rightarrow> json" where
  "enc_ledger l = JObj [(''schema'', JStr (ledger_schema l)), (''rows'', enc_rows (rows l)),
     (''frozen_ledger_hash'', JStr (frozen_ledger_hash l))]"

definition enc_journal_entry :: "journal_entry \<Rightarrow> json" where
  "enc_journal_entry e = JObj [(''operation'', JStr (operation_text (operation e))),
     (''idempotency_key'', JStr (idempotency_key e)), (''request_hash'', JStr (request_hash e)),
     (''status'', JStr (status_text (status e))), (''authorization'', enc_opt id (authorization e)),
     (''canonical_result'', enc_opt id (canonical_result e))]"

definition enc_resolution :: "finding_resolution \<Rightarrow> json" where
  "enc_resolution r = JObj [(''id'', JStr (res_id r)), (''outcome'', JStr (outcome_text (outcome r))),
     (''source'', JStr (source_text (source r)))]"

definition enc_fix :: "fix_batch \<Rightarrow> json" where
  "enc_fix f = JObj [(''candidate_tree'', JStr (candidate_tree f)), (''fixed_ids'', enc_strings (fixed_ids f)),
     (''fix_diff'', JStr (fix_diff f)), (''fix_diff_hash'', JStr (fix_diff_hash f)),
     (''changed_paths'', enc_opt enc_strings (changed_paths f))]"

definition enc_follow_up :: "follow_up \<Rightarrow> json" where
  "enc_follow_up f = JObj [(''id'', JStr (follow_id f)), (''location'', JStr (follow_location f)),
     (''summary'', JStr (follow_summary f)), (''evidence_hash'', JStr (follow_hash f))]"

definition enc_regression :: "regression_row \<Rightarrow> json" where
  "enc_regression r = JObj [(''finding_id'', JStr (finding_id r)), (''evidence_hash'', JStr (regression_hash r)),
     (''passed'', JBool (regression_passed r))]"

definition enc_acceptance :: "bool \<Rightarrow> string \<Rightarrow> json" where
  "enc_acceptance p h = JObj [(''passed'', JBool p), (''evidence_hash'', JStr h)]"

definition enc_proof :: "validation_proof \<Rightarrow> json" where
  "enc_proof v = JObj [(''original_acceptance_tests'', enc_acceptance (acceptance_passed v) (acceptance_hash v)),
     (''correction_regressions'', enc_list enc_regression (correction_regressions v)),
     (''original_criterion_regressions'', enc_strings (original_criterion_regressions v)),
     (''follow_ups'', enc_list enc_follow_up (follow_ups v))]"

definition enc_claim_identity :: "string \<Rightarrow> string \<Rightarrow> json" where
  "enc_claim_identity parent tree = JObj [(''parent_lineage_id'', JStr parent), (''target_tree'', JStr tree)]"

definition enc_claim :: "child_claim \<Rightarrow> json" where
  "enc_claim c = JObj [(''parent_lineage_id'', JStr (claim_parent c)), (''target_tree'', JStr (claim_tree c)),
     (''child_lineage_id'', JStr (claim_lineage c)), (''budget'', enc_counters (claim_budget c))]"

fun enc_projection :: "projection \<Rightarrow> json" where
  "enc_projection COMPLETE = JObj [(''kind'', JStr ''complete'')]"
| "enc_projection (INTENDED_COMMIT t) = JObj [(''kind'', JStr ''intended-commit''), (''tree'', JStr t)]"

definition enc_store :: "snapshot_store \<Rightarrow> json" where
  "enc_store s = JObj [(''snapshot_directory'', JStr (snapshot_directory s)),
     (''object_directory'', JStr (object_directory s)),
     (''alternate_object_directory'', JStr (alternate_object_directory s)),
     (''metadata_path'', JStr (metadata_path s)), (''sensitivity'', JStr (sensitivity s)),
     (''cleanup_trigger'', JStr (cleanup_trigger s)), (''cleanup_action'', JStr (cleanup_action s))]"

definition immutable_fields :: "review_state \<Rightarrow> (string \<times> json) list" where
  "immutable_fields s = [(''schema'', JStr (schema s)), (''lineage_id'', JStr (lineage_id s)),
     (''parent_lineage_id'', enc_opt JStr (parent_lineage_id s)), (''mode'', JStr (mode_text (mode s))),
     (''base_tree'', JStr (base_tree s)), (''complete_snapshot_tree'', JStr (complete_snapshot_tree s)),
     (''review_projection'', enc_projection (review_projection s)),
     (''initial_review_tree'', JStr (initial_review_tree s)),
     (''genesis_paths'', enc_opt enc_strings (genesis_paths s)),
     (''snapshot_object_store'', enc_opt enc_store (snapshot_object_store s)),
     (''route'', JStr (route_text (route s))), (''lenses'', enc_lenses (lenses s)),
     (''policy_hash'', JStr (policy_hash s)), (''budget'', enc_counters (budget s))]"

definition terminal_fields :: "review_state \<Rightarrow> (string \<times> json) list" where
  "terminal_fields s = [(''phase'', JStr (phase_text (phase s))),
     (''current_candidate_tree'', JStr (current_candidate_tree s)),
     (''final_candidate_tree'', enc_opt JStr (final_candidate_tree s)),
     (''frozen_ledger'', enc_opt enc_ledger (ledger s)), (''evidence_hash'', JStr (evidence_hash s)),
     (''counters'', enc_counters (counters s)),
     (''resolutions'', enc_opt (enc_list enc_resolution) (resolutions s)),
     (''fix_record'', enc_opt enc_fix (fix_record s)),
     (''active_finding_ids'', enc_opt enc_strings (active_finding_ids s)),
     (''escalation_reasons'', enc_opt enc_strings (escalation_reasons s)),
     (''terminal_state'', enc_opt (\<lambda>t. JStr (terminal_text t)) (terminal_state s))]"

definition enc_state :: "review_state \<Rightarrow> json" where
  "enc_state s = JObj (immutable_fields s @ terminal_fields s @
     [(''revision'', JInt (revision s)),
      (''validation_evidence'', enc_opt enc_proof (validation_evidence s)),
      (''child_claims'', enc_opt (enc_list enc_claim) (child_claims s)),
      (''request_journal'', enc_list enc_journal_entry (request_journal s))])"

section \<open>Encodings are encodable and injective\<close>

named_theorems enc_defs \<open>definitions of the encodings\<close>

lemmas [enc_defs] = enc_counters_def enc_row_def enc_ledger_def enc_resolution_def enc_fix_def
  enc_follow_up_def enc_regression_def enc_acceptance_def enc_proof_def enc_claim_identity_def
  enc_claim_def enc_store_def

text \<open>
  An encoding \<open>f\<close> is faithful when it never is undefined, always is encodable, and determines
  its argument by meaning.
\<close>

definition faithful :: "('a \<Rightarrow> json) \<Rightarrow> bool" where
  "faithful f \<longleftrightarrow> (\<forall>x. f x \<noteq> JUndefined \<and> encodable (f x)) \<and> (\<forall>x y. norm (f x) = norm (f y) \<longrightarrow> x = y)"

lemma faithfulD:
  assumes "faithful f"
  shows "f x \<noteq> JUndefined" "encodable (f x)" "norm (f x) = norm (f y) \<longleftrightarrow> x = y"
  using assms by (auto simp: faithful_def)

lemma faithful_str: "faithful JStr"
  by (simp add: faithful_def)

lemma faithful_text: "inj f \<Longrightarrow> faithful (\<lambda>x. JStr (f x))"
  by (auto simp: faithful_def inj_def)

lemma faithful_list:
  assumes "faithful f"
  shows "faithful (enc_list f)"
proof -
  have "xs = ys" if "norm (enc_list f xs) = norm (enc_list f ys)" for xs ys
  proof (rule map_injective)
    show "map (\<lambda>x. norm (f x)) xs = map (\<lambda>x. norm (f x)) ys"
      using that by (simp add: enc_list_def comp_def)
    show "inj (\<lambda>x. norm (f x))"
      using faithfulD(3)[OF assms] by (simp add: inj_def)
  qed
  moreover have "enc_list f xs \<noteq> JUndefined \<and> encodable (enc_list f xs)" for xs
    using faithfulD(2)[OF assms] by (simp add: enc_list_def list_all_iff)
  ultimately show ?thesis unfolding faithful_def by blast
qed

lemma faithful_strings: "faithful enc_strings"
  unfolding enc_strings_def by (intro faithful_list faithful_str)

text \<open>Optional fields: present exactly when the option is, with the encoding of its content.\<close>

lemma enc_opt_simps [simp]:
  "enc_opt f None = JUndefined" "enc_opt f (Some x) = f x"
  by (simp_all add: enc_opt_def)

lemma opt_field_eq:
  assumes "faithful f"
    and "map_option norm (present (enc_opt f a)) = map_option norm (present (enc_opt f b))"
  shows "a = b"
  using assms(2) faithfulD[OF assms(1)] by (cases a; cases b) simp_all

lemma faithful_object:
  assumes "\<And>x. distinct (map fst (f x))" "\<And>x. encodable (JObj (f x))"
    and "\<And>x y. (\<And>k. map_option norm (obj_field k (f x)) = map_option norm (obj_field k (f y))) \<Longrightarrow> x = y"
  shows "faithful (\<lambda>x. JObj (f x))"
  using assms obj_field_norm unfolding faithful_def by blast

lemma inj_lens_text: "inj lens_text"
proof (rule injI)
  show "lens_text a = lens_text b \<Longrightarrow> a = b" for a b by (cases a; cases b) simp_all
qed

lemma inj_source_text: "inj source_text"
proof (rule injI)
  show "source_text a = source_text b \<Longrightarrow> a = b" for a b by (cases a; cases b) simp_all
qed

lemma inj_terminal_text: "inj terminal_text"
proof (rule injI)
  show "terminal_text a = terminal_text b \<Longrightarrow> a = b" for a b by (cases a; cases b) simp_all
qed

lemma inj_phase_text: "inj phase_text"
proof (rule injI)
  show "phase_text a = phase_text b \<Longrightarrow> a = b" for a b by (cases a; cases b) simp_all
qed

lemma inj_route_text: "inj route_text"
proof (rule injI)
  show "route_text a = route_text b \<Longrightarrow> a = b" for a b by (cases a; cases b) simp_all
qed

lemma inj_mode_text: "inj mode_text"
proof (rule injI)
  show "mode_text a = mode_text b \<Longrightarrow> a = b" for a b by (cases a; cases b) simp_all
qed

lemma faithful_lenses: "faithful enc_lenses"
  unfolding enc_lenses_def by (intro faithful_list faithful_text inj_lens_text)

lemma faithful_counters: "faithful enc_counters"
proof -
  have "faithful (\<lambda>c. JObj (map (\<lambda>k. (key_text k, JInt (c k))) COUNTER_KEYS))"
  proof (rule faithful_object, goal_cases)
    case (3 x y)
    have "x k = y k" for k
      using 3[of "key_text k"] by (cases k) (simp_all add: COUNTER_KEYS_def)
    then show ?case by (rule ext)
  qed (simp_all add: COUNTER_KEYS_def)
  then show ?thesis by (simp add: enc_counters_def [abs_def])
qed

lemma faithful_row: "faithful enc_row"
  unfolding enc_row_def [abs_def]
proof (rule faithful_object, goal_cases)
  case (3 x y)
  from 3[of "''id''"] 3[of "''lens''"] 3[of "''location''"] 3[of "''severity''"]
    3[of "''status_at_freeze''"] 3[of "''evidence_class''"] 3[of "''evidence_claim''"]
  show ?case by simp
qed simp_all

lemma faithful_rows: "faithful enc_rows"
  unfolding enc_rows_def by (intro faithful_list faithful_row)

lemma faithful_ledger: "faithful enc_ledger"
  unfolding enc_ledger_def [abs_def]
proof (rule faithful_object, goal_cases)
  case (3 x y)
  from 3[of "''schema''"] 3[of "''rows''"] 3[of "''frozen_ledger_hash''"]
  show ?case by (simp add: faithfulD[OF faithful_rows])
qed (simp_all add: faithfulD[OF faithful_rows])

lemma faithful_fix: "faithful enc_fix"
  unfolding enc_fix_def [abs_def]
proof (rule faithful_object, goal_cases)
  case (2 x)
  show ?case by (cases "changed_paths x") (simp_all add: faithfulD[OF faithful_strings])
next
  case (3 x y)
  have "changed_paths x = changed_paths y"
    using 3[of "''changed_paths''"] by (intro opt_field_eq[OF faithful_strings]) simp
  with 3[of "''candidate_tree''"] 3[of "''fixed_ids''"] 3[of "''fix_diff''"] 3[of "''fix_diff_hash''"]
  show ?case by (simp add: faithfulD[OF faithful_strings])
qed simp_all

lemma faithful_regression: "faithful enc_regression"
  unfolding enc_regression_def [abs_def]
proof (rule faithful_object, goal_cases)
  case (3 x y)
  from 3[of "''finding_id''"] 3[of "''evidence_hash''"] 3[of "''passed''"] show ?case by simp
qed simp_all

lemma faithful_follow_up: "faithful enc_follow_up"
  unfolding enc_follow_up_def [abs_def]
proof (rule faithful_object, goal_cases)
  case (3 x y)
  from 3[of "''id''"] 3[of "''location''"] 3[of "''summary''"] 3[of "''evidence_hash''"] show ?case by simp
qed simp_all

lemma faithful_store: "faithful enc_store"
  unfolding enc_store_def [abs_def]
proof (rule faithful_object, goal_cases)
  case (3 x y)
  from 3[of "''snapshot_directory''"] 3[of "''object_directory''"] 3[of "''alternate_object_directory''"]
    3[of "''metadata_path''"] 3[of "''sensitivity''"] 3[of "''cleanup_trigger''"] 3[of "''cleanup_action''"]
  show ?case by simp
qed simp_all

lemma faithful_projection: "faithful enc_projection"
  unfolding faithful_def
proof (intro conjI allI impI)
  show "x = y" if "norm (enc_projection x) = norm (enc_projection y)" for x y
  proof -
    define f where "f p = (case p of COMPLETE \<Rightarrow> [(''kind'', JStr ''complete'')]
      | INTENDED_COMMIT t \<Rightarrow> [(''kind'', JStr ''intended-commit''), (''tree'', JStr t)])" for p
    have e: "enc_projection p = JObj (f p)" and d: "distinct (map fst (f p))" for p
      by (cases p; simp add: f_def)+
    have "map_option norm (obj_field k (f x)) = map_option norm (obj_field k (f y))" for k
      using that unfolding e by (rule obj_field_norm) (rule d)+
    from this[of "''kind''"] this[of "''tree''"] show ?thesis by (cases x; cases y) (simp_all add: f_def)
  qed
  show "enc_projection x \<noteq> JUndefined" "encodable (enc_projection x)" for x by (cases x; simp)+
qed

lemma enc_opt_encodable: "faithful f \<Longrightarrow> enc_opt f x = JUndefined \<or> encodable (enc_opt f x)"
  by (cases x) (simp_all add: faithfulD)

text \<open>The immutable binding of a state is determined by the meaning of its encoding.\<close>

lemma immutable_fields_inj:
  assumes "norm (JObj (immutable_fields s)) = norm (JObj (immutable_fields t))"
  shows "schema s = schema t \<and> lineage_id s = lineage_id t \<and> parent_lineage_id s = parent_lineage_id t \<and>
    mode s = mode t \<and> base_tree s = base_tree t \<and> complete_snapshot_tree s = complete_snapshot_tree t \<and>
    review_projection s = review_projection t \<and> initial_review_tree s = initial_review_tree t \<and>
    genesis_paths s = genesis_paths t \<and> snapshot_object_store s = snapshot_object_store t \<and>
    route s = route t \<and> lenses s = lenses t \<and> policy_hash s = policy_hash t \<and> budget s = budget t"
proof -
  have f: "map_option norm (obj_field k (immutable_fields s)) = map_option norm (obj_field k (immutable_fields t))" for k
    using assms by (rule obj_field_norm) (simp_all add: immutable_fields_def)
  note fs = f[unfolded immutable_fields_def]
  have "parent_lineage_id s = parent_lineage_id t"
    using fs[of "''parent_lineage_id''"] by (intro opt_field_eq[OF faithful_str]) simp
  moreover have "genesis_paths s = genesis_paths t"
    using fs[of "''genesis_paths''"] by (intro opt_field_eq[OF faithful_strings]) simp
  moreover have "snapshot_object_store s = snapshot_object_store t"
    using fs[of "''snapshot_object_store''"] by (intro opt_field_eq[OF faithful_store]) simp
  moreover have "review_projection s = review_projection t"
    using fs[of "''review_projection''"] by (simp add: faithfulD[OF faithful_projection])
  moreover have "lenses s = lenses t" "budget s = budget t"
    using fs[of "''lenses''"] fs[of "''budget''"]
    by (simp_all add: faithfulD[OF faithful_lenses] faithfulD[OF faithful_counters])
  moreover have "mode s = mode t" "route s = route t"
    using fs[of "''mode''"] fs[of "''route''"] inj_mode_text inj_route_text by (simp_all add: inj_def)
  ultimately show ?thesis
    using fs[of "''schema''"] fs[of "''lineage_id''"] fs[of "''base_tree''"] fs[of "''complete_snapshot_tree''"]
      fs[of "''initial_review_tree''"] fs[of "''policy_hash''"]
    by simp
qed

end
