(* ===== verification/FrozenLedger.thy ===== *)
theory FrozenLedger
  imports ReviewData
begin

text \<open>
  The frozen ledger of findings (\<open>createFrozenLedger\<close> and \<open>assertFrozenLedgerIntegrity\<close> of
  \<open>lib/review-transaction.ts\<close>): every row is validated and normalised, the rows are sorted by
  \<open>localeCompare\<close> of their identifiers, neighbours with the same identifier are refused, and the
  result is hashed.
\<close>

section \<open>Freezing\<close>

definition LEDGER_SCHEMA :: string where
  "LEDGER_SCHEMA = ''gentle-ai.review-frozen-ledger/v1''"

definition lensValues :: "string list" where
  "lensValues = [''review-risk'', ''review-resilience'', ''review-readability'', ''review-reliability'', ''judgment-day'']"

definition severityValues :: "string list" where
  "severityValues = [''BLOCKER'', ''CRITICAL'', ''WARNING'', ''SUGGESTION'']"

definition statusValues :: "string list" where
  "statusValues = [''open'', ''refuted'', ''info'']"

definition evidenceValues :: "string list" where
  "evidenceValues = [''deterministic'', ''inferential-severe'', ''info'']"

definition SEVERE :: "string \<Rightarrow> bool" where
  "SEVERE s \<longleftrightarrow> s = ''BLOCKER'' \<or> s = ''CRITICAL''"

definition normalize_row :: "frozen_row \<Rightarrow> frozen_row result" where
  "normalize_row row =
     (if trim (row_id row) = [] then Inl (IntegrityError ''Frozen finding ID must be non-empty'')
      else if row_lens row \<notin> set lensValues
        then Inl (IntegrityError (''Unsupported frozen finding lens: '' @ row_lens row))
      else if severity row \<notin> set severityValues
        then Inl (IntegrityError (''Unsupported frozen finding severity: '' @ severity row))
      else if status_at_freeze row \<notin> set statusValues
        then Inl (IntegrityError (''Unsupported frozen finding status: '' @ status_at_freeze row))
      else if evidence_class row \<notin> set evidenceValues
        then Inl (IntegrityError (''Unsupported frozen evidence class: '' @ evidence_class row))
      else if trim (location row) = []
        then Inl (IntegrityError (''Frozen finding '' @ row_id row @ '' requires an exact location''))
      else if trim (evidence_claim row) = []
        then Inl (IntegrityError (''Frozen finding '' @ row_id row @ '' requires a concrete evidence claim''))
      else Inr (row\<lparr>status_at_freeze := (if SEVERE (severity row) then ''open'' else ''info''),
                    evidence_class :=
                      (if SEVERE (severity row)
                       then (if evidence_class row = ''info'' then ''inferential-severe'' else evidence_class row)
                       else ''info'')\<rparr>))"

fun duplicate_neighbour :: "frozen_row list \<Rightarrow> string option" where
  "duplicate_neighbour (a # b # rs) =
     (if row_id a = row_id b then Some (row_id b) else duplicate_neighbour (b # rs))"
| "duplicate_neighbour rs = None"

definition row_compare :: "host \<Rightarrow> frozen_row \<Rightarrow> frozen_row \<Rightarrow> int" where
  "row_compare E left right = locale_compare E (row_id left) (row_id right)"

definition createFrozenLedger :: "host \<Rightarrow> frozen_row list \<Rightarrow> frozen_ledger result" where
  "createFrozenLedger E input =
     bindr (sequence (map normalize_row input)) (\<lambda>normalizedRows.
       let canonicalRows = sort_by (row_compare E) normalizedRows in
       case duplicate_neighbour canonicalRows of
         Some i \<Rightarrow> Inl (IntegrityError (''Duplicate frozen finding ID: '' @ i))
       | None \<Rightarrow> Inr \<lparr>ledger_schema = LEDGER_SCHEMA, rows = canonicalRows,
                       frozen_ledger_hash = chash E (enc_rows canonicalRows)\<rparr>)"

definition assertFrozenLedgerIntegrity :: "host \<Rightarrow> frozen_ledger \<Rightarrow> unit result" where
  "assertFrozenLedgerIntegrity E l =
     (if ledger_schema l \<noteq> LEDGER_SCHEMA then Inl (IntegrityError ''Unknown frozen ledger schema'')
      else bindr (createFrozenLedger E (rows l)) (\<lambda>rebuilt.
        if canonicalize (enc_rows (rows rebuilt)) \<noteq> canonicalize (enc_rows (rows l))
          then Inl (IntegrityError ''Frozen ledger rows are not in canonical ID order'')
        else if frozen_ledger_hash rebuilt \<noteq> frozen_ledger_hash l
          then Inl (IntegrityError ''Frozen ledger hash mismatch'')
        else Inr ()))"

section \<open>Laws\<close>

definition row_ok :: "frozen_row \<Rightarrow> bool" where
  "row_ok r \<longleftrightarrow> normalize_row r = Inr r"

definition valid_row :: "frozen_row \<Rightarrow> bool" where
  "valid_row r \<longleftrightarrow> trim (row_id r) \<noteq> [] \<and> row_lens r \<in> set lensValues \<and> severity r \<in> set severityValues \<and>
     status_at_freeze r \<in> set statusValues \<and> evidence_class r \<in> set evidenceValues \<and>
     trim (location r) \<noteq> [] \<and> trim (evidence_claim r) \<noteq> []"

definition normal_row :: "frozen_row \<Rightarrow> frozen_row" where
  "normal_row r = r\<lparr>status_at_freeze := (if SEVERE (severity r) then ''open'' else ''info''),
     evidence_class := (if SEVERE (severity r)
                        then (if evidence_class r = ''info'' then ''inferential-severe'' else evidence_class r)
                        else ''info'')\<rparr>"

lemma normalize_row_eq: "normalize_row r = Inr r' \<longleftrightarrow> valid_row r \<and> r' = normal_row r"
  unfolding normalize_row_def valid_row_def normal_row_def if_Inl_eq_Inr by auto

lemma normal_row_simps [simp]:
  "row_id (normal_row r) = row_id r" "row_lens (normal_row r) = row_lens r"
  "severity (normal_row r) = severity r" "location (normal_row r) = location r"
  "evidence_claim (normal_row r) = evidence_claim r" "normal_row (normal_row r) = normal_row r"
  by (simp_all add: normal_row_def)

lemma valid_normal_row: "valid_row r \<Longrightarrow> valid_row (normal_row r)"
  unfolding valid_row_def normal_row_simps
  by (auto simp: normal_row_def statusValues_def evidenceValues_def)

lemma row_ok_eq: "row_ok r \<longleftrightarrow> valid_row r \<and> r = normal_row r"
  by (simp add: row_ok_def normalize_row_eq)

lemma normalize_row_ok: "normalize_row r = Inr r' \<Longrightarrow> row_ok r'"
  by (simp add: normalize_row_eq row_ok_eq valid_normal_row)

lemma normalize_row_id:
  "normalize_row r = Inr r' \<Longrightarrow> row_id r' = row_id r \<and> row_lens r' = row_lens r \<and> severity r' = severity r"
  by (simp add: normalize_row_eq)

text \<open>An open row of a ledger is a severe one, and its evidence is deterministic or inferential.\<close>

lemma row_ok_open:
  assumes "row_ok r"
  shows "(status_at_freeze r = ''open'') = SEVERE (severity r)"
proof -
  have "status_at_freeze r = status_at_freeze (normal_row r)"
    using assms unfolding row_ok_eq by (metis)
  then show ?thesis by (simp add: normal_row_def)
qed

lemma row_ok_evidence:
  assumes "row_ok r" "SEVERE (severity r)"
  shows "evidence_class r = ''deterministic'' \<or> evidence_class r = ''inferential-severe''"
proof -
  have "evidence_class r = evidence_class (normal_row r)" and v: "valid_row r"
    using assms(1) unfolding row_ok_eq by metis+
  then have "evidence_class r \<noteq> ''info''"
    using assms(2) by (auto simp: normal_row_def)
  with v show ?thesis by (auto simp: valid_row_def evidenceValues_def)
qed

lemma sequence_row_ok: "\<forall>r \<in> set rs. row_ok r \<Longrightarrow> sequence (map normalize_row rs) = Inr rs"
  by (simp add: sequence_eq_Inr row_ok_def)

lemma createFrozenLedger_rows:
  assumes "createFrozenLedger E input = Inr l"
  shows "ledger_schema l = LEDGER_SCHEMA" "\<forall>r \<in> set (rows l). row_ok r"
    "frozen_ledger_hash l = chash E (enc_rows (rows l))" "duplicate_neighbour (rows l) = None"
    "\<exists>rs. map normalize_row input = map Inr rs \<and> rows l = sort_by (row_compare E) rs"
proof -
  obtain rs where rs: "map normalize_row input = map Inr rs" "rows l = sort_by (row_compare E) rs"
    "ledger_schema l = LEDGER_SCHEMA" "frozen_ledger_hash l = chash E (enc_rows (rows l))"
    "duplicate_neighbour (rows l) = None"
    using assms by (auto simp: createFrozenLedger_def result_simps sequence_eq_Inr Let_def split: option.splits)
  have "row_ok r" if "r \<in> set rs" for r
  proof -
    from that have "Inr r \<in> set (map normalize_row input)" unfolding rs(1) by simp
    then show ?thesis using normalize_row_ok by auto
  qed
  with rs show "ledger_schema l = LEDGER_SCHEMA" "\<forall>r \<in> set (rows l). row_ok r"
    "frozen_ledger_hash l = chash E (enc_rows (rows l))" "duplicate_neighbour (rows l) = None"
    "\<exists>rs. map normalize_row input = map Inr rs \<and> rows l = sort_by (row_compare E) rs"
    by auto
qed

lemma row_comparator: "collation E \<Longrightarrow> comparator (row_compare E)"
  unfolding row_compare_def [abs_def] by (rule collation_comparator)

lemma ledger_sorted:
  "collation E \<Longrightarrow> createFrozenLedger E input = Inr l \<Longrightarrow> sorted_by (row_compare E) (rows l)"
  using createFrozenLedger_rows(5) row_comparator sorted_sort_by by metis

lemma refreeze:
  assumes "collation E" "createFrozenLedger E input = Inr l"
  shows "createFrozenLedger E (rows l) = Inr l"
proof -
  note l = createFrozenLedger_rows[OF assms(2)]
  have "sequence (map normalize_row (rows l)) = Inr (rows l)" by (rule sequence_row_ok) (rule l(2))
  then show ?thesis
    using l sort_by_idem[OF ledger_sorted[OF assms]] by (simp add: createFrozenLedger_def Let_def)
qed

text \<open>
  Identifiers are told apart by the neighbour test when the comparator separates different ones:
  equal identifiers then end up next to each other.
\<close>

definition separates :: "host \<Rightarrow> string set \<Rightarrow> bool" where
  "separates E ids \<longleftrightarrow> (\<forall>a \<in> ids. \<forall>b \<in> ids. locale_compare E a b = 0 \<longrightarrow> a = b)"

lemma collation_antisym:
  "collation E \<Longrightarrow> locale_compare E a b \<le> 0 \<Longrightarrow> locale_compare E b a \<le> 0 \<Longrightarrow> locale_compare E a b = 0"
  unfolding collation_def by (metis order_antisym)

lemma sorted_no_neighbour_distinct:
  assumes "collation E" "separates E (row_id ` set rs)" "sorted_by (row_compare E) rs"
    "duplicate_neighbour rs = None"
  shows "distinct (map row_id rs)"
  using assms(2-)
proof (induction rs rule: duplicate_neighbour.induct)
  case (1 a b rs)
  have sub: "separates E (row_id ` set (b # rs))" "sorted_by (row_compare E) (b # rs)"
    using "1.prems" by (auto simp: separates_def sorted_by_def)
  with 1 have tail: "distinct (map row_id (b # rs))" by (simp split: if_splits)
  have "row_id a \<noteq> row_id r" if r: "r \<in> set (b # rs)" for r
  proof
    assume eq: "row_id a = row_id r"
    have ab: "locale_compare E (row_id a) (row_id b) \<le> 0"
      using "1.prems"(2) by (simp add: sorted_by_def row_compare_def)
    have "locale_compare E (row_id b) (row_id r) \<le> 0"
    proof (cases "r = b")
      case True
      with assms(1) show ?thesis by (simp add: collation_def)
    next
      case False
      with r sub(2) show ?thesis by (simp add: sorted_by_def row_compare_def)
    qed
    with ab have "locale_compare E (row_id a) (row_id b) = 0"
      unfolding eq by (rule_tac collation_antisym[OF assms(1)])
    moreover have "row_id a \<in> row_id ` set (a # b # rs)" "row_id b \<in> row_id ` set (a # b # rs)"
      by simp_all
    ultimately have "row_id a = row_id b"
      using "1.prems"(1) unfolding separates_def by blast
    with "1.prems"(3) show False by simp
  qed
  with tail show ?case by auto
qed simp_all

lemma createFrozenLedger_set_ids:
  assumes "createFrozenLedger E input = Inr l"
  shows "row_id ` set (rows l) = row_id ` set input"
proof -
  obtain rs where rs: "map normalize_row input = map Inr rs" "rows l = sort_by (row_compare E) rs"
    using createFrozenLedger_rows(5)[OF assms] by blast
  have "map row_id input = map row_id rs"
    using rs(1) by (induction input arbitrary: rs) (auto simp: Cons_eq_map_conv dest: normalize_row_id)
  then show ?thesis using rs(2) by (metis list.set_map set_sort_by)
qed

lemma ledger_distinct:
  assumes "collation E" "separates E (row_id ` set input)" "createFrozenLedger E input = Inr l"
  shows "distinct (map row_id (rows l))"
  using assms createFrozenLedger_rows(4)[OF assms(3)]
  by (intro sorted_no_neighbour_distinct[OF assms(1)])
    (simp_all add: createFrozenLedger_set_ids[OF assms(3)] ledger_sorted)

section \<open>Properties\<close>

text \<open>Code-unit order is a collation that separates all strings; it serves the witnesses.\<close>

definition code_unit_host :: host where
  "code_unit_host = \<lparr>sha256_hex = \<lambda>s. replicate 64 (CHR ''0''),
     locale_compare = \<lambda>a b. (if a = b then 0 else if a < b then - 1 else 1)\<rparr>"

lemma code_unit_collation: "collation code_unit_host" "separates code_unit_host ids"
  by (auto simp: collation_def code_unit_host_def separates_def split: if_splits)

definition sample_row :: "string \<Rightarrow> frozen_row" where
  "sample_row i = \<lparr>row_id = i, row_lens = ''review-risk'', location = ''a.ts:1'', severity = ''BLOCKER'',
     status_at_freeze = ''open'', evidence_class = ''deterministic'', evidence_claim = ''overflow''\<rparr>"

lemma sample_row_ok: "trim i \<noteq> [] \<Longrightarrow> normalize_row (sample_row i) = Inr (sample_row i)"
  by (simp add: normalize_row_eq valid_row_def normal_row_def sample_row_def lensValues_def severityValues_def
      statusValues_def evidenceValues_def SEVERE_def trim_def trim_end_def js_space_def)

lemma sample_row_id [simp]: "row_id (sample_row i) = i"
  by (simp add: sample_row_def)

lemma sample_ledger: "\<exists>l. createFrozenLedger code_unit_host [sample_row ''R2'', sample_row ''R1''] = Inr l"
proof -
  have t: "trim ''R2'' \<noteq> []" "trim ''R1'' \<noteq> []" by (simp_all add: trim_def trim_end_def js_space_def)
  have "sequence (map normalize_row [sample_row ''R2'', sample_row ''R1'']) =
      Inr [sample_row ''R2'', sample_row ''R1'']"
    using sample_row_ok[OF t(1)] sample_row_ok[OF t(2)] by simp
  then show ?thesis
    by (cases "row_compare code_unit_host (sample_row ''R2'') (sample_row ''R1'') \<le> 0")
      (simp_all add: createFrozenLedger_def Let_def)
qed

text \<open>
  C29: freezing is stable. A ledger that \<open>createFrozenLedger\<close> returned passes its own integrity check,
  and freezing its rows again gives the same ledger, hash included: the check that every state load
  performs never rejects what discovery published.
\<close>

theorem frozen_ledger_integrity:
  assumes "collation E" and "createFrozenLedger E input = Inr l"
  shows "assertFrozenLedgerIntegrity E l = Inr () \<and> createFrozenLedger E (rows l) = Inr l"
  using refreeze[OF assms] createFrozenLedger_rows(1)[OF assms(2)]
  by (simp add: assertFrozenLedgerIntegrity_def)

theorem frozen_ledger_integrity_witness:
  "\<exists>l. createFrozenLedger code_unit_host [sample_row ''R2'', sample_row ''R1''] = Inr l \<and>
     assertFrozenLedgerIntegrity code_unit_host l = Inr ()"
proof -
  obtain l where l: "createFrozenLedger code_unit_host [sample_row ''R2'', sample_row ''R1''] = Inr l"
    using sample_ledger by blast
  from frozen_ledger_integrity[OF code_unit_collation(1) l] l show ?thesis by blast
qed

text \<open>
  what a frozen ledger holds. Its rows are the given findings and no other, in \<open>localeCompare\<close>
  order; a row is open exactly when its severity is BLOCKER or CRITICAL, an open row carries
  deterministic or inferential evidence; and where the collation separates the identifiers of the
  input, no identifier occurs twice.
\<close>

theorem frozen_ledger_contents:
  assumes "collation E" and "separates E (row_id ` set input)" and "createFrozenLedger E input = Inr l"
  shows "row_id ` set (rows l) = row_id ` set input \<and> length (rows l) = length input \<and>
    distinct (map row_id (rows l)) \<and> sorted_by (row_compare E) (rows l) \<and>
    (\<forall>r \<in> set (rows l). (status_at_freeze r = ''open'') = SEVERE (severity r) \<and>
       (status_at_freeze r = ''open'' \<longrightarrow>
          evidence_class r = ''deterministic'' \<or> evidence_class r = ''inferential-severe''))"
proof -
  note l = createFrozenLedger_rows[OF assms(3)]
  obtain rs where rs: "map normalize_row input = map Inr rs" "rows l = sort_by (row_compare E) rs"
    using l(5) by blast
  from rs have "length (rows l) = length input" by (metis length_map length_sort_by)
  moreover have "\<forall>r \<in> set (rows l). (status_at_freeze r = ''open'') = SEVERE (severity r) \<and>
      (status_at_freeze r = ''open'' \<longrightarrow>
         evidence_class r = ''deterministic'' \<or> evidence_class r = ''inferential-severe'')"
    using l(2) row_ok_open row_ok_evidence by blast
  ultimately show ?thesis
    using createFrozenLedger_set_ids[OF assms(3)] ledger_distinct[OF assms] ledger_sorted[OF assms(1,3)]
    by blast
qed

theorem frozen_ledger_contents_witness:
  "\<exists>l. createFrozenLedger code_unit_host [sample_row ''R2'', sample_row ''R1''] = Inr l \<and>
     length (rows l) = 2 \<and> distinct (map row_id (rows l))"
proof -
  obtain l where l: "createFrozenLedger code_unit_host [sample_row ''R2'', sample_row ''R1''] = Inr l"
    using sample_ledger by blast
  from frozen_ledger_contents[OF code_unit_collation l] l show ?thesis by simp
qed

text \<open>
  A collation that, as the default collation of ICU does, gives control characters no weight:
  \<open>localeCompare\<close> is 0 on identifiers that differ only in them.
\<close>

definition ignoring_host :: host where
  "ignoring_host = code_unit_host\<lparr>locale_compare :=
     \<lambda>a b. locale_compare code_unit_host (filter (\<lambda>c. c \<noteq> CHR 0x01) a) (filter (\<lambda>c. c \<noteq> CHR 0x01) b)\<rparr>"

lemma ignoring_compare:
  "locale_compare ignoring_host a b =
     locale_compare code_unit_host (filter (\<lambda>c. c \<noteq> CHR 0x01) a) (filter (\<lambda>c. c \<noteq> CHR 0x01) b)"
  by (simp add: ignoring_host_def)

lemma ignoring_collation: "collation ignoring_host"
  using code_unit_collation(1) unfolding collation_def ignoring_compare by blast

lemma collation_refl: "collation E \<Longrightarrow> locale_compare E a a = 0"
  by (simp add: collation_def)

lemma collation_tie: "collation E \<Longrightarrow> locale_compare E a b = 0 \<Longrightarrow> locale_compare E b a = 0"
  unfolding collation_def by (metis linorder_le_cases order.antisym order_refl)

lemma sequence_valid: "list_all valid_row rs \<Longrightarrow> sequence (map normalize_row rs) = Inr (map normal_row rs)"
  by (simp add: sequence_eq_Inr normalize_row_eq list_all_iff)

text \<open>Rows that all tie are left in their order by the sort.\<close>

lemma tied_rows_frozen:
  assumes "list_all valid_row [x, y, z]" and "row_id x = row_id z" and "row_id y \<noteq> row_id x"
    and "collation E" and "locale_compare E (row_id x) (row_id y) = 0"
  shows "\<exists>l. createFrozenLedger E [x, y, z] = Inr l \<and> rows l = map normal_row [x, y, z]"
proof -
  have "row_compare E (normal_row x) (normal_row y) = 0" "row_compare E (normal_row y) (normal_row z) = 0"
    using assms(2,5) collation_tie[OF assms(4,5)] by (simp_all add: row_compare_def)
  then have "sort_by (row_compare E) (map normal_row [x, y, z]) = map normal_row [x, y, z]"
    by (simp only: list.map sort_by_simps insert_by.simps if_True order_refl)
  then show ?thesis
    unfolding createFrozenLedger_def sequence_valid[OF assms(1)] bindr_simps Let_def using assms(2,3) by simp
qed

lemma lone_duplicates_refused:
  assumes "list_all valid_row [x, z]" and "row_id x = row_id z" and "collation E"
  shows "createFrozenLedger E [x, z] = Inl (IntegrityError (''Duplicate frozen finding ID: '' @ row_id z))"
proof -
  have "row_compare E (normal_row x) (normal_row z) = 0"
    using assms(2) collation_refl[OF assms(3)] by (simp add: row_compare_def)
  then have "sort_by (row_compare E) (map normal_row [x, z]) = map normal_row [x, z]"
    by (simp only: list.map sort_by_simps insert_by.simps if_True order_refl)
  then show ?thesis
    unfolding createFrozenLedger_def sequence_valid[OF assms(1)] bindr_simps Let_def using assms(2) by simp
qed

lemma sample_row_valid: "trim i \<noteq> [] \<Longrightarrow> valid_row (sample_row i)"
  using sample_row_ok by (simp add: normalize_row_eq)

text \<open>
  C30: the duplicate test of \<open>createFrozenLedger\<close> looks at neighbours after a sort by
  \<open>localeCompare\<close>, and that is enough exactly where the collation separates the identifiers.
  Over any collation and any set of non-blank identifiers, every frozen ledger of findings with
  these identifiers is free of duplicates if and only if no two different identifiers tie. Two
  findings with one identifier are refused when they stand alone; but with a finding between them
  whose different identifier ties, any three valid findings are frozen, duplicate included.
\<close>

theorem frozen_ledger_admits_duplicates:
  assumes "collation E" and "\<forall>a \<in> ids. trim a \<noteq> []"
  shows "((\<forall>input l. row_id ` set input \<subseteq> ids \<longrightarrow> createFrozenLedger E input = Inr l \<longrightarrow> distinct (map row_id (rows l)))
      \<longleftrightarrow> (\<forall>a \<in> ids. \<forall>b \<in> ids. locale_compare E a b = 0 \<longrightarrow> a = b)) \<and>
    (\<forall>x z. valid_row x \<longrightarrow> valid_row z \<longrightarrow> row_id x = row_id z \<longrightarrow>
      createFrozenLedger E [x, z] = Inl (IntegrityError (''Duplicate frozen finding ID: '' @ row_id z))) \<and>
    (\<forall>x y z. valid_row x \<longrightarrow> valid_row y \<longrightarrow> valid_row z \<longrightarrow> row_id x = row_id z \<longrightarrow> row_id y \<noteq> row_id x \<longrightarrow>
      locale_compare E (row_id x) (row_id y) = 0 \<longrightarrow>
      (\<exists>l. createFrozenLedger E [x, y, z] = Inr l \<and> map row_id (rows l) = [row_id x, row_id y, row_id x]))"
proof (intro conjI iffI allI impI ballI)
  fix a b
  assume free: "\<forall>input l. row_id ` set input \<subseteq> ids \<longrightarrow> createFrozenLedger E input = Inr l \<longrightarrow> distinct (map row_id (rows l))"
    and ab: "a \<in> ids" "b \<in> ids" "locale_compare E a b = 0"
  show "a = b"
  proof (rule ccontr)
    assume "a \<noteq> b"
    then obtain l where "createFrozenLedger E [sample_row a, sample_row b, sample_row a] = Inr l"
        "rows l = map normal_row [sample_row a, sample_row b, sample_row a]"
      using tied_rows_frozen[of "sample_row a" "sample_row b" "sample_row a" E] ab assms by (auto simp: sample_row_valid)
    then show False using free[rule_format, of "[sample_row a, sample_row b, sample_row a]" l] ab by simp
  qed
next
  fix input l
  assume "\<forall>a \<in> ids. \<forall>b \<in> ids. locale_compare E a b = 0 \<longrightarrow> a = b" "row_id ` set input \<subseteq> ids" "createFrozenLedger E input = Inr l"
  then show "distinct (map row_id (rows l))"
    by (intro ledger_distinct[OF assms(1)]) (auto simp: separates_def)
next
  fix x y z assume "valid_row x" "valid_row y" "valid_row z" "row_id x = row_id z" "row_id y \<noteq> row_id x"
    "locale_compare E (row_id x) (row_id y) = 0"
  then show "\<exists>l. createFrozenLedger E [x, y, z] = Inr l \<and> map row_id (rows l) = [row_id x, row_id y, row_id x]"
    using tied_rows_frozen[of x y z E] assms(1) by auto
qed (use lone_duplicates_refused assms(1) in simp)

theorem frozen_ledger_admits_duplicates_witness:
  "\<exists>l. createFrozenLedger ignoring_host
         [sample_row ''R1'', sample_row (''R1'' @ [CHR 0x01]), sample_row ''R1''] = Inr l \<and>
       \<not> distinct (map row_id (rows l))"
proof -
  have t: "trim ''R1'' \<noteq> []" "trim (''R1'' @ [CHR 0x01]) \<noteq> []"
    by (simp_all add: trim_def trim_end_def js_space_def)
  have c: "locale_compare ignoring_host ''R1'' (''R1'' @ [CHR 0x01]) = 0"
    by (simp add: ignoring_host_def code_unit_host_def)
  have "\<exists>l. createFrozenLedger ignoring_host
         [sample_row ''R1'', sample_row (''R1'' @ [CHR 0x01]), sample_row ''R1''] = Inr l \<and>
       map row_id (rows l) = [''R1'', ''R1'' @ [CHR 0x01], ''R1'']"
    using frozen_ledger_admits_duplicates[OF ignoring_collation, of "{''R1''}", THEN conjunct2, THEN conjunct2, rule_format,
        OF _ sample_row_valid[OF t(1)] sample_row_valid[OF t(2)] sample_row_valid[OF t(1)], unfolded sample_row_id, OF _ refl _ c] t(1)
    by simp
  then show ?thesis by auto
qed

end
