(* ===== verification/ReviewState.thy ===== *)
theory ReviewState
  imports FrozenLedger
begin

text \<open>
  The integrity of a review state (\<open>assertState\<close>, \<open>assertImmutableState\<close> and the assertions they
  call) and the state a lineage starts in (\<open>createReviewState\<close>), from \<open>lib/review-transaction.ts\<close>.
\<close>

section \<open>Assertions\<close>

definition assertDigest :: "string \<Rightarrow> string \<Rightarrow> unit result" where
  "assertDigest value label = require (DIGEST value) (IntegrityError (label @ '' is not a SHA-256 digest''))"

definition assertObjectId :: "string \<Rightarrow> string \<Rightarrow> unit result" where
  "assertObjectId value label = require (OBJECT_ID value) (IntegrityError (label @ '' is not a resolved object ID''))"

definition assertLineageId :: "string \<Rightarrow> unit result" where
  "assertLineageId value = require (LINEAGE_ID value) (IntegrityError ''Invalid lineage ID'')"

definition assertBudget :: "review_counters \<Rightarrow> unit result" where
  "assertBudget b = for_each (\<lambda>key.
     require (safe_integer (b key) \<and> 0 \<le> b key) (IntegrityError (''Invalid budget counter: '' @ key_text key)))
     COUNTER_KEYS"

definition assertCounters :: "review_counters \<Rightarrow> review_counters \<Rightarrow> review_counters option \<Rightarrow> unit result" where
  "assertCounters c b previous = for_each (\<lambda>key. checks
     [require (safe_integer (c key) \<and> 0 \<le> c key) (IntegrityError (''Invalid review counter: '' @ key_text key)),
      require (c key \<le> b key) (IntegrityError (''Review budget exceeded: '' @ key_text key)),
      (case previous of
         None \<Rightarrow> Inr ()
       | Some p \<Rightarrow> require (p key \<le> c key) (IntegrityError (''Review counter is not monotonic: '' @ key_text key)))])
     COUNTER_KEYS"

fun assertProjectionBinding :: "projection \<Rightarrow> string \<Rightarrow> string \<Rightarrow> unit result" where
  "assertProjectionBinding COMPLETE completeTree initialTree =
     require (initialTree = completeTree)
       (IntegrityError ''Complete projection does not bind the initial review tree'')"
| "assertProjectionBinding (INTENDED_COMMIT tree) completeTree initialTree =
     checks [assertObjectId tree ''intended commit tree'',
       require (tree = initialTree)
         (IntegrityError ''Intended-commit projection does not bind the initial review tree'')]"

definition assertCanonicalPaths :: "string list \<Rightarrow> string \<Rightarrow> unit result" where
  "assertCanonicalPaths paths label =
     checks [require (canonicalize (enc_strings paths) = canonicalize (enc_strings (sorted_uniq paths)))
               (IntegrityError (label @ '' must be unique and sorted'')),
       for_each (\<lambda>path. require
           (path \<noteq> [] \<and> \<not> starts_with ''/'' path \<and>
            \<not> list_ex (\<lambda>part. part = '''' \<or> part = ''.'' \<or> part = ''..'') (split_on (CHR ''/'') path))
           (IntegrityError (label @ '' must be canonical repository-relative paths''))) paths]"

definition assertFollowUp :: "follow_up \<Rightarrow> unit result" where
  "assertFollowUp value =
     checks [require (follow_id value \<noteq> [] \<and> follow_location value \<noteq> [] \<and> follow_summary value \<noteq> [])
               (IntegrityError ''Follow-up requires identity, location, and summary''),
       assertDigest (follow_hash value) ''Follow-up evidence hash'']"

definition follow_compare :: "host \<Rightarrow> follow_up \<Rightarrow> follow_up \<Rightarrow> int" where
  "follow_compare E left right = locale_compare E (follow_id left) (follow_id right)"

definition assertValidationEvidence :: "host \<Rightarrow> validation_proof \<Rightarrow> unit result" where
  "assertValidationEvidence E value =
     checks [assertDigest (acceptance_hash value) ''Original acceptance evidence hash'',
       for_each (\<lambda>regression. assertDigest (regression_hash regression) ''Correction regression evidence hash'')
         (correction_regressions value),
       require (\<not> list_ex (\<lambda>reason. reason = []) (original_criterion_regressions value))
         (IntegrityError ''Original criterion regression evidence is invalid''),
       for_each assertFollowUp (follow_ups value),
       require (canonicalize (enc_list enc_follow_up (follow_ups value)) =
                canonicalize (enc_list enc_follow_up (sort_by (follow_compare E) (follow_ups value))))
         (IntegrityError ''Follow-up evidence must be ID-sorted'')]"

definition assertFixRecord :: "host \<Rightarrow> fix_batch \<Rightarrow> unit result" where
  "assertFixRecord E f =
     checks [assertObjectId (candidate_tree f) ''fix candidate tree'',
       assertDigest (fix_diff_hash f) ''fix diff hash'',
       require (chash E (JStr (fix_diff f)) = fix_diff_hash f) (IntegrityError ''Fix diff hash mismatch'')]"

definition assertActiveIds :: "string list \<Rightarrow> frozen_ledger option \<Rightarrow> unit result" where
  "assertActiveIds ids frozen =
     checks [require (length (uniq ids) = length ids) (IntegrityError ''Active finding IDs must be unique''),
       (case frozen of
          None \<Rightarrow> Inr ()
        | Some l \<Rightarrow> require (\<not> list_ex (\<lambda>i. i \<notin> set (map row_id (rows l))) ids)
            (IntegrityError ''Active finding ID is not frozen''))]"

fun assertClaims :: "host \<Rightarrow> string \<Rightarrow> string list \<Rightarrow> child_claim list \<Rightarrow> unit result" where
  "assertClaims E lineage targets [] = Inr ()"
| "assertClaims E lineage targets (claim # claims) =
     checks [require (claim_parent claim = lineage)
               (IntegrityError ''Child claim parent does not match its authoritative lineage''),
       assertObjectId (claim_tree claim) ''child claim target tree'',
       assertBudget (claim_budget claim),
       require (claim_lineage claim = chash E (enc_claim_identity (claim_parent claim) (claim_tree claim)))
         (IntegrityError ''Child claim identity mismatch''),
       require (claim_tree claim \<notin> set targets)
         (IntegrityError ''Child claim target must be unique per parent lineage''),
       assertClaims E lineage (claim_tree claim # targets) claims]"

fun assertJournal :: "string list \<Rightarrow> nat \<Rightarrow> journal_entry list \<Rightarrow> unit result" where
  "assertJournal journalKeys pendingEntries [] =
     require (pendingEntries \<le> 1) (IntegrityError ''Only one pending operation may exist per lineage'')"
| "assertJournal journalKeys pendingEntries (entry # rest) =
     checks [require (idempotency_key entry \<notin> set journalKeys)
               (IntegrityError ''Request journal idempotency keys must be unique''),
       assertDigest (request_hash entry) ''journal request hash'',
       assertJournal (idempotency_key entry # journalKeys)
         (if status entry = PENDING then Suc pendingEntries else pendingEntries) rest]"

definition opt_check :: "('a \<Rightarrow> unit result) \<Rightarrow> 'a option \<Rightarrow> unit result" where
  "opt_check f x = (case x of None \<Rightarrow> Inr () | Some y \<Rightarrow> f y)"

lemma opt_check_simps [simp]: "opt_check f None = Inr ()" "opt_check f (Some y) = f y"
  by (simp_all add: opt_check_def)

definition assertImmutableState :: "host \<Rightarrow> review_state \<Rightarrow> review_state \<Rightarrow> unit result" where
  "assertImmutableState E previous next =
     checks [require (canonicalize (JObj (immutable_fields previous)) = canonicalize (JObj (immutable_fields next)))
               (IntegrityError ''Immutable review binding changed''),
       (case ledger previous of
          None \<Rightarrow> Inr ()
        | Some p \<Rightarrow>
            require (case ledger next of None \<Rightarrow> False | Some n \<Rightarrow> chash E (enc_ledger p) = chash E (enc_ledger n))
              (IntegrityError ''Frozen review ledger changed after publication'')),
       (case terminal_state previous of
          None \<Rightarrow> Inr ()
        | Some t \<Rightarrow>
            require (canonicalize (JObj (terminal_fields previous)) = canonicalize (JObj (terminal_fields next)))
              (IntegrityError ''Terminal review authority is closed and immutable''))]"

definition STATE_SCHEMA :: string where
  "STATE_SCHEMA = ''gentle-ai.review-state/v1''"

definition assertState :: "host \<Rightarrow> review_state \<Rightarrow> review_state option \<Rightarrow> unit result" where
  "assertState E state previous =
     checks
      [require (schema state = STATE_SCHEMA) (IntegrityError ''Unknown review state schema''),
       assertLineageId (lineage_id state),
       opt_check assertLineageId (parent_lineage_id state),
       require (safe_integer (revision state) \<and> 0 \<le> revision state) (IntegrityError ''Invalid state revision''),
       assertObjectId (base_tree state) ''base tree'',
       assertObjectId (complete_snapshot_tree state) ''complete snapshot tree'',
       assertObjectId (initial_review_tree state) ''initial review tree'',
       assertObjectId (current_candidate_tree state) ''current candidate tree'',
       opt_check (\<lambda>t. assertObjectId t ''final candidate tree'') (final_candidate_tree state),
       assertDigest (policy_hash state) ''policy hash'',
       assertDigest (evidence_hash state) ''evidence hash'',
       assertProjectionBinding (review_projection state) (complete_snapshot_tree state) (initial_review_tree state),
       opt_check (\<lambda>ps. assertCanonicalPaths ps ''Genesis paths'') (genesis_paths state),
       assertBudget (budget state),
       assertCounters (counters state) (budget state) (map_option counters previous),
       opt_check (assertFrozenLedgerIntegrity E) (ledger state),
       opt_check (assertFixRecord E) (fix_record state),
       opt_check (assertValidationEvidence E) (validation_evidence state),
       opt_check (\<lambda>ids. assertActiveIds ids (ledger state)) (active_finding_ids state),
       opt_check (assertClaims E (lineage_id state) []) (child_claims state),
       assertJournal [] 0 (request_journal state),
       require (terminal_state state = None \<or> phase state = TERMINAL)
         (IntegrityError ''Terminal state requires terminal phase''),
       opt_check (\<lambda>p. assertImmutableState E p state) previous]"

section \<open>The start of a lineage\<close>

record snapshot =
  snap_schema :: string
  snap_mode :: review_mode
  snap_base_tree :: string
  snap_complete_tree :: string
  snap_projection :: projection
  snap_initial_tree :: string
  snap_genesis_paths :: "string list option"
  snap_evidence :: diff_evidence
  snap_route :: review_route
  snap_lenses :: "review_lens list"
  snap_policy_hash :: string
  snap_object_store :: snapshot_store

record create_input =
  lineageId :: string
  parentLineageId :: "string option"
  input_mode :: review_mode
  input_snapshot :: snapshot
  evidenceHash :: string
  input_budget :: review_counters

definition derive_route :: "host \<Rightarrow> create_input \<Rightarrow> (review_route \<times> review_lens list) result" where
  "derive_route E input =
     (let snap = input_snapshot input in
      if input_mode input = ORDINARY
      then bindr (classifyReviewRoute (snap_evidence snap)) (\<lambda>derived.
        if plan_route derived \<noteq> snap_route snap \<or>
           chash E (enc_lenses (plan_lenses derived)) \<noteq> chash E (enc_lenses (snap_lenses snap))
        then Inl (IntegrityError ''Review route and lenses were not derived from the snapshot diff'')
        else Inr (plan_route derived, plan_lenses derived))
      else if snap_route snap \<noteq> TRIVIAL \<or> snap_lenses snap \<noteq> []
      then Inl (IntegrityError ''Judgment Day snapshot must not carry ordinary route classification'')
      else Inr (snap_route snap, snap_lenses snap))"

definition initial_state :: "create_input \<Rightarrow> review_route \<Rightarrow> review_lens list \<Rightarrow> review_state" where
  "initial_state input r ls =
     (let snap = input_snapshot input in
      \<lparr>schema = STATE_SCHEMA, lineage_id = lineageId input, parent_lineage_id = parentLineageId input,
       mode = input_mode input, revision = 0, phase = STARTED, base_tree = snap_base_tree snap,
       complete_snapshot_tree = snap_complete_tree snap, review_projection = snap_projection snap,
       initial_review_tree = snap_initial_tree snap, genesis_paths = snap_genesis_paths snap,
       snapshot_object_store = Some (snap_object_store snap),
       current_candidate_tree = snap_initial_tree snap, final_candidate_tree = None,
       route = r, lenses = ls, policy_hash = snap_policy_hash snap, ledger = None,
       evidence_hash = evidenceHash input, budget = input_budget input, counters = zeroCounters,
       resolutions = None, fix_record = None, validation_evidence = None, active_finding_ids = None,
       escalation_reasons = None, child_claims = None, request_journal = [], terminal_state = None\<rparr>)"

definition createReviewState :: "host \<Rightarrow> create_input \<Rightarrow> review_state result" where
  "createReviewState E input =
     (if snap_schema (input_snapshot input) \<noteq> ''gentle-ai.review-snapshot/v1''
      then Inl (IntegrityError ''Unknown review snapshot schema'')
      else if snap_mode (input_snapshot input) \<noteq> input_mode input
      then Inl (IntegrityError ''Review snapshot mode does not match the requested transaction mode'')
      else bindr (derive_route E input) (\<lambda>(r, ls).
        let result = initial_state input r ls in
        bindr (assertState E result None) (\<lambda>_.
          if input_mode input = ORDINARY \<and> genesis_paths result = None
          then Inl (IntegrityError ''New ordinary lineages require immutable genesis paths'')
          else Inr result)))"

lemma createReviewState_initial:
  assumes "createReviewState E input = Inr s"
  shows "\<exists>r ls. derive_route E input = Inr (r, ls) \<and> s = initial_state input r ls \<and>
    assertState E s None = Inr () \<and> (input_mode input = ORDINARY \<longrightarrow> genesis_paths s \<noteq> None)"
  using assms by (auto simp: createReviewState_def result_simps Let_def split: if_splits prod.splits)

lemma derive_route_lenses:
  assumes "derive_route E input = Inr (r, ls)"
  shows "(case r of TRIVIAL \<Rightarrow> ls = [] | STANDARD \<Rightarrow> length ls = 1 | FULL_4R \<Rightarrow> ls = FULL_4R_LENSES)"
  using assms
  by (auto simp: derive_route_def classifyReviewRoute_def result_simps Let_def split: if_splits)

lemma initial_state_simps [simp]:
  "phase (initial_state input r ls) = STARTED" "counters (initial_state input r ls) = zeroCounters"
  "mode (initial_state input r ls) = input_mode input" "budget (initial_state input r ls) = input_budget input"
  "ledger (initial_state input r ls) = None" "terminal_state (initial_state input r ls) = None"
  "resolutions (initial_state input r ls) = None" "escalation_reasons (initial_state input r ls) = None"
  "fix_record (initial_state input r ls) = None" "active_finding_ids (initial_state input r ls) = None"
  "route (initial_state input r ls) = r" "lenses (initial_state input r ls) = ls"
  by (simp_all add: initial_state_def Let_def)

end
