(* ===== verification/OrdinaryPolicy.thy ===== *)
theory OrdinaryPolicy
  imports ReviewState
begin

text \<open>
  The reducers of an ordinary review (\<open>lib/review-policy-ordinary.ts\<close>): discovery, evidence, the
  single fix or its refusal, validation and final verification. A reducer takes the state and
  throws or returns the next state; \<open>cloneState\<close> is the identity on values.
\<close>

section \<open>Inputs\<close>

record finding_input =
  in_id :: string
  in_outcome :: resolution_outcome

record evidence_input =
  deterministicResults :: "finding_input list"
  refuterResults :: "finding_input list option"

record fix_input =
  candidateTree :: string
  fixedIds :: "string list"
  fixDiff :: string
  fixPaths :: "string list option"

record validator_request =
  requested_ids :: "string list"
  frozen_rows :: "frozen_row list"
  request_ledger_hash :: string
  request_proof :: validation_proof

record validation_input =
  request :: validator_request
  results :: "finding_input list"

record final_input =
  passed :: bool
  reason :: "string option"

definition enc_request :: "validator_request \<Rightarrow> json" where
  "enc_request r = JObj [(''requested_ids'', enc_strings (requested_ids r)),
     (''frozen_rows'', enc_rows (frozen_rows r)), (''frozen_ledger_hash'', JStr (request_ledger_hash r)),
     (''original_acceptance_tests'',
        enc_acceptance (acceptance_passed (request_proof r)) (acceptance_hash (request_proof r))),
     (''correction_regressions'', enc_list enc_regression (correction_regressions (request_proof r))),
     (''original_criterion_regressions'', enc_strings (original_criterion_regressions (request_proof r))),
     (''follow_ups'', enc_list enc_follow_up (follow_ups (request_proof r)))]"

section \<open>Guards and helpers\<close>

definition ordinary_budget :: "review_state \<Rightarrow> bool" where
  "ordinary_budget s \<longleftrightarrow>
     budget s review_batches = 1 \<and> budget s review_actors = int (length (lenses s)) \<and>
     budget s refuter_batches \<le> 1 \<and> budget s fix_batches \<le> 1 \<and> budget s validator_runs \<le> 1 \<and>
     budget s final_verifications = 1 \<and> budget s judgment_rounds = 0 \<and> budget s judge_runs = 0"

definition assertOrdinaryBudget :: "review_state \<Rightarrow> unit result" where
  "assertOrdinaryBudget s =
     require (ordinary_budget s) (Error ''Ordinary state has an invalid immutable budget'')"

definition assertOrdinaryMode :: "review_state \<Rightarrow> unit result" where
  "assertOrdinaryMode s =
     checks [require (mode s = ORDINARY) (Error ''Ordinary reducer requires ordinary mode''),
       require (terminal_state s = None \<and> phase s \<noteq> TERMINAL)
         (Error ''Ordinary transaction is already terminal''),
       assertOrdinaryBudget s]"

definition assertRouteBinding :: "host \<Rightarrow> review_state \<Rightarrow> unit result" where
  "assertRouteBinding E s =
     (case route s of
        TRIVIAL \<Rightarrow> require (chash E (enc_lenses (lenses s)) = chash E (enc_lenses []))
          (Error ''Ordinary route and ordered lenses do not match'')
      | STANDARD \<Rightarrow> require (length (lenses s) = 1) (Error ''Standard route requires exactly one lens'')
      | FULL_4R \<Rightarrow> require (chash E (enc_lenses (lenses s)) = chash E (enc_lenses FULL_4R_LENSES))
          (Error ''Ordinary route and ordered lenses do not match''))"

definition severe_open :: "frozen_row \<Rightarrow> bool" where
  "severe_open row \<longleftrightarrow> SEVERE (severity row) \<and> status_at_freeze row = ''open''"

definition ledger_rows :: "review_state \<Rightarrow> frozen_row list" where
  "ledger_rows s = (case ledger s of None \<Rightarrow> [] | Some l \<Rightarrow> rows l)"

definition severeRows :: "review_state \<Rightarrow> frozen_row list" where
  "severeRows s = filter severe_open (ledger_rows s)"

definition appendReasons :: "string list \<Rightarrow> review_state \<Rightarrow> review_state" where
  "appendReasons reasons s =
     (if reasons = [] then s else s\<lparr>escalation_reasons := Some (or_empty (escalation_reasons s) @ reasons)\<rparr>)"

definition increment :: "string \<Rightarrow> counter_key \<Rightarrow> int \<Rightarrow> review_state \<Rightarrow> review_state result" where
  "increment label key amount s =
     (let next = counters s key + amount in
      if next > budget s key then Inl (Error (label @ '' budget exceeded: '' @ key_text key))
      else Inr (s\<lparr>counters := (counters s)(key := next)\<rparr>))"

definition resolve :: "string \<Rightarrow> resolution_outcome \<Rightarrow> resolution_source \<Rightarrow> finding_resolution" where
  "resolve i out src = \<lparr>res_id = i, outcome = out, source = src\<rparr>"

text \<open>The two loops of \<open>validateResolutionList\<close>: over the results given, then over the rows not seen.\<close>

fun scan_inputs :: "string list \<Rightarrow> (resolution_outcome \<Rightarrow> bool) \<Rightarrow> resolution_source \<Rightarrow> string list \<Rightarrow>
    finding_input list \<Rightarrow> finding_resolution list \<times> string list \<times> string list" where
  "scan_inputs expectedIds allowed src seen [] = ([], [], seen)"
| "scan_inputs expectedIds allowed src seen (input # inputs) =
     (if in_id input \<notin> set expectedIds then
        (let (rs, ms, fin) = scan_inputs expectedIds allowed src seen inputs in
         (rs, (''Invalid '' @ source_text src @ '' result added unknown finding '' @ in_id input @ ''.'') # ms, fin))
      else if in_id input \<in> set seen then
        (let (rs, ms, fin) = scan_inputs expectedIds allowed src seen inputs in
         (rs, (''Invalid '' @ source_text src @ '' result duplicated finding '' @ in_id input @ ''.'') # ms, fin))
      else if \<not> allowed (in_outcome input) then
        (let (rs, ms, fin) = scan_inputs expectedIds allowed src (in_id input # seen) inputs in
         (resolve (in_id input) INCONCLUSIVE src # rs,
          (in_id input @ '' became inconclusive because '' @ source_text src @ '' returned an invalid outcome.'') # ms, fin))
      else
        (let (rs, ms, fin) = scan_inputs expectedIds allowed src (in_id input # seen) inputs in
         (resolve (in_id input) (in_outcome input) src # rs, ms, fin)))"

definition validateResolutionList :: "frozen_row list \<Rightarrow> finding_input list \<Rightarrow> (resolution_outcome \<Rightarrow> bool) \<Rightarrow>
    resolution_source \<Rightarrow> finding_resolution list \<times> string list" where
  "validateResolutionList rws inputs allowed src =
     (let (rs, ms, seen) = scan_inputs (map row_id rws) allowed src [] inputs;
          missing = filter (\<lambda>row. row_id row \<notin> set seen) rws
      in (rs @ map (\<lambda>row. resolve (row_id row) INCONCLUSIVE src) missing,
          ms @ map (\<lambda>row. row_id row @ '' is inconclusive because no valid '' @ source_text src @
                          '' result was returned.'') missing))"

section \<open>Reducers\<close>

definition recordOrdinaryDiscovery :: "host \<Rightarrow> review_state \<Rightarrow> frozen_row list \<Rightarrow> review_state result" where
  "recordOrdinaryDiscovery E state input =
     bindr (assertOrdinaryMode state) (\<lambda>_.
     if phase state \<noteq> STARTED then Inl (Error ''Ordinary discovery is allowed only from started phase'')
     else bindr (assertRouteBinding E state) (\<lambda>_.
     if lenses state = [] \<and> input \<noteq> [] then Inl (Error ''A zero-lens route cannot return findings'')
     else if list_ex (\<lambda>row. row_lens row = ''judgment-day'' \<or> row_lens row \<notin> set (map lens_text (lenses state))) input
     then Inl (Error ''Ordinary discovery returned a finding outside the selected ordinary lens set'')
     else bindr (createFrozenLedger E input) (\<lambda>frozen.
       bindr (increment ''Ordinary'' review_batches 1 (state\<lparr>ledger := Some frozen\<rparr>)) (\<lambda>next.
       bindr (increment ''Ordinary'' review_actors (int (length (lenses state))) next) (\<lambda>next.
         Inr (next\<lparr>phase := DISCOVERY_COMPLETE\<rparr>))))))"

definition controller_allowed :: "resolution_outcome \<Rightarrow> bool" where
  "controller_allowed o' \<longleftrightarrow> o' \<in> {CORROBORATED, REFUTED}"

definition refuter_allowed :: "resolution_outcome \<Rightarrow> bool" where
  "refuter_allowed o' \<longleftrightarrow> o' \<in> {CORROBORATED, REFUTED, INCONCLUSIVE}"

text \<open>The resolutions and reasons of the evidence step, and whether the refuter batch is spent.\<close>

definition evidence_verdict :: "review_state \<Rightarrow> evidence_input \<Rightarrow> finding_resolution list \<times> string list \<times> bool" where
  "evidence_verdict state input =
     (let severe = severeRows state;
          deterministic = filter (\<lambda>row. evidence_class row = ''deterministic'') severe;
          inferential = filter (\<lambda>row. evidence_class row = ''inferential-severe'') severe;
          (crs, cms) = validateResolutionList deterministic (deterministicResults input) controller_allowed CONTROLLER
      in if inferential \<noteq> [] then
           (let (rrs, rms) = validateResolutionList inferential (or_empty (refuterResults input)) refuter_allowed REFUTER
            in (crs @ rrs,
                cms @ rms @ map (\<lambda>r. res_id r @ '' remained inconclusive after the only refuter batch.'')
                  (filter (\<lambda>r. outcome r = INCONCLUSIVE) rrs),
                refuterResults input \<noteq> None))
         else (crs,
               cms @ (if or_empty (refuterResults input) \<noteq> []
                      then [''A refuter result was supplied when no inferential-severe finding existed.''] else []),
               False))"

definition resolveOrdinaryEvidence :: "review_state \<Rightarrow> evidence_input \<Rightarrow> review_state result" where
  "resolveOrdinaryEvidence state input =
     bindr (assertOrdinaryMode state) (\<lambda>_.
     if phase state \<noteq> DISCOVERY_COMPLETE
     then Inl (Error ''Ordinary evidence resolution is allowed only after discovery'')
     else if ledger state = None then Inl (Error ''Ordinary evidence requires a frozen ledger'')
     else (let (rs, ms, spent) = evidence_verdict state input in
       bindr (if spent then increment ''Ordinary'' refuter_batches 1 state else Inr state) (\<lambda>next.
         let next = appendReasons ms (next\<lparr>resolutions := Some (or_empty (resolutions next) @ rs)\<rparr>);
             corroborated = filter (\<lambda>r. outcome r = CORROBORATED) rs
         in Inr (if ms = [] \<and> corroborated \<noteq> [] \<and> budget next fix_batches = 0
                 then (appendReasons [''Corroborated severe findings cannot be fixed because this ordinary lineage has zero fix budget.''] next)
                   \<lparr>phase := FINAL_VERIFICATION\<rparr>
                 else next\<lparr>phase := (if ms = [] \<and> corroborated \<noteq> [] then REFUTATION_COMPLETE
                                     else FINAL_VERIFICATION)\<rparr>))))"

definition corroboratedFindingIds :: "review_state \<Rightarrow> string list" where
  "corroboratedFindingIds state =
     sort (map res_id (filter (\<lambda>r. res_id r \<in> set (map row_id (severeRows state)) \<and> outcome r = CORROBORATED)
       (or_empty (resolutions state))))"

definition applyOrdinaryFix :: "host \<Rightarrow> review_state \<Rightarrow> fix_input \<Rightarrow> review_state result" where
  "applyOrdinaryFix E state input =
     bindr (assertOrdinaryMode state) (\<lambda>_.
     if phase state \<noteq> REFUTATION_COMPLETE then Inl (Error ''Ordinary fix is allowed only after refutation'')
     else if \<not> OBJECT_ID (candidateTree input) then Inl (Error ''Fix candidate tree must be resolved'')
     else if fixDiff input = [] then Inl (Error ''Ordinary fix must bind a non-empty fix diff'')
     else (case fixPaths input of
       None \<Rightarrow> Inl (Error ''Ordinary fix requires Git-derived correction paths'')
     | Some paths \<Rightarrow>
         let changedPaths = sorted_uniq paths;
             requiredIds = corroboratedFindingIds state;
             fixed = sorted_uniq (fixedIds input) in
         if chash E (enc_strings changedPaths) \<noteq> chash E (enc_strings paths) \<or> genesis_paths state = None \<or>
            list_ex (\<lambda>p. p \<notin> set (or_empty (genesis_paths state))) changedPaths
         then Inl (Error ''Ordinary fix touches a non-genesis path'')
         else if chash E (enc_strings requiredIds) \<noteq> chash E (enc_strings fixed)
         then Inl (Error ''The one ordinary fix batch must address every corroborated severe finding'')
         else bindr (increment ''Ordinary'' fix_batches 1 state) (\<lambda>next.
           Inr (next\<lparr>current_candidate_tree := candidateTree input,
                     fix_record := Some \<lparr>candidate_tree = candidateTree input, fixed_ids = fixed,
                       fix_diff = fixDiff input, fix_diff_hash = chash E (JStr (fixDiff input)),
                       changed_paths = Some changedPaths\<rparr>,
                     phase := FIX_COMPLETE\<rparr>))))"

definition declineOrdinaryFix :: "review_state \<Rightarrow> string \<Rightarrow> review_state result" where
  "declineOrdinaryFix state why =
     bindr (assertOrdinaryMode state) (\<lambda>_.
     if phase state \<noteq> REFUTATION_COMPLETE
     then Inl (Error ''Ordinary no-fix transition is allowed only after refutation'')
     else if trim why = [] then Inl (Error ''Ordinary no-fix transition requires an escalation reason'')
     else Inr ((appendReasons [why] state)\<lparr>phase := FINAL_VERIFICATION\<rparr>))"

definition regression_compare :: "host \<Rightarrow> regression_row \<Rightarrow> regression_row \<Rightarrow> int" where
  "regression_compare E left right = locale_compare E (finding_id left) (finding_id right)"

definition normalizeFollowUps :: "host \<Rightarrow> follow_up list \<Rightarrow> follow_up list result" where
  "normalizeFollowUps E input =
     (let followUps = sort_by (follow_compare E) input in
      if length (uniq (map follow_id followUps)) \<noteq> length followUps
      then Inl (Error ''Follow-up IDs must be unique'')
      else Inr followUps)"

definition ordinaryValidatorRequest :: "host \<Rightarrow> review_state \<Rightarrow> validation_proof \<Rightarrow> validator_request result" where
  "ordinaryValidatorRequest E state proof' =
     bindr (assertOrdinaryMode state) (\<lambda>_.
     case fix_record state of
       None \<Rightarrow> Inl (Error ''An ordinary fix is required before targeted validation'')
     | Some f \<Rightarrow>
         if phase state \<noteq> FIX_COMPLETE then Inl (Error ''An ordinary fix is required before targeted validation'')
         else (case ledger state of
           None \<Rightarrow> Inl (Error ''Targeted validation requires a frozen ledger'')
         | Some l \<Rightarrow>
             let requestedIds = fixed_ids f;
                 frozenRows = filter (\<lambda>row. row_id row \<in> set requestedIds) (rows l) in
             if length frozenRows \<noteq> length requestedIds
             then Inl (Error ''Scoped validator IDs do not resolve to exact frozen rows'')
             else bindr (normalizeFollowUps E (follow_ups proof')) (\<lambda>followUps.
               Inr \<lparr>requested_ids = requestedIds, frozen_rows = frozenRows,
                    request_ledger_hash = frozen_ledger_hash l,
                    request_proof = proof'\<lparr>correction_regressions :=
                        sort_by (regression_compare E) (correction_regressions proof'),
                      follow_ups := followUps\<rparr>\<rparr>)))"

fun scan_validator :: "string list \<Rightarrow> string list \<Rightarrow> finding_input list \<Rightarrow>
    finding_resolution list \<times> string list \<times> string list" where
  "scan_validator expectedIds seen [] = ([], [], seen)"
| "scan_validator expectedIds seen (res # inputs) =
     (if in_id res \<notin> set expectedIds then
        (let (rs, ms, fin) = scan_validator expectedIds seen inputs in
         (rs, (''Validator attempted to add new finding '' @ in_id res @ ''.'') # ms, fin))
      else if in_id res \<in> set seen then
        (let (rs, ms, fin) = scan_validator expectedIds seen inputs in
         (rs, (''Validator duplicated resolution for '' @ in_id res @ ''.'') # ms, fin))
      else
        (let (rs, ms, fin) = scan_validator expectedIds (in_id res # seen) inputs in
         if in_outcome res = VERIFIED then (resolve (in_id res) VERIFIED VALIDATOR # rs, ms, fin)
         else if in_outcome res = REGRESSION then
           (resolve (in_id res) REGRESSION VALIDATOR # rs,
            (''Validator detected regression for '' @ in_id res @ ''.'') # ms, fin)
         else (rs, (''Validator returned an invalid resolution for '' @ in_id res @ ''.'') # ms, fin)))"

definition recordOrdinaryValidation :: "host \<Rightarrow> review_state \<Rightarrow> validation_input \<Rightarrow> review_state result" where
  "recordOrdinaryValidation E state input =
     bindr (assertOrdinaryMode state) (\<lambda>_.
     if phase state \<noteq> FIX_COMPLETE then Inl (Error ''Ordinary validation is allowed only after a fix'')
     else bindr (ordinaryValidatorRequest E state (request_proof (request input))) (\<lambda>expected.
       let evidence = request_proof (request input) in
       if chash E (enc_request (request input)) \<noteq> chash E (enc_request expected)
       then Inl (Error ''Validator request must preserve the exact frozen scope'')
       else if \<not> acceptance_passed evidence
       then Inl (Error ''Original acceptance tests must pass before validation'')
       else if chash E (enc_strings (map finding_id (correction_regressions evidence))) \<noteq>
               chash E (enc_strings (requested_ids expected)) \<or>
               list_ex (\<lambda>r. \<not> regression_passed r) (correction_regressions evidence)
       then Inl (Error ''Correction regressions must pass once for every frozen finding ID'')
       else bindr (increment ''Ordinary'' validator_runs 1 (state\<lparr>validation_evidence := Some evidence\<rparr>)) (\<lambda>next.
         let (rs, ms, seen) = scan_validator (requested_ids expected) [] (results input);
             omitted = map (\<lambda>i. ''Validator omitted requested finding '' @ i @ ''.'')
               (filter (\<lambda>i. i \<notin> set seen) (requested_ids expected));
             next = next\<lparr>resolutions := Some (or_empty (resolutions next) @ rs)\<rparr>;
             next = appendReasons (ms @ omitted) next;
             next = appendReasons (map (\<lambda>r. ''Original-criterion regression: '' @ r)
               (original_criterion_regressions evidence)) next
         in Inr (next\<lparr>phase := FINAL_VERIFICATION\<rparr>))))"

definition recordOrdinaryFinalVerification :: "review_state \<Rightarrow> final_input \<Rightarrow> review_state result" where
  "recordOrdinaryFinalVerification state input =
     (if mode state \<noteq> ORDINARY then Inl (Error ''Ordinary reducer requires ordinary mode'')
      else if phase state \<noteq> FINAL_VERIFICATION
      then Inl (Error ''Ordinary final verification is allowed only from final-verification phase'')
      else bindr (assertOrdinaryMode state) (\<lambda>_.
        bindr (increment ''Ordinary'' final_verifications 1 state) (\<lambda>next.
          let next = (if \<not> passed input
                      then appendReasons [case reason input of None \<Rightarrow> ''Final verification failed.'' | Some r \<Rightarrow> r] next
                      else next)
          in Inr (next\<lparr>final_candidate_tree := Some (current_candidate_tree next),
                       terminal_state := Some (if passed input \<and> or_empty (escalation_reasons next) = []
                                               then APPROVED else ESCALATED),
                       phase := TERMINAL\<rparr>))))"

end
