(* ===== verification/JudgmentPolicy.thy ===== *)
theory JudgmentPolicy
  imports OrdinaryPolicy
begin

text \<open>
  The reducers of a Judgment Day review (\<open>lib/review-policy-judgment-day.ts\<close>): two judges
  freeze one ledger, a fix must address every surviving finding, and the two judges look at it
  again; a finding survives a round unless both verify it, and there are at most two rounds.
  \<open>increment\<close> and \<open>appendReasons\<close> are those of the ordinary policy, with this policy's label.
\<close>

section \<open>Inputs\<close>

record judgment_discovery =
  judgeA :: "frozen_row list"
  judgeB :: "frozen_row list"

record judgment_fix =
  jd_candidateTree :: string
  jd_fixedIds :: "string list"
  jd_fixDiff :: string

record rejudgment_request =
  jd_requested_ids :: "string list"
  jd_frozen_rows :: "frozen_row list"
  jd_ledger_hash :: string
  jd_fix_diff :: string
  jd_fix_diff_hash :: string
  jd_candidate_tree :: string
  jd_round :: int

record rejudgment_input =
  rejudgment :: rejudgment_request
  judgeAResults :: "finding_input list"
  judgeBResults :: "finding_input list"

definition enc_rejudgment :: "rejudgment_request \<Rightarrow> json" where
  "enc_rejudgment r = JObj [(''requested_ids'', enc_strings (jd_requested_ids r)),
     (''frozen_rows'', enc_rows (jd_frozen_rows r)), (''frozen_ledger_hash'', JStr (jd_ledger_hash r)),
     (''fix_diff'', JStr (jd_fix_diff r)), (''fix_diff_hash'', JStr (jd_fix_diff_hash r)),
     (''candidate_tree'', JStr (jd_candidate_tree r)), (''round'', JInt (jd_round r))]"

section \<open>Guards and helpers\<close>

definition judgment_budget :: "review_state \<Rightarrow> bool" where
  "judgment_budget s \<longleftrightarrow>
     budget s review_batches = 1 \<and> budget s review_actors = 2 \<and> budget s refuter_batches = 0 \<and>
     budget s fix_batches = 2 \<and> budget s validator_runs = 0 \<and> budget s final_verifications = 1 \<and>
     budget s judgment_rounds = 2 \<and> budget s judge_runs = 6"

definition assertJudgmentDayMode :: "review_state \<Rightarrow> unit result" where
  "assertJudgmentDayMode s =
     checks [require (mode s = JUDGMENT_DAY) (Error ''Judgment Day reducer requires judgment-day mode''),
       require (terminal_state s = None \<and> phase s \<noteq> TERMINAL)
         (Error ''Judgment Day transaction is already terminal''),
       require (judgment_budget s) (Error ''Judgment Day state has an invalid immutable budget'')]"

definition severeIds :: "frozen_row list \<Rightarrow> string list" where
  "severeIds rws = sort (map row_id (filter severe_open rws))"

definition judge_outcome :: "resolution_outcome \<Rightarrow> bool" where
  "judge_outcome out \<longleftrightarrow> out \<in> {VERIFIED, CORROBORATED, REGRESSION}"

text \<open>The loop over a judge's results; \<open>byId\<close> is the \<open>Map\<close> of the accepted ones.\<close>

fun scan_judge :: "string \<Rightarrow> string list \<Rightarrow> (string \<rightharpoonup> resolution_outcome) \<Rightarrow> finding_input list \<Rightarrow>
    (string \<rightharpoonup> resolution_outcome) \<times> finding_resolution list \<times> string list" where
  "scan_judge judge expectedIds byId [] = (byId, [], [])"
| "scan_judge judge expectedIds byId (res # inputs) =
     (if in_id res \<notin> set expectedIds then
        (let (m, rs, ms) = scan_judge judge expectedIds byId inputs in
         (m, rs, (judge @ '' attempted to add new finding '' @ in_id res @ ''.'') # ms))
      else if byId (in_id res) \<noteq> None then
        (let (m, rs, ms) = scan_judge judge expectedIds byId inputs in
         (m, rs, (judge @ '' duplicated finding '' @ in_id res @ ''.'') # ms))
      else if \<not> judge_outcome (in_outcome res) then
        (let (m, rs, ms) = scan_judge judge expectedIds byId inputs in
         (m, rs, (judge @ '' returned an invalid outcome for '' @ in_id res @ ''.'') # ms))
      else
        (let (m, rs, ms) = scan_judge judge expectedIds (byId(in_id res \<mapsto> in_outcome res)) inputs in
         (m, resolve (in_id res) (in_outcome res) JUDGE # rs, ms)))"

definition collectJudgeResults :: "string \<Rightarrow> finding_input list \<Rightarrow> string list \<Rightarrow>
    (string \<rightharpoonup> resolution_outcome) \<times> finding_resolution list \<times> string list" where
  "collectJudgeResults judge inputs expectedIds =
     (let (m, rs, ms) = scan_judge judge expectedIds (\<lambda>_. None) inputs in
      (m, rs, ms @ map (\<lambda>i. judge @ '' omitted requested finding '' @ i @ ''.'')
                     (filter (\<lambda>i. m i = None) (uniq expectedIds))))"

section \<open>Reducers\<close>

definition recordJudgmentDayDiscovery :: "host \<Rightarrow> review_state \<Rightarrow> judgment_discovery \<Rightarrow> review_state result" where
  "recordJudgmentDayDiscovery E state input =
     bindr (assertJudgmentDayMode state) (\<lambda>_.
     if phase state \<noteq> STARTED then Inl (Error ''Judgment Day discovery is allowed only from started phase'')
     else if list_ex (\<lambda>row. row_lens row \<noteq> ''judgment-day'') (judgeA input @ judgeB input)
     then Inl (Error ''Judgment Day discovery accepts only judgment-day lens rows'')
     else bindr (createFrozenLedger E (judgeA input @ judgeB input)) (\<lambda>frozen.
       let active = severeIds (rows frozen);
           next = state\<lparr>ledger := Some frozen, active_finding_ids := Some active\<rparr> in
       bindr (increment ''Judgment Day'' review_batches 1 next) (\<lambda>next.
       bindr (increment ''Judgment Day'' review_actors 2 next) (\<lambda>next.
       bindr (increment ''Judgment Day'' judge_runs 2 next) (\<lambda>next.
         Inr (next\<lparr>phase := (if active = [] then FINAL_VERIFICATION else JUDGMENT_COMPLETE)\<rparr>))))))"

definition applyJudgmentDayFix :: "host \<Rightarrow> review_state \<Rightarrow> judgment_fix \<Rightarrow> review_state result" where
  "applyJudgmentDayFix E state input =
     bindr (assertJudgmentDayMode state) (\<lambda>_.
     if phase state \<noteq> JUDGMENT_COMPLETE
     then Inl (Error ''Judgment Day fix is allowed only from judgment-complete phase'')
     else if \<not> OBJECT_ID (jd_candidateTree input)
     then Inl (Error ''Judgment Day fix candidate tree must be resolved'')
     else if jd_fixDiff input = [] then Inl (Error ''Judgment Day fix must bind a non-empty diff'')
     else (let requiredIds = sort (or_empty (active_finding_ids state));
               fixed = sorted_uniq (jd_fixedIds input) in
       if chash E (enc_strings requiredIds) \<noteq> chash E (enc_strings fixed)
       then Inl (Error ''Judgment Day fix must address every surviving finding in one batch'')
       else bindr (increment ''Judgment Day'' fix_batches 1 state) (\<lambda>next.
         Inr (next\<lparr>current_candidate_tree := jd_candidateTree input,
                   fix_record := Some \<lparr>candidate_tree = jd_candidateTree input, fixed_ids = fixed,
                     fix_diff = jd_fixDiff input, fix_diff_hash = chash E (JStr (jd_fixDiff input)),
                     changed_paths = None\<rparr>,
                   phase := FIX_COMPLETE\<rparr>))))"

definition judgmentDayRejudgmentRequest :: "review_state \<Rightarrow> rejudgment_request result" where
  "judgmentDayRejudgmentRequest state =
     bindr (assertJudgmentDayMode state) (\<lambda>_.
     case fix_record state of
       None \<Rightarrow> Inl (Error ''A Judgment Day fix is required before re-judgment'')
     | Some f \<Rightarrow>
         if phase state \<noteq> FIX_COMPLETE then Inl (Error ''A Judgment Day fix is required before re-judgment'')
         else (case ledger state of
           None \<Rightarrow> Inl (Error ''Re-judgment requires a frozen ledger'')
         | Some l \<Rightarrow>
             let requestedIds = sort (or_empty (active_finding_ids state));
                 frozenRows = filter (\<lambda>row. row_id row \<in> set requestedIds) (rows l) in
             if length frozenRows \<noteq> length requestedIds
             then Inl (Error ''Re-judgment IDs do not resolve to exact frozen rows'')
             else Inr \<lparr>jd_requested_ids = requestedIds, jd_frozen_rows = frozenRows,
                       jd_ledger_hash = frozen_ledger_hash l, jd_fix_diff = fix_diff f,
                       jd_fix_diff_hash = fix_diff_hash f, jd_candidate_tree = candidate_tree f,
                       jd_round = counters state judgment_rounds + 1\<rparr>))"

definition recordJudgmentDayRejudgment :: "host \<Rightarrow> review_state \<Rightarrow> rejudgment_input \<Rightarrow> review_state result" where
  "recordJudgmentDayRejudgment E state input =
     bindr (assertJudgmentDayMode state) (\<lambda>_.
     if phase state \<noteq> FIX_COMPLETE then Inl (Error ''Judgment Day re-judgment is allowed only after a fix'')
     else bindr (judgmentDayRejudgmentRequest state) (\<lambda>expected.
       if chash E (enc_rejudgment (rejudgment input)) \<noteq> chash E (enc_rejudgment expected)
       then Inl (Error ''Re-judgment request must preserve exact frozen rows and fix diff'')
       else (let (mA, rsA, msA) = collectJudgeResults ''Judge A'' (judgeAResults input) (jd_requested_ids expected);
                 (mB, rsB, msB) = collectJudgeResults ''Judge B'' (judgeBResults input) (jd_requested_ids expected);
                 survivors = filter (\<lambda>i. mA i \<noteq> Some VERIFIED \<or> mB i \<noteq> Some VERIFIED) (jd_requested_ids expected)
         in bindr (increment ''Judgment Day'' judgment_rounds 1 state) (\<lambda>next.
            bindr (increment ''Judgment Day'' judge_runs 2 next) (\<lambda>next.
              let next = next\<lparr>resolutions := Some (or_empty (resolutions next) @ rsA @ rsB),
                              active_finding_ids := Some survivors\<rparr>;
                  next = appendReasons (msA @ msB) next
              in Inr (if survivors \<noteq> [] \<and> 2 \<le> counters next judgment_rounds
                      then (appendReasons [''Findings '' @ join '', '' survivors @
                             '' survived Judgment Day round two; no third round is allowed.''] next)
                             \<lparr>phase := FINAL_VERIFICATION\<rparr>
                      else if survivors \<noteq> [] then next\<lparr>phase := JUDGMENT_COMPLETE\<rparr>
                      else next\<lparr>phase := FINAL_VERIFICATION\<rparr>))))))"

definition recordJudgmentDayFinalVerification :: "review_state \<Rightarrow> final_input \<Rightarrow> review_state result" where
  "recordJudgmentDayFinalVerification state input =
     (if mode state \<noteq> JUDGMENT_DAY then Inl (Error ''Judgment Day reducer requires judgment-day mode'')
      else if phase state \<noteq> FINAL_VERIFICATION
      then Inl (Error ''Judgment Day final verification is allowed only from final-verification phase'')
      else bindr (assertJudgmentDayMode state) (\<lambda>_.
        bindr (increment ''Judgment Day'' final_verifications 1 state) (\<lambda>next.
          let next = (if \<not> passed input
                      then appendReasons [case reason input of None \<Rightarrow> ''Final verification failed.'' | Some r \<Rightarrow> r] next
                      else next)
          in Inr (next\<lparr>final_candidate_tree := Some (current_candidate_tree next),
                       terminal_state := Some (if passed input \<and> or_empty (escalation_reasons next) = []
                                               then APPROVED else ESCALATED),
                       phase := TERMINAL\<rparr>))))"

end
