(* ===== verification/ReviewReducer.thy ===== *)
theory ReviewReducer
  imports JudgmentPolicy
begin

text \<open>
  The dispatch of \<open>lib/review-transaction.ts\<close>: \<open>operationForTransition\<close>, and
  \<open>reduceReviewState\<close>, which runs the reducer a transition names on its input. A transition and
  the input its reducer takes are one value of \<open>reduction\<close>; the code casts the input.
\<close>

datatype reduction =
    OrdinaryDiscovery "frozen_row list"
  | OrdinaryEvidence evidence_input
  | OrdinaryFix fix_input
  | OrdinaryNoFix string
  | OrdinaryValidation validation_input
  | OrdinaryFinalVerification final_input
  | JudgmentDayDiscovery judgment_discovery
  | JudgmentDayFix judgment_fix
  | JudgmentDayRejudgment rejudgment_input
  | JudgmentDayFinalVerification final_input

fun transition_of :: "reduction \<Rightarrow> review_transition" where
  "transition_of (OrdinaryDiscovery _) = ORDINARY_DISCOVERY"
| "transition_of (OrdinaryEvidence _) = ORDINARY_EVIDENCE"
| "transition_of (OrdinaryFix _) = ORDINARY_FIX"
| "transition_of (OrdinaryNoFix _) = ORDINARY_NO_FIX"
| "transition_of (OrdinaryValidation _) = ORDINARY_VALIDATION"
| "transition_of (OrdinaryFinalVerification _) = ORDINARY_FINAL_VERIFICATION"
| "transition_of (JudgmentDayDiscovery _) = JUDGMENT_DAY_DISCOVERY"
| "transition_of (JudgmentDayFix _) = JUDGMENT_DAY_FIX"
| "transition_of (JudgmentDayRejudgment _) = JUDGMENT_DAY_REJUDGMENT"
| "transition_of (JudgmentDayFinalVerification _) = JUDGMENT_DAY_FINAL_VERIFICATION"

fun operationForTransition :: "review_transition \<Rightarrow> review_operation" where
  "operationForTransition ORDINARY_DISCOVERY = FREEZE_LEDGER"
| "operationForTransition JUDGMENT_DAY_DISCOVERY = FREEZE_LEDGER"
| "operationForTransition ORDINARY_EVIDENCE = RESOLVE_EVIDENCE"
| "operationForTransition ORDINARY_FIX = AUTHORIZE_FIX"
| "operationForTransition ORDINARY_NO_FIX = AUTHORIZE_FIX"
| "operationForTransition JUDGMENT_DAY_FIX = AUTHORIZE_FIX"
| "operationForTransition ORDINARY_VALIDATION = VALIDATE_FIX"
| "operationForTransition JUDGMENT_DAY_REJUDGMENT = RESOLVE_EVIDENCE"
| "operationForTransition ORDINARY_FINAL_VERIFICATION = VERIFY"
| "operationForTransition JUDGMENT_DAY_FINAL_VERIFICATION = VERIFY"

fun reduceReviewState :: "host \<Rightarrow> review_state \<Rightarrow> reduction \<Rightarrow> review_state result" where
  "reduceReviewState E s (OrdinaryDiscovery rws) = recordOrdinaryDiscovery E s rws"
| "reduceReviewState E s (OrdinaryEvidence input) = resolveOrdinaryEvidence s input"
| "reduceReviewState E s (OrdinaryFix input) = applyOrdinaryFix E s input"
| "reduceReviewState E s (OrdinaryNoFix why) = declineOrdinaryFix s why"
| "reduceReviewState E s (OrdinaryValidation input) = recordOrdinaryValidation E s input"
| "reduceReviewState E s (OrdinaryFinalVerification input) = recordOrdinaryFinalVerification s input"
| "reduceReviewState E s (JudgmentDayDiscovery input) = recordJudgmentDayDiscovery E s input"
| "reduceReviewState E s (JudgmentDayFix input) = applyJudgmentDayFix E s input"
| "reduceReviewState E s (JudgmentDayRejudgment input) = recordJudgmentDayRejudgment E s input"
| "reduceReviewState E s (JudgmentDayFinalVerification input) = recordJudgmentDayFinalVerification s input"

end
