(* ===== verification/PolicyLaws.thy ===== *)
theory PolicyLaws
  imports ReviewReducer
begin

text \<open>
  What every reducer of the two policies does to a state: one inversion lemma per reducer (when
  it returns, and what), the fields no reducer touches, and the counters. A locale states the
  contract the store relies on - a reducer keeps the binding, moves counters forward within the
  budget, and makes a rank decrease - and both policies are its interpretations.
\<close>

section \<open>Helpers\<close>

lemma increment_iff [result_simps]:
  "increment label k a s = Inr t \<longleftrightarrow>
     counters s k + a \<le> budget s k \<and> t = s\<lparr>counters := (counters s)(k := counters s k + a)\<rparr>"
  by (auto simp: increment_def Let_def)

lemma increment_bindr:
  "bindr (increment label k a s) f =
     (if counters s k + a > budget s k then Inl (Error (label @ '' budget exceeded: '' @ key_text k))
      else f (s\<lparr>counters := (counters s)(k := counters s k + a)\<rparr>))"
  by (simp add: increment_def Let_def)

lemma increment2_bindr:
  assumes "a \<noteq> b"
  shows "bindr (increment label a x s) (\<lambda>s. bindr (increment label b y s) k) = Inr t \<longleftrightarrow>
     counters s a + x \<le> budget s a \<and> counters s b + y \<le> budget s b \<and>
     k (s\<lparr>counters := (counters s)(a := counters s a + x, b := counters s b + y)\<rparr>) = Inr t"
  using assms by (auto simp: increment_bindr)

lemma increment3_bindr:
  assumes "a \<noteq> b" "a \<noteq> c" "b \<noteq> c"
  shows "bindr (increment label a x s) (\<lambda>s. bindr (increment label b y s) (\<lambda>s. bindr (increment label c z s) k)) = Inr t \<longleftrightarrow>
     counters s a + x \<le> budget s a \<and> counters s b + y \<le> budget s b \<and> counters s c + z \<le> budget s c \<and>
     k (s\<lparr>counters := (counters s)(a := counters s a + x, b := counters s b + y, c := counters s c + z)\<rparr>) = Inr t"
  using assms by (auto simp: increment_bindr)

lemma appendReasons_eq:
  "appendReasons ms s = s\<lparr>escalation_reasons :=
     (if ms = [] then escalation_reasons s else Some (or_empty (escalation_reasons s) @ ms))\<rparr>"
  by (simp add: appendReasons_def)

lemma appendReasons_reasons [simp]:
  "or_empty (escalation_reasons (appendReasons ms s)) = or_empty (escalation_reasons s) @ ms"
  by (simp add: appendReasons_def)

lemma appendReasons_frame [simp]:
  "phase (appendReasons ms s) = phase s" "counters (appendReasons ms s) = counters s"
  "budget (appendReasons ms s) = budget s" "resolutions (appendReasons ms s) = resolutions s"
  "fix_record (appendReasons ms s) = fix_record s" "ledger (appendReasons ms s) = ledger s"
  "current_candidate_tree (appendReasons ms s) = current_candidate_tree s"
  "active_finding_ids (appendReasons ms s) = active_finding_ids s"
  "terminal_state (appendReasons ms s) = terminal_state s" "mode (appendReasons ms s) = mode s"
  "validation_evidence (appendReasons ms s) = validation_evidence s"
  by (simp_all add: appendReasons_def)

lemma assertOrdinaryMode_ok [result_simps]:
  "assertOrdinaryMode s = Inr u \<longleftrightarrow>
     mode s = ORDINARY \<and> terminal_state s = None \<and> phase s \<noteq> TERMINAL \<and> ordinary_budget s"
  by (auto simp: assertOrdinaryMode_def assertOrdinaryBudget_def result_simps)

lemma assertJudgmentDayMode_ok [result_simps]:
  "assertJudgmentDayMode s = Inr u \<longleftrightarrow>
     mode s = JUDGMENT_DAY \<and> terminal_state s = None \<and> phase s \<noteq> TERMINAL \<and> judgment_budget s"
  by (auto simp: assertJudgmentDayMode_def result_simps)

section \<open>The reducers, inverted\<close>

lemma discovery_iff [result_simps]:
  "recordOrdinaryDiscovery E s input = Inr t \<longleftrightarrow>
     mode s = ORDINARY \<and> terminal_state s = None \<and> ordinary_budget s \<and> phase s = STARTED \<and>
     assertRouteBinding E s = Inr () \<and> (lenses s = [] \<longrightarrow> input = []) \<and>
     (\<forall>row \<in> set input. row_lens row \<noteq> ''judgment-day'' \<and> row_lens row \<in> set (map lens_text (lenses s))) \<and>
     counters s review_batches + 1 \<le> budget s review_batches \<and>
     counters s review_actors + int (length (lenses s)) \<le> budget s review_actors \<and>
     (\<exists>frozen. createFrozenLedger E input = Inr frozen \<and>
        t = s\<lparr>ledger := Some frozen,
              counters := (counters s)(review_batches := counters s review_batches + 1,
                                       review_actors := counters s review_actors + int (length (lenses s))),
              phase := DISCOVERY_COMPLETE\<rparr>)"
  unfolding recordOrdinaryDiscovery_def
  by (auto simp: result_simps list_ex_iff)

definition evidence_reasons :: "review_state \<Rightarrow> finding_resolution list \<Rightarrow> string list \<Rightarrow> string list" where
  "evidence_reasons s rs ms =
     (if ms = [] \<and> filter (\<lambda>r. outcome r = CORROBORATED) rs \<noteq> [] \<and> budget s fix_batches = 0
      then [''Corroborated severe findings cannot be fixed because this ordinary lineage has zero fix budget.'']
      else ms)"

definition evidence_next :: "review_state \<Rightarrow> finding_resolution list \<Rightarrow> string list \<Rightarrow> review_state" where
  "evidence_next s rs ms =
     (appendReasons (evidence_reasons s rs ms) (s\<lparr>resolutions := Some (or_empty (resolutions s) @ rs)\<rparr>))
     \<lparr>phase := (if ms = [] \<and> filter (\<lambda>r. outcome r = CORROBORATED) rs \<noteq> [] \<and> budget s fix_batches \<noteq> 0
                then REFUTATION_COMPLETE else FINAL_VERIFICATION)\<rparr>"

definition spend_refuter :: "bool \<Rightarrow> review_state \<Rightarrow> review_state" where
  "spend_refuter spent s =
     (if spent then s\<lparr>counters := (counters s)(refuter_batches := counters s refuter_batches + 1)\<rparr> else s)"

lemma evidence_iff [result_simps]:
  "resolveOrdinaryEvidence s input = Inr t \<longleftrightarrow>
     mode s = ORDINARY \<and> terminal_state s = None \<and> ordinary_budget s \<and> phase s = DISCOVERY_COMPLETE \<and>
     ledger s \<noteq> None \<and>
     (\<exists>rs ms spent. evidence_verdict s input = (rs, ms, spent) \<and>
        (spent \<longrightarrow> counters s refuter_batches + 1 \<le> budget s refuter_batches) \<and>
        t = evidence_next (spend_refuter spent s) rs ms)"
proof -
  obtain rs ms spent where v: "evidence_verdict s input = (rs, ms, spent)"
    by (cases "evidence_verdict s input")
  have nxt: "(let next = appendReasons ms (u\<lparr>resolutions := Some (or_empty (resolutions u) @ rs)\<rparr>);
             corroborated = filter (\<lambda>r. outcome r = CORROBORATED) rs
         in (Inr (if ms = [] \<and> corroborated \<noteq> [] \<and> budget next fix_batches = 0
                 then (appendReasons [''Corroborated severe findings cannot be fixed because this ordinary lineage has zero fix budget.''] next)
                   \<lparr>phase := FINAL_VERIFICATION\<rparr>
                 else next\<lparr>phase := (if ms = [] \<and> corroborated \<noteq> [] then REFUTATION_COMPLETE
                                     else FINAL_VERIFICATION)\<rparr>) :: review_state result)) = Inr (evidence_next u rs ms)" for u
    unfolding Let_def evidence_next_def evidence_reasons_def
    by (cases "ms = []"; cases "filter (\<lambda>r. outcome r = CORROBORATED) rs = []"; cases "budget u fix_batches = 0")
      (simp_all add: appendReasons_def)
  have spend: "(if spent then increment ''Ordinary'' refuter_batches 1 s else Inr s) = Inr u \<longleftrightarrow>
      (spent \<longrightarrow> counters s refuter_batches + 1 \<le> budget s refuter_batches) \<and> u = spend_refuter spent s" for u
    by (cases spent) (auto simp: spend_refuter_def increment_iff)
  show ?thesis
    unfolding resolveOrdinaryEvidence_def v Let_def[of "(rs, ms, spent)"] prod.case
      bindr_eq_Inr if_Inl_eq_Inr assertOrdinaryMode_ok nxt spend
    by auto
qed

lemma fix_iff [result_simps]:
  "applyOrdinaryFix E s input = Inr t \<longleftrightarrow>
     mode s = ORDINARY \<and> terminal_state s = None \<and> ordinary_budget s \<and> phase s = REFUTATION_COMPLETE \<and>
     OBJECT_ID (candidateTree input) \<and> fixDiff input \<noteq> [] \<and>
     counters s fix_batches + 1 \<le> budget s fix_batches \<and>
     chash E (enc_strings (corroboratedFindingIds s)) = chash E (enc_strings (sorted_uniq (fixedIds input))) \<and>
     (\<exists>paths genesis. fixPaths input = Some paths \<and> genesis_paths s = Some genesis \<and> set paths \<subseteq> set genesis \<and>
        chash E (enc_strings (sorted_uniq paths)) = chash E (enc_strings paths) \<and>
        t = s\<lparr>current_candidate_tree := candidateTree input,
              fix_record := Some \<lparr>candidate_tree = candidateTree input, fixed_ids = sorted_uniq (fixedIds input),
                fix_diff = fixDiff input, fix_diff_hash = chash E (JStr (fixDiff input)),
                changed_paths = Some (sorted_uniq paths)\<rparr>,
              counters := (counters s)(fix_batches := counters s fix_batches + 1), phase := FIX_COMPLETE\<rparr>)"
  unfolding applyOrdinaryFix_def
  by (auto simp: result_simps Let_def list_ex_iff split: option.splits)

lemma no_fix_iff [result_simps]:
  "declineOrdinaryFix s why = Inr t \<longleftrightarrow>
     mode s = ORDINARY \<and> terminal_state s = None \<and> ordinary_budget s \<and> phase s = REFUTATION_COMPLETE \<and>
     trim why \<noteq> [] \<and> t = (appendReasons [why] s)\<lparr>phase := FINAL_VERIFICATION\<rparr>"
  unfolding declineOrdinaryFix_def by (auto simp: result_simps)

definition validation_messages :: "string list \<Rightarrow> validation_input \<Rightarrow> finding_resolution list \<times> string list" where
  "validation_messages ids input =
     (let (rs, ms, seen) = scan_validator ids [] (results input) in
      (rs, ms @ map (\<lambda>i. ''Validator omitted requested finding '' @ i @ ''.'') (filter (\<lambda>i. i \<notin> set seen) ids) @
           map (\<lambda>r. ''Original-criterion regression: '' @ r)
             (original_criterion_regressions (request_proof (request input)))))"

definition validation_next :: "review_state \<Rightarrow> string list \<Rightarrow> validation_input \<Rightarrow> review_state" where
  "validation_next s ids input =
     (let (rs, ms) = validation_messages ids input in
      (appendReasons ms
         (s\<lparr>validation_evidence := Some (request_proof (request input)),
            counters := (counters s)(validator_runs := counters s validator_runs + 1),
            resolutions := Some (or_empty (resolutions s) @ rs)\<rparr>))\<lparr>phase := FINAL_VERIFICATION\<rparr>)"

lemma appendReasons_append: "appendReasons bs (appendReasons as s) = appendReasons (as @ bs) s"
  by (simp add: appendReasons_def)

lemma validator_request_iff [result_simps]:
  "ordinaryValidatorRequest E s p = Inr q \<longleftrightarrow>
     mode s = ORDINARY \<and> terminal_state s = None \<and> ordinary_budget s \<and> phase s = FIX_COMPLETE \<and>
     (\<exists>f l fs. fix_record s = Some f \<and> ledger s = Some l \<and> normalizeFollowUps E (follow_ups p) = Inr fs \<and>
        length (filter (\<lambda>row. row_id row \<in> set (fixed_ids f)) (rows l)) = length (fixed_ids f) \<and>
        q = \<lparr>requested_ids = fixed_ids f, frozen_rows = filter (\<lambda>row. row_id row \<in> set (fixed_ids f)) (rows l),
             request_ledger_hash = frozen_ledger_hash l,
             request_proof = p\<lparr>correction_regressions := sort_by (regression_compare E) (correction_regressions p),
                              follow_ups := fs\<rparr>\<rparr>)"
  unfolding ordinaryValidatorRequest_def Let_def bindr_eq_Inr assertOrdinaryMode_ok
  by (auto simp: result_simps split: option.splits)

lemma validation_iff [result_simps]:
  "recordOrdinaryValidation E s input = Inr t \<longleftrightarrow>
     (\<exists>expected. ordinaryValidatorRequest E s (request_proof (request input)) = Inr expected \<and>
        chash E (enc_request (request input)) = chash E (enc_request expected) \<and>
        acceptance_passed (request_proof (request input)) \<and>
        chash E (enc_strings (map finding_id (correction_regressions (request_proof (request input))))) =
          chash E (enc_strings (requested_ids expected)) \<and>
        (\<forall>r \<in> set (correction_regressions (request_proof (request input))). regression_passed r) \<and>
        counters s validator_runs + 1 \<le> budget s validator_runs \<and>
        t = validation_next s (requested_ids expected) input)"
proof -
  have nxt: "(let (rs, ms, seen) = scan_validator ids [] (results input);
             omitted = map (\<lambda>i. ''Validator omitted requested finding '' @ i @ ''.'') (filter (\<lambda>i. i \<notin> set seen) ids);
             next = u\<lparr>resolutions := Some (or_empty (resolutions u) @ rs)\<rparr>;
             next = appendReasons (ms @ omitted) next;
             next = appendReasons (map (\<lambda>r. ''Original-criterion regression: '' @ r)
               (original_criterion_regressions (request_proof (request input)))) next
         in Inr (next\<lparr>phase := FINAL_VERIFICATION\<rparr>)) =
       (let (rs, ms) = validation_messages ids input in
        Inr ((appendReasons ms (u\<lparr>resolutions := Some (or_empty (resolutions u) @ rs)\<rparr>))\<lparr>phase := FINAL_VERIFICATION\<rparr>)
          :: review_state result)" for u ids
    unfolding validation_messages_def Let_def
    by (simp add: appendReasons_append split: prod.splits)
  show ?thesis
    unfolding recordOrdinaryValidation_def Let_def[of "request_proof (request input)"] nxt increment_bindr
    unfolding bindr_eq_Inr if_Inl_eq_Inr assertOrdinaryMode_ok list_ex_iff
    by (auto simp: validator_request_iff validation_next_def Let_def case_prod_beta)
qed

definition final_next :: "review_state \<Rightarrow> final_input \<Rightarrow> review_state" where
  "final_next s input =
     (let next = (if passed input then s
                  else appendReasons [case reason input of None \<Rightarrow> ''Final verification failed.'' | Some r \<Rightarrow> r] s)
      in next\<lparr>counters := (counters s)(final_verifications := counters s final_verifications + 1),
              final_candidate_tree := Some (current_candidate_tree s),
              terminal_state := Some (if passed input \<and> or_empty (escalation_reasons s) = [] then APPROVED else ESCALATED),
              phase := TERMINAL\<rparr>)"

lemma final_iff [result_simps]:
  "recordOrdinaryFinalVerification s input = Inr t \<longleftrightarrow>
     mode s = ORDINARY \<and> terminal_state s = None \<and> ordinary_budget s \<and> phase s = FINAL_VERIFICATION \<and>
     counters s final_verifications + 1 \<le> budget s final_verifications \<and> t = final_next s input"
  unfolding recordOrdinaryFinalVerification_def bindr_eq_Inr if_Inl_eq_Inr assertOrdinaryMode_ok increment_iff
  by (cases "passed input") (auto simp: final_next_def Let_def appendReasons_def)

lemma jd_discovery_iff [result_simps]:
  "recordJudgmentDayDiscovery E s input = Inr t \<longleftrightarrow>
     mode s = JUDGMENT_DAY \<and> terminal_state s = None \<and> judgment_budget s \<and> phase s = STARTED \<and>
     (\<forall>row \<in> set (judgeA input @ judgeB input). row_lens row = ''judgment-day'') \<and>
     counters s review_batches + 1 \<le> budget s review_batches \<and>
     counters s review_actors + 2 \<le> budget s review_actors \<and>
     counters s judge_runs + 2 \<le> budget s judge_runs \<and>
     (\<exists>frozen. createFrozenLedger E (judgeA input @ judgeB input) = Inr frozen \<and>
        t = s\<lparr>ledger := Some frozen, active_finding_ids := Some (severeIds (rows frozen)),
              counters := (counters s)(review_batches := counters s review_batches + 1,
                review_actors := counters s review_actors + 2, judge_runs := counters s judge_runs + 2),
              phase := (if severeIds (rows frozen) = [] then FINAL_VERIFICATION else JUDGMENT_COMPLETE)\<rparr>)"
  unfolding recordJudgmentDayDiscovery_def Let_def
  by (subst bindr_eq_Inr, subst if_Inl_eq_Inr, subst if_Inl_eq_Inr, subst bindr_eq_Inr, subst increment3_bindr)
    (auto simp: assertJudgmentDayMode_ok list_ex_iff split del: if_split)

lemma jd_fix_iff [result_simps]:
  "applyJudgmentDayFix E s input = Inr t \<longleftrightarrow>
     mode s = JUDGMENT_DAY \<and> terminal_state s = None \<and> judgment_budget s \<and> phase s = JUDGMENT_COMPLETE \<and>
     OBJECT_ID (jd_candidateTree input) \<and> jd_fixDiff input \<noteq> [] \<and>
     chash E (enc_strings (sort (or_empty (active_finding_ids s)))) = chash E (enc_strings (sorted_uniq (jd_fixedIds input))) \<and>
     counters s fix_batches + 1 \<le> budget s fix_batches \<and>
     t = s\<lparr>counters := (counters s)(fix_batches := counters s fix_batches + 1),
           current_candidate_tree := jd_candidateTree input,
           fix_record := Some \<lparr>candidate_tree = jd_candidateTree input, fixed_ids = sorted_uniq (jd_fixedIds input),
             fix_diff = jd_fixDiff input, fix_diff_hash = chash E (JStr (jd_fixDiff input)), changed_paths = None\<rparr>,
           phase := FIX_COMPLETE\<rparr>"
  unfolding applyJudgmentDayFix_def Let_def increment_bindr
  unfolding bindr_eq_Inr if_Inl_eq_Inr assertJudgmentDayMode_ok
  by auto

lemma rejudgment_request_iff [result_simps]:
  "judgmentDayRejudgmentRequest s = Inr q \<longleftrightarrow>
     mode s = JUDGMENT_DAY \<and> terminal_state s = None \<and> judgment_budget s \<and> phase s = FIX_COMPLETE \<and>
     (\<exists>f l. fix_record s = Some f \<and> ledger s = Some l \<and>
        (let ids = sort (or_empty (active_finding_ids s)); fr = filter (\<lambda>row. row_id row \<in> set ids) (rows l) in
         length fr = length ids \<and>
         q = \<lparr>jd_requested_ids = ids, jd_frozen_rows = fr, jd_ledger_hash = frozen_ledger_hash l,
              jd_fix_diff = fix_diff f, jd_fix_diff_hash = fix_diff_hash f, jd_candidate_tree = candidate_tree f,
              jd_round = counters s judgment_rounds + 1\<rparr>))"
  unfolding judgmentDayRejudgmentRequest_def Let_def bindr_eq_Inr assertJudgmentDayMode_ok
  by (auto simp: result_simps split: option.splits)

definition surviving :: "string list \<Rightarrow> rejudgment_input \<Rightarrow> string list" where
  "surviving ids input =
     filter (\<lambda>i. fst (collectJudgeResults ''Judge A'' (judgeAResults input) ids) i \<noteq> Some VERIFIED \<or>
                 fst (collectJudgeResults ''Judge B'' (judgeBResults input) ids) i \<noteq> Some VERIFIED) ids"

definition rejudgment_next :: "review_state \<Rightarrow> string list \<Rightarrow> rejudgment_input \<Rightarrow> review_state" where
  "rejudgment_next s ids input =
     (let A = collectJudgeResults ''Judge A'' (judgeAResults input) ids;
          B = collectJudgeResults ''Judge B'' (judgeBResults input) ids;
          left = surviving ids input;
          rounds = counters s judgment_rounds + 1
      in (appendReasons (snd (snd A) @ snd (snd B) @
            (if left \<noteq> [] \<and> 2 \<le> rounds
             then [''Findings '' @ join '', '' left @ '' survived Judgment Day round two; no third round is allowed.'']
             else []))
           (s\<lparr>counters := (counters s)(judgment_rounds := rounds, judge_runs := counters s judge_runs + 2),
              resolutions := Some (or_empty (resolutions s) @ fst (snd A) @ fst (snd B)),
              active_finding_ids := Some left\<rparr>))
         \<lparr>phase := (if left \<noteq> [] \<and> rounds < 2 then JUDGMENT_COMPLETE else FINAL_VERIFICATION)\<rparr>)"

lemma rejudgment_iff [result_simps]:
  "recordJudgmentDayRejudgment E s input = Inr t \<longleftrightarrow>
     (\<exists>expected. judgmentDayRejudgmentRequest s = Inr expected \<and>
        chash E (enc_rejudgment (rejudgment input)) = chash E (enc_rejudgment expected) \<and>
        counters s judgment_rounds + 1 \<le> budget s judgment_rounds \<and>
        counters s judge_runs + 2 \<le> budget s judge_runs \<and>
        t = rejudgment_next s (jd_requested_ids expected) input)"
proof -
  have nxt: "(let next = u\<lparr>resolutions := Some (or_empty (resolutions u) @ rsA @ rsB), active_finding_ids := Some left\<rparr>;
                  next = appendReasons ms next
              in Inr (if left \<noteq> [] \<and> 2 \<le> counters next judgment_rounds
                      then (appendReasons [''Findings '' @ join '', '' left @
                             '' survived Judgment Day round two; no third round is allowed.''] next)
                             \<lparr>phase := FINAL_VERIFICATION\<rparr>
                      else if left \<noteq> [] then next\<lparr>phase := JUDGMENT_COMPLETE\<rparr>
                      else next\<lparr>phase := FINAL_VERIFICATION\<rparr>)) =
        (Inr ((appendReasons (ms @ (if left \<noteq> [] \<and> 2 \<le> counters u judgment_rounds
             then [''Findings '' @ join '', '' left @ '' survived Judgment Day round two; no third round is allowed.'']
             else [])) (u\<lparr>resolutions := Some (or_empty (resolutions u) @ rsA @ rsB), active_finding_ids := Some left\<rparr>))
           \<lparr>phase := (if left \<noteq> [] \<and> counters u judgment_rounds < 2 then JUDGMENT_COMPLETE else FINAL_VERIFICATION)\<rparr>)
          :: review_state result)" for u rsA rsB left ms
    unfolding Let_def by (simp add: appendReasons_append)
  show ?thesis
    unfolding recordJudgmentDayRejudgment_def nxt
    unfolding Let_def case_prod_beta rejudgment_next_def surviving_def
    by (subst bindr_eq_Inr, subst if_Inl_eq_Inr, subst bindr_eq_Inr, subst if_Inl_eq_Inr, subst increment2_bindr)
      (auto simp: assertJudgmentDayMode_ok rejudgment_request_iff Let_def split del: if_split)
qed

lemma jd_final_iff [result_simps]:
  "recordJudgmentDayFinalVerification s input = Inr t \<longleftrightarrow>
     mode s = JUDGMENT_DAY \<and> terminal_state s = None \<and> judgment_budget s \<and> phase s = FINAL_VERIFICATION \<and>
     counters s final_verifications + 1 \<le> budget s final_verifications \<and> t = final_next s input"
  unfolding recordJudgmentDayFinalVerification_def bindr_eq_Inr if_Inl_eq_Inr assertJudgmentDayMode_ok increment_iff
  by (cases "passed input") (auto simp: final_next_def Let_def appendReasons_def)

section \<open>What every reducer keeps\<close>

text \<open>
  The binding of a lineage: the immutable fields, and the fields that only the store writes.
\<close>

definition same_binding :: "review_state \<Rightarrow> review_state \<Rightarrow> bool" where
  "same_binding s t \<longleftrightarrow> immutable_fields t = immutable_fields s \<and> revision t = revision s \<and>
     evidence_hash t = evidence_hash s \<and> child_claims t = child_claims s \<and>
     request_journal t = request_journal s \<and> mode t = mode s \<and> budget t = budget s \<and>
     lenses t = lenses s \<and> genesis_paths t = genesis_paths s \<and> route t = route s"

lemma same_binding_trans: "same_binding s t \<Longrightarrow> same_binding t u \<Longrightarrow> same_binding s u"
  by (simp add: same_binding_def)

lemma same_binding_refl: "same_binding s s"
  by (simp add: same_binding_def)

text \<open>An update of the fields that the reducers own.\<close>

definition reduced :: "review_state \<Rightarrow> review_state \<Rightarrow> bool" where
  "reduced s t \<longleftrightarrow> t = s\<lparr>phase := phase t, current_candidate_tree := current_candidate_tree t,
     final_candidate_tree := final_candidate_tree t, ledger := ledger t, counters := counters t,
     resolutions := resolutions t, fix_record := fix_record t, validation_evidence := validation_evidence t,
     active_finding_ids := active_finding_ids t, escalation_reasons := escalation_reasons t,
     terminal_state := terminal_state t\<rparr>"

lemma reduced_binding: "reduced s t \<Longrightarrow> same_binding s t"
  unfolding reduced_def same_binding_def immutable_fields_def by (cases s; cases t) simp

lemma reduce_reduced: "reduceReviewState E s r = Inr t \<Longrightarrow> reduced s t"
  by (cases r; simp add: result_simps; elim conjE exE; simp add: reduced_def evidence_next_def spend_refuter_def
      validation_next_def final_next_def rejudgment_next_def appendReasons_eq Let_def case_prod_beta)

lemmas reduce_binding = reduced_binding [OF reduce_reduced]

lemma reduce_mode:
  assumes "reduceReviewState E s r = Inr t"
  shows "mode s = (case transition_of r of
      JUDGMENT_DAY_DISCOVERY \<Rightarrow> JUDGMENT_DAY | JUDGMENT_DAY_FIX \<Rightarrow> JUDGMENT_DAY
    | JUDGMENT_DAY_REJUDGMENT \<Rightarrow> JUDGMENT_DAY | JUDGMENT_DAY_FINAL_VERIFICATION \<Rightarrow> JUDGMENT_DAY | _ \<Rightarrow> ORDINARY)"
  using assms by (cases r) (auto simp: result_simps)

lemma reduce_open: "reduceReviewState E s r = Inr t \<Longrightarrow> terminal_state s = None \<and> phase s \<noteq> TERMINAL"
  by (cases r) (auto simp: result_simps)

text \<open>Counters only grow, and never past the budget of the state.\<close>

definition counters_advance :: "review_state \<Rightarrow> review_state \<Rightarrow> bool" where
  "counters_advance s t \<longleftrightarrow>
     (\<forall>k. counters s k \<le> counters t k \<and> (counters t k = counters s k \<or> counters t k \<le> budget s k))"

lemma reduce_counters: "reduceReviewState E s r = Inr t \<Longrightarrow> counters_advance s t"
  by (cases r; simp add: result_simps; elim conjE exE;
      simp add: counters_advance_def evidence_next_def spend_refuter_def
        validation_next_def final_next_def rejudgment_next_def appendReasons_eq Let_def case_prod_beta)

section \<open>The contract of a policy, and both policies as its instances\<close>

text \<open>
  A history is a list of reductions applied one after the other; the first exception ends it.
\<close>

fun run_reducers :: "('s \<Rightarrow> 'i \<Rightarrow> 's result) \<Rightarrow> 's \<Rightarrow> 'i list \<Rightarrow> 's result" where
  "run_reducers step s [] = Inr s"
| "run_reducers step s (r # rs) = bindr (step s r) (\<lambda>t. run_reducers step t rs)"

text \<open>How many reductions a lineage has left, by phase (and, in Judgment Day, by the rounds spent).\<close>

fun ordinary_rank :: "review_phase \<Rightarrow> nat" where
  "ordinary_rank STARTED = 5"
| "ordinary_rank DISCOVERY_COMPLETE = 4"
| "ordinary_rank REFUTATION_COMPLETE = 3"
| "ordinary_rank FIX_COMPLETE = 2"
| "ordinary_rank FINAL_VERIFICATION = 1"
| "ordinary_rank _ = 0"

fun judgment_rank :: "int \<Rightarrow> review_phase \<Rightarrow> nat" where
  "judgment_rank n STARTED = 2 * nat (2 - n) + 2"
| "judgment_rank n JUDGMENT_COMPLETE = 2 * nat (2 - n) + 1"
| "judgment_rank n FIX_COMPLETE = 2 * nat (2 - n)"
| "judgment_rank n FINAL_VERIFICATION = 1"
| "judgment_rank n _ = 0"

definition reductions_left :: "review_state \<Rightarrow> nat" where
  "reductions_left s = (case mode s of ORDINARY \<Rightarrow> ordinary_rank (phase s)
     | JUDGMENT_DAY \<Rightarrow> judgment_rank (counters s judgment_rounds) (phase s))"

locale policy =
  fixes step :: "review_state \<Rightarrow> reduction \<Rightarrow> review_state result"
    and rank :: "review_state \<Rightarrow> nat"
    and governs :: "review_state \<Rightarrow> bool"
  assumes step_binding: "step s r = Inr t \<Longrightarrow> same_binding s t"
    and step_counters: "step s r = Inr t \<Longrightarrow> counters_advance s t"
    and step_governs: "governs s \<Longrightarrow> step s r = Inr t \<Longrightarrow> governs t"
    and step_rank: "governs s \<Longrightarrow> step s r = Inr t \<Longrightarrow> rank t < rank s"
begin

lemma run_binding: "run_reducers step s rs = Inr t \<Longrightarrow> same_binding s t"
  by (induction rs arbitrary: s)
    (auto simp: result_simps same_binding_refl intro: same_binding_trans step_binding)

lemma run_counters:
  assumes "run_reducers step s rs = Inr t"
  shows "counters s k \<le> counters t k \<and> (counters s k \<le> budget s k \<longrightarrow> counters t k \<le> budget t k)"
  using assms
proof (induction rs arbitrary: s)
  case (Cons r rs)
  then obtain u where u: "step s r = Inr u" "run_reducers step u rs = Inr t" by (auto simp: result_simps)
  from step_counters[OF u(1)] step_binding[OF u(1)] Cons.IH[OF u(2)]
  show ?case unfolding counters_advance_def same_binding_def by (smt (verit))
qed simp

lemma run_governs: "governs s \<Longrightarrow> run_reducers step s rs = Inr t \<Longrightarrow> governs t"
  by (induction rs arbitrary: s) (auto simp: result_simps intro: step_governs)

lemma run_length: "governs s \<Longrightarrow> run_reducers step s rs = Inr t \<Longrightarrow> length rs + rank t \<le> rank s"
proof (induction rs arbitrary: s)
  case (Cons r rs)
  then obtain u where u: "step s r = Inr u" "run_reducers step u rs = Inr t" by (auto simp: result_simps)
  from Cons.IH[OF step_governs[OF Cons.prems(1) u(1)] u(2)] step_rank[OF Cons.prems(1) u(1)]
  show ?case by simp
qed simp

end

lemma ordinary_rank_decreases:
  assumes "mode s = ORDINARY" "reduceReviewState E s r = Inr t"
  shows "ordinary_rank (phase t) < ordinary_rank (phase s)"
  using assms by (cases r) (auto simp: result_simps evidence_next_def spend_refuter_def
      validation_next_def final_next_def appendReasons_eq Let_def case_prod_beta)

lemma judgment_rank_decreases:
  assumes "mode s = JUDGMENT_DAY" "reduceReviewState E s r = Inr t"
  shows "judgment_rank (counters t judgment_rounds) (phase t) < judgment_rank (counters s judgment_rounds) (phase s)"
proof (cases r)
  case (JudgmentDayRejudgment input)
  then obtain ids where n: "counters s judgment_rounds + 1 \<le> 2" "phase s = FIX_COMPLETE" "t = rejudgment_next s ids input"
    using assms by (auto simp: result_simps judgment_budget_def)
  then have "counters t judgment_rounds = counters s judgment_rounds + 1"
    "phase t = JUDGMENT_COMPLETE \<and> counters s judgment_rounds < 1 \<or> phase t = FINAL_VERIFICATION"
    by (simp_all add: rejudgment_next_def Let_def)
  moreover have "1 < 2 * nat (2 - m)" if "m \<le> 1" for m using that by linarith
  moreover have "Suc (2 * nat (1 - m)) < 2 * nat (2 - m)" if "m < 1" for m using that by linarith
  ultimately show ?thesis using n by auto
next
  case (JudgmentDayFix input)
  with assms show ?thesis by (auto simp: result_simps)
next
  case (JudgmentDayDiscovery input)
  with assms show ?thesis by (auto simp: result_simps)
next
  case (JudgmentDayFinalVerification input)
  with assms show ?thesis by (auto simp: result_simps final_next_def Let_def)
qed (use assms in \<open>auto simp: result_simps\<close>)

lemma reduce_keeps_mode: "reduceReviewState E s r = Inr t \<Longrightarrow> mode t = mode s"
  using reduce_binding[of E s r t] by (simp add: same_binding_def)

interpretation ordinary: policy "reduceReviewState E" "\<lambda>s. ordinary_rank (phase s)" "\<lambda>s. mode s = ORDINARY"
  for E :: host
  by unfold_locales (simp_all add: reduce_binding reduce_counters reduce_keeps_mode ordinary_rank_decreases)

interpretation judging: policy "reduceReviewState E"
  "\<lambda>s. judgment_rank (counters s judgment_rounds) (phase s)" "\<lambda>s. mode s = JUDGMENT_DAY"
  for E :: host
  by unfold_locales (simp_all add: reduce_binding reduce_counters reduce_keeps_mode judgment_rank_decreases)

interpretation review: policy "reduceReviewState E" reductions_left "\<lambda>_. True"
  for E :: host
  by unfold_locales (auto simp: reduce_binding reduce_counters reductions_left_def reduce_keeps_mode
      ordinary_rank_decreases judgment_rank_decreases split: review_mode.splits)

end
