(* ===== verification/OrdinaryLifecycle.thy ===== *)
theory OrdinaryLifecycle
  imports PolicyLaws
begin

text \<open>
  The life of an ordinary lineage: what an approval means. The invariant follows a severe finding
  from the frozen ledger through evidence, fix and validation; the properties read it at the end.
\<close>

section \<open>What the loops return when they report nothing\<close>

definition answered :: "finding_resolution list \<Rightarrow> (resolution_outcome \<Rightarrow> bool) \<Rightarrow> string \<Rightarrow> bool" where
  "answered rs allowed i \<longleftrightarrow> (\<exists>r \<in> set rs. res_id r = i \<and> allowed (outcome r))"

lemma answered_append [simp]: "answered (as @ bs) ok' i \<longleftrightarrow> answered as ok' i \<or> answered bs ok' i"
  by (auto simp: answered_def)

lemma answered_mono: "answered rs p i \<Longrightarrow> (\<And>x. p x \<Longrightarrow> q x) \<Longrightarrow> answered rs q i"
  by (auto simp: answered_def)

lemma scan_inputs_silent:
  assumes "scan_inputs ids allowed src seen inputs = (rs, [], fin)"
  shows "(\<forall>i \<in> set fin. i \<in> set seen \<or> answered rs allowed i) \<and> (\<forall>r \<in> set rs. allowed (outcome r))"
  using assms
proof (induction ids allowed src seen inputs arbitrary: rs fin rule: scan_inputs.induct)
  case (2 ids allowed src seen input inputs)
  from "2.prems" have i: "in_id input \<in> set ids" "in_id input \<notin> set seen" "allowed (in_outcome input)"
    by (auto split: if_splits prod.splits)
  then obtain rs' where rs': "scan_inputs ids allowed src (in_id input # seen) inputs = (rs', [], fin)"
    "rs = resolve (in_id input) (in_outcome input) src # rs'"
    using "2.prems" by (auto split: prod.splits)
  from "2.IH"(4)[OF _ _ _ rs'(1)] i rs'(2) show ?case
    by (auto simp: answered_def resolve_def)
qed simp

lemma validateResolutionList_silent:
  assumes "validateResolutionList rws inputs allowed src = (rs, [])"
  shows "(\<forall>row \<in> set rws. answered rs allowed (row_id row)) \<and> (\<forall>r \<in> set rs. allowed (outcome r))"
proof -
  obtain rs' fin where s: "scan_inputs (map row_id rws) allowed src [] inputs = (rs', [], fin)"
    and all: "\<forall>row \<in> set rws. row_id row \<in> set fin" and rs: "rs = rs'"
    using assms by (auto simp: validateResolutionList_def Let_def filter_empty_conv split: prod.splits)
  from scan_inputs_silent[OF s] all show ?thesis unfolding rs by auto
qed

definition decided :: "resolution_outcome \<Rightarrow> bool" where
  "decided out \<longleftrightarrow> out = CORROBORATED \<or> out = REFUTED"

lemma evidence_verdict_silent:
  assumes "evidence_verdict s input = (rs, [], spent)"
    and "\<forall>row \<in> set (severeRows s). evidence_class row = ''deterministic'' \<or> evidence_class row = ''inferential-severe''"
  shows "\<forall>row \<in> set (severeRows s). answered rs decided (row_id row)"
proof -
  let ?det = "filter (\<lambda>row. evidence_class row = ''deterministic'') (severeRows s)"
  let ?inf = "filter (\<lambda>row. evidence_class row = ''inferential-severe'') (severeRows s)"
  obtain crs cms where c: "validateResolutionList ?det (deterministicResults input) controller_allowed CONTROLLER = (crs, cms)"
    by (cases "validateResolutionList ?det (deterministicResults input) controller_allowed CONTROLLER")
  obtain rrs rms where r: "validateResolutionList ?inf (or_empty (refuterResults input)) refuter_allowed REFUTER = (rrs, rms)"
    by (cases "validateResolutionList ?inf (or_empty (refuterResults input)) refuter_allowed REFUTER")
  have cms: "cms = []" and rs: "set crs \<subseteq> set rs"
    and i: "?inf \<noteq> [] \<Longrightarrow> rms = [] \<and> (\<forall>r \<in> set rrs. outcome r \<noteq> INCONCLUSIVE) \<and> set rrs \<subseteq> set rs"
    using assms(1) by (auto simp: evidence_verdict_def Let_def c r filter_empty_conv split: if_splits)
  have "answered rs decided (row_id row)" if row: "row \<in> set (severeRows s)" for row
  proof (cases "evidence_class row = ''deterministic''")
    case True
    with row c cms validateResolutionList_silent have "answered crs controller_allowed (row_id row)" by fastforce
    with rs show ?thesis by (auto simp: answered_def decided_def controller_allowed_def)
  next
    case False
    with row assms(2) have m: "row \<in> set ?inf" by auto
    then have "?inf \<noteq> []" by (metis empty_iff list.set(1))
    from i[OF this] have rr: "rms = []" "\<forall>r \<in> set rrs. outcome r \<noteq> INCONCLUSIVE" "set rrs \<subseteq> set rs" by auto
    with m r validateResolutionList_silent have "answered rrs refuter_allowed (row_id row)" by fastforce
    with rr(2,3) show ?thesis by (auto simp: answered_def decided_def refuter_allowed_def)
  qed
  then show ?thesis ..
qed


definition verified_by_validator :: "finding_resolution list \<Rightarrow> string \<Rightarrow> bool" where
  "verified_by_validator rs i \<longleftrightarrow> (\<exists>r \<in> set rs. res_id r = i \<and> outcome r = VERIFIED \<and> source r = VALIDATOR)"

lemma scan_validator_outcomes:
  "scan_validator ids seen inputs = (rs, ms, fin) \<Longrightarrow> r \<in> set rs \<Longrightarrow> outcome r \<in> {VERIFIED, REGRESSION}"
  by (induction ids seen inputs arbitrary: rs ms fin rule: scan_validator.induct)
    (auto simp: resolve_def split: if_splits prod.splits)

lemma scan_validator_silent:
  assumes "scan_validator ids seen inputs = (rs, [], fin)"
  shows "\<forall>i \<in> set fin. i \<in> set seen \<or> verified_by_validator rs i"
  using assms
proof (induction ids seen inputs arbitrary: rs fin rule: scan_validator.induct)
  case (2 ids seen res inputs)
  from "2.prems" have i: "in_id res \<in> set ids" "in_id res \<notin> set seen" "in_outcome res = VERIFIED"
    by (auto split: if_splits prod.splits)
  then obtain rs' where rs': "scan_validator ids (in_id res # seen) inputs = (rs', [], fin)"
    "rs = resolve (in_id res) VERIFIED VALIDATOR # rs'"
    using "2.prems" by (auto split: prod.splits)
  from "2.IH"(3)[OF _ _ rs'(1)] i rs'(2) show ?case
    by (auto simp: verified_by_validator_def resolve_def)
qed simp

lemma validation_silent:
  assumes "validation_messages ids input = (rs, [])"
  shows "\<forall>i \<in> set ids. verified_by_validator rs i" "\<forall>r \<in> set rs. outcome r \<in> {VERIFIED, REGRESSION}"
proof -
  obtain fin where s: "scan_validator ids [] (results input) = (rs, [], fin)" "\<forall>i \<in> set ids. i \<in> set fin"
    using assms by (auto simp: validation_messages_def Let_def filter_empty_conv split: prod.splits)
  with scan_validator_silent[OF s(1)] show "\<forall>i \<in> set ids. verified_by_validator rs i" by auto
  show "\<forall>r \<in> set rs. outcome r \<in> {VERIFIED, REGRESSION}"
    using scan_validator_outcomes[OF s(1)] by blast
qed

section \<open>The invariant of an ordinary lineage\<close>

definition all_decided :: "review_state \<Rightarrow> bool" where
  "all_decided s \<longleftrightarrow>
     (\<forall>row \<in> set (severeRows s). answered (or_empty (resolutions s)) decided (row_id row))"

definition fix_covers :: "host \<Rightarrow> review_state \<Rightarrow> fix_batch \<Rightarrow> bool" where
  "fix_covers E s f \<longleftrightarrow> chash E (enc_strings (corroboratedFindingIds s)) = chash E (enc_strings (fixed_ids f)) \<and>
     current_candidate_tree s = candidate_tree f"

definition settled :: "host \<Rightarrow> review_state \<Rightarrow> bool" where
  "settled E s \<longleftrightarrow> all_decided s \<and>
     (corroboratedFindingIds s = [] \<or>
      (\<exists>f. fix_record s = Some f \<and> fix_covers E s f \<and>
           (\<forall>i \<in> set (fixed_ids f). verified_by_validator (or_empty (resolutions s)) i)))"

definition no_reasons :: "review_state \<Rightarrow> bool" where
  "no_reasons s \<longleftrightarrow> or_empty (escalation_reasons s) = []"

fun phase_invariant :: "host \<Rightarrow> review_state \<Rightarrow> review_phase \<Rightarrow> bool" where
  "phase_invariant E s STARTED = (no_reasons s \<and> or_empty (resolutions s) = [])"
| "phase_invariant E s DISCOVERY_COMPLETE = (no_reasons s \<and> or_empty (resolutions s) = [])"
| "phase_invariant E s REFUTATION_COMPLETE = (no_reasons s \<and> all_decided s)"
| "phase_invariant E s FIX_COMPLETE =
     (no_reasons s \<and> all_decided s \<and> (\<exists>f. fix_record s = Some f \<and> fix_covers E s f))"
| "phase_invariant E s FINAL_VERIFICATION = (no_reasons s \<longrightarrow> settled E s)"
| "phase_invariant E s TERMINAL = (terminal_state s = Some APPROVED \<longrightarrow> no_reasons s \<and> settled E s)"
| "phase_invariant E s VALIDATION_COMPLETE = False"
| "phase_invariant E s JUDGMENT_COMPLETE = False"

definition ordinary_invariant :: "host \<Rightarrow> review_state \<Rightarrow> bool" where
  "ordinary_invariant E s \<longleftrightarrow>
     mode s = ORDINARY \<and> (\<forall>row \<in> set (ledger_rows s). row_ok row) \<and> phase_invariant E s (phase s)"

lemma severe_rows_evidence:
  assumes "\<forall>row \<in> set (ledger_rows s). row_ok row"
  shows "\<forall>row \<in> set (severeRows s). evidence_class row = ''deterministic'' \<or> evidence_class row = ''inferential-severe''"
  using assms row_ok_evidence by (auto simp: severeRows_def severe_open_def)

text \<open>Fields that the invariant reads, under the updates of the reducers.\<close>

lemma severeRows_ledger: "ledger t = ledger s \<Longrightarrow> severeRows t = severeRows s"
  by (simp add: severeRows_def ledger_rows_def)

lemma ledger_rows_ledger: "ledger t = ledger s \<Longrightarrow> ledger_rows t = ledger_rows s"
  by (simp add: ledger_rows_def)

lemma corroborated_append:
  assumes "ledger t = ledger s" "resolutions t = Some (or_empty (resolutions s) @ rs)"
    "\<forall>r \<in> set rs. outcome r \<in> {VERIFIED, REGRESSION}"
  shows "corroboratedFindingIds t = corroboratedFindingIds s"
proof -
  have "filter (\<lambda>r. res_id r \<in> A \<and> outcome r = CORROBORATED) rs = []" for A
    using assms(3) by (auto simp: filter_empty_conv)
  then show ?thesis
    using assms(2) by (simp add: corroboratedFindingIds_def severeRows_ledger[OF assms(1)])
qed

lemma discovery_invariant:
  assumes "ordinary_invariant E s" "recordOrdinaryDiscovery E s input = Inr t"
  shows "ordinary_invariant E t"
  using assms createFrozenLedger_rows(2)
  by (auto simp: result_simps ordinary_invariant_def no_reasons_def ledger_rows_def)

lemma evidence_invariant:
  assumes "ordinary_invariant E s" "resolveOrdinaryEvidence s input = Inr t"
  shows "ordinary_invariant E t"
proof -
  obtain rs ms spent where s: "phase s = DISCOVERY_COMPLETE" "evidence_verdict s input = (rs, ms, spent)"
    and t: "t = evidence_next (spend_refuter spent s) rs ms"
    using assms(2) by (auto simp: result_simps)
  have fields: "resolutions t = Some (or_empty (resolutions s) @ rs)" "ledger t = ledger s" "mode t = mode s"
    "or_empty (escalation_reasons t) = or_empty (escalation_reasons s) @ evidence_reasons (spend_refuter spent s) rs ms"
    "phase t = (if ms = [] \<and> filter (\<lambda>r. outcome r = CORROBORATED) rs \<noteq> [] \<and> budget s fix_batches \<noteq> 0
                then REFUTATION_COMPLETE else FINAL_VERIFICATION)"
    unfolding t evidence_next_def spend_refuter_def by simp_all
  from assms(1) s(1) have inv: "no_reasons s" "or_empty (resolutions s) = []" "mode s = ORDINARY"
    and row_ok: "\<forall>row \<in> set (ledger_rows s). row_ok row"
    by (simp_all add: ordinary_invariant_def)
  have all: "all_decided t" if "ms = []"
    using evidence_verdict_silent[OF s(2)[unfolded that] severe_rows_evidence[OF row_ok]] fields(1) inv
    by (simp add: all_decided_def severeRows_ledger[OF fields(2)])
  have none: "corroboratedFindingIds t = []" if "filter (\<lambda>r. outcome r = CORROBORATED) rs = []"
    using that inv fields(1) by (auto simp: corroboratedFindingIds_def filter_empty_conv)
  have "phase_invariant E t (phase t)"
  proof (cases "phase t = REFUTATION_COMPLETE")
    case True
    then have "ms = []" and "budget s fix_batches \<noteq> 0" using fields(5) by (auto split: if_splits)
    with True all inv fields(4) show ?thesis
      by (simp add: no_reasons_def evidence_reasons_def spend_refuter_def)
  next
    case False
    have "settled E t" if "no_reasons t"
    proof -
      from that fields(4) have "evidence_reasons (spend_refuter spent s) rs ms = []" by (simp add: no_reasons_def)
      then have "ms = []" "filter (\<lambda>r. outcome r = CORROBORATED) rs = [] \<or> budget s fix_batches \<noteq> 0"
        by (auto simp: evidence_reasons_def spend_refuter_def split: if_splits)
      with False fields(5) have "filter (\<lambda>r. outcome r = CORROBORATED) rs = []" by (auto split: if_splits)
      with \<open>ms = []\<close> all none show ?thesis by (simp add: settled_def)
    qed
    moreover have "phase t = FINAL_VERIFICATION" using False fields(5) by (simp split: if_splits)
    ultimately show ?thesis by simp
  qed
  with row_ok fields inv show ?thesis by (simp add: ordinary_invariant_def ledger_rows_ledger[OF fields(2)])
qed

lemma corroborated_same:
  "ledger t = ledger s \<Longrightarrow> resolutions t = resolutions s \<Longrightarrow> corroboratedFindingIds t = corroboratedFindingIds s"
  by (simp add: corroboratedFindingIds_def severeRows_ledger[of t s])

lemma all_decided_same:
  "ledger t = ledger s \<Longrightarrow> resolutions t = resolutions s \<Longrightarrow> all_decided t = all_decided s"
  by (simp add: all_decided_def severeRows_ledger[of t s])

lemma fix_invariant:
  assumes "ordinary_invariant E s" "applyOrdinaryFix E s input = Inr t"
  shows "ordinary_invariant E t"
proof -
  from assms(2) have s: "phase s = REFUTATION_COMPLETE"
    and same: "ledger t = ledger s" "resolutions t = resolutions s" "escalation_reasons t = escalation_reasons s"
      "mode t = mode s" "phase t = FIX_COMPLETE"
    and f: "\<exists>f. fix_record t = Some f \<and> current_candidate_tree t = candidate_tree f \<and>
      chash E (enc_strings (corroboratedFindingIds s)) = chash E (enc_strings (fixed_ids f))"
    by (auto simp: result_simps)
  from assms(1) s have inv: "no_reasons s" "all_decided s" "mode s = ORDINARY" "\<forall>row \<in> set (ledger_rows s). row_ok row"
    by (simp_all add: ordinary_invariant_def)
  with same f show ?thesis
    using corroborated_same[OF same(1,2)] all_decided_same[OF same(1,2)]
    by (simp add: ordinary_invariant_def ledger_rows_ledger[OF same(1)] fix_covers_def no_reasons_def, blast)
qed

lemma no_fix_invariant:
  assumes "ordinary_invariant E s" "declineOrdinaryFix s why = Inr t"
  shows "ordinary_invariant E t"
  using assms by (auto simp: result_simps ordinary_invariant_def no_reasons_def ledger_rows_def)

lemma validation_invariant:
  assumes "ordinary_invariant E s" "recordOrdinaryValidation E s input = Inr t"
  shows "ordinary_invariant E t"
proof -
  obtain f where s: "phase s = FIX_COMPLETE" "fix_record s = Some f" and t: "t = validation_next s (fixed_ids f) input"
    using assms(2) by (auto simp: result_simps)
  obtain rs ms where v: "validation_messages (fixed_ids f) input = (rs, ms)"
    by (cases "validation_messages (fixed_ids f) input")
  have fields: "resolutions t = Some (or_empty (resolutions s) @ rs)" "ledger t = ledger s" "mode t = mode s"
    "or_empty (escalation_reasons t) = or_empty (escalation_reasons s) @ ms" "phase t = FINAL_VERIFICATION"
    "fix_record t = Some f" "current_candidate_tree t = current_candidate_tree s"
    unfolding t validation_next_def v by (simp_all add: s)
  from assms(1) s have inv: "no_reasons s" "all_decided s" "fix_covers E s f" "mode s = ORDINARY"
    "\<forall>row \<in> set (ledger_rows s). row_ok row"
    by (simp_all add: ordinary_invariant_def)
  have "settled E t" if "no_reasons t"
  proof -
    from that fields(4) have ms: "ms = []" by (simp add: no_reasons_def)
    note vs = validation_silent[OF v[unfolded ms]]
    have "corroboratedFindingIds t = corroboratedFindingIds s"
      using fields(1,2) vs(2) by (intro corroborated_append) simp_all
    moreover have "\<forall>i \<in> set (fixed_ids f). verified_by_validator (or_empty (resolutions t)) i"
      using vs(1) fields(1) by (auto simp: verified_by_validator_def)
    ultimately show ?thesis
      using inv(2,3) fields severeRows_ledger[OF fields(2)] by (simp add: settled_def all_decided_def fix_covers_def)
  qed
  with fields inv show ?thesis by (simp add: ordinary_invariant_def ledger_rows_ledger[OF fields(2)])
qed

lemma final_invariant:
  assumes "ordinary_invariant E s" "recordOrdinaryFinalVerification s input = Inr t"
  shows "ordinary_invariant E t"
proof -
  from assms(2) have s: "phase s = FINAL_VERIFICATION" and t: "t = final_next s input"
    by (auto simp: result_simps)
  have same: "ledger t = ledger s" "resolutions t = resolutions s" "mode t = mode s" "phase t = TERMINAL"
      "fix_record t = fix_record s" "current_candidate_tree t = current_candidate_tree s"
      "terminal_state t = Some APPROVED \<longleftrightarrow> passed input \<and> no_reasons s"
      "passed input \<Longrightarrow> escalation_reasons t = escalation_reasons s"
    unfolding t final_next_def Let_def no_reasons_def by simp_all
  from assms(1) s have inv: "no_reasons s \<longrightarrow> settled E s" "mode s = ORDINARY"
    "\<forall>row \<in> set (ledger_rows s). row_ok row"
    by (simp_all add: ordinary_invariant_def)
  have "settled E t = settled E s"
    unfolding settled_def fix_covers_def
    using corroborated_same[OF same(1,2)] all_decided_same[OF same(1,2)] same by simp
  with same inv show ?thesis
    by (auto simp: ordinary_invariant_def ledger_rows_ledger[OF same(1)] no_reasons_def)
qed

lemma reduce_invariant:
  assumes "ordinary_invariant E s" "reduceReviewState E s r = Inr t"
  shows "ordinary_invariant E t"
proof -
  have "mode s = ORDINARY" using assms(1) by (simp add: ordinary_invariant_def)
  with assms show ?thesis
    by (cases r) (auto simp: jd_discovery_iff jd_fix_iff rejudgment_iff rejudgment_request_iff jd_final_iff
        intro: discovery_invariant evidence_invariant fix_invariant no_fix_invariant
        validation_invariant final_invariant)
qed

lemma run_invariant:
  "ordinary_invariant E s \<Longrightarrow> run_reducers (reduceReviewState E) s rs = Inr t \<Longrightarrow> ordinary_invariant E t"
  by (induction rs arbitrary: s) (auto simp: result_simps intro: reduce_invariant)

lemma created_invariant:
  assumes "createReviewState E input = Inr s" "input_mode input = ORDINARY"
  shows "ordinary_invariant E s"
  using createReviewState_initial[OF assms(1)] assms(2)
  by (auto simp: ordinary_invariant_def ledger_rows_def no_reasons_def)

text \<open>A lineage is terminal in the terminal phase only.\<close>

lemma reduce_terminal:
  "reduceReviewState E s r = Inr t \<Longrightarrow> terminal_state t \<noteq> None \<longleftrightarrow> phase t = TERMINAL"
  by (cases r; simp add: result_simps; elim conjE exE; simp add: evidence_next_def spend_refuter_def
      validation_next_def final_next_def rejudgment_next_def Let_def case_prod_beta)

lemma terminal_only_at_end:
  "run_reducers (reduceReviewState E) s rs = Inr t \<Longrightarrow> terminal_state s = None \<and> phase s = STARTED \<Longrightarrow>
   terminal_state t \<noteq> None \<longleftrightarrow> phase t = TERMINAL"
proof -
  have "terminal_state t \<noteq> None \<longleftrightarrow> phase t = TERMINAL"
    if "run_reducers (reduceReviewState E) s rs = Inr t" "terminal_state s \<noteq> None \<longleftrightarrow> phase s = TERMINAL" for s
    using that
  proof (induction rs arbitrary: s)
    case (Cons r rs)
    then show ?case using reduce_terminal[of E s r] by (auto simp: result_simps)
  qed simp
  then show "run_reducers (reduceReviewState E) s rs = Inr t \<Longrightarrow> terminal_state s = None \<and> phase s = STARTED \<Longrightarrow>
   terminal_state t \<noteq> None \<longleftrightarrow> phase t = TERMINAL"
    by simp
qed

section \<open>An approved review\<close>

text \<open>How a finding was closed: refuted, or corroborated, fixed in the one batch and verified.\<close>

definition closed_finding :: "review_state \<Rightarrow> string \<Rightarrow> bool" where
  "closed_finding s i \<longleftrightarrow> answered (or_empty (resolutions s)) (\<lambda>out. out = REFUTED) i \<or>
     (\<exists>f. fix_record s = Some f \<and> i \<in> set (fixed_ids f) \<and> current_candidate_tree s = candidate_tree f \<and>
          verified_by_validator (or_empty (resolutions s)) i)"

lemma settled_closed:
  assumes "settled E s" "row \<in> set (severeRows s)"
    and apart: "\<forall>f. fix_record s = Some f \<longrightarrow>
      texts_apart E (enc_strings (corroboratedFindingIds s)) (enc_strings (fixed_ids f))"
  shows "closed_finding s (row_id row)"
proof -
  let ?rs = "or_empty (resolutions s)" and ?i = "row_id row"
  from assms(1,2) have "answered ?rs decided ?i" by (simp add: settled_def all_decided_def)
  then consider "answered ?rs (\<lambda>out. out = REFUTED) ?i" | "answered ?rs (\<lambda>out. out = CORROBORATED) ?i"
    by (auto simp: answered_def decided_def)
  then show ?thesis
  proof cases
    case 2
    with assms(2) have i: "?i \<in> set (corroboratedFindingIds s)"
      by (force simp: corroboratedFindingIds_def answered_def)
    then have "corroboratedFindingIds s \<noteq> []" by auto
    with assms(1) obtain f where f: "fix_record s = Some f" "fix_covers E s f"
      "\<forall>i \<in> set (fixed_ids f). verified_by_validator ?rs i"
      by (auto simp: settled_def)
    have "norm (enc_strings (corroboratedFindingIds s)) = norm (enc_strings (fixed_ids f))"
      using f(2) apart f(1) faithfulD(2)[OF faithful_strings]
      by (intro chash_eqD) (auto simp: fix_covers_def)
    then have "corroboratedFindingIds s = fixed_ids f" using faithfulD(3)[OF faithful_strings] by simp
    with i f show ?thesis by (auto simp: closed_finding_def fix_covers_def)
  qed (simp add: closed_finding_def)
qed

section \<open>Finishing\<close>

text \<open>What the later steps of a lineage need is still unspent.\<close>

fun unspent_in :: "host \<Rightarrow> review_state \<Rightarrow> review_phase \<Rightarrow> bool" where
  "unspent_in E s STARTED =
     (terminal_state s = None \<and> counters s = zeroCounters \<and> assertRouteBinding E s = Inr ())"
| "unspent_in E s DISCOVERY_COMPLETE =
     (terminal_state s = None \<and> counters s final_verifications = 0 \<and> ledger s \<noteq> None)"
| "unspent_in E s REFUTATION_COMPLETE = (terminal_state s = None \<and> counters s final_verifications = 0)"
| "unspent_in E s FIX_COMPLETE = (terminal_state s = None \<and> counters s final_verifications = 0)"
| "unspent_in E s FINAL_VERIFICATION = (terminal_state s = None \<and> counters s final_verifications = 0)"
| "unspent_in E s TERMINAL = (terminal_state s \<noteq> None)"
| "unspent_in E s _ = False"

definition unspent :: "host \<Rightarrow> review_state \<Rightarrow> bool" where
  "unspent E s \<longleftrightarrow> mode s = ORDINARY \<and> ordinary_budget s \<and> unspent_in E s (phase s)"

lemma reduce_unspent:
  assumes "unspent E s" "reduceReviewState E s r = Inr t"
  shows "unspent E t"
proof -
  have b: "mode t = ORDINARY" "ordinary_budget t"
    using reduce_binding[OF assms(2)] assms(1) by (simp_all add: unspent_def ordinary_budget_def same_binding_def)
  have "unspent_in E t (phase t)"
  proof (cases r)
    case (OrdinaryDiscovery rws)
    with assms show ?thesis by (auto simp: discovery_iff unspent_def zeroCounters_def)
  next
    case (OrdinaryEvidence input)
    with assms show ?thesis
      by (auto simp: evidence_iff unspent_def evidence_next_def spend_refuter_def)
  next
    case (OrdinaryValidation input)
    then obtain ids where "t = validation_next s ids input" "phase s = FIX_COMPLETE"
      using assms(2) by (auto simp: result_simps)
    with assms(1) show ?thesis by (simp add: unspent_def validation_next_def case_prod_beta Let_def)
  qed (use assms in \<open>auto simp: unspent_def fix_iff no_fix_iff final_iff jd_discovery_iff jd_fix_iff
      rejudgment_iff rejudgment_request_iff jd_final_iff final_next_def Let_def\<close>)
  with b show ?thesis by (simp add: unspent_def)
qed

lemma run_unspent: "unspent E s \<Longrightarrow> run_reducers (reduceReviewState E) s rs = Inr t \<Longrightarrow> unspent E t"
  by (induction rs arbitrary: s) (auto simp: result_simps intro: reduce_unspent)

lemma created_unspent:
  assumes "createReviewState E input = Inr s" "input_mode input = ORDINARY" "ordinary_budget s"
  shows "unspent E s"
proof -
  obtain r ls where s: "derive_route E input = Inr (r, ls)" "s = initial_state input r ls"
    using createReviewState_initial[OF assms(1)] by blast
  have "assertRouteBinding E s = Inr ()"
    using derive_route_lenses[OF s(1)] by (auto simp: s(2) assertRouteBinding_def split: review_route.splits)
  with assms(2,3) show ?thesis by (simp add: unspent_def s(2))
qed

lemma final_step:
  assumes "unspent E s" "phase s = FINAL_VERIFICATION"
  shows "\<exists>t. reduceReviewState E s (OrdinaryFinalVerification input) = Inr t \<and> phase t = TERMINAL \<and> terminal_state t \<noteq> None"
  using assms by (simp add: final_iff unspent_def ordinary_budget_def final_next_def Let_def)

lemma evidence_step:
  assumes "unspent E s" "phase s = DISCOVERY_COMPLETE"
  shows "\<exists>t. reduceReviewState E s (OrdinaryEvidence \<lparr>deterministicResults = [], refuterResults = None\<rparr>) = Inr t \<and>
    phase t = FINAL_VERIFICATION"
proof -
  let ?input = "\<lparr>deterministicResults = [], refuterResults = None\<rparr>"
  obtain rs ms spent where v: "evidence_verdict s ?input = (rs, ms, spent)" by (cases "evidence_verdict s ?input")
  have rs: "filter (\<lambda>r. outcome r = CORROBORATED) rs = []" "\<not> spent"
    using v by (auto simp: evidence_verdict_def validateResolutionList_def resolve_def filter_empty_conv Let_def
        split: if_splits)
  from assms v rs show ?thesis
    by (auto simp: evidence_iff unspent_def evidence_next_def spend_refuter_def)
qed

lemma discovery_step:
  assumes "unspent E s" "phase s = STARTED"
  shows "\<exists>t. reduceReviewState E s (OrdinaryDiscovery []) = Inr t \<and> phase t = DISCOVERY_COMPLETE"
  using assms
  by (simp add: discovery_iff unspent_def ordinary_budget_def zeroCounters_def createFrozenLedger_def Let_def)

lemma no_fix_step:
  assumes "unspent E s" "phase s = REFUTATION_COMPLETE"
  shows "\<exists>t. reduceReviewState E s (OrdinaryNoFix ''x'') = Inr t \<and> phase t = FINAL_VERIFICATION"
  using assms by (simp add: no_fix_iff unspent_def trim_def trim_end_def js_space_def)

definition can_finish :: "host \<Rightarrow> review_state \<Rightarrow> bool" where
  "can_finish E s \<longleftrightarrow> (\<exists>rs t. run_reducers (reduceReviewState E) s rs = Inr t \<and> terminal_state t \<noteq> None)"

lemma can_finish_step:
  assumes "reduceReviewState E s r = Inr u" "can_finish E u"
  shows "can_finish E s"
proof -
  obtain rs t where "run_reducers (reduceReviewState E) u rs = Inr t" "terminal_state t \<noteq> None"
    using assms(2) unfolding can_finish_def by blast
  then have "run_reducers (reduceReviewState E) s (r # rs) = Inr t" "terminal_state t \<noteq> None"
    using assms(1) by simp_all
  then show ?thesis unfolding can_finish_def by blast
qed

lemma can_finish_terminal: "terminal_state s \<noteq> None \<Longrightarrow> can_finish E s"
  unfolding can_finish_def by (metis run_reducers.simps(1))

lemma finishes:
  assumes "unspent E s" "phase s \<noteq> FIX_COMPLETE"
  shows "can_finish E s"
proof -
  have final: "can_finish E u" if u: "unspent E u" "phase u = FINAL_VERIFICATION" for u
    using final_step[OF u] can_finish_step can_finish_terminal by blast
  have evidence: "can_finish E u" if u: "unspent E u" "phase u = DISCOVERY_COMPLETE" for u
    using evidence_step[OF u] reduce_unspent[OF u(1)] final can_finish_step by blast
  have "can_finish E s" if "phase s = STARTED"
    using discovery_step[OF assms(1) that] reduce_unspent[OF assms(1)] evidence can_finish_step by blast
  moreover have "can_finish E s" if "phase s = REFUTATION_COMPLETE"
    using no_fix_step[OF assms(1) that] reduce_unspent[OF assms(1)] final can_finish_step by blast
  ultimately show ?thesis
    using assms final evidence by (cases "phase s") (auto simp: unspent_def intro: can_finish_terminal)
qed

section \<open>Leaving the fix-complete phase\<close>

lemma collation_regression_comparator: "collation E \<Longrightarrow> comparator (regression_compare E)"
  unfolding regression_compare_def [abs_def] by (rule collation_comparator)

definition proof_ids :: "validation_input \<Rightarrow> string list" where
  "proof_ids input = map finding_id (correction_regressions (request_proof (request input)))"

lemma sorted_by_map: "sorted_by (regression_compare E) rs \<longleftrightarrow> sorted_by (locale_compare E) (map finding_id rs)"
  by (simp add: sorted_by_def sorted_wrt_map regression_compare_def)

lemma faithful_acceptance: "norm (enc_acceptance p h) = norm (enc_acceptance q k) \<longleftrightarrow> p = q \<and> h = k"
  by (auto simp: enc_acceptance_def)

lemma enc_request_fields:
  assumes "norm (enc_request p) = norm (enc_request q)"
  shows "correction_regressions (request_proof p) = correction_regressions (request_proof q)"
proof -
  have "map_option norm (obj_field ''correction_regressions'' fs) = map_option norm (obj_field ''correction_regressions'' gs)"
    if "enc_request p = JObj fs" "enc_request q = JObj gs" "distinct (map fst fs)" "distinct (map fst gs)" for fs gs
    using assms that by (intro obj_field_norm) auto
  from this[OF enc_request_def enc_request_def] show ?thesis
    using faithfulD[OF faithful_list[OF faithful_regression]] by simp
qed

lemma enc_request_encodable: "encodable (enc_request p)"
  unfolding enc_request_def enc_acceptance_def
  using faithfulD[OF faithful_strings] faithfulD[OF faithful_rows] faithfulD[OF faithful_list[OF faithful_regression]]
    faithfulD[OF faithful_list[OF faithful_follow_up]]
  by simp

lemma validation_needs_order:
  assumes "collation E" "recordOrdinaryValidation E s input = Inr t" "fix_record s = Some f"
    and ids: "texts_apart E (enc_strings (proof_ids input)) (enc_strings (fixed_ids f))"
    and req: "\<forall>expected. ordinaryValidatorRequest E s (request_proof (request input)) = Inr expected \<longrightarrow>
      texts_apart E (enc_request (request input)) (enc_request expected)"
  shows "sorted_by (locale_compare E) (fixed_ids f)"
proof -
  obtain q where q: "ordinaryValidatorRequest E s (request_proof (request input)) = Inr q"
    and eq: "chash E (enc_request (request input)) = chash E (enc_request q)"
    and r: "chash E (enc_strings (proof_ids input)) = chash E (enc_strings (requested_ids q))"
    using assms(2) by (auto simp: validation_iff proof_ids_def)
  have fields: "requested_ids q = fixed_ids f" "correction_regressions (request_proof q) =
      sort_by (regression_compare E) (correction_regressions (request_proof (request input)))"
    using q assms(3) by (auto simp: validator_request_iff)
  have "norm (enc_request (request input)) = norm (enc_request q)"
    using eq req q by (intro chash_eqD) (auto simp: enc_request_encodable)
  from enc_request_fields[OF this] fields(2)
  have "sorted_by (regression_compare E) (correction_regressions (request_proof (request input)))"
    using sorted_sort_by[OF collation_regression_comparator[OF assms(1)]] by metis
  then have sorted: "sorted_by (locale_compare E) (proof_ids input)" by (simp add: sorted_by_map proof_ids_def)
  have "norm (enc_strings (proof_ids input)) = norm (enc_strings (fixed_ids f))"
    using r ids fields(1) faithfulD(2)[OF faithful_strings] by (intro chash_eqD) auto
  then have "proof_ids input = fixed_ids f" using faithfulD(3)[OF faithful_strings] by simp
  with sorted show ?thesis by simp
qed

lemma fix_complete_only_validation:
  assumes "phase s = FIX_COMPLETE" "mode s = ORDINARY" "reduceReviewState E s r = Inr t"
  shows "\<exists>input. r = OrdinaryValidation input"
  using assms by (cases r) (auto simp: discovery_iff evidence_iff fix_iff no_fix_iff final_iff
      jd_discovery_iff jd_fix_iff rejudgment_iff rejudgment_request_iff jd_final_iff)

text \<open>With the identifiers in locale order the way out exists: the exact request, and any answer.\<close>

definition matching_proof :: "string list \<Rightarrow> validation_proof" where
  "matching_proof ids = \<lparr>acceptance_passed = True, acceptance_hash = replicate 64 (CHR ''0''),
     correction_regressions = map (\<lambda>i. \<lparr>finding_id = i, regression_hash = replicate 64 (CHR ''0''),
       regression_passed = True\<rparr>) ids,
     original_criterion_regressions = [], follow_ups = []\<rparr>"

lemma validation_possible:
  assumes "unspent E s" "phase s = FIX_COMPLETE" "fix_record s = Some f" "ledger s = Some l"
    and "length (filter (\<lambda>row. row_id row \<in> set (fixed_ids f)) (rows l)) = length (fixed_ids f)"
    and "counters s validator_runs < budget s validator_runs" "sorted_by (locale_compare E) (fixed_ids f)"
  shows "\<exists>input t. reduceReviewState E s (OrdinaryValidation input) = Inr t \<and> phase t = FINAL_VERIFICATION"
proof -
  define p where "p = matching_proof (fixed_ids f)"
  define q where "q = \<lparr>requested_ids = fixed_ids f,
    frozen_rows = filter (\<lambda>row. row_id row \<in> set (fixed_ids f)) (rows l),
    request_ledger_hash = frozen_ledger_hash l, request_proof = p\<rparr>"
  have p: "map finding_id (correction_regressions p) = fixed_ids f" "follow_ups p = []" "acceptance_passed p"
    "\<forall>r \<in> set (correction_regressions p). regression_passed r"
    by (simp_all add: p_def matching_proof_def comp_def)
  have "sort_by (regression_compare E) (correction_regressions p) = correction_regressions p"
    using assms(7) p(1) by (intro sort_by_idem) (simp add: sorted_by_map)
  then have "ordinaryValidatorRequest E s p = Inr q"
    using assms p by (simp add: validator_request_iff unspent_def normalizeFollowUps_def q_def)
  then have "reduceReviewState E s (OrdinaryValidation \<lparr>request = q, results = []\<rparr>) =
      Inr (validation_next s (fixed_ids f) \<lparr>request = q, results = []\<rparr>)"
    using assms(6) p by (auto simp: validation_iff q_def)
  moreover have "phase (validation_next s ids i) = FINAL_VERIFICATION" for ids i
    by (simp add: validation_next_def case_prod_beta Let_def)
  ultimately show ?thesis by blast
qed

end
