(* ===== verification/JudgmentLifecycle.thy ===== *)
theory JudgmentLifecycle
  imports OrdinaryLifecycle
begin

text \<open>
  The life of a Judgment Day lineage: a severe finding leaves the active list only when both
  judges verified it in the same round, and an approval leaves none active.
\<close>

section \<open>What a judge's results say\<close>

definition verdicts :: "finding_resolution list \<Rightarrow> string \<Rightarrow> nat" where
  "verdicts rs i = length (filter (\<lambda>r. res_id r = i \<and> outcome r = VERIFIED \<and> source r = JUDGE) rs)"

lemma verdicts_append [simp]: "verdicts (as @ bs) i = verdicts as i + verdicts bs i"
  by (simp add: verdicts_def)

lemma scan_judge_verified:
  "scan_judge judge ids m inputs = (m', rs, ms) \<Longrightarrow> m' i = Some VERIFIED \<Longrightarrow> m i = Some VERIFIED \<or> 1 \<le> verdicts rs i"
proof (induction judge ids m inputs arbitrary: m' rs ms rule: scan_judge.induct)
  case (2 judge ids m res inputs)
  consider (skip) "in_id res \<notin> set ids \<or> m (in_id res) \<noteq> None \<or> \<not> judge_outcome (in_outcome res)"
    | (take) "in_id res \<in> set ids" "m (in_id res) = None" "judge_outcome (in_outcome res)" by blast
  then show ?case
  proof cases
    case skip
    then have "\<exists>ms'. scan_judge judge ids m inputs = (m', rs, ms')"
      using "2.prems"(1) by (auto split: if_splits prod.splits)
    with skip "2.IH" "2.prems"(2) show ?thesis by (metis)
  next
    case take
    then obtain rs' where rs': "scan_judge judge ids (m(in_id res \<mapsto> in_outcome res)) inputs = (m', rs', ms)"
      "rs = resolve (in_id res) (in_outcome res) JUDGE # rs'"
      using "2.prems"(1) by (auto split: prod.splits)
    from "2.IH"(4)[OF _ _ _ rs'(1) "2.prems"(2)] take
    have "(m(in_id res \<mapsto> in_outcome res)) i = Some VERIFIED \<or> 1 \<le> verdicts rs' i" by simp
    then show ?thesis
      unfolding rs'(2) by (auto simp: verdicts_def resolve_def split: if_splits)
  qed
qed simp

text \<open>A verdict of a judge is one of the results that judge returned.\<close>

lemma scan_judge_returned:
  "scan_judge judge ids m inputs = (m', rs, ms) \<Longrightarrow> m' i = Some out \<Longrightarrow> m i = Some out \<or> (\<exists>x \<in> set inputs. in_id x = i \<and> in_outcome x = out)"
proof (induction judge ids m inputs arbitrary: m' rs ms rule: scan_judge.induct)
  case (2 judge ids m res inputs)
  consider (skip) "in_id res \<notin> set ids \<or> m (in_id res) \<noteq> None \<or> \<not> judge_outcome (in_outcome res)"
    | (take) "in_id res \<in> set ids" "m (in_id res) = None" "judge_outcome (in_outcome res)" by blast
  then show ?case
  proof cases
    case skip
    then obtain rs' ms' where "scan_judge judge ids m inputs = (m', rs', ms')"
      using "2.prems"(1) by (auto split: if_splits prod.splits)
    moreover have "m i = Some out \<or> (\<exists>x \<in> set inputs. in_id x = i \<and> in_outcome x = out)"
      using skip "2.IH"(1-3) "2.prems"(2) calculation by metis
    ultimately show ?thesis by auto
  next
    case take
    then obtain rs' where rs': "scan_judge judge ids (m(in_id res \<mapsto> in_outcome res)) inputs = (m', rs', ms)"
      using "2.prems"(1) by (auto split: prod.splits)
    from "2.IH"(4)[OF _ _ _ rs' "2.prems"(2)] take
    have "(m(in_id res \<mapsto> in_outcome res)) i = Some out \<or> (\<exists>x \<in> set inputs. in_id x = i \<and> in_outcome x = out)" by simp
    then show ?thesis by (auto split: if_splits)
  qed
qed simp

lemma collect_returned:
  "fst (collectJudgeResults judge inputs ids) i = Some out \<Longrightarrow> \<exists>x \<in> set inputs. in_id x = i \<and> in_outcome x = out"
  using scan_judge_returned[of judge ids "\<lambda>_. None" inputs]
  by (auto simp: collectJudgeResults_def Let_def split: prod.splits)

lemma collect_verified:
  "fst (collectJudgeResults judge inputs ids) i = Some VERIFIED \<Longrightarrow>
   1 \<le> verdicts (fst (snd (collectJudgeResults judge inputs ids))) i"
  using scan_judge_verified[of judge ids "\<lambda>_. None" inputs]
  by (auto simp: collectJudgeResults_def Let_def split: prod.splits)

section \<open>The invariant\<close>

text \<open>\<open>H\<close> are the reductions applied so far: both judges returned a verified verdict, each in its own results, in one of them.\<close>

definition returned_verified :: "finding_input list \<Rightarrow> string \<Rightarrow> bool" where
  "returned_verified inputs i \<longleftrightarrow> (\<exists>x \<in> set inputs. in_id x = i \<and> in_outcome x = VERIFIED)"

definition both_verified :: "reduction set \<Rightarrow> string \<Rightarrow> bool" where
  "both_verified H i \<longleftrightarrow>
     (\<exists>j. JudgmentDayRejudgment j \<in> H \<and> returned_verified (judgeAResults j) i \<and> returned_verified (judgeBResults j) i)"

lemma both_verified_mono: "both_verified H i \<Longrightarrow> H \<subseteq> K \<Longrightarrow> both_verified K i"
  by (auto simp: both_verified_def)

definition judged :: "reduction set \<Rightarrow> review_state \<Rightarrow> string \<Rightarrow> bool" where
  "judged H s i \<longleftrightarrow> i \<in> set (or_empty (active_finding_ids s)) \<or> 2 \<le> verdicts (or_empty (resolutions s)) i \<and> both_verified H i"

definition all_judged :: "reduction set \<Rightarrow> review_state \<Rightarrow> bool" where
  "all_judged H s \<longleftrightarrow> (\<forall>row \<in> set (severeRows s). judged H s (row_id row))"

definition tree_is_fixed :: "review_state \<Rightarrow> bool" where
  "tree_is_fixed s \<longleftrightarrow> (severeRows s \<noteq> [] \<longrightarrow>
     (\<exists>f. fix_record s = Some f \<and> current_candidate_tree s = candidate_tree f))"

definition all_verified :: "reduction set \<Rightarrow> review_state \<Rightarrow> bool" where
  "all_verified H s \<longleftrightarrow> tree_is_fixed s \<and>
     (\<forall>row \<in> set (severeRows s). 2 \<le> verdicts (or_empty (resolutions s)) (row_id row) \<and> both_verified H (row_id row))"

fun judgment_phase_invariant :: "reduction set \<Rightarrow> review_state \<Rightarrow> review_phase \<Rightarrow> bool" where
  "judgment_phase_invariant H s STARTED = True"
| "judgment_phase_invariant H s JUDGMENT_COMPLETE = all_judged H s"
| "judgment_phase_invariant H s FIX_COMPLETE = (all_judged H s \<and> tree_is_fixed s)"
| "judgment_phase_invariant H s FINAL_VERIFICATION = (no_reasons s \<longrightarrow> all_verified H s)"
| "judgment_phase_invariant H s TERMINAL = (terminal_state s = Some APPROVED \<longrightarrow> no_reasons s \<and> all_verified H s)"
| "judgment_phase_invariant H s _ = False"

definition judgment_invariant :: "reduction set \<Rightarrow> review_state \<Rightarrow> bool" where
  "judgment_invariant H s \<longleftrightarrow> mode s = JUDGMENT_DAY \<and> judgment_phase_invariant H s (phase s)"

lemma jd_discovery_invariant:
  assumes "judgment_invariant H s" "recordJudgmentDayDiscovery E s input = Inr t"
  shows "judgment_invariant (insert r H) t"
proof -
  obtain frozen where t: "ledger t = Some frozen" "active_finding_ids t = Some (severeIds (rows frozen))"
    "phase t = (if severeIds (rows frozen) = [] then FINAL_VERIFICATION else JUDGMENT_COMPLETE)" "mode t = JUDGMENT_DAY"
    using assms(2) by (auto simp: jd_discovery_iff split del: if_split)
  have "set (severeIds (rows frozen)) = row_id ` set (severeRows t)"
    using t(1) by (auto simp: severeIds_def severeRows_def ledger_rows_def)
  with t show ?thesis
    by (auto simp: judgment_invariant_def all_judged_def judged_def all_verified_def tree_is_fixed_def)
qed

lemma jd_fix_invariant:
  assumes "judgment_invariant H s" "applyJudgmentDayFix E s input = Inr t"
  shows "judgment_invariant (insert r H) t"
proof -
  have t: "phase s = JUDGMENT_COMPLETE" "ledger t = ledger s" "resolutions t = resolutions s" "mode t = mode s"
    "active_finding_ids t = active_finding_ids s" "phase t = FIX_COMPLETE"
    "\<exists>f. fix_record t = Some f \<and> current_candidate_tree t = candidate_tree f"
    using assms(2) by (auto simp: jd_fix_iff)
  have "both_verified (insert r H) i" if "both_verified H i" for i using both_verified_mono[OF that] by blast
  with assms(1) t severeRows_ledger[OF t(2)] show ?thesis
    by (auto simp: judgment_invariant_def all_judged_def judged_def tree_is_fixed_def)
qed

lemma surviving_judged:
  assumes "i \<in> set ids" "i \<notin> set (surviving ids input)"
  shows "2 \<le> verdicts (fst (snd (collectJudgeResults ''Judge A'' (judgeAResults input) ids)) @
                       fst (snd (collectJudgeResults ''Judge B'' (judgeBResults input) ids))) i
    \<and> returned_verified (judgeAResults input) i \<and> returned_verified (judgeBResults input) i"
proof -
  have "fst (collectJudgeResults ''Judge A'' (judgeAResults input) ids) i = Some VERIFIED"
    "fst (collectJudgeResults ''Judge B'' (judgeBResults input) ids) i = Some VERIFIED"
    using assms by (auto simp: surviving_def)
  from collect_verified[OF this(1)] collect_verified[OF this(2)] collect_returned[OF this(1)] collect_returned[OF this(2)]
  show ?thesis by (simp add: returned_verified_def)
qed

lemma rejudgment_invariant:
  assumes "judgment_invariant H s" "recordJudgmentDayRejudgment E s input = Inr t" and r: "r = JudgmentDayRejudgment input"
  shows "judgment_invariant (insert r H) t"
proof -
  define ids where "ids = sort (or_empty (active_finding_ids s))"
  define new where "new = fst (snd (collectJudgeResults ''Judge A'' (judgeAResults input) ids)) @
                          fst (snd (collectJudgeResults ''Judge B'' (judgeBResults input) ids))"
  have s: "phase s = FIX_COMPLETE" "t = rejudgment_next s ids input" and m: "mode s = JUDGMENT_DAY"
    using assms(2) by (auto simp: rejudgment_iff rejudgment_request_iff ids_def Let_def)
  have t: "ledger t = ledger s" "resolutions t = Some (or_empty (resolutions s) @ new)" "mode t = mode s"
    "active_finding_ids t = Some (surviving ids input)" "fix_record t = fix_record s"
    "current_candidate_tree t = current_candidate_tree s"
    "phase t = (if surviving ids input \<noteq> [] \<and> counters s judgment_rounds + 1 < 2 then JUDGMENT_COMPLETE
                else FINAL_VERIFICATION)"
    "surviving ids input \<noteq> [] \<Longrightarrow> 2 \<le> counters s judgment_rounds + 1 \<Longrightarrow> \<not> no_reasons t"
    unfolding s(2) rejudgment_next_def Let_def new_def no_reasons_def by simp_all
  note rows = severeRows_ledger[OF t(1)]
  from assms(1) s(1) have old: "all_judged H s" "tree_is_fixed s" by (simp_all add: judgment_invariant_def)
  have "set (or_empty (active_finding_ids s)) = set ids" by (simp add: ids_def)
  then have act: "i \<in> set ids" if "i \<in> set (or_empty (active_finding_ids s))" for i using that by simp
  have gone: "2 \<le> verdicts new i \<and> both_verified (insert r H) i" if "i \<in> set ids" "i \<notin> set (surviving ids input)" for i
    using surviving_judged[OF that] unfolding new_def both_verified_def r by blast
  have "judged (insert r H) t i" if i: "judged H s i" for i
  proof (cases "i \<in> set (or_empty (active_finding_ids s)) \<and> i \<notin> set (surviving ids input)")
    case True
    then have "2 \<le> verdicts new i \<and> both_verified (insert r H) i" using gone[OF act] by blast
    then show ?thesis using t(2) by (simp add: judged_def)
  next
    case False
    then show ?thesis using i t(2,4) both_verified_mono[of H i "insert r H"] by (auto simp: judged_def)
  qed
  then have "all_judged (insert r H) t" using old(1) by (simp add: all_judged_def rows)
  moreover have "tree_is_fixed t" using old(2) t(5,6) rows by (simp add: tree_is_fixed_def)
  moreover have "all_verified (insert r H) t" if "all_judged (insert r H) t" "tree_is_fixed t" "surviving ids input = []"
    using that t(4) by (simp add: all_judged_def judged_def all_verified_def)
  ultimately show ?thesis
    using t(3,7,8) m by (cases "surviving ids input = []"; cases "counters s judgment_rounds + 1 < 2")
      (simp_all add: judgment_invariant_def)
qed

lemma jd_final_invariant:
  assumes "judgment_invariant H s" "recordJudgmentDayFinalVerification s input = Inr t"
  shows "judgment_invariant (insert r H) t"
proof -
  from assms(2) have s: "phase s = FINAL_VERIFICATION" and t: "t = final_next s input" by (auto simp: jd_final_iff)
  have same: "ledger t = ledger s" "resolutions t = resolutions s" "mode t = mode s" "phase t = TERMINAL"
      "fix_record t = fix_record s" "current_candidate_tree t = current_candidate_tree s"
      "terminal_state t = Some APPROVED \<longleftrightarrow> passed input \<and> no_reasons s"
      "passed input \<Longrightarrow> escalation_reasons t = escalation_reasons s"
    unfolding t final_next_def Let_def no_reasons_def by simp_all
  have "all_verified (insert r H) t" if "all_verified H s"
    using that severeRows_ledger[OF same(1)] same(2,5,6) both_verified_mono[of H _ "insert r H"] by (auto simp: all_verified_def tree_is_fixed_def)
  with assms(1) s same show ?thesis by (auto simp: judgment_invariant_def no_reasons_def)
qed

lemma judgment_reduce_invariant:
  assumes "judgment_invariant H s" "reduceReviewState E s r = Inr t"
  shows "judgment_invariant (insert r H) t"
proof -
  have "mode s = JUDGMENT_DAY" using assms(1) by (simp add: judgment_invariant_def)
  with assms show ?thesis
    by (cases r) (auto simp: discovery_iff evidence_iff fix_iff no_fix_iff validation_iff validator_request_iff final_iff
        intro: jd_discovery_invariant jd_fix_invariant rejudgment_invariant jd_final_invariant)
qed

lemma judgment_run_invariant:
  "judgment_invariant H s \<Longrightarrow> run_reducers (reduceReviewState E) s rs = Inr t \<Longrightarrow> judgment_invariant (set rs \<union> H) t"
proof (induction rs arbitrary: s H)
  case (Cons r rs)
  then obtain u where "reduceReviewState E s r = Inr u" "run_reducers (reduceReviewState E) u rs = Inr t" by (auto simp: result_simps)
  from Cons.IH[OF judgment_reduce_invariant[OF Cons.prems(1) this(1)] this(2)] show ?case by simp
qed simp

lemma judgment_created_invariant:
  assumes "createReviewState E input = Inr s" "input_mode input = JUDGMENT_DAY"
  shows "judgment_invariant H s"
  using createReviewState_initial[OF assms(1)] assms(2) by (auto simp: judgment_invariant_def)

end
