(* ===== verification/OrdinaryClaims.thy ===== *)
theory OrdinaryClaims
  imports OrdinaryLifecycle
begin

text \<open>
  The properties of an ordinary review from its creation to its end, and the sample lineage that
  serves their witnesses.
\<close>

section \<open>A sample lineage\<close>

definition sample_budget :: review_counters where
  "sample_budget k = (if k = judgment_rounds \<or> k = judge_runs then 0 else 1)"

definition sample_evidence :: diff_evidence where
  "sample_evidence = \<lparr>event = ORDINARY_START, changedLines = 12, triviality_of = UNPROVEN, evidenceComplete = True,
     executableChanged = True, configurationChanged = False, hotPathChanged = False, riskSignal = True,
     resilienceSignal = False, reliabilitySignal = False\<rparr>"

definition sample_tree :: "char \<Rightarrow> string" where
  "sample_tree c = replicate 40 c"

definition sample_digest :: string where
  "sample_digest = replicate 64 (CHR ''0'')"

definition sample_store :: snapshot_store where
  "sample_store = \<lparr>snapshot_directory = ''/s'', object_directory = ''/s/o'', alternate_object_directory = ''/g'',
     metadata_path = ''/s/m'', sensitivity = ''private'', cleanup_trigger = ''terminal'', cleanup_action = ''remove''\<rparr>"

definition sample_snapshot :: snapshot where
  "sample_snapshot = \<lparr>snap_schema = ''gentle-ai.review-snapshot/v1'', snap_mode = ORDINARY,
     snap_base_tree = sample_tree (CHR ''a''), snap_complete_tree = sample_tree (CHR ''b''),
     snap_projection = COMPLETE, snap_initial_tree = sample_tree (CHR ''b''),
     snap_genesis_paths = Some [''src/a.ts''], snap_evidence = sample_evidence, snap_route = STANDARD,
     snap_lenses = [dominantLens sample_evidence], snap_policy_hash = sample_digest, snap_object_store = sample_store\<rparr>"

definition sample_create :: create_input where
  "sample_create = \<lparr>lineageId = ''lineage-1'', parentLineageId = None, input_mode = ORDINARY,
     input_snapshot = sample_snapshot, evidenceHash = sample_digest, input_budget = sample_budget\<rparr>"

definition sample_state :: review_state where
  "sample_state = initial_state sample_create STANDARD [dominantLens sample_evidence]"

definition sample_rows :: "string list \<Rightarrow> frozen_row list" where
  "sample_rows ids = map (\<lambda>i. (sample_row i)\<lparr>row_lens := lens_text (dominantLens sample_evidence)\<rparr>) ids"

definition sample_opening :: "string list \<Rightarrow> reduction list" where
  "sample_opening ids = [OrdinaryDiscovery (sample_rows ids),
     OrdinaryEvidence \<lparr>deterministicResults = map (\<lambda>i. \<lparr>in_id = i, in_outcome = CORROBORATED\<rparr>) ids,
       refuterResults = None\<rparr>,
     OrdinaryFix \<lparr>candidateTree = sample_tree (CHR ''c''), fixedIds = ids, fixDiff = ''diff'',
       fixPaths = Some [''src/a.ts'']\<rparr>]"

definition sample_history :: "reduction list" where
  "sample_history = sample_opening [''R1''] @
     [OrdinaryValidation \<lparr>request = \<lparr>requested_ids = [''R1''], frozen_rows = sample_rows [''R1''],
        request_ledger_hash = sample_digest, request_proof = matching_proof [''R1'']\<rparr>,
        results = [\<lparr>in_id = ''R1'', in_outcome = VERIFIED\<rparr>]\<rparr>,
      OrdinaryFinalVerification \<lparr>passed = True, reason = None\<rparr>]"

lemma sample_created: "createReviewState E sample_create = Inr sample_state"
proof -
  have "OBJECT_ID (sample_tree (CHR ''a''))" "OBJECT_ID (sample_tree (CHR ''b''))" "DIGEST sample_digest"
    "LINEAGE_ID ''lineage-1''" by code_simp+
  moreover have "assertCanonicalPaths [''src/a.ts''] l = Inr ()" for l
    unfolding assertCanonicalPaths_def by (simp add: sorted_uniq_def)
  moreover have "classifyReviewRoute sample_evidence = Inr \<lparr>plan_route = STANDARD,
      plan_lenses = [dominantLens sample_evidence], plan_reason = ''non-trivial or unproven diff uses one dominant-risk lens''\<rparr>"
    by (simp add: classifyReviewRoute_def sample_evidence_def LARGE_CHANGED_LINE_THRESHOLD_def)
  ultimately have "assertState E sample_state None = Inr ()" "derive_route E sample_create = Inr (STANDARD, [dominantLens sample_evidence])"
    unfolding assertState_def assertObjectId_def assertDigest_def assertLineageId_def assertBudget_def assertCounters_def
    by (simp_all add: sample_state_def initial_state_def sample_create_def sample_snapshot_def Let_def derive_route_def
        sample_budget_def safe_integer_def zeroCounters_def COUNTER_KEYS_def)
  then show ?thesis
    by (simp add: createReviewState_def Let_def sample_create_def sample_snapshot_def sample_state_def initial_state_def)
qed

lemma sample_finished:
  "\<exists>t. run_reducers (reduceReviewState code_unit_host) sample_state sample_history = Inr t \<and>
     terminal_state t = Some APPROVED \<and> map row_id (severeRows t) = [''R1''] \<and>
     corroboratedFindingIds t = [''R1''] \<and> map_option fixed_ids (fix_record t) = Some [''R1'']"
proof -
  have "(case run_reducers (reduceReviewState code_unit_host) sample_state sample_history of
      Inl e \<Rightarrow> False
    | Inr t \<Rightarrow> terminal_state t = Some APPROVED \<and> map row_id (severeRows t) = [''R1''] \<and>
        corroboratedFindingIds t = [''R1''] \<and> map_option fixed_ids (fix_record t) = Some [''R1''])"
    by code_simp
  then show ?thesis by (auto split: sum.splits)
qed

lemma map_single:
  assumes "map f xs = [y]"
  obtains x where "xs = [x]" "f x = y"
  using assms by auto

section \<open>Properties\<close>

text \<open>
  C1: what an approval means. When an ordinary lineage that \<open>createReviewState\<close> started is approved,
  nothing was ever escalated, and every open BLOCKER or CRITICAL row of its frozen ledger is
  closed: refuted, or part of the one fix batch, verified by the validator, with the fixed tree
  as the current candidate. The hash of the corroborated identifiers is assumed not to collide
  with that of the fixed ones.
\<close>

theorem approval_means_closed:
  assumes "createReviewState E input = Inr s" "input_mode input = ORDINARY"
    and "run_reducers (reduceReviewState E) s history = Inr t" "terminal_state t = Some APPROVED"
    and "\<forall>f. fix_record t = Some f \<longrightarrow>
      texts_apart E (enc_strings (corroboratedFindingIds t)) (enc_strings (fixed_ids f))"
    and "row \<in> set (severeRows t)"
  shows "or_empty (escalation_reasons t) = [] \<and> closed_finding t (row_id row)"
proof -
  have "ordinary_invariant E t" using run_invariant[OF created_invariant[OF assms(1,2)] assms(3)] .
  moreover have "phase t = TERMINAL"
  proof (rule ccontr)
    assume "phase t \<noteq> TERMINAL"
    moreover have "terminal_state s = None \<and> phase s = STARTED"
      using createReviewState_initial[OF assms(1)] by auto
    ultimately show False using terminal_only_at_end[OF assms(3)] assms(4) by simp
  qed
  ultimately have "no_reasons t" "settled E t" using assms(4) by (simp_all add: ordinary_invariant_def)
  with settled_closed[OF _ assms(6,5)] show ?thesis by (simp add: no_reasons_def)
qed

theorem approval_means_closed_witness:
  "\<exists>t. run_reducers (reduceReviewState code_unit_host) sample_state sample_history = Inr t \<and>
     severeRows t \<noteq> [] \<and> closed_finding t ''R1''"
proof -
  obtain t where t: "run_reducers (reduceReviewState code_unit_host) sample_state sample_history = Inr t"
    "terminal_state t = Some APPROVED" "map row_id (severeRows t) = [''R1'']"
    "corroboratedFindingIds t = [''R1'']" "map_option fixed_ids (fix_record t) = Some [''R1'']"
    using sample_finished by (elim exE conjE)
  obtain row where row: "severeRows t = [row]" "row_id row = ''R1''" using t(3) by (rule map_single)
  have m: "input_mode sample_create = ORDINARY" by (simp add: sample_create_def)
  have a: "\<forall>f. fix_record t = Some f \<longrightarrow>
      texts_apart code_unit_host (enc_strings (corroboratedFindingIds t)) (enc_strings (fixed_ids f))"
    using t(4,5) by (auto simp: texts_apart_def hash_apart_def)
  have "row \<in> set (severeRows t)" by (simp add: row(1))
  from approval_means_closed[OF sample_created m t(1,2) a this] have "closed_finding t ''R1''"
    by (simp only: row(2))
  moreover have "severeRows t \<noteq> []" by (simp add: row(1))
  ultimately show ?thesis using t(1) by (intro exI conjI)
qed

text \<open>
  C2: a review ends. Of the reductions that return, an ordinary lineage takes at most five and a
  Judgment Day lineage at most six, whatever their order and inputs; once it is terminal no
  reduction returns.
\<close>

theorem review_is_bounded:
  assumes "createReviewState E input = Inr s" "run_reducers (reduceReviewState E) s history = Inr t"
  shows "length history \<le> (if input_mode input = ORDINARY then 5 else 6) \<and>
    (terminal_state t \<noteq> None \<longrightarrow> \<not> ok (reduceReviewState E t r))"
proof -
  have s: "phase s = STARTED" "counters s = zeroCounters" "mode s = input_mode input"
    using createReviewState_initial[OF assms(1)] by auto
  have "length history + reductions_left t \<le> reductions_left s"
    using assms(2) by (rule review.run_length[OF TrueI])
  moreover have "reductions_left s = (if input_mode input = ORDINARY then 5 else 6)"
    by (cases "input_mode input") (simp_all add: reductions_left_def s zeroCounters_def)
  ultimately show ?thesis using reduce_open[of E t r] by (auto simp: ok_iff)
qed

theorem review_is_bounded_witness:
  "length sample_history \<le> 5"
proof -
  obtain t where t: "run_reducers (reduceReviewState code_unit_host) sample_state sample_history = Inr t"
    using sample_finished by (elim exE conjE)
  from review_is_bounded[OF sample_created t] show ?thesis by (simp add: sample_create_def)
qed

lemma run_append: "run_reducers step s (xs @ ys) = bindr (run_reducers step s xs) (\<lambda>t. run_reducers step t ys)"
proof (induction xs arbitrary: s)
  case (Cons x xs)
  then show ?case by (cases "step s x") simp_all
qed simp

text \<open>
  C3: no history of reductions changes what a lineage is bound to (its fourteen immutable fields,
  its revision, journal, claims and evidence hash), and its counters only grow, from any point of a history to any
  later one, and never pass the budget it was created with.
\<close>

theorem history_keeps_binding:
  assumes "createReviewState E input = Inr s" "run_reducers (reduceReviewState E) s history = Inr t"
    and "run_reducers (reduceReviewState E) t later = Inr u"
  shows "same_binding s t \<and> same_binding t u \<and>
    (\<forall>k. 0 \<le> counters t k \<and> counters t k \<le> counters u k \<and> counters u k \<le> input_budget input k)"
proof -
  have s: "counters s = zeroCounters" "budget s = input_budget input"
    and a: "assertState E s None = Inr ()"
    using createReviewState_initial[OF assms(1)] by auto
  have "0 \<le> budget s k" for k
    using a COUNTER_KEYS_all[of k] by (simp add: assertState_def result_simps assertBudget_def)
  then have "0 \<le> counters t k \<and> counters t k \<le> budget t k" for k
    using review.run_counters[OF assms(2), of k] s by (simp add: zeroCounters_def)
  with review.run_counters[OF assms(3)] review.run_binding[OF assms(2)] review.run_binding[OF assms(3)] s show ?thesis
    by (auto simp: same_binding_def)
qed

theorem history_keeps_binding_witness:
  "\<exists>t u. run_reducers (reduceReviewState code_unit_host) sample_state (take 2 sample_history) = Inr t \<and>
     run_reducers (reduceReviewState code_unit_host) t (drop 2 sample_history) = Inr u \<and>
     same_binding t u \<and> counters t fix_batches \<le> counters u fix_batches \<and> counters u fix_batches \<le> 1"
proof -
  obtain u where u: "run_reducers (reduceReviewState code_unit_host) sample_state sample_history = Inr u"
    using sample_finished by (elim exE conjE)
  then have "bindr (run_reducers (reduceReviewState code_unit_host) sample_state (take 2 sample_history))
      (\<lambda>t. run_reducers (reduceReviewState code_unit_host) t (drop 2 sample_history)) = Inr u"
    using run_append[of "reduceReviewState code_unit_host" sample_state "take 2 sample_history" "drop 2 sample_history"] by simp
  then obtain t where t: "run_reducers (reduceReviewState code_unit_host) sample_state (take 2 sample_history) = Inr t"
    "run_reducers (reduceReviewState code_unit_host) t (drop 2 sample_history) = Inr u"
    unfolding bindr_eq_Inr by blast
  have "input_budget sample_create fix_batches = 1" by (simp add: sample_create_def sample_budget_def)
  then have "same_binding t u \<and> counters t fix_batches \<le> counters u fix_batches \<and> counters u fix_batches \<le> 1"
    using history_keeps_binding[OF sample_created t] by metis
  with t show ?thesis by blast
qed

text \<open>
  C4: a lineage never hangs outside the fix-complete phase: with a budget of the ordinary shape,
  from every state it can reach some continuation ends it.
\<close>

theorem ordinary_can_finish:
  assumes "createReviewState E input = Inr s" "input_mode input = ORDINARY" "ordinary_budget s"
    and "run_reducers (reduceReviewState E) s history = Inr t" "phase t \<noteq> FIX_COMPLETE"
  shows "\<exists>rest u. run_reducers (reduceReviewState E) t rest = Inr u \<and> terminal_state u \<noteq> None"
  using finishes[OF run_unspent[OF created_unspent[OF assms(1-3)] assms(4)] assms(5)]
  by (simp add: can_finish_def)

theorem ordinary_can_finish_witness:
  "\<exists>rest u. run_reducers (reduceReviewState code_unit_host) sample_state rest = Inr u \<and> terminal_state u \<noteq> None"
proof -
  have "input_mode sample_create = ORDINARY" "ordinary_budget sample_state" "phase sample_state \<noteq> FIX_COMPLETE"
    by (simp_all add: sample_create_def sample_state_def ordinary_budget_def sample_budget_def)
  from ordinary_can_finish[OF sample_created this(1,2) _ this(3), where history = "[]"] show ?thesis by simp
qed

text \<open>
  The deadlock. The fix record lists identifiers in code-unit order (\<open>toSorted()\<close>), the validator
  request must list its regressions in locale order, and both lists must be the same: where the two
  orders differ, as for B and a, no validation is accepted, and the phase has no other exit.
  \<open>mixed_case_host\<close> compares letters without case first, as the usual locales do, and its hash
  does not collide at all.
\<close>

definition lower :: "string \<Rightarrow> string" where
  "lower s = map (\<lambda>c. if CHR ''A'' \<le> c \<and> c \<le> CHR ''Z'' then char_of (of_char c + 32 :: nat) else c) s"

definition mixed_case_host :: host where
  "mixed_case_host = \<lparr>sha256_hex = \<lambda>s. s,
     locale_compare = \<lambda>a b. (if a = b then 0 else if lower a < lower b \<or> lower a = lower b \<and> a < b then - 1 else 1)\<rparr>"

lemma mixed_case_apart: "texts_apart mixed_case_host a b"
  by (simp add: texts_apart_def hash_apart_def mixed_case_host_def)

lemma stuck_opening:
  "\<exists>t. run_reducers (reduceReviewState mixed_case_host) sample_state (sample_opening [''B'', ''a'']) = Inr t \<and>
     mode t = ORDINARY \<and> phase t = FIX_COMPLETE \<and> map_option fixed_ids (fix_record t) = Some [''B'', ''a'']"
proof -
  have "(case run_reducers (reduceReviewState mixed_case_host) sample_state (sample_opening [''B'', ''a'']) of
      Inl e \<Rightarrow> False
    | Inr t \<Rightarrow> mode t = ORDINARY \<and> phase t = FIX_COMPLETE \<and> map_option fixed_ids (fix_record t) = Some [''B'', ''a''])"
    by code_simp
  then show ?thesis by (auto split: sum.splits)
qed

lemma mixed_case_collation: "collation mixed_case_host"
proof -
  define c where "c a b = (if a = b then 0 else if lower a < lower b \<or> lower a = lower b \<and> a < b then - 1 else (1 :: int))" for a b
  have c: "c a b \<le> 0 \<longleftrightarrow> lower a < lower b \<or> lower a = lower b \<and> a \<le> b" "0 \<le> c a b \<longleftrightarrow> lower b < lower a \<or> lower b = lower a \<and> b \<le> a" for a b
    by (auto simp: c_def)
  have "locale_compare mixed_case_host = c" by (simp add: mixed_case_host_def c_def fun_eq_iff)
  then show ?thesis unfolding collation_def c by (auto simp: c_def)
qed

text \<open>
  C5: there is a reachable ordinary review that nothing can move. After the fix of the findings B
  and a, under a locale that sorts a before B and a hash without collisions, the lineage is in the
  fix-complete phase, not terminal, and every reduction, whatever its input, throws.
\<close>

theorem ordinary_fix_deadlock:
  "\<exists>s t. createReviewState mixed_case_host sample_create = Inr s \<and>
     run_reducers (reduceReviewState mixed_case_host) s (sample_opening [''B'', ''a'']) = Inr t \<and>
     phase t = FIX_COMPLETE \<and> (\<forall>r. \<not> ok (reduceReviewState mixed_case_host t r))"
proof -
  obtain t where t: "run_reducers (reduceReviewState mixed_case_host) sample_state (sample_opening [''B'', ''a'']) = Inr t"
    "mode t = ORDINARY" "phase t = FIX_COMPLETE" "map_option fixed_ids (fix_record t) = Some [''B'', ''a'']"
    using stuck_opening by (elim exE conjE)
  then obtain f where f: "fix_record t = Some f" "fixed_ids f = [''B'', ''a'']" by auto
  have "\<not> sorted_by (locale_compare mixed_case_host) (fixed_ids f)"
    unfolding f(2) by code_simp
  then have "\<not> ok (reduceReviewState mixed_case_host t r)" for r
    using fix_complete_only_validation[OF t(3,2)] validation_needs_order[OF mixed_case_collation _ f(1)] mixed_case_apart
    unfolding ok_iff by (metis reduceReviewState.simps(5))
  with sample_created t(1,3) show ?thesis by blast
qed

end
