(* ===== verification/JudgmentClaims.thy ===== *)
theory JudgmentClaims
  imports JudgmentLifecycle OrdinaryClaims
begin

text \<open>
  The properties of a Judgment Day review, and the sample lineage of their witnesses.
\<close>

section \<open>A sample lineage\<close>

definition judging_budget :: review_counters where
  "judging_budget k = (case k of review_batches \<Rightarrow> 1 | review_actors \<Rightarrow> 2 | refuter_batches \<Rightarrow> 0 | fix_batches \<Rightarrow> 2
     | validator_runs \<Rightarrow> 0 | final_verifications \<Rightarrow> 1 | judgment_rounds \<Rightarrow> 2 | judge_runs \<Rightarrow> 6)"

definition judging_create :: create_input where
  "judging_create = sample_create\<lparr>input_mode := JUDGMENT_DAY, input_budget := judging_budget,
     input_snapshot := sample_snapshot\<lparr>snap_mode := JUDGMENT_DAY, snap_route := TRIVIAL, snap_lenses := []\<rparr>\<rparr>"

definition judging_state :: review_state where
  "judging_state = initial_state judging_create TRIVIAL []"

definition judging_rows :: "string list \<Rightarrow> frozen_row list" where
  "judging_rows ids = map (\<lambda>i. (sample_row i)\<lparr>row_lens := ''judgment-day''\<rparr>) ids"

definition judging_fix :: reduction where
  "judging_fix = JudgmentDayFix \<lparr>jd_candidateTree = sample_tree (CHR ''c''), jd_fixedIds = [''R1''], jd_fixDiff = ''diff''\<rparr>"

definition judging_round :: "resolution_outcome \<Rightarrow> int \<Rightarrow> reduction" where
  "judging_round out n = JudgmentDayRejudgment \<lparr>rejudgment = \<lparr>jd_requested_ids = [''R1''], jd_frozen_rows = judging_rows [''R1''],
       jd_ledger_hash = sample_digest, jd_fix_diff = ''diff'', jd_fix_diff_hash = sample_digest,
       jd_candidate_tree = sample_tree (CHR ''c''), jd_round = n\<rparr>,
     judgeAResults = [\<lparr>in_id = ''R1'', in_outcome = VERIFIED\<rparr>],
     judgeBResults = [\<lparr>in_id = ''R1'', in_outcome = out\<rparr>]\<rparr>"

definition judging_history :: "reduction list" where
  "judging_history = [JudgmentDayDiscovery \<lparr>judgeA = judging_rows [''R1''], judgeB = []\<rparr>,
     judging_fix, judging_round CORROBORATED 1, judging_fix, judging_round VERIFIED 2,
     JudgmentDayFinalVerification \<lparr>passed = True, reason = None\<rparr>]"

lemma judging_created: "createReviewState E judging_create = Inr judging_state"
proof -
  have "OBJECT_ID (sample_tree (CHR ''a''))" "OBJECT_ID (sample_tree (CHR ''b''))" "DIGEST sample_digest"
    "LINEAGE_ID ''lineage-1''" by code_simp+
  moreover have "assertCanonicalPaths [''src/a.ts''] l = Inr ()" for l
    unfolding assertCanonicalPaths_def by (simp add: sorted_uniq_def)
  ultimately have "assertState E judging_state None = Inr ()" "derive_route E judging_create = Inr (TRIVIAL, [])"
    unfolding assertState_def assertObjectId_def assertDigest_def assertLineageId_def assertBudget_def assertCounters_def
    by (simp_all add: judging_state_def initial_state_def judging_create_def sample_create_def sample_snapshot_def Let_def
        derive_route_def judging_budget_def safe_integer_def zeroCounters_def COUNTER_KEYS_def)
  then show ?thesis
    by (simp add: createReviewState_def Let_def judging_create_def sample_create_def sample_snapshot_def
        judging_state_def initial_state_def)
qed

lemma judging_finished:
  "\<exists>t. run_reducers (reduceReviewState code_unit_host) judging_state judging_history = Inr t \<and>
     terminal_state t = Some APPROVED \<and> map row_id (severeRows t) = [''R1'']"
proof -
  have "(case run_reducers (reduceReviewState code_unit_host) judging_state judging_history of
      Inl e \<Rightarrow> False
    | Inr t \<Rightarrow> terminal_state t = Some APPROVED \<and> map row_id (severeRows t) = [''R1''])"
    by code_simp
  then show ?thesis by (auto split: sum.splits)
qed

section \<open>Properties\<close>

text \<open>
  C6: what a Judgment Day approval means. When a Judgment Day lineage that \<open>createReviewState\<close> started is
  approved, nothing was escalated; for every open BLOCKER or CRITICAL row that the two judges froze, some rejudgment of
  the history carries a verified result for it among the results of Judge A and another among those of Judge B, and both
  verdicts are among the resolutions of the lineage; and if there was any such row, the candidate tree is the one of the
  recorded fix.
\<close>

theorem judgment_approval_means_verified:
  assumes "createReviewState E input = Inr s" "input_mode input = JUDGMENT_DAY"
    and "run_reducers (reduceReviewState E) s history = Inr t" "terminal_state t = Some APPROVED"
    and "row \<in> set (severeRows t)"
  shows "or_empty (escalation_reasons t) = [] \<and> 2 \<le> verdicts (or_empty (resolutions t)) (row_id row) \<and>
    (\<exists>j. JudgmentDayRejudgment j \<in> set history \<and>
      (\<exists>a \<in> set (judgeAResults j). in_id a = row_id row \<and> in_outcome a = VERIFIED) \<and>
      (\<exists>b \<in> set (judgeBResults j). in_id b = row_id row \<and> in_outcome b = VERIFIED)) \<and>
    (\<exists>f. fix_record t = Some f \<and> current_candidate_tree t = candidate_tree f)"
proof -
  have "judgment_invariant (set history) t"
    using judgment_run_invariant[OF judgment_created_invariant[OF assms(1,2), of "{}"] assms(3)] by simp
  moreover have "terminal_state s = None \<and> phase s = STARTED"
    using createReviewState_initial[OF assms(1)] by auto
  with terminal_only_at_end[OF assms(3)] assms(4) have "phase t = TERMINAL" by simp
  ultimately have "no_reasons t" "all_verified (set history) t" using assms(4) by (simp_all add: judgment_invariant_def)
  with assms(5) show ?thesis by (auto simp: no_reasons_def all_verified_def tree_is_fixed_def both_verified_def returned_verified_def)
qed

theorem judgment_approval_means_verified_witness:
  "\<exists>t. run_reducers (reduceReviewState code_unit_host) judging_state judging_history = Inr t \<and>
     severeRows t \<noteq> [] \<and> 2 \<le> verdicts (or_empty (resolutions t)) ''R1''"
proof -
  obtain t where t: "run_reducers (reduceReviewState code_unit_host) judging_state judging_history = Inr t"
    "terminal_state t = Some APPROVED" "map row_id (severeRows t) = [''R1'']"
    using judging_finished by (elim exE conjE)
  obtain row where row: "severeRows t = [row]" "row_id row = ''R1''" using t(3) by (rule map_single)
  have "input_mode judging_create = JUDGMENT_DAY" "row \<in> set (severeRows t)"
    by (simp_all add: judging_create_def row(1))
  from judgment_approval_means_verified[OF judging_created this(1) t(1,2) this(2)]
  have "2 \<le> verdicts (or_empty (resolutions t)) ''R1''" unfolding row(2) by blast
  moreover have "severeRows t \<noteq> []" by (simp add: row(1))
  ultimately show ?thesis using t(1) by (intro exI conjI)
qed

end
