(* ===== verification/ReviewLock.thy ===== *)
theory ReviewLock
  imports Canonical
begin

text \<open>
  The mutation lock of \<open>lib/review-lock.ts\<close>. The lock is a directory holding one file, its owner;
  taking it is \<open>mkdir\<close>, giving it up or recovering it is a move to a name of the owner's, which
  fails when that name is taken. The methods are compositions of the file-system steps below, in
  the code's order; the interleaving model runs the same steps of many processes in any order.
  \<open>proveOwnerDead\<close> is an argument. Writes, flushes and unlinks fail here only for the reasons the
  code reacts to (a name that is taken or missing).
\<close>

section \<open>The file system\<close>

record lock_owner =
  token :: string
  owner_hash :: string
  pid :: int
  repository_id :: string
  authority_id :: string

text \<open>
  \<open>lock_dir\<close>: absent, or a directory with or without a readable owner file. \<open>intents\<close>: the files of
  \<open>authority.lock-intents\<close>. \<open>taken\<close>: the names under the control directory that moves have filled.
\<close>

record lock_fs =
  lock_dir :: "lock_owner option option"
  intents :: "string \<Rightarrow> lock_owner option"
  taken :: "string set"

section \<open>Owners\<close>

definition enc_unsigned :: "lock_owner \<Rightarrow> json" where
  "enc_unsigned own = JObj [(''token'', JStr (token own)), (''pid'', JInt (pid own)),
     (''repository_id'', JStr (repository_id own)), (''authority_id'', JStr (authority_id own))]"

definition sign_owner :: "host \<Rightarrow> string \<Rightarrow> int \<Rightarrow> string \<Rightarrow> string \<Rightarrow> lock_owner" where
  "sign_owner E tok p repo auth =
     (let unsigned = \<lparr>token = tok, owner_hash = [], pid = p, repository_id = repo, authority_id = auth\<rparr>
      in unsigned\<lparr>owner_hash := dhash E ''lock-owner'' (enc_unsigned unsigned)\<rparr>)"

definition owner_valid :: "host \<Rightarrow> string \<Rightarrow> string \<Rightarrow> lock_owner \<Rightarrow> bool" where
  "owner_valid E repo auth own \<longleftrightarrow> DIGEST (token own) \<and> safe_integer (pid own) \<and> repository_id own = repo \<and>
     authority_id own = auth \<and> owner_hash own = dhash E ''lock-owner'' (enc_unsigned own)"

definition readOwner :: "host \<Rightarrow> string \<Rightarrow> string \<Rightarrow> lock_fs \<Rightarrow> lock_owner result" where
  "readOwner E repo auth fs =
     (case lock_dir fs of
        None \<Rightarrow> Inl (LockError ''Review authority lock is absent'')
      | Some None \<Rightarrow> Inl (LockError ''Review authority lock ownership is ambiguous'')
      | Some (Some own) \<Rightarrow>
          if owner_valid E repo auth own then Inr own
          else Inl (LockError ''Review authority lock ownership is ambiguous''))"

text \<open>
  The proof that an owner died: signal 0 to its process fails with ESRCH. \<open>signal\<close> is the error code
  of \<open>process.kill(pid, 0)\<close>, None when the call returns.
\<close>

definition conservativeOwnerDeathProofV1 :: "int \<Rightarrow> (int \<Rightarrow> string option) \<Rightarrow> lock_owner \<Rightarrow> bool" where
  "conservativeOwnerDeathProofV1 self signal own =
     (if \<not> safe_integer (pid own) \<or> pid own \<le> 0 \<or> pid own = self then False
      else signal (pid own) = Some ''ESRCH'')"

section \<open>File-system steps\<close>

definition write_intent :: "lock_owner \<Rightarrow> lock_fs \<Rightarrow> lock_fs result" where
  "write_intent own fs =
     (if intents fs (token own) \<noteq> None then Inl (Error ''EEXIST'')
      else Inr (fs\<lparr>intents := (intents fs)(token own := Some own)\<rparr>))"

definition make_lock_dir :: "lock_fs \<Rightarrow> lock_fs result" where
  "make_lock_dir fs =
     (if lock_dir fs \<noteq> None then Inl (LockError ''Review authority lock is active or ambiguous'')
      else Inr (fs\<lparr>lock_dir := Some None\<rparr>))"

definition write_owner :: "lock_owner \<Rightarrow> lock_fs \<Rightarrow> lock_fs result" where
  "write_owner own fs =
     (if lock_dir fs = Some None then Inr (fs\<lparr>lock_dir := Some (Some own)\<rparr>)
      else Inl (LockError ''Review authority lock owner is ambiguous''))"

definition drop_intent :: "lock_owner \<Rightarrow> lock_fs \<Rightarrow> lock_fs result" where
  "drop_intent own fs =
     (if intents fs (token own) = None then Inl (LockError ''Review authority lock owner is ambiguous'')
      else Inr (fs\<lparr>intents := (intents fs)(token own := None)\<rparr>))"

text \<open>\<open>moveNoReplace\<close> of the lock directory: the destination must be free, the source must exist.\<close>

definition move_lock :: "string \<Rightarrow> string \<Rightarrow> lock_fs \<Rightarrow> lock_fs result" where
  "move_lock failure destination fs =
     (if destination \<in> taken fs \<or> lock_dir fs = None then Inl (LockError failure)
      else Inr (fs\<lparr>lock_dir := None, taken := insert destination (taken fs)\<rparr>))"

definition released_name :: "lock_owner \<Rightarrow> string" where
  "released_name own = ''released-'' @ owner_hash own @ ''-'' @ token own"

definition stale_name :: "lock_owner \<Rightarrow> string" where
  "stale_name own = ''quarantine/stale-'' @ owner_hash own @ ''-'' @ token own"

definition incomplete_name :: "lock_owner \<Rightarrow> string" where
  "incomplete_name own = ''quarantine/incomplete-'' @ owner_hash own @ ''-'' @ token own"

section \<open>The methods\<close>

definition acquire :: "host \<Rightarrow> string \<Rightarrow> string \<Rightarrow> int \<Rightarrow> string \<Rightarrow> lock_fs \<Rightarrow> lock_owner result \<times> lock_fs" where
  "acquire E repo auth self tok fs =
     (let own = sign_owner E tok self repo auth in
      case write_intent own fs of Inl e \<Rightarrow> (Inl e, fs) | Inr fs1 \<Rightarrow>
     (case make_lock_dir fs1 of Inl e \<Rightarrow> (Inl e, fs1) | Inr fs2 \<Rightarrow>
     (case write_owner own fs2 of Inl e \<Rightarrow> (Inl e, fs2) | Inr fs3 \<Rightarrow>
     (case drop_intent own fs3 of Inl e \<Rightarrow> (Inl e, fs3) | Inr fs4 \<Rightarrow> (Inr own, fs4)))))"

definition release_check :: "host \<Rightarrow> string \<Rightarrow> string \<Rightarrow> int \<Rightarrow> lock_owner \<Rightarrow> lock_fs \<Rightarrow> unit result" where
  "release_check E repo auth self own fs =
     bindr (readOwner E repo auth fs) (\<lambda>observed.
       require (token observed = token own \<and> owner_hash observed = owner_hash own \<and> pid observed = self)
         (LockError ''Review authority lock owner token does not match''))"

definition release :: "host \<Rightarrow> string \<Rightarrow> string \<Rightarrow> int \<Rightarrow> lock_owner \<Rightarrow> lock_fs \<Rightarrow> lock_fs result" where
  "release E repo auth self own fs =
     bindr (release_check E repo auth self own fs) (\<lambda>_.
     bindr (move_lock ''Review authority lock release failed closed'' (released_name own) fs) (\<lambda>fs1.
       Inr (fs1\<lparr>taken := taken fs1 - {released_name own}\<rparr>)))"

datatype inspection = ABSENT | OWNED lock_owner | AMBIGUOUS

definition inspect :: "host \<Rightarrow> string \<Rightarrow> string \<Rightarrow> lock_fs \<Rightarrow> inspection" where
  "inspect E repo auth fs =
     (if lock_dir fs = None then ABSENT
      else (case readOwner E repo auth fs of Inl _ \<Rightarrow> AMBIGUOUS | Inr own \<Rightarrow> OWNED own))"

definition recover_check :: "host \<Rightarrow> string \<Rightarrow> string \<Rightarrow> (lock_owner \<Rightarrow> bool) \<Rightarrow> string \<Rightarrow> lock_fs \<Rightarrow> lock_owner result" where
  "recover_check E repo auth proveOwnerDead expectedOwnerHash fs =
     bindr (readOwner E repo auth fs) (\<lambda>observed.
       if owner_hash observed \<noteq> expectedOwnerHash
       then Inl (LockError ''Review authority lock owner hash does not match'')
       else if \<not> proveOwnerDead observed
       then Inl (LockError ''Review authority lock ownership is active or ambiguous'')
       else Inr observed)"

definition RECOVERY_RACE :: string where
  "RECOVERY_RACE = ''Review authority lock recovery race; re-observe''"

definition recover :: "host \<Rightarrow> string \<Rightarrow> string \<Rightarrow> (lock_owner \<Rightarrow> bool) \<Rightarrow> string \<Rightarrow> lock_fs \<Rightarrow> lock_fs result" where
  "recover E repo auth proveOwnerDead expectedOwnerHash fs =
     bindr (recover_check E repo auth proveOwnerDead expectedOwnerHash fs) (\<lambda>observed.
       move_lock RECOVERY_RACE (stale_name observed) fs)"

text \<open>\<open>existsSync(owner.json)\<close>\<close>

definition has_owner :: "lock_fs \<Rightarrow> bool" where
  "has_owner fs = (case lock_dir fs of Some (Some own) \<Rightarrow> True | _ \<Rightarrow> False)"

definition incomplete_check :: "host \<Rightarrow> string \<Rightarrow> string \<Rightarrow> (lock_owner \<Rightarrow> bool) \<Rightarrow> string \<Rightarrow> lock_fs \<Rightarrow> lock_owner result" where
  "incomplete_check E repo auth proveOwnerDead expectedToken fs =
     (if \<not> DIGEST expectedToken then Inl (LockError ''Review authority lock intent token is invalid'')
      else if has_owner fs then Inl (LockError ''Review authority lock is not incomplete'')
      else (case intents fs expectedToken of
        None \<Rightarrow> Inl (LockError ''Review authority lock acquisition intent is ambiguous'')
      | Some own \<Rightarrow>
          if token own \<noteq> expectedToken \<or> repository_id own \<noteq> repo \<or> authority_id own \<noteq> auth \<or>
             owner_hash own \<noteq> dhash E ''lock-owner'' (enc_unsigned own) \<or> \<not> proveOwnerDead own
          then Inl (LockError ''Review authority lock acquisition intent is active or ambiguous'')
          else Inr own))"

definition recoverIncomplete :: "host \<Rightarrow> string \<Rightarrow> string \<Rightarrow> (lock_owner \<Rightarrow> bool) \<Rightarrow> string \<Rightarrow> lock_fs \<Rightarrow> lock_fs result" where
  "recoverIncomplete E repo auth proveOwnerDead expectedToken fs =
     bindr (incomplete_check E repo auth proveOwnerDead expectedToken fs) (\<lambda>own.
       move_lock RECOVERY_RACE (incomplete_name own) fs)"

section \<open>One process at a time\<close>

text \<open>What the methods do when nothing interleaves.\<close>

lemma sign_owner_valid:
  assumes "DIGEST tok" "safe_integer p"
  shows "owner_valid E repo auth (sign_owner E tok p repo auth)"
  using assms by (simp add: owner_valid_def sign_owner_def Let_def enc_unsigned_def)

lemma sign_owner_token [simp]: "token (sign_owner E tok p repo auth) = tok" "pid (sign_owner E tok p repo auth) = p"
  by (simp_all add: sign_owner_def Let_def)

lemma acquire_ok:
  "acquire E repo auth self tok fs = (Inr own, fs') \<longleftrightarrow>
     intents fs tok = None \<and> lock_dir fs = None \<and> own = sign_owner E tok self repo auth \<and>
     fs' = fs\<lparr>lock_dir := Some (Some own), intents := (intents fs)(tok := None)\<rparr>"
  unfolding acquire_def Let_def write_intent_def make_lock_dir_def write_owner_def drop_intent_def
  by auto

lemma acquire_busy:
  assumes "lock_dir fs \<noteq> None"
  shows "\<exists>e. fst (acquire E repo auth self tok fs) = Inl e" "lock_dir (snd (acquire E repo auth self tok fs)) = lock_dir fs"
  using assms by (simp_all add: acquire_def Let_def write_intent_def make_lock_dir_def)

section \<open>Interleaved processes\<close>

text \<open>
  A process takes the lock once, under its owner record; its counter says how far it is. Between
  the check of a recovery and its move anything may happen, so a passed check is kept as a pending
  move. A process that died takes no step.
\<close>

datatype lock_pc = Idle | Intended | DirMade | OwnerWritten | Holding | Leaving | Releasing | Done | Failed

record lock_system =
  files :: lock_fs
  pcs :: "lock_owner \<Rightarrow> lock_pc"
  dead :: "int set"
  pending :: "string set"

datatype lock_action =
    Intend lock_owner | MakeDir lock_owner | WriteOwner lock_owner | DropIntent lock_owner
  | Leave lock_owner | ReleaseCheck lock_owner | ReleaseMove lock_owner | Die int
  | CheckStale int string | MoveStale string | CheckIncomplete int string | MoveIncomplete string

definition advance :: "lock_owner \<Rightarrow> lock_pc \<Rightarrow> lock_pc \<Rightarrow> lock_fs result \<Rightarrow> lock_system \<Rightarrow> lock_system option" where
  "advance own before after res s =
     (if pcs s own \<noteq> before \<or> pid own \<in> dead s then None
      else (case res of
        Inl e \<Rightarrow> Some (s\<lparr>pcs := (pcs s)(own := Failed)\<rparr>)
      | Inr fs \<Rightarrow> Some (s\<lparr>files := fs, pcs := (pcs s)(own := after)\<rparr>)))"

definition pend :: "(lock_owner \<Rightarrow> string) \<Rightarrow> lock_owner result \<Rightarrow> lock_system \<Rightarrow> lock_system option" where
  "pend name res s = (case res of Inl e \<Rightarrow> Some s | Inr own \<Rightarrow> Some (s\<lparr>pending := insert (name own) (pending s)\<rparr>))"

definition finish_move :: "string \<Rightarrow> lock_system \<Rightarrow> lock_system option" where
  "finish_move d s =
     (if d \<notin> pending s then None
      else (case move_lock RECOVERY_RACE d (files s) of
        Inl e \<Rightarrow> Some (s\<lparr>pending := pending s - {d}\<rparr>)
      | Inr fs \<Rightarrow> Some (s\<lparr>files := fs, pending := pending s - {d}\<rparr>)))"

fun lock_step :: "host \<Rightarrow> string \<Rightarrow> string \<Rightarrow> (int set \<Rightarrow> int \<Rightarrow> string option) \<Rightarrow> lock_action \<Rightarrow> lock_system \<Rightarrow> lock_system option" where
  "lock_step E repo auth signal (Intend own) s =
     (if owner_valid E repo auth own then advance own Idle Intended (write_intent own (files s)) s else None)"
| "lock_step E repo auth signal (MakeDir own) s = advance own Intended DirMade (make_lock_dir (files s)) s"
| "lock_step E repo auth signal (WriteOwner own) s = advance own DirMade OwnerWritten (write_owner own (files s)) s"
| "lock_step E repo auth signal (DropIntent own) s = advance own OwnerWritten Holding (drop_intent own (files s)) s"
| "lock_step E repo auth signal (Leave own) s = advance own Holding Leaving (Inr (files s)) s"
| "lock_step E repo auth signal (ReleaseCheck own) s =
     advance own Leaving Releasing (bindr (release_check E repo auth (pid own) own (files s)) (\<lambda>_. Inr (files s))) s"
| "lock_step E repo auth signal (ReleaseMove own) s =
     advance own Releasing Done (bindr (move_lock ''Review authority lock release failed closed'' (released_name own) (files s))
       (\<lambda>fs. Inr (fs\<lparr>taken := taken fs - {released_name own}\<rparr>))) s"
| "lock_step E repo auth signal (Die p) s = Some (s\<lparr>dead := insert p (dead s)\<rparr>)"
| "lock_step E repo auth signal (CheckStale self h) s =
     pend stale_name (recover_check E repo auth (conservativeOwnerDeathProofV1 self (signal (dead s))) h (files s)) s"
| "lock_step E repo auth signal (MoveStale d) s = finish_move d s"
| "lock_step E repo auth signal (CheckIncomplete self tok) s =
     pend incomplete_name (incomplete_check E repo auth (conservativeOwnerDeathProofV1 self (signal (dead s))) tok (files s)) s"
| "lock_step E repo auth signal (MoveIncomplete d) s = finish_move d s"

definition lock_start :: lock_system where
  "lock_start = \<lparr>files = \<lparr>lock_dir = None, intents = \<lambda>_. None, taken = {}\<rparr>, pcs = \<lambda>_. Idle, dead = {}, pending = {}\<rparr>"

inductive lock_reachable :: "host \<Rightarrow> string \<Rightarrow> string \<Rightarrow> (int set \<Rightarrow> int \<Rightarrow> string option) \<Rightarrow> (lock_action \<Rightarrow> bool) \<Rightarrow> lock_system \<Rightarrow> bool"
  for E repo auth signal allowed where
  reach_start: "lock_reachable E repo auth signal allowed lock_start"
| reach_step: "lock_reachable E repo auth signal allowed s \<Longrightarrow> allowed a \<Longrightarrow> lock_step E repo auth signal a s = Some t \<Longrightarrow>
    lock_reachable E repo auth signal allowed t"

inductive_cases lock_reachableE: "lock_reachable E repo auth signal allowed s"






















section \<open>Properties\<close>

text \<open>Three processes and a recoverer; the constant hash of the sample host signs them all.\<close>

definition lock_host :: host where
  "lock_host = \<lparr>sha256_hex = \<lambda>s. replicate 64 (CHR ''0''), locale_compare = \<lambda>a b. 0\<rparr>"

definition exact_signal :: "int set \<Rightarrow> int \<Rightarrow> string option" where
  "exact_signal D p = (if p \<in> D then Some ''ESRCH'' else None)"

definition sample_owner :: "char \<Rightarrow> int \<Rightarrow> lock_owner" where
  "sample_owner c p = sign_owner lock_host (replicate 64 c) p ''repo'' ''auth''"

fun run_lock :: "lock_action list \<Rightarrow> lock_system \<Rightarrow> lock_system option" where
  "run_lock [] s = Some s"
| "run_lock (a # as) s = (case lock_step lock_host ''repo'' ''auth'' exact_signal a s of None \<Rightarrow> None | Some t \<Rightarrow> run_lock as t)"

lemma run_lock_reachable:
  assumes "lock_reachable lock_host ''repo'' ''auth'' exact_signal allowed s" "run_lock as s = Some t" "list_all allowed as"
  shows "lock_reachable lock_host ''repo'' ''auth'' exact_signal allowed t"
  using assms by (induction as arbitrary: s) (auto split: option.splits intro: reach_step)

definition take_lock :: "lock_owner \<Rightarrow> lock_action list" where
  "take_lock own = [Intend own, MakeDir own, WriteOwner own, DropIntent own]"



text \<open>
  C24: the recovery of an incomplete lock does not exclude. An intent file only says that its process
  wanted the lock: it stays behind when the process dies before it made the directory, or when
  it lost the race for it. \<open>recoverIncomplete\<close> takes it as evidence about whatever directory is there,
  and its check and its move are separate steps; so a living process can lose a lock it holds
  to another living process, and both are in the critical section, with an exact death proof.
\<close>

theorem recover_incomplete_breaks_exclusion:
  "\<exists>s own own'. lock_reachable lock_host ''repo'' ''auth'' exact_signal (\<lambda>_. True) s \<and>
     own \<noteq> own' \<and> pcs s own = Holding \<and> pcs s own' = Holding \<and> pid own \<notin> dead s \<and> pid own' \<notin> dead s"
proof -
  let ?a = "sample_owner (CHR ''a'') 1" and ?b = "sample_owner (CHR ''b'') 2" and ?c = "sample_owner (CHR ''c'') 3"
  let ?run = "[Intend ?a, Die 1, Intend ?b, MakeDir ?b, CheckIncomplete 4 (token ?a), WriteOwner ?b, DropIntent ?b,
    MoveIncomplete (incomplete_name ?a)] @ take_lock ?c"
  have "case run_lock ?run lock_start of None \<Rightarrow> False
      | Some s \<Rightarrow> pcs s ?b = Holding \<and> pcs s ?c = Holding \<and> dead s = {1}" by code_simp
  then obtain s where s: "run_lock ?run lock_start = Some s" "pcs s ?b = Holding" "pcs s ?c = Holding" "dead s = {1}"
    by (auto split: option.splits)
  have "lock_reachable lock_host ''repo'' ''auth'' exact_signal (\<lambda>_. True) s"
    by (rule run_lock_reachable[OF reach_start s(1)]) (simp add: take_lock_def list_all_iff)
  moreover have "?b \<noteq> ?c" "pid ?b = 2" "pid ?c = 3" by (simp_all add: sample_owner_def sign_owner_def Let_def)
  ultimately show ?thesis using s(2-4) by (intro exI[of _ s] exI[of _ ?b] exI[of _ ?c]) simp
qed

text \<open>
  what the methods of the lock do one after the other. Where the lock is free an acquisition
  with a fresh token succeeds and leaves it owned; a second one is refused and changes nothing of
  the lock; only the owner that took it can release it, which frees it, and a recovery is refused
  while the owner's death is not proved.
\<close>

theorem lock_methods:
  assumes "DIGEST tok" "safe_integer self" "intents fs tok = None" "lock_dir fs = None"
    and "released_name (sign_owner E tok self repo auth) \<notin> taken fs"
  shows "\<exists>fs'. acquire E repo auth self tok fs = (Inr (sign_owner E tok self repo auth), fs') \<and>
     inspect E repo auth fs' = OWNED (sign_owner E tok self repo auth) \<and>
     (\<forall>self' tok'. (\<exists>e. fst (acquire E repo auth self' tok' fs') = Inl e) \<and>
        inspect E repo auth (snd (acquire E repo auth self' tok' fs')) = OWNED (sign_owner E tok self repo auth)) \<and>
     (\<forall>self' own'. ok (release E repo auth self' own' fs') \<longrightarrow>
        token own' = tok \<and> owner_hash own' = owner_hash (sign_owner E tok self repo auth) \<and> self' = self) \<and>
     (\<exists>fs2. release E repo auth self (sign_owner E tok self repo auth) fs' = Inr fs2 \<and> inspect E repo auth fs2 = ABSENT) \<and>
     (\<forall>h prove. \<not> prove (sign_owner E tok self repo auth) \<longrightarrow> \<not> ok (recover E repo auth prove h fs'))"
proof -
  define own where "own = sign_owner E tok self repo auth"
  define fs' where "fs' = fs\<lparr>lock_dir := Some (Some own), intents := (intents fs)(tok := None)\<rparr>"
  have v: "owner_valid E repo auth own" "token own = tok" "pid own = self"
    using sign_owner_valid[OF assms(1,2)] by (simp_all add: own_def)
  have acq: "acquire E repo auth self tok fs = (Inr own, fs')"
    using assms(3,4) by (simp add: acquire_ok own_def fs'_def)
  have read: "readOwner E repo auth g = Inr own" if "lock_dir g = Some (Some own)" for g
    using that v(1) by (simp add: readOwner_def)
  have dir: "lock_dir fs' = Some (Some own)" by (simp add: fs'_def)
  have busy: "\<exists>e. fst (acquire E repo auth self' tok' fs') = Inl e"
    "lock_dir (snd (acquire E repo auth self' tok' fs')) = Some (Some own)" for self' tok'
    using acquire_busy[of fs'] dir by auto
  have insp: "inspect E repo auth g = OWNED own" if "lock_dir g = Some (Some own)" for g
    using that read[OF that] by (simp add: inspect_def)
  have rel: "ok (release E repo auth self' own' fs') \<longrightarrow> token own' = tok \<and> owner_hash own' = owner_hash own \<and> self' = self" for self' own'
    using read[OF dir] v by (auto simp: ok_iff release_def release_check_def result_simps)
  have free: "\<exists>fs2. release E repo auth self own fs' = Inr fs2 \<and> inspect E repo auth fs2 = ABSENT"
    using read[OF dir] v assms(5) dir
    by (simp add: release_def release_check_def move_lock_def inspect_def fs'_def own_def)
  have rec: "\<not> prove own \<longrightarrow> \<not> ok (recover E repo auth prove h fs')" for h prove
    using read[OF dir] by (auto simp: ok_iff recover_def recover_check_def result_simps split: if_splits)
  show ?thesis
    using acq insp[OF dir] busy(1) insp[OF busy(2)] rel free rec unfolding own_def by blast
qed

theorem lock_methods_witness:
  "\<exists>fs'. inspect lock_host ''repo'' ''auth'' fs' = OWNED (sample_owner (CHR ''a'') 1)"
proof -
  let ?fs = "\<lparr>lock_dir = None, intents = \<lambda>_. None, taken = {}\<rparr>"
  have "DIGEST (replicate 64 (CHR ''a''))" "safe_integer 1" by code_simp+
  from lock_methods[OF this, of ?fs lock_host "''repo''" "''auth''"] show ?thesis
    unfolding sample_owner_def by auto
qed

end
