(* ===== verification/ReviewGraph.thy ===== *)
theory ReviewGraph
  imports ReviewReducer
begin

text \<open>
  Events of the review graph (\<open>lib/review-graph-schema.ts\<close>). An event carries a whole state as its
  payload and the reduction that led to it; its identity is the domain hash of its body. The code
  keeps the reducer input as unknown JSON and casts it; here it is one of the inputs the store writes.
\<close>

section \<open>Inputs as JSON\<close>

definition enc_finding_input :: "finding_input \<Rightarrow> json" where
  "enc_finding_input i = JObj [(''id'', JStr (in_id i)), (''outcome'', JStr (outcome_text (in_outcome i)))]"

definition enc_final :: "final_input \<Rightarrow> json" where
  "enc_final i = JObj [(''passed'', JBool (passed i)), (''reason'', enc_opt JStr (reason i))]"

fun enc_reduction :: "reduction \<Rightarrow> json" where
  "enc_reduction (OrdinaryDiscovery rws) = JObj [(''rows'', enc_rows rws)]"
| "enc_reduction (OrdinaryEvidence i) = JObj
     [(''deterministicResults'', enc_list enc_finding_input (deterministicResults i)),
      (''refuterResults'', enc_opt (enc_list enc_finding_input) (refuterResults i))]"
| "enc_reduction (OrdinaryFix i) = JObj
     [(''candidateTree'', JStr (candidateTree i)), (''fixedIds'', enc_strings (fixedIds i)),
      (''fixDiff'', JStr (fixDiff i)), (''changedPaths'', enc_opt enc_strings (fixPaths i))]"
| "enc_reduction (OrdinaryNoFix why) = JObj [(''reason'', JStr why)]"
| "enc_reduction (OrdinaryValidation i) = JObj
     [(''request'', enc_request (request i)), (''results'', enc_list enc_finding_input (results i))]"
| "enc_reduction (OrdinaryFinalVerification i) = enc_final i"
| "enc_reduction (JudgmentDayDiscovery i) = JObj
     [(''judgeA'', enc_rows (judgeA i)), (''judgeB'', enc_rows (judgeB i))]"
| "enc_reduction (JudgmentDayFix i) = JObj
     [(''candidateTree'', JStr (jd_candidateTree i)), (''fixedIds'', enc_strings (jd_fixedIds i)),
      (''fixDiff'', JStr (jd_fixDiff i))]"
| "enc_reduction (JudgmentDayRejudgment i) = JObj
     [(''request'', enc_rejudgment (rejudgment i)),
      (''judgeAResults'', enc_list enc_finding_input (judgeAResults i)),
      (''judgeBResults'', enc_list enc_finding_input (judgeBResults i))]"
| "enc_reduction (JudgmentDayFinalVerification i) = enc_final i"

lemma enc_opt_ok: "(\<And>x. encodable (f x)) \<Longrightarrow> enc_opt f v = JUndefined \<or> encodable (enc_opt f v)"
  by (cases v) simp_all

lemma enc_list_ok: "(\<And>x. encodable (f x)) \<Longrightarrow> encodable (enc_list f xs)"
  by (simp add: enc_list_def list_all_iff)

lemma enc_rejudgment_ok: "encodable (enc_rejudgment r)"
  by (simp add: enc_rejudgment_def faithfulD[OF faithful_strings] faithfulD[OF faithful_rows])

lemma enc_request_ok: "encodable (enc_request r)"
  by (simp add: enc_request_def enc_acceptance_def faithfulD[OF faithful_strings] faithfulD[OF faithful_rows]
      enc_list_ok faithfulD[OF faithful_regression] faithfulD[OF faithful_follow_up])

lemma enc_reduction_ok: "encodable (enc_reduction r) \<and> enc_reduction r \<noteq> JUndefined"
proof -
  have i: "encodable (enc_finding_input x)" for x by (simp add: enc_finding_input_def)
  have "enc_opt JStr v = JUndefined \<or> encodable (enc_opt JStr v)"
    "enc_opt enc_strings ps = JUndefined \<or> encodable (enc_opt enc_strings ps)"
    "enc_opt (enc_list enc_finding_input) q = JUndefined \<or> encodable (enc_opt (enc_list enc_finding_input) q)" for v ps q
    by (rule enc_opt_ok; simp add: enc_list_ok i faithfulD[OF faithful_strings])+
  then show ?thesis
    by (cases r) (simp_all add: enc_final_def enc_list_ok i enc_rejudgment_ok enc_request_ok
        faithfulD[OF faithful_strings] faithfulD[OF faithful_rows])
qed

section \<open>Events\<close>

datatype event_kind = LINEAGE_CREATED | OPERATION_PREPARED | OPERATION_COMPLETED | GATE_EVALUATED

fun kind_text :: "event_kind \<Rightarrow> string" where
  "kind_text LINEAGE_CREATED = ''lineage-created''"
| "kind_text OPERATION_PREPARED = ''operation-prepared''"
| "kind_text OPERATION_COMPLETED = ''operation-completed''"
| "kind_text GATE_EVALUATED = ''gate-evaluated''"

text \<open>What the store writes as the reducer input of an event.\<close>

datatype replay_input =
    StartInput review_state
  | PreparedInput string json
  | GateInput json
  | ReduceInput reduction

fun enc_replay_input :: "replay_input \<Rightarrow> json" where
  "enc_replay_input (StartInput s) = enc_state s"
| "enc_replay_input (PreparedInput t r) = JObj [(''transition'', JStr t), (''request'', r)]"
| "enc_replay_input (GateInput r) = r"
| "enc_replay_input (ReduceInput r) = enc_reduction r"

text \<open>The three optional fields that bind an event or a root set to one incarnation of the store.\<close>

record incarnation =
  store_epoch :: "string option"
  authority_incarnation :: "string option"
  reset_id :: "string option option"

definition no_incarnation :: incarnation where
  "no_incarnation = \<lparr>store_epoch = None, authority_incarnation = None, reset_id = None\<rparr>"

definition enc_null :: "string option \<Rightarrow> json" where
  "enc_null v = (case v of None \<Rightarrow> JNull | Some s \<Rightarrow> JStr s)"

definition enc_incarnation :: "incarnation \<Rightarrow> (string \<times> json) list" where
  "enc_incarnation i = [(''store_epoch'', enc_opt JStr (store_epoch i)),
     (''authority_incarnation_id'', enc_opt JStr (authority_incarnation i)),
     (''initialized_by_reset_id'', enc_opt enc_null (reset_id i))]"

record event_body =
  event_schema :: string
  event_incarnation :: incarnation
  event_lineage :: string
  event_sequence :: int
  predecessor_event :: "string option"
  event_kind :: event_kind
  reducer_transition :: "string option"
  reducer_input :: "replay_input option"
  payload_state :: review_state
  reduced_state_hash :: string

record event_envelope =
  body :: event_body
  event_id :: string

definition EVENT_SCHEMA :: string where
  "EVENT_SCHEMA = ''gentle-ai.review-event/v1''"

definition enc_event :: "event_body \<Rightarrow> json" where
  "enc_event b = JObj ((''schema'', JStr (event_schema b)) # enc_incarnation (event_incarnation b) @
     [(''lineage_id'', JStr (event_lineage b)), (''sequence'', JInt (event_sequence b)),
      (''predecessor_event_id'', enc_null (predecessor_event b)), (''kind'', JStr (kind_text (event_kind b))),
      (''reducer_transition'', enc_opt JStr (reducer_transition b)),
      (''reducer_input'', enc_opt enc_replay_input (reducer_input b)),
      (''payload'', JObj [(''state'', enc_state (payload_state b))]),
      (''reduced_state_hash'', JStr (reduced_state_hash b))])"

definition REDUCER_TRANSITIONS :: "string list" where
  "REDUCER_TRANSITIONS = [''start'', ''operation-prepared'', ''gate'', ''ordinary-discovery'', ''ordinary-evidence'',
     ''ordinary-fix'', ''ordinary-no-fix'', ''ordinary-validation'', ''ordinary-final-verification'',
     ''judgment-day-discovery'', ''judgment-day-fix'', ''judgment-day-rejudgment'', ''judgment-day-final-verification'']"

lemma transition_text_known: "transition_text t \<in> set REDUCER_TRANSITIONS"
  by (cases t) (simp_all add: REDUCER_TRANSITIONS_def)

section \<open>Validation\<close>

definition schema_digest :: "string \<Rightarrow> string \<Rightarrow> unit result" where
  "schema_digest value label = require (DIGEST value) (SchemaError (label @ '' must be a lowercase SHA-256 digest''))"

definition incarnation_ok :: "incarnation \<Rightarrow> bool" where
  "incarnation_ok i \<longleftrightarrow> (case store_epoch i of None \<Rightarrow> True | Some e \<Rightarrow> DIGEST e) \<and>
     (case authority_incarnation i of None \<Rightarrow> True | Some a \<Rightarrow> DIGEST a) \<and>
     (case reset_id i of Some (Some r) \<Rightarrow> DIGEST r | _ \<Rightarrow> True)"

definition assertBody :: "event_body \<Rightarrow> unit result" where
  "assertBody b = checks
     [require (event_schema b = EVENT_SCHEMA) (SchemaError ''Unsupported review event schema''),
      require (incarnation_ok (event_incarnation b)) (SchemaError ''Review event incarnation is invalid''),
      require (LINEAGE_ID (event_lineage b)) (SchemaError ''Review event lineage ID is invalid''),
      require (safe_integer (event_sequence b) \<and> 0 \<le> event_sequence b) (SchemaError ''Review event sequence is invalid''),
      require ((reducer_transition b = None) = (reducer_input b = None) \<and>
               (case reducer_transition b of None \<Rightarrow> True | Some t \<Rightarrow> t \<in> set REDUCER_TRANSITIONS))
        (SchemaError ''Review event reducer transition/input is invalid''),
      require (event_kind b = GATE_EVALUATED \<longrightarrow> reducer_transition b = Some ''gate'')
        (SchemaError ''Gate event must use the gate replay transition''),
      require (reducer_transition b = Some ''gate'' \<longrightarrow> event_kind b = GATE_EVALUATED)
        (SchemaError ''Gate replay transition requires a gate event''),
      schema_digest (reduced_state_hash b) ''Review event state hash'',
      (if event_sequence b = 0
       then require (predecessor_event b = None \<and> event_kind b = LINEAGE_CREATED)
         (SchemaError ''Genesis event must have sequence zero, no predecessor, and lineage-created kind'')
       else (case predecessor_event b of
         None \<Rightarrow> Inl (SchemaError ''Non-genesis event requires a predecessor'')
       | Some p \<Rightarrow> schema_digest p ''Review event predecessor''))]"

definition createReviewEventV1 :: "host \<Rightarrow> event_body \<Rightarrow> event_envelope result" where
  "createReviewEventV1 E input =
     (let b = input\<lparr>event_schema := EVENT_SCHEMA\<rparr> in
      bindr (assertBody b) (\<lambda>_.
      bindr (domainHashV1 E ''event'' (enc_event b)) (\<lambda>h. Inr \<lparr>body = b, event_id = h\<rparr>)))"

definition validateReviewEventV1 :: "host \<Rightarrow> event_envelope \<Rightarrow> event_envelope result" where
  "validateReviewEventV1 E v =
     bindr (assertBody (body v)) (\<lambda>_.
     bindr (schema_digest (event_id v) ''Review event identity'') (\<lambda>_.
     bindr (domainHashV1 E ''event'' (enc_event (body v))) (\<lambda>h.
       if h \<noteq> event_id v then Inl (SchemaError ''Review event identity does not match canonical body'')
       else Inr v)))"

text \<open>SHA-256 returns 64 hexadecimal digits.\<close>

definition digest_host :: "host \<Rightarrow> bool" where
  "digest_host E \<longleftrightarrow> (\<forall>t. DIGEST (sha256_hex E t))"

lemma create_event_iff:
  "createReviewEventV1 E input = Inr v \<longleftrightarrow>
     (\<exists>h. assertBody (input\<lparr>event_schema := EVENT_SCHEMA\<rparr>) = Inr () \<and>
        domainHashV1 E ''event'' (enc_event (input\<lparr>event_schema := EVENT_SCHEMA\<rparr>)) = Inr h \<and>
        v = \<lparr>body = input\<lparr>event_schema := EVENT_SCHEMA\<rparr>, event_id = h\<rparr>)"
  by (auto simp: createReviewEventV1_def Let_def result_simps)

lemma validate_event_iff:
  "validateReviewEventV1 E v = Inr w \<longleftrightarrow>
     assertBody (body v) = Inr () \<and> DIGEST (event_id v) \<and>
     domainHashV1 E ''event'' (enc_event (body v)) = Inr (event_id v) \<and> w = v"
  by (auto simp: validateReviewEventV1_def schema_digest_def result_simps)

lemma domainHash_digest: "digest_host E \<Longrightarrow> domainHashV1 E d v = Inr h \<Longrightarrow> DIGEST h"
  by (auto simp: domainHashV1_def result_simps digest_host_def)

lemma created_event_valid:
  assumes "digest_host E" "createReviewEventV1 E input = Inr v"
  shows "validateReviewEventV1 E v = Inr v"
  using assms domainHash_digest[OF assms(1)] by (auto simp: create_event_iff validate_event_iff)

end
