(* ===== verification/ObjectStore.thy ===== *)
theory ObjectStore
  imports ReviewGraph
begin

text \<open>
  The object store of the review graph (\<open>lib/review-object-store.ts\<close>): immutable, content-addressed
  event and root-set files, and three CURRENT pointers of which two must agree. A file is its
  parsed value; an unreadable one is None. Writing a pointer is one atomic replace, and a crash
  is a fault point between two of them. Root sets and pointers are identified by domain hashes
  of their JSON; bytes are equal exactly when values are, since the store writes canonical JSON.
\<close>

section \<open>Files\<close>

record authority =
  repo_id :: string
  auth_id :: string

record root_entry =
  entry_lineage :: string
  entry_mode :: string
  head_event_id :: string
  entry_sequence :: int
  entry_state_hash :: string

record root_body =
  root_schema :: string
  root_authority :: authority
  root_incarnation :: incarnation
  generation :: int
  predecessor_root :: "string option"
  lineages :: "root_entry list"

record root_set =
  root_body :: root_body
  root_set_id :: string

record current_pointer =
  pointer_schema :: string
  pointer_authority :: authority
  pointer_generation :: int
  pointer_root :: string
  slot_epoch :: int
  pointer_hash :: string

record store_descriptor =
  descriptor_schema :: string
  graph_format :: string
  descriptor_authority :: authority
  descriptor_epoch :: string
  descriptor_incarnation :: string
  initialization_kind :: string
  initialized_by_reset :: string
  reset_authorization_hash :: string

type_synonym 'a directory = "(string \<times> 'a option) list"

record graph_disk =
  event_files :: "event_envelope directory"
  root_files :: "root_set directory"
  pointers :: "nat \<Rightarrow> current_pointer option"
  store_file :: "store_descriptor option option"

definition enc_authority :: "authority \<Rightarrow> (string \<times> json) list" where
  "enc_authority a = [(''repository_id'', JStr (repo_id a)), (''authority_id'', JStr (auth_id a))]"

definition enc_entry :: "root_entry \<Rightarrow> json" where
  "enc_entry e = JObj [(''lineage_id'', JStr (entry_lineage e)), (''mode'', JStr (entry_mode e)),
     (''head_event_id'', JStr (head_event_id e)), (''sequence'', JInt (entry_sequence e)),
     (''reduced_state_hash'', JStr (entry_state_hash e))]"

definition enc_root_body :: "root_body \<Rightarrow> json" where
  "enc_root_body b = JObj ((''schema'', JStr (root_schema b)) # enc_authority (root_authority b) @
     enc_incarnation (root_incarnation b) @
     [(''generation'', JInt (generation b)), (''predecessor_root_set_id'', enc_null (predecessor_root b)),
      (''lineages'', enc_list enc_entry (lineages b))])"

definition enc_pointer_body :: "current_pointer \<Rightarrow> json" where
  "enc_pointer_body p = JObj ((''schema'', JStr (pointer_schema p)) # enc_authority (pointer_authority p) @
     [(''generation'', JInt (pointer_generation p)), (''root_set_id'', JStr (pointer_root p)),
      (''slot_epoch'', JInt (slot_epoch p))])"

definition enc_root_set :: "root_set \<Rightarrow> json" where
  "enc_root_set r = JObj [(''body'', enc_root_body (root_body r)), (''root_set_id'', JStr (root_set_id r))]"

definition enc_event_envelope :: "event_envelope \<Rightarrow> json" where
  "enc_event_envelope e = JObj [(''body'', enc_event (body e)), (''event_id'', JStr (event_id e))]"

definition ROOT_SCHEMA :: string where
  "ROOT_SCHEMA = ''gentle-ai.review-root-set/v1''"

definition CURRENT_SCHEMA :: string where
  "CURRENT_SCHEMA = ''gentle-ai.review-current/v1''"

section \<open>Immutable objects\<close>

definition install_immutable :: "string \<Rightarrow> 'a \<Rightarrow> 'a directory \<Rightarrow> 'a directory result" where
  "install_immutable i v files =
     (case map_of files i of
        None \<Rightarrow> Inr ((i, Some v) # files)
      | Some f \<Rightarrow> if f = Some v then Inr files
                  else Inl (StoreError ''Immutable object conflicts with existing bytes''))"

definition readEvent :: "host \<Rightarrow> graph_disk \<Rightarrow> string \<Rightarrow> event_envelope result" where
  "readEvent E d i =
     (case map_of (event_files d) i of
        Some (Some e) \<Rightarrow>
          if \<not> fits (enc_event_envelope e) then Inl (StoreError ''Event object is missing or invalid'')
          else (case validateReviewEventV1 E e of
             Inl err \<Rightarrow> Inl (StoreError ''Event object is missing or invalid'')
           | Inr e' \<Rightarrow> if event_id e' \<noteq> i then Inl (StoreError ''Event object is missing or invalid'') else Inr e')
      | _ \<Rightarrow> Inl (StoreError ''Event object is missing or invalid''))"

definition installEvent :: "host \<Rightarrow> graph_disk \<Rightarrow> event_envelope \<Rightarrow> graph_disk result" where
  "installEvent E d e =
     bindr (validateReviewEventV1 E e) (\<lambda>_.
     bindr (require (fits (enc_event_envelope e)) (StoreError ''Event object bytes are invalid'')) (\<lambda>_.
     bindr (install_immutable (event_id e) e (event_files d)) (\<lambda>files. Inr (d\<lparr>event_files := files\<rparr>))))"

definition readRootSet :: "host \<Rightarrow> graph_disk \<Rightarrow> string \<Rightarrow> root_set result" where
  "readRootSet E d i =
     (case map_of (root_files d) i of
        Some (Some r) \<Rightarrow>
          if fits (enc_root_set r) \<and> root_set_id r = i \<and> dhash E ''root-set'' (enc_root_body (root_body r)) = i then Inr r
          else Inl (StoreError ''Root set is missing or invalid'')
      | _ \<Rightarrow> Inl (StoreError ''Root set is missing or invalid''))"

definition installRootSet :: "host \<Rightarrow> authority \<Rightarrow> graph_disk \<Rightarrow> root_body \<Rightarrow> (root_set \<times> graph_disk) result" where
  "installRootSet E auth d b =
     (if root_schema b \<noteq> ROOT_SCHEMA \<or> root_authority b \<noteq> auth \<or> \<not> safe_integer (generation b) \<or> generation b < 0 \<or>
         (if generation b = 0 then predecessor_root b \<noteq> None
          else (case predecessor_root b of None \<Rightarrow> True | Some p \<Rightarrow> \<not> DIGEST p))
      then Inl (StoreError ''Root set is invalid'')
      else (let r = \<lparr>root_body = b, root_set_id = dhash E ''root-set'' (enc_root_body b)\<rparr> in
        bindr (install_immutable (root_set_id r) r (root_files d)) (\<lambda>files. Inr (r, d\<lparr>root_files := files\<rparr>))))"

section \<open>Pointers\<close>

definition pointer_valid :: "host \<Rightarrow> authority \<Rightarrow> current_pointer \<Rightarrow> bool" where
  "pointer_valid E auth p \<longleftrightarrow> pointer_schema p = CURRENT_SCHEMA \<and> pointer_authority p = auth \<and>
     DIGEST (pointer_root p) \<and> pointer_hash p = dhash E ''current'' (enc_pointer_body p)"

definition readPointer :: "host \<Rightarrow> authority \<Rightarrow> graph_disk \<Rightarrow> nat \<Rightarrow> current_pointer result" where
  "readPointer E auth d slot =
     (case pointers d slot of
        None \<Rightarrow> Inl (StoreError ''CURRENT pointer is invalid'')
      | Some p \<Rightarrow> if pointer_valid E auth p then Inr p else Inl (StoreError ''CURRENT pointer is invalid''))"

definition make_pointer :: "host \<Rightarrow> authority \<Rightarrow> root_set \<Rightarrow> int \<Rightarrow> current_pointer" where
  "make_pointer E auth r epoch =
     (let p = \<lparr>pointer_schema = CURRENT_SCHEMA, pointer_authority = auth,
               pointer_generation = generation (root_body r), pointer_root = root_set_id r,
               slot_epoch = epoch, pointer_hash = []\<rparr>
      in p\<lparr>pointer_hash := dhash E ''current'' (enc_pointer_body p)\<rparr>)"

text \<open>
  \<open>faults slot\<close> is true where the fault injector throws, or the process dies, before the replace.
  The disk is returned in either case.
\<close>

definition writePointer :: "host \<Rightarrow> authority \<Rightarrow> (nat \<Rightarrow> bool) \<Rightarrow> nat \<Rightarrow> root_set \<Rightarrow> int \<Rightarrow> graph_disk \<Rightarrow> unit result \<times> graph_disk" where
  "writePointer E auth faults slot r epoch d =
     (if faults slot then (Inl (Error ''fault''), d)
      else (Inr (), d\<lparr>pointers := (pointers d)(slot := Some (make_pointer E auth r epoch))\<rparr>))"

definition same_target :: "current_pointer \<Rightarrow> current_pointer \<Rightarrow> bool" where
  "same_target p q \<longleftrightarrow> pointer_root p = pointer_root q \<and> pointer_generation p = pointer_generation q"

definition readable_pointers :: "host \<Rightarrow> authority \<Rightarrow> graph_disk \<Rightarrow> current_pointer list" where
  "readable_pointers E auth d =
     concat (map (\<lambda>slot. case readPointer E auth d slot of Inl _ \<Rightarrow> [] | Inr p \<Rightarrow> [p]) [0, 1, 2])"

definition readQuorum :: "host \<Rightarrow> authority \<Rightarrow> graph_disk \<Rightarrow> current_pointer result" where
  "readQuorum E auth d =
     (let ps = readable_pointers E auth d in
      case find (\<lambda>p. 2 \<le> length (filter (\<lambda>q. same_target q p) ps)) ps of
        None \<Rightarrow> Inl (StoreError ''CURRENT pointer has no valid quorum'')
      | Some p \<Rightarrow> Inr p)"

definition readCurrent :: "host \<Rightarrow> authority \<Rightarrow> graph_disk \<Rightarrow> root_set result" where
  "readCurrent E auth d = bindr (readQuorum E auth d) (\<lambda>p. readRootSet E d (pointer_root p))"

text \<open>Write the given slots in order; the first fault ends it with what is on the disk.\<close>

fun write_pointers :: "host \<Rightarrow> authority \<Rightarrow> (nat \<Rightarrow> bool) \<Rightarrow> root_set \<Rightarrow> (nat \<times> int) list \<Rightarrow> graph_disk \<Rightarrow> unit result \<times> graph_disk" where
  "write_pointers E auth faults r [] d = (Inr (), d)"
| "write_pointers E auth faults r ((slot, epoch) # slots) d =
     (case writePointer E auth faults slot r epoch d of
        (Inl e, d') \<Rightarrow> (Inl e, d')
      | (Inr _, d') \<Rightarrow> write_pointers E auth faults r slots d')"

definition publish_check :: "host \<Rightarrow> authority \<Rightarrow> graph_disk \<Rightarrow> root_set \<Rightarrow> unit result" where
  "publish_check E auth d r =
     bindr (readRootSet E d (root_set_id r)) (\<lambda>installed.
       if installed \<noteq> r then Inl (StoreError ''Root set identity conflict'')
       else (case readCurrent E auth d of
         Inr current \<Rightarrow>
           require (generation (root_body r) = generation (root_body current) + 1 \<and>
                    predecessor_root (root_body r) = Some (root_set_id current))
             (StoreError ''Root set is not a descendant of the current authority'')
       | Inl _ \<Rightarrow>
           require (generation (root_body r) = 0 \<and> predecessor_root (root_body r) = None)
             (StoreError ''Initial root set must be generation zero'')))"

definition publish_slots :: "int \<Rightarrow> (nat \<times> int) list" where
  "publish_slots g = [(0, g * 3), (1, g * 3 + 1), (2, g * 3 + 2)]"

definition publishRootSet :: "host \<Rightarrow> authority \<Rightarrow> (nat \<Rightarrow> bool) \<Rightarrow> graph_disk \<Rightarrow> root_set \<Rightarrow> unit result \<times> graph_disk" where
  "publishRootSet E auth faults d r =
     (case publish_check E auth d r of
        Inl e \<Rightarrow> (Inl e, d)
      | Inr _ \<Rightarrow>
          (case write_pointers E auth faults r (publish_slots (generation (root_body r))) d of
             (Inl e, d') \<Rightarrow> (Inl e, d')
           | (Inr _, d') \<Rightarrow>
               (bindr (readCurrent E auth d') (\<lambda>now.
                  require (root_set_id now = root_set_id r) (StoreError ''Root publication did not produce a quorum'')), d')))"

section \<open>Descriptor, reset and repair\<close>

definition descriptor_ok :: "authority \<Rightarrow> store_descriptor \<Rightarrow> bool" where
  "descriptor_ok auth v \<longleftrightarrow> descriptor_schema v = ''gentle-ai.review-store/v1'' \<and> graph_format v = ''graph-v1'' \<and>
     descriptor_authority v = auth \<and> DIGEST (descriptor_epoch v) \<and> DIGEST (descriptor_incarnation v) \<and>
     DIGEST (reset_authorization_hash v) \<and> DIGEST (initialized_by_reset v)"

definition readStoreDescriptor :: "authority \<Rightarrow> graph_disk \<Rightarrow> store_descriptor result" where
  "readStoreDescriptor auth d =
     (case store_file d of
        Some (Some v) \<Rightarrow> if descriptor_ok auth v then Inr v else Inl (StoreError ''Store descriptor is missing or invalid'')
      | _ \<Rightarrow> Inl (StoreError ''Store descriptor is missing or invalid''))"

definition initializeDestructiveReset :: "host \<Rightarrow> authority \<Rightarrow> (nat \<Rightarrow> bool) \<Rightarrow> string \<Rightarrow> string \<Rightarrow> string \<Rightarrow> string \<Rightarrow> graph_disk \<Rightarrow> store_descriptor result \<times> graph_disk" where
  "initializeDestructiveReset E auth faults epoch incarnation_id reset authorization_hash d =
     (if \<not> list_all DIGEST [epoch, incarnation_id, reset, authorization_hash]
      then (Inl (StoreError ''Reset descriptor identities are invalid''), d)
      else (let v = \<lparr>descriptor_schema = ''gentle-ai.review-store/v1'', graph_format = ''graph-v1'',
                     descriptor_authority = auth, descriptor_epoch = epoch, descriptor_incarnation = incarnation_id,
                     initialization_kind = ''destructive-reset'', initialized_by_reset = reset,
                     reset_authorization_hash = authorization_hash\<rparr> in
        if store_file d \<noteq> None \<and> store_file d \<noteq> Some (Some v)
        then (Inl (StoreError ''Store descriptor already exists with a different authority incarnation''), d)
        else (let d1 = d\<lparr>store_file := Some (Some v)\<rparr> in
          case installRootSet E auth d1 \<lparr>root_schema = ROOT_SCHEMA, root_authority = auth,
              root_incarnation = \<lparr>store_epoch = Some epoch, authority_incarnation = Some incarnation_id, reset_id = Some (Some reset)\<rparr>,
              generation = 0, predecessor_root = None, lineages = []\<rparr> of
            Inl e \<Rightarrow> (Inl e, d1)
          | Inr (r, d2) \<Rightarrow>
              (case publishRootSet E auth faults d2 r of
                 (Inl e, d3) \<Rightarrow> (Inl e, d3)
               | (Inr _, d3) \<Rightarrow> (Inr v, d3)))))"

definition discoverSoleGenesisRootSet :: "host \<Rightarrow> authority \<Rightarrow> graph_disk \<Rightarrow> root_set option" where
  "discoverSoleGenesisRootSet E auth d =
     (case root_files d of
        [(i, f)] \<Rightarrow>
          (case readRootSet E d i of
             Inl _ \<Rightarrow> None
           | Inr r \<Rightarrow>
               if root_authority (root_body r) = auth \<and> generation (root_body r) = 0 \<and> predecessor_root (root_body r) = None
               then Some r else None)
      | _ \<Rightarrow> None)"

fun repair_slots :: "host \<Rightarrow> authority \<Rightarrow> (nat \<Rightarrow> bool) \<Rightarrow> current_pointer \<Rightarrow> nat list \<Rightarrow> graph_disk \<Rightarrow> unit result \<times> graph_disk" where
  "repair_slots E auth faults quorum [] d = (Inr (), d)"
| "repair_slots E auth faults quorum (slot # slots) d =
     (if (case readPointer E auth d slot of Inl _ \<Rightarrow> False | Inr p \<Rightarrow> same_target p quorum)
      then repair_slots E auth faults quorum slots d
      else (case readRootSet E d (pointer_root quorum) of
        Inl e \<Rightarrow> (Inl e, d)
      | Inr r \<Rightarrow>
          (case writePointer E auth faults slot r (slot_epoch quorum) d of
             (Inl e, d') \<Rightarrow> (Inl e, d')
           | (Inr _, d') \<Rightarrow> repair_slots E auth faults quorum slots d')))"

definition repairCurrentPointers :: "host \<Rightarrow> authority \<Rightarrow> (nat \<Rightarrow> bool) \<Rightarrow> graph_disk \<Rightarrow> unit result \<times> graph_disk" where
  "repairCurrentPointers E auth faults d =
     (case readQuorum E auth d of
        Inl e \<Rightarrow>
          (case discoverSoleGenesisRootSet E auth d of
             None \<Rightarrow> (Inl e, d)
           | Some r \<Rightarrow> write_pointers E auth faults r [(0, 0), (1, 1), (2, 2)] d)
      | Inr quorum \<Rightarrow> repair_slots E auth faults quorum [0, 1, 2] d)"

section \<open>Reading what was written\<close>

lemma install_immutable_iff:
  "install_immutable i v files = Inr files' \<longleftrightarrow>
     (map_of files i = None \<and> files' = (i, Some v) # files) \<or> (map_of files i = Some (Some v) \<and> files' = files)"
  by (auto simp: install_immutable_def split: option.splits)

lemma install_immutable_reads:
  assumes "install_immutable i v files = Inr files'"
  shows "map_of files' i = Some (Some v)" "map_of files j = Some f \<Longrightarrow> map_of files' j = Some f"
  using assms by (auto simp: install_immutable_iff)

lemma make_pointer_simps [simp]:
  "pointer_root (make_pointer E auth r e) = root_set_id r" "slot_epoch (make_pointer E auth r e) = e"
  "pointer_generation (make_pointer E auth r e) = generation (root_body r)"
  by (simp_all add: make_pointer_def Let_def)

lemma make_pointer_valid: "DIGEST (root_set_id r) \<Longrightarrow> pointer_valid E auth (make_pointer E auth r e)"
  by (simp add: pointer_valid_def make_pointer_def Let_def enc_pointer_body_def)

lemma readPointer_written:
  "readPointer E auth (d\<lparr>pointers := (pointers d)(slot := v)\<rparr>) slot' =
     (if slot' = slot then (case v of None \<Rightarrow> Inl (StoreError ''CURRENT pointer is invalid'')
        | Some p \<Rightarrow> if pointer_valid E auth p then Inr p else Inl (StoreError ''CURRENT pointer is invalid''))
      else readPointer E auth d slot')"
  by (simp add: readPointer_def)

text \<open>
  The target of a slot: the root and generation that a readable pointer names. Quorums only
  depend on the targets of the three slots.
\<close>

definition target :: "host \<Rightarrow> authority \<Rightarrow> graph_disk \<Rightarrow> nat \<Rightarrow> (string \<times> int) option" where
  "target E auth d slot = (case readPointer E auth d slot of Inl _ \<Rightarrow> None
     | Inr p \<Rightarrow> Some (pointer_root p, pointer_generation p))"

definition root_target :: "root_set \<Rightarrow> string \<times> int" where
  "root_target r = (root_set_id r, generation (root_body r))"

definition majority :: "(string \<times> int) option list \<Rightarrow> (string \<times> int) option" where
  "majority ts = (case ts of [a, b, c] \<Rightarrow>
     if a \<noteq> None \<and> (a = b \<or> a = c) then a else if b \<noteq> None \<and> b = c then b else None | _ \<Rightarrow> None)"

definition targets :: "host \<Rightarrow> authority \<Rightarrow> graph_disk \<Rightarrow> (string \<times> int) option list" where
  "targets E auth d = map (target E auth d) [0, 1, 2]"

lemma quorum_majority:
  "majority (targets E auth d) = (case readQuorum E auth d of Inl _ \<Rightarrow> None
     | Inr p \<Rightarrow> Some (pointer_root p, pointer_generation p))"
proof -
  have t: "target E auth d k = (case readPointer E auth d k of Inl _ \<Rightarrow> None
     | Inr p \<Rightarrow> Some (pointer_root p, pointer_generation p))" for k by (simp add: target_def)
  show ?thesis
    unfolding targets_def majority_def readQuorum_def readable_pointers_def Let_def same_target_def
    by (cases "readPointer E auth d 0"; cases "readPointer E auth d 1"; cases "readPointer E auth d 2")
      (auto simp: t)
qed

lemma readCurrent_majority:
  "readCurrent E auth d =
     (case majority (targets E auth d) of
        None \<Rightarrow> Inl (StoreError ''CURRENT pointer has no valid quorum'')
      | Some (i, g) \<Rightarrow> readRootSet E d i)"
  unfolding quorum_majority readCurrent_def
  by (auto simp: readQuorum_def Let_def split: sum.splits option.splits)

section \<open>Publication and repair\<close>

text \<open>The parts of the disk that pointer writes leave alone.\<close>

definition same_objects :: "graph_disk \<Rightarrow> graph_disk \<Rightarrow> bool" where
  "same_objects d d' \<longleftrightarrow> event_files d' = event_files d \<and> root_files d' = root_files d \<and> store_file d' = store_file d"

lemma same_objects_trans: "same_objects a b \<Longrightarrow> same_objects b c \<Longrightarrow> same_objects a c"
  by (simp add: same_objects_def)

lemma same_objects_reads:
  assumes "same_objects d d'"
  shows "readRootSet E d' i = readRootSet E d i" "readEvent E d' i = readEvent E d i"
    "readStoreDescriptor auth d' = readStoreDescriptor auth d"
  using assms by (simp_all add: same_objects_def readRootSet_def readEvent_def readStoreDescriptor_def)

lemma target_written:
  assumes "DIGEST (root_set_id r)"
  shows "target E auth (d\<lparr>pointers := (pointers d)(slot := Some (make_pointer E auth r e))\<rparr>) k =
     (if k = slot then Some (root_target r) else target E auth d k)"
  using make_pointer_valid[OF assms] by (simp add: target_def readPointer_written root_target_def)

lemma writePointer_cases:
  assumes "DIGEST (root_set_id r)" "writePointer E auth faults slot r e d = (res, d')"
  shows "same_objects d d' \<and>
     (if res = Inr () then \<forall>k. target E auth d' k = (if k = slot then Some (root_target r) else target E auth d k)
      else d' = d) \<and> (\<not> faults slot \<longrightarrow> res = Inr ())"
  using assms target_written[OF assms(1)] by (auto simp: writePointer_def same_objects_def split: if_splits)

lemma readRootSet_id: "readRootSet E d i = Inr r \<Longrightarrow> root_set_id r = i"
  by (auto simp: readRootSet_def split: option.splits if_splits)

lemma dhash_digest: "digest_host E \<Longrightarrow> DIGEST (dhash E t v)"
  by (simp add: dhash_def digest_host_def)

lemma readRootSet_digest:
  assumes "digest_host E" "readRootSet E d i = Inr r"
  shows "DIGEST i"
  using assms(2) dhash_digest[OF assms(1), of "''root-set''" "enc_root_body (root_body r)"]
  by (auto simp: readRootSet_def split: option.splits if_splits)

text \<open>After a publication that a fault cut short the first slots name the new root, the others the old one.\<close>

lemma write_pointers_targets:
  assumes "DIGEST (root_set_id r)" "write_pointers E auth faults r [(0, a), (1, b), (2, c)] d = (res, d')"
  shows "same_objects d d' \<and> (\<exists>n \<le> 3. (res = Inr () \<longleftrightarrow> n = 3) \<and>
    (\<forall>k < 3. target E auth d' k = (if k < n then Some (root_target r) else target E auth d k)))"
proof -
  note W = writePointer_cases[OF assms(1)]
  have less3: "k < 3 \<longleftrightarrow> k = 0 \<or> k = 1 \<or> k = 2" for k :: nat by auto
  obtain r0 d0 where 0: "writePointer E auth faults 0 r a d = (r0, d0)" by fastforce
  obtain r1 d1 where 1: "writePointer E auth faults 1 r b d0 = (r1, d1)" by fastforce
  obtain r2 d2 where 2: "writePointer E auth faults 2 r c d1 = (r2, d2)" by fastforce
  note w = W[OF 0] W[OF 1] W[OF 2]
  show ?thesis
  proof (cases r0)
    case (Inl e)
    with assms(2) 0 w(1) show ?thesis by (intro conjI exI[of _ 0]) auto
  next
    case i0: (Inr u0)
    show ?thesis
    proof (cases r1)
      case (Inl e)
      with assms(2) 0 1 i0 w(1,2) show ?thesis
        by (intro conjI exI[of _ 1]) (auto simp: less3 intro: same_objects_trans)
    next
      case i1: (Inr u1)
      show ?thesis
      proof (cases r2)
        case (Inl e)
        with assms(2) 0 1 2 i0 i1 w show ?thesis
          by (intro conjI exI[of _ 2]) (auto simp: less3 intro: same_objects_trans)
      next
        case i2: (Inr u2)
        with assms(2) 0 1 2 i0 i1 w show ?thesis
          by (intro conjI exI[of _ 3]) (auto simp: less3 intro: same_objects_trans)
      qed
    qed
  qed
qed

definition healthy :: "host \<Rightarrow> authority \<Rightarrow> graph_disk \<Rightarrow> root_set \<Rightarrow> bool" where
  "healthy E auth d r \<longleftrightarrow> (\<forall>k < 3. target E auth d k = Some (root_target r)) \<and> readRootSet E d (root_set_id r) = Inr r"

definition quorate :: "host \<Rightarrow> authority \<Rightarrow> graph_disk \<Rightarrow> root_set \<Rightarrow> bool" where
  "quorate E auth d r \<longleftrightarrow> majority (targets E auth d) = Some (root_target r) \<and> readRootSet E d (root_set_id r) = Inr r"

lemma targets_cong:
  "(\<And>k. k < 3 \<Longrightarrow> target E auth d k = t k) \<Longrightarrow> targets E auth d = [t 0, t 1, t 2]"
  by (simp add: targets_def)

lemma healthy_quorate: "healthy E auth d r \<Longrightarrow> quorate E auth d r"
  unfolding healthy_def quorate_def by (subst targets_cong[where t = "\<lambda>_. Some (root_target r)"]) (auto simp: majority_def)

lemma quorate_current: "quorate E auth d r \<Longrightarrow> readCurrent E auth d = Inr r"
  by (simp add: quorate_def readCurrent_majority root_target_def)

lemma publish_cut_short:
  assumes "healthy E auth d old" "readRootSet E d (root_set_id r) = Inr r" "same_objects d d'" "n \<le> 3"
    and "\<forall>k < 3. target E auth d' k = (if k < n then Some (root_target r) else target E auth d k)"
  shows "if 2 \<le> n then quorate E auth d' r else quorate E auth d' old"
proof -
  have "targets E auth d' = map (\<lambda>k. if k < n then Some (root_target r) else Some (root_target old)) [0, 1, 2]"
    using assms(1,5) by (simp add: targets_def healthy_def)
  moreover have "n = 0 \<or> n = 1 \<or> n = 2 \<or> n = 3" using assms(4) by auto
  ultimately show ?thesis
    using assms(1,2) same_objects_reads(1)[OF assms(3)] by (auto simp: quorate_def healthy_def majority_def)
qed

lemma repair_slots_quorate:
  assumes "readRootSet E d (root_set_id r) = Inr r" "DIGEST (root_set_id r)"
    "(pointer_root q, pointer_generation q) = root_target r"
    "repair_slots E auth faults q slots d = (res, d')"
  shows "same_objects d d' \<and>
    (\<forall>k. target E auth d' k = target E auth d k \<or> (k \<in> set slots \<and> target E auth d' k = Some (root_target r))) \<and>
    (res = Inr () \<longrightarrow> (\<forall>k \<in> set slots. target E auth d' k = Some (root_target r))) \<and>
    ((\<forall>k. \<not> faults k) \<longrightarrow> res = Inr ())"
  using assms(1,4)
proof (induction slots arbitrary: d)
  case Nil
  then show ?case by (simp add: same_objects_def)
next
  case (Cons slot slots)
  have same: "(case readPointer E auth d slot of Inl _ \<Rightarrow> False | Inr p \<Rightarrow> same_target p q) \<longleftrightarrow>
      target E auth d slot = Some (root_target r)"
    using assms(3) by (auto simp: target_def same_target_def root_target_def split: sum.splits)
  have root: "readRootSet E d (pointer_root q) = Inr r" using Cons.prems(1) assms(3) by (simp add: root_target_def)
  show ?case
  proof (cases "target E auth d slot = Some (root_target r)")
    case True
    then have "repair_slots E auth faults q slots d = (res, d')" using Cons.prems(2) same by simp
    note IH = Cons.IH[OF Cons.prems(1) this]
    with True have "target E auth d' slot = Some (root_target r)" by metis
    with IH show ?thesis by (intro conjI) (simp_all, metis)
  next
    case False
    obtain w d1 where w: "writePointer E auth faults slot r (slot_epoch q) d = (w, d1)" by fastforce
    note W = writePointer_cases[OF assms(2) w]
    show ?thesis
    proof (cases w)
      case (Inl e)
      with False Cons.prems(2) same root w W show ?thesis by (auto simp: same_objects_def)
    next
      case (Inr u)
      then have "repair_slots E auth faults q slots d1 = (res, d')"
        using False Cons.prems(2) same root w by simp
      moreover have "readRootSet E d1 (root_set_id r) = Inr r"
        using same_objects_reads(1) W Cons.prems(1) by metis
      ultimately have IH: "same_objects d1 d' \<and>
          (\<forall>k. target E auth d' k = target E auth d1 k \<or> (k \<in> set slots \<and> target E auth d' k = Some (root_target r))) \<and>
          (res = Inr () \<longrightarrow> (\<forall>k \<in> set slots. target E auth d' k = Some (root_target r))) \<and>
          ((\<forall>k. \<not> faults k) \<longrightarrow> res = Inr ())"
        using Cons.IH[of d1] by simp
      have d1: "target E auth d1 k = (if k = slot then Some (root_target r) else target E auth d k)" for k
        using W Inr by simp
      have here: "target E auth d' slot = Some (root_target r)" using IH d1[of slot] by metis
      have "target E auth d' k = target E auth d k \<or>
          (k \<in> set (slot # slots) \<and> target E auth d' k = Some (root_target r))" for k
        using IH d1[of k] here by (metis list.set_intros(1,2))
      moreover have "same_objects d d'" using W IH same_objects_trans by blast
      ultimately show ?thesis using IH here by simp
    qed
  qed
qed

lemma installRootSet_iff:
  "installRootSet E auth d b = Inr (r, d') \<longleftrightarrow>
     root_schema b = ROOT_SCHEMA \<and> root_authority b = auth \<and> safe_integer (generation b) \<and> 0 \<le> generation b \<and>
     (if generation b = 0 then predecessor_root b = None else \<exists>p. predecessor_root b = Some p \<and> DIGEST p) \<and>
     r = \<lparr>root_body = b, root_set_id = dhash E ''root-set'' (enc_root_body b)\<rparr> \<and>
     (\<exists>files. install_immutable (root_set_id r) r (root_files d) = Inr files \<and> d' = d\<lparr>root_files := files\<rparr>)"
  by (auto simp: installRootSet_def Let_def result_simps split: option.splits)

lemma installRootSet_reads:
  assumes "installRootSet E auth d b = Inr (r, d')"
  shows "readRootSet E d' (root_set_id r) = (if fits (enc_root_set r) then Inr r else Inl (StoreError ''Root set is missing or invalid''))"
  using assms by (auto simp: installRootSet_iff readRootSet_def dest!: install_immutable_reads(1))

lemma installRootSet_keeps:
  assumes "installRootSet E auth d b = Inr (r, d')" "readRootSet E d i = Inr r'"
  shows "readRootSet E d' i = Inr r'"
proof -
  obtain files where f: "install_immutable (root_set_id r) r (root_files d) = Inr files" "d' = d\<lparr>root_files := files\<rparr>"
    using assms(1) by (auto simp: installRootSet_iff)
  have m: "map_of (root_files d) i = Some (Some r')" and "fits (enc_root_set r') \<and> root_set_id r' = i \<and> dhash E ''root-set'' (enc_root_body (root_body r')) = i"
    using assms(2) by (auto simp: readRootSet_def split: option.splits if_splits)
  with install_immutable_reads(2)[OF f(1) m] f(2) show ?thesis by (simp add: readRootSet_def)
qed

lemma target_objects:
  "target E auth (d\<lparr>root_files := files\<rparr>) k = target E auth d k"
  "target E auth (d\<lparr>event_files := events\<rparr>) k = target E auth d k"
  "target E auth (d\<lparr>store_file := f\<rparr>) k = target E auth d k"
  by (simp_all add: target_def readPointer_def)

end
