(* ===== verification/ObjectClaims.thy ===== *)
theory ObjectClaims
  imports ObjectStore FrozenLedger
begin

text \<open>
  The properties of the object store: a publication is atomic whatever cuts it short, the repair
  completes it, and a reset that was cut short can be recovered.
\<close>

section \<open>Publication\<close>

lemma publish_check_iff:
  "publish_check E auth d r = Inr () \<longleftrightarrow>
     readRootSet E d (root_set_id r) = Inr r \<and>
     (case readCurrent E auth d of
        Inr current \<Rightarrow> generation (root_body r) = generation (root_body current) + 1 \<and>
          predecessor_root (root_body r) = Some (root_set_id current)
      | Inl _ \<Rightarrow> generation (root_body r) = 0 \<and> predecessor_root (root_body r) = None)"
  by (auto simp: publish_check_def result_simps require_def split: sum.splits if_splits)

lemma publish_runs:
  assumes "digest_host E" "publishRootSet E auth faults d r = (res, d')"
  shows "(d' = d \<and> res \<noteq> Inr () \<and> publish_check E auth d r \<noteq> Inr ()) \<or>
    (publish_check E auth d r = Inr () \<and> same_objects d d' \<and> (\<exists>n \<le> 3. (n < 3 \<longrightarrow> res \<noteq> Inr ()) \<and>
      (\<forall>k < 3. target E auth d' k = (if k < n then Some (root_target r) else target E auth d k)) \<and>
      (n = 3 \<longrightarrow> healthy E auth d' r \<and> res = Inr ()) \<and> ((\<forall>k. \<not> faults k) \<longrightarrow> n = 3)))"
proof (cases "publish_check E auth d r")
  case (Inl e)
  with assms(2) show ?thesis by (auto simp: publishRootSet_def)
next
  case (Inr u)
  then have c: "publish_check E auth d r = Inr ()" by simp
  then have root: "readRootSet E d (root_set_id r) = Inr r" by (simp add: publish_check_iff)
  have dg: "DIGEST (root_set_id r)" using readRootSet_digest[OF assms(1) root] .
  obtain w d1 where w: "write_pointers E auth faults r (publish_slots (generation (root_body r))) d = (w, d1)"
    by fastforce
  then obtain n where n: "same_objects d d1" "n \<le> 3" "w = Inr () \<longleftrightarrow> n = 3"
      "\<forall>k < 3. target E auth d1 k = (if k < n then Some (root_target r) else target E auth d k)"
    using write_pointers_targets[OF dg, of E auth faults "generation (root_body r) * 3" _ _ d w d1]
    unfolding publish_slots_def by blast
  have free: "(\<forall>k. \<not> faults k) \<longrightarrow> n = 3" using w n(3) by (auto simp: publish_slots_def writePointer_def)
  have here: "d' = d1" using assms(2) c w by (simp add: publishRootSet_def split: sum.splits)
  show ?thesis
  proof (cases "n = 3")
    case True
    then have h: "healthy E auth d1 r"
      using n(4) root same_objects_reads(1)[OF n(1)] by (simp add: healthy_def)
    then have "readCurrent E auth d1 = Inr r" by (intro quorate_current healthy_quorate)
    with True n(3) assms(2) c w have "res = Inr ()" by (simp add: publishRootSet_def)
    with h n here True c free show ?thesis by blast
  next
    case False
    with n(3) obtain e where "w = Inl e" by (cases w) auto
    with assms(2) c w have "res = Inl e" by (simp add: publishRootSet_def)
    with n here False c free show ?thesis by (intro disjI2 conjI exI[of _ n]) simp_all
  qed
qed

lemma publish_free:
  assumes "digest_host E" "publishRootSet E auth faults d r = (res, d')"
    "publish_check E auth d r = Inr () \<and> (\<forall>k. \<not> faults k)"
  shows "res = Inr ()"
  using publish_runs[OF assms(1,2)]
proof (elim disjE conjE exE)
  fix n assume "(\<forall>k. \<not> faults k) \<longrightarrow> n = 3" "n = 3 \<longrightarrow> healthy E auth d' r \<and> res = Inr ()"
  with assms(3) show ?thesis by simp
qed (simp add: assms(3))

lemma publish_outcome:
  assumes "digest_host E" "healthy E auth d old" "publishRootSet E auth faults d r = (res, d')"
  shows "\<exists>now. (now = old \<or> now = r) \<and> quorate E auth d' now \<and> same_objects d d' \<and> (res = Inr () \<longrightarrow> healthy E auth d' r)"
  using publish_runs[OF assms(1,3)]
proof (elim disjE conjE exE)
  assume "d' = d" "res \<noteq> Inr ()"
  with healthy_quorate[OF assms(2)] show ?thesis by (intro exI[of _ old]) (simp add: same_objects_def)
next
  fix n assume n: "publish_check E auth d r = Inr ()" "same_objects d d'" "n \<le> 3" "n < 3 \<longrightarrow> res \<noteq> Inr ()"
    "\<forall>k < 3. target E auth d' k = (if k < n then Some (root_target r) else target E auth d k)"
    "n = 3 \<longrightarrow> healthy E auth d' r \<and> res = Inr ()"
  have "readRootSet E d (root_set_id r) = Inr r" using n(1) by (simp add: publish_check_iff)
  from publish_cut_short[OF assms(2) this n(2,3,5)]
  have "quorate E auth d' (if 2 \<le> n then r else old)" by (simp split: if_splits)
  moreover have "res = Inr () \<longrightarrow> healthy E auth d' r" using n(3,4,6) by fastforce
  ultimately show ?thesis using n(2) by (intro exI[of _ "if 2 \<le> n then r else old"]) simp
qed

lemma majority_stays:
  assumes "majority [a, b, c] = Some x" "a' = a \<or> a' = Some x" "b' = b \<or> b' = Some x" "c' = c \<or> c' = Some x"
  shows "majority [a', b', c'] = Some x"
  using assms by (auto simp: majority_def split: if_splits)

lemma repair_quorate:
  assumes "digest_host E" "quorate E auth d r" "repairCurrentPointers E auth faults d = (res, d')"
  shows "same_objects d d' \<and> quorate E auth d' r \<and> (res = Inr () \<longrightarrow> healthy E auth d' r) \<and>
    ((\<forall>k. \<not> faults k) \<longrightarrow> res = Inr ())"
proof -
  obtain q where q: "readQuorum E auth d = Inr q" "(pointer_root q, pointer_generation q) = root_target r"
    using assms(2) quorum_majority[of E auth d] by (auto simp: quorate_def split: sum.splits)
  have root: "readRootSet E d (root_set_id r) = Inr r" using assms(2) by (simp add: quorate_def)
  have run: "repair_slots E auth faults q [0, 1, 2] d = (res, d')"
    using assms(3) q(1) by (simp add: repairCurrentPointers_def)
  note R = repair_slots_quorate[OF root readRootSet_digest[OF assms(1) root] q(2) run]
  then have same: "same_objects d d'"
    and t: "target E auth d' k = target E auth d k \<or> target E auth d' k = Some (root_target r)" for k
    by blast+
  have root': "readRootSet E d' (root_set_id r) = Inr r" using root same_objects_reads(1)[OF same] by simp
  have "majority (targets E auth d') = Some (root_target r)"
    using assms(2) majority_stays[OF _ t[of 0] t[of 1] t[of 2]] by (simp add: quorate_def targets_def)
  then have "quorate E auth d' r" using root' by (simp add: quorate_def)
  moreover have "healthy E auth d' r" if "res = Inr ()"
  proof -
    have "target E auth d' k = Some (root_target r)" if "k < 3" for k
    proof -
      have "k = 0 \<or> k = 1 \<or> k = 2" using that by auto
      with R \<open>res = Inr ()\<close> show ?thesis by auto
    qed
    with root' show ?thesis by (simp add: healthy_def)
  qed
  ultimately show ?thesis using same R by blast
qed

text \<open>A reset that a fault cut short leaves its root set as the only one, which the repair finds.\<close>

lemma sole_genesis:
  assumes "root_files d = [(root_set_id r, Some r)]" "readRootSet E d (root_set_id r) = Inr r"
    "root_authority (root_body r) = auth" "generation (root_body r) = 0" "predecessor_root (root_body r) = None"
  shows "discoverSoleGenesisRootSet E auth d = Some r"
  using assms by (simp add: discoverSoleGenesisRootSet_def)

lemma repair_genesis:
  assumes "digest_host E" "discoverSoleGenesisRootSet E auth d = Some r" "readQuorum E auth d = Inl e"
    "\<forall>k. \<not> faults k" "repairCurrentPointers E auth faults d = (res, d')"
  shows "res = Inr () \<and> same_objects d d' \<and> healthy E auth d' r"
proof -
  obtain i where root: "readRootSet E d (root_set_id r) = Inr r"
    using assms(2) by (auto simp: discoverSoleGenesisRootSet_def readRootSet_id split: list.splits sum.splits if_splits)
  have run: "write_pointers E auth faults r [(0, 0), (1, 1), (2, 2)] d = (res, d')"
    using assms by (simp add: repairCurrentPointers_def)
  note W = write_pointers_targets[OF readRootSet_digest[OF assms(1) root] run]
  have "res = Inr ()" using run assms(4) by (simp add: writePointer_def)
  with W have "same_objects d d'" "\<forall>k < 3. target E auth d' k = Some (root_target r)" by force+
  with root \<open>res = Inr ()\<close> same_objects_reads(1) show ?thesis by (simp add: healthy_def)
qed

section \<open>A sample store\<close>

definition sample_authority :: authority where
  "sample_authority = \<lparr>repo_id = ''r'', auth_id = ''a''\<rparr>"

definition sample_body :: "int \<Rightarrow> string option \<Rightarrow> root_body" where
  "sample_body g p = \<lparr>root_schema = ROOT_SCHEMA, root_authority = sample_authority,
     root_incarnation = no_incarnation, generation = g, predecessor_root = p, lineages = []\<rparr>"

text \<open>A digest that tells the first root set from everything else.\<close>

definition marking_host :: host where
  "marking_host = code_unit_host\<lparr>sha256_hex := \<lambda>t.
     if t = domain_text ''root-set'' (text_of (canonicalize (enc_root_body (sample_body 0 None))))
     then replicate 64 (CHR ''0'') else replicate 64 (CHR ''1'')\<rparr>"

lemma marking_digest: "digest_host marking_host"
proof -
  have "list_all is_hex (replicate 64 (CHR ''0''))" "list_all is_hex (replicate 64 (CHR ''1''))" by code_simp+
  then show ?thesis unfolding digest_host_def marking_host_def DIGEST_def by simp
qed

definition sample_root :: "root_body \<Rightarrow> root_set" where
  "sample_root b = \<lparr>root_body = b, root_set_id = dhash marking_host ''root-set'' (enc_root_body b)\<rparr>"

definition sample_first :: root_set where
  "sample_first = sample_root (sample_body 0 None)"

definition sample_next :: root_set where
  "sample_next = sample_root (sample_body 1 (Some (root_set_id sample_first)))"

lemma generation_norm:
  assumes "norm (enc_root_body b) = norm (enc_root_body b')"
  shows "generation b = generation b'"
  using obj_field_norm[OF assms[unfolded enc_root_body_def], of "''generation''"]
  by (simp add: enc_authority_def enc_incarnation_def)

lemma encodable_root: "encodable (enc_root_body (sample_body g p))"
  by (simp add: enc_root_body_def enc_authority_def enc_incarnation_def sample_body_def no_incarnation_def
      enc_null_def enc_list_def split: option.split)

lemma root_set_fits:
  assumes "encodable (enc_root_body (root_body r))" "length (root_set_id r) \<le> 1000" "text_bound (enc_root_body (root_body r)) \<le> 10000"
  shows "fits (enc_root_set r)"
  using assms by (intro fits_bound) (simp_all add: enc_root_set_def)

lemma marked_length: "length (dhash marking_host d v) = 64"
  using dhash_digest[OF marking_digest, of d v] by (simp add: DIGEST_def)

lemma sample_fits: "fits (enc_root_set sample_first)" "fits (enc_root_set sample_next)"
  by (rule root_set_fits; simp add: sample_first_def sample_next_def sample_root_def encodable_root marked_length;
      simp add: enc_root_body_def enc_authority_def enc_incarnation_def sample_body_def sample_authority_def
        no_incarnation_def enc_null_def enc_list_def ROOT_SCHEMA_def marked_length)+

lemma sample_ids: "root_set_id sample_next \<noteq> root_set_id sample_first"
proof -
  let ?a = "enc_root_body (sample_body 0 None)"
  let ?b = "enc_root_body (sample_body 1 (Some (root_set_id sample_first)))"
  have "norm ?b \<noteq> norm ?a" using generation_norm[of "sample_body 1 _" "sample_body 0 None"] by (auto simp: sample_body_def)
  then have "canonicalize ?b \<noteq> canonicalize ?a" using canonicalize_eq_iff[OF encodable_root encodable_root] by simp
  moreover have "ok (canonicalize ?a)" "ok (canonicalize ?b)" using encodable_root unfolding encodable_iff by simp_all
  ultimately have "text_of (canonicalize ?b) \<noteq> text_of (canonicalize ?a)" by (auto simp: ok_iff text_of_def)
  then show ?thesis
    by (simp add: sample_next_def sample_first_def sample_root_def dhash_def marking_host_def domain_text_def)
qed

definition sample_disk :: graph_disk where
  "sample_disk = \<lparr>event_files = [], root_files = [], pointers = \<lambda>_. None, store_file = None\<rparr>"

definition published_disk :: graph_disk where
  "published_disk = sample_disk\<lparr>
     root_files := map (\<lambda>r. (root_set_id r, Some r)) [sample_next, sample_first],
     pointers := \<lambda>k. Some (make_pointer marking_host sample_authority sample_first (int k))\<rparr>"

lemma published_healthy: "healthy marking_host sample_authority published_disk sample_first"
proof -
  have f: "root_set_id sample_first = dhash marking_host ''root-set'' (enc_root_body (root_body sample_first))"
    by (simp add: sample_first_def sample_root_def)
  then have "readRootSet marking_host published_disk (root_set_id sample_first) = Inr sample_first"
    using sample_ids sample_fits by (simp add: readRootSet_def published_disk_def)
  moreover have "pointer_valid marking_host sample_authority (make_pointer marking_host sample_authority sample_first e)" for e
    by (rule make_pointer_valid) (simp add: f dhash_digest[OF marking_digest])
  then have "target marking_host sample_authority published_disk k = Some (root_target sample_first)" for k
    by (simp add: target_def readPointer_def published_disk_def root_target_def)
  ultimately show ?thesis by (simp add: healthy_def)
qed

section \<open>Properties\<close>

text \<open>
  C10: a publication is atomic. On a store whose three pointers agree, whatever the fault that cuts
  \<open>publishRootSet\<close> short, the current root is afterwards the old one or the new one; nothing else
  on the disk moves; a publication that returns has all three pointers on the new root, and one
  whose check passes and that meets no fault does return. A repair then always succeeds, and
  brings the three pointers to agree on the current root again.
\<close>

theorem publish_is_atomic:
  assumes "digest_host E" and "healthy E auth d old"
    and "publishRootSet E auth faults d r = (res, d')"
    and "repairCurrentPointers E auth (\<lambda>_. False) d' = (res2, d2)"
  shows "(\<exists>now. (now = old \<or> now = r) \<and> readCurrent E auth d' = Inr now \<and> healthy E auth d2 now) \<and>
    res2 = Inr () \<and> same_objects d d2 \<and> (res = Inr () \<longrightarrow> healthy E auth d' r) \<and>
    (publish_check E auth d r = Inr () \<and> (\<forall>k. \<not> faults k) \<longrightarrow> res = Inr ())"
proof -
  obtain now where now: "now = old \<or> now = r" "quorate E auth d' now" "same_objects d d'"
    "res = Inr () \<longrightarrow> healthy E auth d' r" using publish_outcome[OF assms(1-3)] by (elim exE conjE)
  from repair_quorate[OF assms(1) now(2) assms(4)]
  have "res2 = Inr ()" "healthy E auth d2 now" "same_objects d' d2" by simp_all
  with now quorate_current[OF now(2)] same_objects_trans[OF now(3)] publish_free[OF assms(1,3)] show ?thesis
    by (intro conjI exI[of _ now]) simp_all
qed

theorem publish_is_atomic_witness:
  "publish_check marking_host sample_authority published_disk sample_next = Inr () \<and>
   (\<exists>d' d2. publishRootSet marking_host sample_authority (\<lambda>k. k = 1) published_disk sample_next = (Inl (Error ''fault''), d') \<and>
      repairCurrentPointers marking_host sample_authority (\<lambda>_. False) d' = (Inr (), d2) \<and>
      readCurrent marking_host sample_authority d' = Inr sample_first)"
proof -
  let ?run = "publishRootSet marking_host sample_authority (\<lambda>k. k = 1) published_disk sample_next"
  have n: "readRootSet marking_host published_disk (root_set_id sample_next) = Inr sample_next"
    using sample_fits by (simp add: readRootSet_def published_disk_def) (simp add: sample_next_def sample_root_def)
  have c: "publish_check marking_host sample_authority published_disk sample_next = Inr ()"
    unfolding publish_check_iff quorate_current[OF healthy_quorate[OF published_healthy]]
    using n by (simp add: sample_next_def sample_root_def sample_body_def sample_first_def)
  obtain res2 d2 where r: "repairCurrentPointers marking_host sample_authority (\<lambda>_. False) (snd ?run) = (res2, d2)"
    by fastforce
  have f: "?run = (Inl (Error ''fault''), snd ?run)"
    using c by (simp add: publishRootSet_def publish_slots_def writePointer_def)
  from publish_is_atomic[OF marking_digest published_healthy f r]
  have "res2 = Inr ()" by simp
  moreover have "quorate marking_host sample_authority (snd ?run) sample_first"
  proof -
    let ?d = "published_disk\<lparr>pointers := (pointers published_disk)(0 := Some (make_pointer marking_host sample_authority sample_next 3))\<rparr>"
    have d: "snd ?run = ?d"
      using c by (simp add: publishRootSet_def publish_slots_def writePointer_def sample_next_def sample_root_def sample_body_def)
    have o: "same_objects published_disk ?d" by (simp add: same_objects_def)
    have t: "\<forall>k < 3. target marking_host sample_authority ?d k =
        (if k < 1 then Some (root_target sample_next) else target marking_host sample_authority published_disk k)"
      using target_written[OF readRootSet_digest[OF marking_digest n]] by simp
    from publish_cut_short[OF published_healthy n o _ t] d show ?thesis by simp
  qed
  ultimately show ?thesis using c f r quorate_current by (intro conjI exI) simp_all
qed

text \<open>
  one damaged pointer is not lost. Where two of the three pointers still agree on an intact
  root set, a repair never changes the current root or any other file, whatever fault cuts it
  short; it succeeds where there is no fault, and then all three pointers agree.
\<close>

theorem repair_keeps_root:
  assumes "digest_host E" and "readRootSet E d (root_set_id r) = Inr r"
    and "i < 3" and "j < 3" and "i \<noteq> j"
    and "target E auth d i = Some (root_target r)" and "target E auth d j = Some (root_target r)"
    and "repairCurrentPointers E auth faults d = (res, d')"
  shows "readCurrent E auth d = Inr r \<and> readCurrent E auth d' = Inr r \<and> same_objects d d' \<and>
    (res = Inr () \<longrightarrow> healthy E auth d' r) \<and> ((\<forall>k. \<not> faults k) \<longrightarrow> res = Inr ())"
proof -
  have "{i, j} \<subseteq> {0, 1, 2}" using assms(3,4) by auto
  moreover obtain a b where "root_target r = (a, b)" by fastforce
  ultimately have "majority (targets E auth d) = Some (root_target r)"
    using assms(5-7) by (auto simp: targets_def majority_def)
  with assms(2) have "quorate E auth d r" by (simp add: quorate_def)
  from repair_quorate[OF assms(1) this assms(8)] quorate_current this show ?thesis by blast
qed

theorem repair_keeps_root_witness:
  "readCurrent marking_host sample_authority (published_disk\<lparr>pointers := (pointers published_disk)(2 := None)\<rparr>) =
     Inr sample_first \<and>
   fst (repairCurrentPointers marking_host sample_authority (\<lambda>_. False)
     (published_disk\<lparr>pointers := (pointers published_disk)(2 := None)\<rparr>)) = Inr ()"
proof -
  let ?d = "published_disk\<lparr>pointers := (pointers published_disk)(2 := None)\<rparr>"
  have "readRootSet marking_host ?d i = readRootSet marking_host published_disk i" for i
    by (simp add: readRootSet_def)
  moreover have "target marking_host sample_authority ?d k = target marking_host sample_authority published_disk k" if "k < 2" for k
    using that by (simp add: target_def readPointer_def)
  ultimately show ?thesis
    using published_healthy repair_keeps_root[OF marking_digest, of ?d sample_first 0 1 sample_authority "\<lambda>_. False"]
    by (cases "repairCurrentPointers marking_host sample_authority (\<lambda>_. False) ?d") (simp add: healthy_def)
qed

definition genesis_body :: "authority \<Rightarrow> string \<Rightarrow> string \<Rightarrow> string \<Rightarrow> root_body" where
  "genesis_body auth epoch inc reset = \<lparr>root_schema = ROOT_SCHEMA, root_authority = auth,
     root_incarnation = \<lparr>store_epoch = Some epoch, authority_incarnation = Some inc, reset_id = Some (Some reset)\<rparr>,
     generation = 0, predecessor_root = None, lineages = []\<rparr>"

lemma reset_publishes:
  assumes "list_all DIGEST [epoch, inc, reset, grant]"
    "fits (enc_root_set \<lparr>root_body = genesis_body auth epoch inc reset,
       root_set_id = dhash E ''root-set'' (enc_root_body (genesis_body auth epoch inc reset))\<rparr>)"
    "root_files d = []" "store_file d = None" "\<forall>k. pointers d k = None"
    "initializeDestructiveReset E auth faults epoch inc reset grant d = (res, d')"
  obtains r d2 pres v where "root_body r = genesis_body auth epoch inc reset" "root_files d2 = [(root_set_id r, Some r)]"
    "readRootSet E d2 (root_set_id r) = Inr r" "\<forall>k. target E auth d2 k = None"
    "readStoreDescriptor auth d2 = Inr v" "descriptor_epoch v = epoch" "descriptor_incarnation v = inc"
    "publishRootSet E auth faults d2 r = (pres, d')" "res = (case pres of Inl e \<Rightarrow> Inl e | Inr _ \<Rightarrow> Inr v)"
proof -
  let ?b = "genesis_body auth epoch inc reset"
  define v where "v = \<lparr>descriptor_schema = ''gentle-ai.review-store/v1'', graph_format = ''graph-v1'',
     descriptor_authority = auth, descriptor_epoch = epoch, descriptor_incarnation = inc,
     initialization_kind = ''destructive-reset'', initialized_by_reset = reset, reset_authorization_hash = grant\<rparr>"
  define r where "r = \<lparr>root_body = ?b, root_set_id = dhash E ''root-set'' (enc_root_body ?b)\<rparr>"
  define d2 where "d2 = d\<lparr>store_file := Some (Some v), root_files := [(root_set_id r, Some r)]\<rparr>"
  obtain pres p where run: "publishRootSet E auth faults d2 r = (pres, p)" by fastforce
  have inst: "installRootSet E auth (d\<lparr>store_file := Some (Some v)\<rparr>) ?b = Inr (r, d2)"
    using assms(3) by (simp add: installRootSet_iff r_def d2_def genesis_body_def install_immutable_iff safe_integer_def)
  then have "(res, d') = (case pres of Inl e \<Rightarrow> (Inl e, p) | Inr _ \<Rightarrow> (Inr v, p))"
    using assms run unfolding initializeDestructiveReset_def v_def[symmetric] Let_def genesis_body_def
    by (simp split: sum.splits)
  then have out: "d' = p" "res = (case pres of Inl e \<Rightarrow> Inl e | Inr _ \<Rightarrow> Inr v)" by (simp_all split: sum.splits)
  show ?thesis
  proof (rule that)
    show "readRootSet E d2 (root_set_id r) = Inr r" using installRootSet_reads[OF inst] assms(2) by (simp add: r_def)
    show "\<forall>k. target E auth d2 k = None" using assms(5) by (simp add: target_def readPointer_def d2_def)
    show "readStoreDescriptor auth d2 = Inr v" using assms(1) by (simp add: readStoreDescriptor_def d2_def descriptor_ok_def v_def)
    show "publishRootSet E auth faults d2 r = (pres, d')" using run out(1) by simp
  qed (simp_all add: out(2) r_def d2_def v_def)
qed

text \<open>
  C25: a destructive reset can always be completed. On an empty store, wherever a fault cuts the
  publication of the first root set short, a repair succeeds and makes all three pointers agree on
  the empty first root set of the new incarnation, with the store descriptor in place; a reset
  that meets no fault returns that descriptor.
\<close>

theorem reset_is_recoverable:
  assumes "digest_host E" and "list_all DIGEST [epoch, inc, reset, grant]"
    and "fits (enc_root_set \<lparr>root_body = genesis_body auth epoch inc reset,
       root_set_id = dhash E ''root-set'' (enc_root_body (genesis_body auth epoch inc reset))\<rparr>)"
    and "root_files d = []" and "store_file d = None" and "\<forall>k. pointers d k = None"
    and "initializeDestructiveReset E auth faults epoch inc reset grant d = (res, d')"
    and "repairCurrentPointers E auth (\<lambda>_. False) d' = (res2, d2)"
  shows "res2 = Inr () \<and> (\<exists>r. healthy E auth d2 r \<and> root_body r = genesis_body auth epoch inc reset) \<and>
    (\<exists>v. readStoreDescriptor auth d2 = Inr v \<and> descriptor_epoch v = epoch \<and> descriptor_incarnation v = inc \<and>
      ((\<forall>k. \<not> faults k) \<longrightarrow> res = Inr v))"
proof -
  obtain r d1 pres v where r: "root_body r = genesis_body auth epoch inc reset" "root_files d1 = [(root_set_id r, Some r)]"
    "readRootSet E d1 (root_set_id r) = Inr r" "\<forall>k. target E auth d1 k = None"
    "readStoreDescriptor auth d1 = Inr v" "descriptor_epoch v = epoch" "descriptor_incarnation v = inc"
    "publishRootSet E auth faults d1 r = (pres, d')" "res = (case pres of Inl e \<Rightarrow> Inl e | Inr _ \<Rightarrow> Inr v)"
    using assms(2-7) by (rule reset_publishes)
  have c: "publish_check E auth d1 r = Inr ()"
    using r(1,3,4) by (simp add: publish_check_iff readCurrent_majority targets_def majority_def genesis_body_def)
  obtain n where n: "same_objects d1 d'" "n \<le> 3"
      "\<forall>k < 3. target E auth d' k = (if k < n then Some (root_target r) else target E auth d1 k)"
    using publish_runs[OF assms(1) r(8)] c by (elim disjE conjE exE) simp_all
  have files: "root_files d' = [(root_set_id r, Some r)]" "readRootSet E d' (root_set_id r) = Inr r"
    using n(1) r(2,3) same_objects_reads(1)[OF n(1)] by (simp_all add: same_objects_def)
  have t: "targets E auth d' = map (\<lambda>k. if k < n then Some (root_target r) else None) [0, 1, 2]"
    using n(3) r(4) by (simp add: targets_def)
  have repaired: "res2 = Inr () \<and> same_objects d' d2 \<and> healthy E auth d2 r"
  proof (cases "2 \<le> n")
    case True
    with t files(2) have "quorate E auth d' r" by (simp add: quorate_def majority_def)
    from repair_quorate[OF assms(1) this assms(8)] show ?thesis by simp
  next
    case False
    with t have "majority (targets E auth d') = None" by (simp add: majority_def)
    then obtain e where q: "readQuorum E auth d' = Inl e" unfolding quorum_majority by (auto split: sum.splits)
    have "discoverSoleGenesisRootSet E auth d' = Some r"
      using files r(1) by (intro sole_genesis) (simp_all add: genesis_body_def)
    from repair_genesis[OF assms(1) this q _ assms(8)] show ?thesis by simp
  qed
  have "readStoreDescriptor auth d2 = Inr v"
    using r(5) same_objects_reads(3)[OF n(1)] same_objects_reads(3) repaired by metis
  moreover have "(\<forall>k. \<not> faults k) \<longrightarrow> res = Inr v" using publish_free[OF assms(1) r(8)] c r(9) by auto
  ultimately show ?thesis using repaired r(1,6,7) by blast
qed

theorem reset_is_recoverable_witness:
  "\<exists>r d2. repairCurrentPointers marking_host sample_authority (\<lambda>_. False)
      (snd (initializeDestructiveReset marking_host sample_authority (\<lambda>k. k = 1) (replicate 64 (CHR ''1''))
        (replicate 64 (CHR ''2'')) (replicate 64 (CHR ''3'')) (replicate 64 (CHR ''4'')) sample_disk)) = (Inr (), d2) \<and>
    healthy marking_host sample_authority d2 r \<and> lineages (root_body r) = []"
proof -
  let ?run = "initializeDestructiveReset marking_host sample_authority (\<lambda>k. k = 1) (replicate 64 (CHR ''1''))
        (replicate 64 (CHR ''2'')) (replicate 64 (CHR ''3'')) (replicate 64 (CHR ''4'')) sample_disk"
  obtain res d' where run: "?run = (res, d')" by fastforce
  obtain res2 d2 where rep: "repairCurrentPointers marking_host sample_authority (\<lambda>_. False) d' = (res2, d2)" by fastforce
  have dg: "list_all DIGEST [replicate 64 (CHR ''1''), replicate 64 (CHR ''2''), replicate 64 (CHR ''3''), replicate 64 (CHR ''4'')]"
    by code_simp
  have fit: "fits (enc_root_set \<lparr>root_body = genesis_body sample_authority (replicate 64 (CHR ''1''))
        (replicate 64 (CHR ''2'')) (replicate 64 (CHR ''3'')),
      root_set_id = dhash marking_host ''root-set'' (enc_root_body (genesis_body sample_authority (replicate 64 (CHR ''1''))
        (replicate 64 (CHR ''2'')) (replicate 64 (CHR ''3''))))\<rparr>)"
    by (rule root_set_fits; simp add: marked_length;
        simp add: genesis_body_def enc_root_body_def enc_authority_def enc_incarnation_def sample_authority_def
          enc_null_def enc_list_def ROOT_SCHEMA_def)
  have "root_files sample_disk = []" "store_file sample_disk = None" "\<forall>k. pointers sample_disk k = None"
    by (simp_all add: sample_disk_def)
  from reset_is_recoverable[OF marking_digest dg fit this run rep] obtain r where
    "res2 = Inr ()" "healthy marking_host sample_authority d2 r"
    "root_body r = genesis_body sample_authority (replicate 64 (CHR ''1'')) (replicate 64 (CHR ''2'')) (replicate 64 (CHR ''3''))"
    by (elim conjE exE)
  then show ?thesis using run rep by (intro exI[of _ r] exI[of _ d2]) (simp add: genesis_body_def)
qed

end
