(* ===== verification/Repository.thy ===== *)
theory Repository
  imports ReviewGraph
begin

text \<open>
  The authority of a repository (\<open>lib/review-repository.ts\<close>): the environment that git runs in, the
  probe of the live repository, and the pinned identity that repository and authority identifiers
  are hashed from. Git and the file system are arguments; paths are POSIX paths.
\<close>

section \<open>The environment of git\<close>

type_synonym environment = "(string \<times> string) list"

definition UNSAFE_GIT_ENVIRONMENT :: "string list" where
  "UNSAFE_GIT_ENVIRONMENT = [''GIT_DIR'', ''GIT_WORK_TREE'', ''GIT_COMMON_DIR'', ''GIT_INDEX_FILE'',
     ''GIT_OBJECT_DIRECTORY'', ''GIT_ALTERNATE_OBJECT_DIRECTORIES'', ''GIT_NAMESPACE'', ''GIT_QUARANTINE_PATH'',
     ''GIT_PREFIX'', ''GIT_SUPER_PREFIX'', ''GIT_CEILING_DIRECTORIES'', ''GIT_DISCOVERY_ACROSS_FILESYSTEM'',
     ''GIT_CONFIG'', ''GIT_CONFIG_GLOBAL'', ''GIT_CONFIG_SYSTEM'', ''GIT_CONFIG_NOSYSTEM'', ''GIT_CONFIG_COUNT'',
     ''GIT_REPLACE_REF_BASE'', ''GIT_NO_REPLACE_OBJECTS'', ''GIT_SHALLOW_FILE'', ''GIT_GRAFT_FILE'']"

definition UNSAFE_PUBLICATION_GIT_ENVIRONMENT :: "string list" where
  "UNSAFE_PUBLICATION_GIT_ENVIRONMENT = UNSAFE_GIT_ENVIRONMENT @ [''GIT_EXEC_PATH'', ''GIT_TEMPLATE_DIR'',
     ''GIT_CONFIG_PARAMETERS'', ''GIT_SSH'', ''GIT_SSH_COMMAND'', ''GIT_SSH_VARIANT'', ''GIT_PROXY_COMMAND'']"

definition upper_char :: "char \<Rightarrow> char" where
  "upper_char c = (if CHR ''a'' \<le> c \<and> c \<le> CHR ''z'' then char_of (of_char c - 32 :: nat) else c)"

definition to_upper :: "string \<Rightarrow> string" where
  "to_upper = map upper_char"

definition indexed_config :: "string \<Rightarrow> bool" where
  "indexed_config key \<longleftrightarrow> starts_with ''GIT_CONFIG_KEY_'' key \<or> starts_with ''GIT_CONFIG_VALUE_'' key"

definition inheritedUnsafeGitEnvironmentKeys :: "environment \<Rightarrow> string list" where
  "inheritedUnsafeGitEnvironmentKeys environ =
     sort (filter (\<lambda>key. to_upper key \<in> set UNSAFE_PUBLICATION_GIT_ENVIRONMENT \<or> indexed_config (to_upper key))
       (map fst environ))"

definition env_set :: "string \<Rightarrow> string \<Rightarrow> environment \<Rightarrow> environment" where
  "env_set key v environ = filter (\<lambda>(k, _). k \<noteq> key) environ @ [(key, v)]"

definition reviewGitEnvironment :: "environment \<Rightarrow> environment result" where
  "reviewGitEnvironment inherited =
     (if list_ex (\<lambda>(key, _). to_upper key \<in> set UNSAFE_GIT_ENVIRONMENT \<or> indexed_config (to_upper key)) inherited
      then Inl (RepositoryError ''REVIEW_GIT_ENV_UNSAFE: inherited Git routing/configuration override is present'')
      else Inr (env_set ''LANG'' ''C'' (env_set ''LC_ALL'' ''C'' (env_set ''GIT_OPTIONAL_LOCKS'' ''0''
        (env_set ''GIT_CONFIG_SYSTEM'' ''/dev/null'' (env_set ''GIT_CONFIG_GLOBAL'' ''/dev/null''
        (env_set ''GIT_CONFIG_NOSYSTEM'' ''1'' (filter (\<lambda>(key, _). \<not> starts_with ''GIT_'' key) inherited))))))))"

definition publicationProbeGitEnvironment :: "environment \<Rightarrow> environment" where
  "publicationProbeGitEnvironment inherited =
     env_set ''LANG'' ''C'' (env_set ''LC_ALL'' ''C'' (env_set ''GIT_OPTIONAL_LOCKS'' ''0''
       (filter (\<lambda>(key, _). key \<notin> set (inheritedUnsafeGitEnvironmentKeys inherited)) inherited)))"

section \<open>The outside world\<close>

text \<open>
  \<open>git environ cwd args\<close> is the exit status and the output of a run, None where it could not be
  started; the working directory None is that of the process. \<open>lstat\<close> tells links, other entries,
  missing entries and failures apart.
\<close>

datatype entry_kind = Missing | Directory | Link | Other | Unreadable

datatype file_read = NoFile | Failed | Bytes string

record world =
  process_env :: environment
  git :: "environment \<Rightarrow> string option \<Rightarrow> string list \<Rightarrow> (int \<times> string) option"
  gh :: "environment \<Rightarrow> string \<Rightarrow> string list \<Rightarrow> (int \<times> string) option"
  parse_json :: "string \<Rightarrow> json option"
  host_of :: host
  process_cwd :: string
  realpath :: "string \<Rightarrow> string option"
  lstat :: "string \<Rightarrow> entry_kind"

definition succeeded :: "(int \<times> string) option \<Rightarrow> exn \<Rightarrow> string result" where
  "succeeded answer e = (case answer of Some (code, out) \<Rightarrow> if code = 0 then Inr out else Inl e | None \<Rightarrow> Inl e)"

section \<open>Paths\<close>

text \<open>\<open>resolve\<close>, \<open>join\<close> and \<open>relative\<close> of POSIX paths, by their parts.\<close>

fun normal_parts :: "string list \<Rightarrow> string list \<Rightarrow> string list" where
  "normal_parts acc [] = rev acc"
| "normal_parts acc (p # ps) =
     (if p = '''' \<or> p = ''.'' then normal_parts acc ps
      else if p = ''..'' then normal_parts (tl acc) ps
      else normal_parts (p # acc) ps)"

definition path_parts :: "world \<Rightarrow> string \<Rightarrow> string list" where
  "path_parts W p = normal_parts [] (split_on (CHR ''/'') (if starts_with ''/'' p then p else process_cwd W @ ''/'' @ p))"

definition path_of :: "string list \<Rightarrow> string" where
  "path_of parts = CHR ''/'' # join ''/'' parts"

definition resolve_path :: "world \<Rightarrow> string \<Rightarrow> string" where
  "resolve_path W p = path_of (path_parts W p)"

fun relative_parts :: "string list \<Rightarrow> string list \<Rightarrow> string list" where
  "relative_parts (a # as) (b # bs) =
     (if a = b then relative_parts as bs else map (\<lambda>_. ''..'') (a # as) @ b # bs)"
| "relative_parts as bs = map (\<lambda>_. ''..'') as @ bs"

fun no_links :: "world \<Rightarrow> string list \<Rightarrow> string list \<Rightarrow> unit result" where
  "no_links W current [] = Inr ()"
| "no_links W current (part # parts) =
     (case lstat W (path_of (current @ [part])) of
        Link \<Rightarrow> Inl (RepositoryError ''Review store path contains a symlink or reparse-point redirect'')
      | Unreadable \<Rightarrow> Inl (RepositoryError ''Review store path cannot be safely inspected'')
      | _ \<Rightarrow> no_links W (current @ [part]) parts)"

definition assertManagedStorePathV1 :: "world \<Rightarrow> string \<Rightarrow> string \<Rightarrow> string result" where
  "assertManagedStorePathV1 W commonDirectory path =
     (case realpath W commonDirectory of
        None \<Rightarrow> Inl (Error ''ENOENT'')
      | Some common \<Rightarrow>
          (let rel = relative_parts (path_parts W common) (path_parts W path) in
           if rel \<noteq> [] \<and> hd rel = ''..'' then Inl (RepositoryError ''Review store path escapes the Git common directory'')
           else bindr (no_links W (path_parts W common) rel) (\<lambda>_. Inr (resolve_path W path))))"

section \<open>The live repository\<close>

definition gitLines :: "world \<Rightarrow> string \<Rightarrow> string list \<Rightarrow> string list result" where
  "gitLines W cwd args =
     bindr (reviewGitEnvironment (process_env W)) (\<lambda>environ.
     bindr (succeeded (git W environ None (''-C'' # resolve_path W cwd # args))
        (RepositoryError ''Unable to resolve Git repository authority'')) (\<lambda>out.
       if CHR 0x00 \<in> set out then Inl (RepositoryError ''Git authority probe returned malformed output'')
       else Inr (filter (\<lambda>l. l \<noteq> []) (split_on (CHR 0x0A) out))))"

definition oneGitLine :: "world \<Rightarrow> string \<Rightarrow> string list \<Rightarrow> string result" where
  "oneGitLine W cwd args = bindr (gitLines W cwd args) (\<lambda>lines.
     case lines of [l] \<Rightarrow> Inr l | _ \<Rightarrow> Inl (RepositoryError ''Git authority probe returned an ambiguous value''))"

text \<open>The object identifiers of this file have 40 or 64 digits.\<close>

definition ROOT_OBJECT_ID :: "string \<Rightarrow> bool" where
  "ROOT_OBJECT_ID s \<longleftrightarrow> (length s = 40 \<or> length s = 64) \<and> list_all is_hex s"

definition OBJECT_FORMAT :: "string \<Rightarrow> bool" where
  "OBJECT_FORMAT s \<longleftrightarrow> s = ''sha1'' \<or> s = ''sha256''"

record live_probe =
  canonicalCommonDirectory :: string
  storeRoot :: string
  objectFormat :: string
  liveAnchors :: "string list"

definition probeLiveRepositoryV1 :: "world \<Rightarrow> string \<Rightarrow> live_probe result" where
  "probeLiveRepositoryV1 W cwd =
     bindr (oneGitLine W cwd [''rev-parse'', ''--path-format=absolute'', ''--git-common-dir'']) (\<lambda>commonDirectory.
     if \<not> starts_with ''/'' commonDirectory then Inl (RepositoryError ''Git common directory is not absolute'')
     else (case realpath W commonDirectory of
       None \<Rightarrow> Inl (RepositoryError ''Git common directory is unavailable'')
     | Some common \<Rightarrow>
        if lstat W common \<noteq> Directory then Inl (RepositoryError ''Git common directory is unavailable'')
        else bindr (oneGitLine W cwd [''rev-parse'', ''--show-object-format'']) (\<lambda>format.
        if \<not> OBJECT_FORMAT format then Inl (RepositoryError ''Git object format is unsupported'')
        else bindr (oneGitLine W cwd [''rev-parse'', ''--is-shallow-repository'']) (\<lambda>shallow.
        if shallow \<noteq> ''false'' then Inl (RepositoryError ''Shallow repositories cannot establish review authority'')
        else bindr (assertManagedStorePathV1 W common (common @ ''/gentle-ai/reviews'')) (\<lambda>store.
        bindr (gitLines W cwd [''rev-list'', ''--max-parents=0'', ''--all'']) (\<lambda>unsorted.
        let anchors = sort unsorted in
        if anchors = [] then Inl (RepositoryError ''Repository root commit anchors are required'')
        else if \<not> distinct anchors \<or> list_ex (\<lambda>a. \<not> ROOT_OBJECT_ID a) anchors
        then Inl (RepositoryError ''Repository root commit anchors are invalid'')
        else Inr \<lparr>canonicalCommonDirectory = common, storeRoot = store, objectFormat = format, liveAnchors = anchors\<rparr>))))))"

section \<open>The pinned identity\<close>

text \<open>The string a regular expression tests.\<close>

fun js_string :: "json \<Rightarrow> string" where
  "js_string (JStr s) = s"
| "js_string (JArr vs) = join '','' (map (\<lambda>v. if v = JNull \<or> v = JUndefined then '''' else js_string v) vs)"
| "js_string (JObj kvs) = ''[object Object]''"
| "js_string (JInt i) = decimal i"
| "js_string (JBool b) = (if b then ''true'' else ''false'')"
| "js_string JNull = ''null''"
| "js_string JUndefined = ''undefined''"
| "js_string JNonFinite = ''NaN''"
| "js_string (JOther t) = t"

definition isValidRepositoryIdentityBodyV1 :: "json \<Rightarrow> bool" where
  "isValidRepositoryIdentityBodyV1 v \<longleftrightarrow>
     jget ''schema'' v = JStr ''gentle-ai.review-repository/v1'' \<and> OBJECT_FORMAT (js_string (jget ''object_format'' v)) \<and>
     (case jget ''root_commit_ids'' v of
        JArr ids \<Rightarrow> ids \<noteq> [] \<and> length (uniq ids) = length ids \<and>
          list_all (\<lambda>i. case i of JStr s \<Rightarrow> ROOT_OBJECT_ID s | _ \<Rightarrow> False) ids
      | _ \<Rightarrow> False)"

definition root_commit_ids :: "json \<Rightarrow> string list" where
  "root_commit_ids v = (case jget ''root_commit_ids'' v of
     JArr ids \<Rightarrow> concat (map (\<lambda>i. case i of JStr s \<Rightarrow> [s] | _ \<Rightarrow> []) ids) | _ \<Rightarrow> [])"

text \<open>Up to five reads of the file; only a text that does not parse is read again.\<close>

fun read_attempts :: "world \<Rightarrow> file_read list \<Rightarrow> json option result" where
  "read_attempts W [] = Inl (RepositoryError ''Pinned repository identity is malformed'')"
| "read_attempts W (NoFile # later) = Inr None"
| "read_attempts W (Failed # later) = Inl (RepositoryError ''Pinned repository identity is unavailable'')"
| "read_attempts W (Bytes text # later) =
     (case parseCanonicalJsonV1 (parse_json W) text 1048576 of
        Inl _ \<Rightarrow>
          if later \<noteq> [] then read_attempts W later
          else Inl (RepositoryError ''Pinned repository identity is malformed'')
      | Inr parsed \<Rightarrow>
          if isValidRepositoryIdentityBodyV1 parsed then Inr (Some parsed)
          else Inl (RepositoryError ''Pinned repository identity is invalid''))"

definition IDENTITY_READ_RETRY_ATTEMPTS :: nat where
  "IDENTITY_READ_RETRY_ATTEMPTS = 5"

definition readPinnedRepositoryIdentityV1 :: "world \<Rightarrow> (nat \<Rightarrow> file_read) \<Rightarrow> json option result" where
  "readPinnedRepositoryIdentityV1 W reads = read_attempts W (map reads [1 ..< Suc IDENTITY_READ_RETRY_ATTEMPTS])"

text \<open>
  The identity file is written under another name and linked into place, so that it is there with
  all its bytes or not at all; \<open>full\<close> is true where one of the steps on the way fails.
\<close>

definition writePinnedRepositoryIdentityV1 :: "world \<Rightarrow> bool \<Rightarrow> file_read \<Rightarrow> json \<Rightarrow> json result \<times> file_read" where
  "writePinnedRepositoryIdentityV1 W full file identity =
     (if full then (Inl (RepositoryError ''Unable to persist pinned repository identity''), file)
      else (case canonicalJsonV1 False identity of
        Inl e \<Rightarrow> (Inl (RepositoryError ''Unable to persist pinned repository identity''), file)
      | Inr text \<Rightarrow>
          if file = NoFile then (Inr identity, Bytes text)
          else (bindr (readPinnedRepositoryIdentityV1 W (\<lambda>_. file)) (\<lambda>pinned.
                  Inr (case pinned of None \<Rightarrow> identity | Some v \<Rightarrow> v)), file)))"

section \<open>Authority\<close>

record repository_authority =
  common_directory :: string
  store_root :: string
  repository_identity :: json
  repository_id :: string
  authority_id :: string

definition live_identity :: "live_probe \<Rightarrow> json" where
  "live_identity p = JObj [(''schema'', JStr ''gentle-ai.review-repository/v1''), (''object_format'', JStr (objectFormat p)),
     (''root_commit_ids'', enc_strings (liveAnchors p))]"

definition identity_holds :: "live_probe \<Rightarrow> json \<Rightarrow> bool" where
  "identity_holds p pinned \<longleftrightarrow> jget ''object_format'' pinned = JStr (objectFormat p) \<and>
     list_all (\<lambda>a. a \<in> set (liveAnchors p)) (root_commit_ids pinned)"

definition authority_of :: "host \<Rightarrow> live_probe \<Rightarrow> json \<Rightarrow> repository_authority result" where
  "authority_of E p identity =
     bindr (domainHashV1 E ''repository'' identity) (\<lambda>r.
     bindr (domainHashV1 E ''authority'' (JObj [(''repository_id'', JStr r), (''graph_format'', JStr ''graph-v1'')])) (\<lambda>a.
     Inr \<lparr>common_directory = canonicalCommonDirectory p, store_root = storeRoot p, repository_identity = identity,
          repository_id = r, authority_id = a\<rparr>))"

definition resolveRepositoryAuthorityV1 :: "world \<Rightarrow> bool \<Rightarrow> file_read \<Rightarrow> string \<Rightarrow> repository_authority result \<times> file_read" where
  "resolveRepositoryAuthorityV1 W full file cwd =
     (case probeLiveRepositoryV1 W cwd of
        Inl e \<Rightarrow> (Inl e, file)
      | Inr p \<Rightarrow>
         (case readPinnedRepositoryIdentityV1 W (\<lambda>_. file) of
            Inl e \<Rightarrow> (Inl e, file)
          | Inr (Some pinned) \<Rightarrow>
              if jget ''object_format'' pinned \<noteq> JStr (objectFormat p)
              then (Inl (RepositoryError ''Pinned repository identity object format no longer matches this repository''), file)
              else if \<not> list_all (\<lambda>a. a \<in> set (liveAnchors p)) (root_commit_ids pinned)
              then (Inl (RepositoryError ''Repository root commit authority no longer matches the pinned store identity''), file)
              else (authority_of (host_of W) p pinned, file)
          | Inr None \<Rightarrow>
             (case writePinnedRepositoryIdentityV1 W full file (live_identity p) of
                (Inl e, file') \<Rightarrow> (Inl e, file')
              | (Inr identity, file') \<Rightarrow> (authority_of (host_of W) p identity, file'))))"

text \<open>The variant of the recovery inspection: the authority, and whether the pinned identity is broken.\<close>

definition resolveRepositoryAuthorityForRecoveryV1 :: "world \<Rightarrow> file_read \<Rightarrow> string \<Rightarrow> (repository_authority \<times> bool) result" where
  "resolveRepositoryAuthorityForRecoveryV1 W file cwd =
     bindr (probeLiveRepositoryV1 W cwd) (\<lambda>p.
     bindr (readPinnedRepositoryIdentityV1 W (\<lambda>_. file)) (\<lambda>found.
       let (identity, broken) = (case found of
         Some pinned \<Rightarrow> if identity_holds p pinned then (pinned, False) else (live_identity p, True)
       | None \<Rightarrow> (live_identity p, False)) in
       bindr (authority_of (host_of W) p identity) (\<lambda>a. Inr (a, broken))))"

section \<open>Properties\<close>

lemma fst_env_set: "fst ` set (env_set k v e) = insert k (fst ` set e - {k})"
  by (force simp: env_set_def)

lemma env_set_keeps: "(key, x) \<in> set (env_set k v e) \<longleftrightarrow> (key = k \<and> x = v) \<or> (key \<noteq> k \<and> (key, x) \<in> set e)"
  by (auto simp: env_set_def)

lemma env_set_elim:
  assumes "x \<in> set (env_set k v e)"
  obtains "x = (k, v)" | "x \<in> set e"
  using assms by (auto simp: env_set_def)

definition steers_git :: "string list \<Rightarrow> string \<Rightarrow> bool" where
  "steers_git names key \<longleftrightarrow> to_upper key \<in> set names \<or> indexed_config (to_upper key)"

lemma plain_keys:
  "\<not> steers_git UNSAFE_PUBLICATION_GIT_ENVIRONMENT ''LANG''" "\<not> steers_git UNSAFE_PUBLICATION_GIT_ENVIRONMENT ''LC_ALL''"
  "\<not> steers_git UNSAFE_PUBLICATION_GIT_ENVIRONMENT ''GIT_OPTIONAL_LOCKS''"
proof -
  have "to_upper ''LANG'' = ''LANG''" "to_upper ''LC_ALL'' = ''LC_ALL''" "to_upper ''GIT_OPTIONAL_LOCKS'' = ''GIT_OPTIONAL_LOCKS''"
    by code_simp+
  then show "\<not> steers_git UNSAFE_PUBLICATION_GIT_ENVIRONMENT ''LANG''" "\<not> steers_git UNSAFE_PUBLICATION_GIT_ENVIRONMENT ''LC_ALL''"
    "\<not> steers_git UNSAFE_PUBLICATION_GIT_ENVIRONMENT ''GIT_OPTIONAL_LOCKS''"
    by (simp_all add: steers_git_def UNSAFE_PUBLICATION_GIT_ENVIRONMENT_def UNSAFE_GIT_ENVIRONMENT_def indexed_config_def)
qed

text \<open>
  git never runs with a routing or configuration override of the caller. The review environment
  is refused when the inherited one has such a variable, in whatever case; an accepted one has the
  three fixed configuration variables, with their fixed values, as its only ones, and no other
  variable that starts with \<open>GIT_\<close> but the lock switch. The publication probe drops the overrides.
\<close>

theorem git_environment_is_safe:
  "(case reviewGitEnvironment inherited of
      Inl e \<Rightarrow> \<exists>key \<in> set (map fst inherited). steers_git UNSAFE_GIT_ENVIRONMENT key
    | Inr environ \<Rightarrow>
        (\<forall>(key, v) \<in> set environ. steers_git UNSAFE_GIT_ENVIRONMENT key \<or> starts_with ''GIT_'' key \<longrightarrow>
          (key, v) \<in> {(''GIT_CONFIG_NOSYSTEM'', ''1''), (''GIT_CONFIG_GLOBAL'', ''/dev/null''),
            (''GIT_CONFIG_SYSTEM'', ''/dev/null''), (''GIT_OPTIONAL_LOCKS'', ''0'')})) \<and>
   (\<forall>key \<in> set (map fst (publicationProbeGitEnvironment inherited)).
      \<not> steers_git UNSAFE_PUBLICATION_GIT_ENVIRONMENT key)"
proof -
  have plain: "\<not> steers_git UNSAFE_PUBLICATION_GIT_ENVIRONMENT key" if "key \<in> {''LANG'', ''LC_ALL'', ''GIT_OPTIONAL_LOCKS''}" for key
    using that plain_keys by auto
  have "\<not> steers_git UNSAFE_PUBLICATION_GIT_ENVIRONMENT key"
    if "(key, v) \<in> set (publicationProbeGitEnvironment inherited)" for key v
    using that unfolding publicationProbeGitEnvironment_def
  proof (elim env_set_elim)
    assume *: "(key, v) \<in> set (filter (\<lambda>(key, _). key \<notin> set (inheritedUnsafeGitEnvironmentKeys inherited)) inherited)"
    then have "key \<in> fst ` set inherited" by (auto intro: rev_image_eqI)
    with * show ?thesis by (simp add: inheritedUnsafeGitEnvironmentKeys_def steers_git_def)
  qed (simp_all only: prod.inject plain_keys simp_thms)
  then have probe: "\<forall>key \<in> set (map fst (publicationProbeGitEnvironment inherited)). \<not> steers_git UNSAFE_PUBLICATION_GIT_ENVIRONMENT key"
    by auto
  show ?thesis
  proof (cases "list_ex (\<lambda>(key, _). steers_git UNSAFE_GIT_ENVIRONMENT key) inherited")
    case True
    then obtain key v where "(key, v) \<in> set inherited" "steers_git UNSAFE_GIT_ENVIRONMENT key"
      by (auto simp: list_ex_iff)
    then have "\<exists>key \<in> set (map fst inherited). steers_git UNSAFE_GIT_ENVIRONMENT key"
      by (intro bexI[of _ key]) (auto intro: rev_image_eqI)
    moreover have "\<exists>e. reviewGitEnvironment inherited = Inl e"
      using True by (simp add: reviewGitEnvironment_def steers_git_def)
    then obtain e where "reviewGitEnvironment inherited = Inl e" by (elim exE)
    ultimately show ?thesis using probe by (simp only: sum.case simp_thms)
  next
    case False
    then obtain environ where e: "reviewGitEnvironment inherited = Inr environ"
      by (simp add: reviewGitEnvironment_def steers_git_def)
    have fixed: "(key, v) \<in> {(''GIT_CONFIG_NOSYSTEM'', ''1''), (''GIT_CONFIG_GLOBAL'', ''/dev/null''),
        (''GIT_CONFIG_SYSTEM'', ''/dev/null''), (''GIT_OPTIONAL_LOCKS'', ''0'')}"
      if "(key, v) \<in> set environ" "steers_git UNSAFE_GIT_ENVIRONMENT key \<or> starts_with ''GIT_'' key" for key v
    proof -
      have i: "\<not> steers_git UNSAFE_GIT_ENVIRONMENT key" if "(key, v) \<in> set inherited"
        using False that by (auto simp: list_ex_iff)
      have l: "\<not> (steers_git UNSAFE_GIT_ENVIRONMENT k \<or> starts_with ''GIT_'' k)" if "k = ''LANG'' \<or> k = ''LC_ALL''" for k
        using that plain[of k] by (auto simp: steers_git_def UNSAFE_PUBLICATION_GIT_ENVIRONMENT_def)
      have "environ = env_set ''LANG'' ''C'' (env_set ''LC_ALL'' ''C'' (env_set ''GIT_OPTIONAL_LOCKS'' ''0''
        (env_set ''GIT_CONFIG_SYSTEM'' ''/dev/null'' (env_set ''GIT_CONFIG_GLOBAL'' ''/dev/null''
        (env_set ''GIT_CONFIG_NOSYSTEM'' ''1'' (filter (\<lambda>(key, _). \<not> starts_with ''GIT_'' key) inherited))))))"
        using e by (simp only: reviewGitEnvironment_def if_Inl_eq_Inr sum.inject simp_thms)
      with that(1) have "(key, v) \<in> set (env_set ''LANG'' ''C'' (env_set ''LC_ALL'' ''C'' (env_set ''GIT_OPTIONAL_LOCKS'' ''0''
        (env_set ''GIT_CONFIG_SYSTEM'' ''/dev/null'' (env_set ''GIT_CONFIG_GLOBAL'' ''/dev/null''
        (env_set ''GIT_CONFIG_NOSYSTEM'' ''1'' (filter (\<lambda>(key, _). \<not> starts_with ''GIT_'' key) inherited)))))))"
        by (metis (no_types))
      then have "(key = ''LANG'' \<or> key = ''LC_ALL'') \<or> (key, v) \<in> set inherited \<and> \<not> starts_with ''GIT_'' key \<or>
          (key, v) \<in> {(''GIT_CONFIG_NOSYSTEM'', ''1''), (''GIT_CONFIG_GLOBAL'', ''/dev/null''),
            (''GIT_CONFIG_SYSTEM'', ''/dev/null''), (''GIT_OPTIONAL_LOCKS'', ''0'')}"
        by (elim env_set_elim) (simp_all only: prod.inject simp_thms insert_iff, simp)
      then show ?thesis
      proof (elim disjE conjE)
        assume "(key, v) \<in> set inherited" "\<not> starts_with ''GIT_'' key"
        with i[OF this(1)] that(2) show ?thesis by (simp only: simp_thms)
      next
        assume "key = ''LANG''"
        with l[of key] that(2) show ?thesis by (simp only: simp_thms)
      next
        assume "key = ''LC_ALL''"
        with l[of key] that(2) show ?thesis by (simp only: simp_thms)
      qed
    qed
    have "\<forall>(key, v) \<in> set environ. steers_git UNSAFE_GIT_ENVIRONMENT key \<or> starts_with ''GIT_'' key \<longrightarrow>
        (key, v) \<in> {(''GIT_CONFIG_NOSYSTEM'', ''1''), (''GIT_CONFIG_GLOBAL'', ''/dev/null''),
          (''GIT_CONFIG_SYSTEM'', ''/dev/null''), (''GIT_OPTIONAL_LOCKS'', ''0'')}"
      by (intro ballI, simp only: split_paired_all case_prod_conv, intro impI, erule fixed, assumption)
    with probe show ?thesis unfolding e sum.case by (rule conjI[rotated])
  qed
qed

theorem git_environment_is_safe_witness:
  "\<not> ok (reviewGitEnvironment [(''PATH'', ''/bin''), (''git_Dir'', ''/evil'')]) \<and>
   ''git_Dir'' \<notin> set (map fst (publicationProbeGitEnvironment [(''PATH'', ''/bin''), (''git_Dir'', ''/evil'')]))"
proof -
  have u: "to_upper ''git_Dir'' = ''GIT_DIR''" by code_simp
  then have "\<not> ok (reviewGitEnvironment [(''PATH'', ''/bin''), (''git_Dir'', ''/evil'')])"
    by (simp add: reviewGitEnvironment_def UNSAFE_GIT_ENVIRONMENT_def)
  moreover have "steers_git UNSAFE_PUBLICATION_GIT_ENVIRONMENT ''git_Dir''"
    using u by (simp add: steers_git_def UNSAFE_PUBLICATION_GIT_ENVIRONMENT_def UNSAFE_GIT_ENVIRONMENT_def)
  ultimately show ?thesis
    using bspec[OF conjunct2[OF git_environment_is_safe[of "[(''PATH'', ''/bin''), (''git_Dir'', ''/evil'')]"]], of "''git_Dir''"]
    by (simp only: simp_thms) metis
qed

text \<open>The identity that a repository pins is valid, and read back from its canonical text.\<close>

lemma norm_live_identity:
  "norm (live_identity p) = JObj [(''object_format'', JStr (objectFormat p)),
     (''root_commit_ids'', enc_strings (liveAnchors p)), (''schema'', JStr ''gentle-ai.review-repository/v1'')]"
proof -
  have "norm (enc_strings xs) = enc_strings xs" for xs by (simp add: enc_strings_def enc_list_def)
  then show ?thesis
    by (simp add: live_identity_def less_list_code less_eq_list_code less_char_def less_eq_char_def)
       (simp add: enc_strings_def enc_list_def)
qed

lemma pinned_fields:
  "jget ''object_format'' (norm (live_identity p)) = JStr (objectFormat p)"
  "root_commit_ids (norm (live_identity p)) = liveAnchors p"
  by (simp_all add: norm_live_identity jget_def root_commit_ids_def enc_strings_def enc_list_def comp_def)

lemma probe_valid:
  assumes "probeLiveRepositoryV1 W cwd = Inr p"
  shows "OBJECT_FORMAT (objectFormat p)" "liveAnchors p \<noteq> []" "distinct (liveAnchors p)"
    "list_all ROOT_OBJECT_ID (liveAnchors p)"
  using assms unfolding probeLiveRepositoryV1_def
  by (auto simp: result_simps Let_def list_all_iff list_ex_iff split: option.splits)

lemma pinned_valid:
  assumes "probeLiveRepositoryV1 W cwd = Inr p"
  shows "isValidRepositoryIdentityBodyV1 (norm (live_identity p))"
proof -
  have "distinct (map JStr xs) \<longleftrightarrow> distinct xs" for xs by (simp add: distinct_map inj_on_def)
  moreover have "uniq ids = ids" if "distinct ids" for ids :: "json list" using that by (rule uniq_distinct)
  ultimately show ?thesis
    using probe_valid[OF assms]
    by (auto simp: isValidRepositoryIdentityBodyV1_def norm_live_identity jget_def enc_strings_def enc_list_def list_all_iff)
qed

lemma encodable_identity: "encodable (live_identity p)"
  by (simp add: live_identity_def faithfulD[OF faithful_strings])

lemma authority_of_norm:
  assumes "norm a = norm b" "encodable a" "encodable b" "authority_of E p a = Inr x" "authority_of E q b = Inr y"
  shows "repository_id x = repository_id y \<and> authority_id x = authority_id y"
proof -
  have "canonicalize a = canonicalize b" using assms(1) canonicalize_eq_iff[OF assms(2,3)] by simp
  with assms(2-5) show ?thesis
    by (auto simp: authority_of_def domainHashV1_dhash domain_ok_def result_simps dhash_def)
qed

lemma authority_exists: "encodable v \<Longrightarrow> \<exists>a. authority_of E p v = Inr a"
  by (simp add: authority_of_def domainHashV1_dhash domain_ok_def is_digit_def less_eq_char_def)

lemma read_pinned:
  assumes "probeLiveRepositoryV1 W cwd = Inr p" "canonicalize (live_identity p) = Inr t"
    "parse_json V t = Some (norm (live_identity p))" "fits (live_identity p)"
  shows "readPinnedRepositoryIdentityV1 V (\<lambda>_. Bytes t) = Inr (Some (norm (live_identity p)))"
proof -
  have "int (length t) \<le> 1048576" using assms(2,4) by (simp add: fits_def utf8_length_def text_of_def)
  then have "parseCanonicalJsonV1 (parse_json V) t 1048576 = Inr (norm (live_identity p))"
    using assms(2,3) canonicalize_norm[of "live_identity p"]
    by (simp add: parseCanonicalJsonV1_def safe_integer_def canonicalJsonV1_agrees[THEN iffD2])
  with pinned_valid[OF assms(1)] show ?thesis
    by (simp add: readPinnedRepositoryIdentityV1_def IDENTITY_READ_RETRY_ATTEMPTS_def upt_rec)
qed

text \<open>
  C28: the identity of a repository survives new root commits and nothing else. Once a first
  resolution has pinned it, a later one in the same store returns the same repository and authority
  identifiers exactly when the object format is the same and every root commit of the first is still
  there, whatever others have been added; otherwise it is refused. The file is never written again,
  and the recovery variant, which is not refused, says which of the two it is. \<open>JSON.parse\<close> is
  assumed to read the canonical text of the identity back.
\<close>

theorem identity_survives_new_roots:
  assumes "probeLiveRepositoryV1 W cwd = Inr p" and "probeLiveRepositoryV1 V cwd' = Inr q"
    and "resolveRepositoryAuthorityV1 W False NoFile cwd = (Inr first, file)"
    and "host_of V = host_of W" and "fits (live_identity p)"
    and "canonicalize (live_identity p) = Inr t" and "parse_json V t = Some (norm (live_identity p))"
    and "resolveRepositoryAuthorityV1 V full file cwd' = (res, file')"
  shows "file' = file \<and>
    (let holds = (objectFormat q = objectFormat p \<and> set (liveAnchors p) \<subseteq> set (liveAnchors q)) in
     (if holds then \<exists>a. res = Inr a \<and> repository_id a = repository_id first \<and> authority_id a = authority_id first
      else \<exists>e. res = Inl e) \<and>
     (\<exists>a. resolveRepositoryAuthorityForRecoveryV1 V file cwd' = Inr (a, \<not> holds)))"
proof -
  let ?i = "live_identity p"
  have n: "norm (norm ?i) = norm ?i" "encodable (norm ?i)"
    using canonicalize_norm[of ?i] assms(6) unfolding encodable_iff ok_iff
    by (simp_all add: norm_live_identity enc_strings_def enc_list_def comp_def less_list_code less_eq_list_code
        less_char_def less_eq_char_def)
  have "readPinnedRepositoryIdentityV1 W (\<lambda>_. NoFile) = Inr None"
    by (simp add: readPinnedRepositoryIdentityV1_def IDENTITY_READ_RETRY_ATTEMPTS_def upt_rec)
  moreover have "writePinnedRepositoryIdentityV1 W False NoFile ?i = (Inr ?i, Bytes t)"
    using assms(6) by (simp add: writePinnedRepositoryIdentityV1_def canonicalJsonV1_agrees[THEN iffD2])
  ultimately have first: "file = Bytes t" "authority_of (host_of W) p ?i = Inr first"
    using assms(1,3) by (simp_all add: resolveRepositoryAuthorityV1_def)
  have r: "readPinnedRepositoryIdentityV1 V (\<lambda>_. file) = Inr (Some (norm ?i))"
    using read_pinned[OF assms(1,6,7,5)] first(1) by simp
  obtain a where a: "authority_of (host_of V) q (norm ?i) = Inr a" using authority_exists[OF n(2)] by blast
  have same: "repository_id a = repository_id first \<and> authority_id a = authority_id first"
    using authority_of_norm[OF n(1) n(2) encodable_identity] a first(2) assms(4) by metis
  have sub: "list_all (\<lambda>x. x \<in> set (liveAnchors q)) (liveAnchors p) \<longleftrightarrow> set (liveAnchors p) \<subseteq> set (liveAnchors q)"
    by (auto simp: list_all_iff)
  obtain b where b: "authority_of (host_of V) q (live_identity q) = Inr b" using authority_exists[OF encodable_identity] by blast
  have "file' = file \<and> (if objectFormat q = objectFormat p \<and> set (liveAnchors p) \<subseteq> set (liveAnchors q)
      then res = Inr a else \<exists>e. res = Inl e)"
    using assms(2,8) r a by (auto simp: resolveRepositoryAuthorityV1_def pinned_fields sub split: if_splits)
  with same show ?thesis
    using assms(2) r a b unfolding Let_def
    by (auto simp: resolveRepositoryAuthorityForRecoveryV1_def identity_holds_def pinned_fields sub)
qed

text \<open>A repository with the given root commits.\<close>

definition sample_answer :: "string list \<Rightarrow> string list \<Rightarrow> string" where
  "sample_answer roots args =
     (if last args = ''--git-common-dir'' then ''/r/.git''
      else if last args = ''--show-object-format'' then ''sha1''
      else if last args = ''--is-shallow-repository'' then ''false''
      else join [CHR 0x0A] roots)"

definition sample_probe :: "string list \<Rightarrow> live_probe" where
  "sample_probe roots = \<lparr>canonicalCommonDirectory = ''/r/.git'', storeRoot = ''/r/.git/gentle-ai/reviews'',
     objectFormat = ''sha1'', liveAnchors = roots\<rparr>"

definition sample_world :: "string list \<Rightarrow> world" where
  "sample_world roots = \<lparr>process_env = [], git = \<lambda>environ cwd args. Some (0, sample_answer roots args),
     gh = \<lambda>environ cwd args. None, parse_json = \<lambda>t. Some (norm (live_identity (sample_probe [replicate 40 (CHR ''a'')]))),
     host_of = code_unit_host, process_cwd = ''/r'', realpath = Some, lstat = \<lambda>p. Directory\<rparr>"

lemma sample_probed:
  "probeLiveRepositoryV1 (sample_world [replicate 40 (CHR ''a'')]) ''/r'' = Inr (sample_probe [replicate 40 (CHR ''a'')])"
  "probeLiveRepositoryV1 (sample_world [replicate 40 (CHR ''b''), replicate 40 (CHR ''a'')]) ''/r'' =
     Inr (sample_probe [replicate 40 (CHR ''a''), replicate 40 (CHR ''b'')])"
  by code_simp+

theorem identity_survives_new_roots_witness:
  "\<exists>file first a. resolveRepositoryAuthorityV1 (sample_world [replicate 40 (CHR ''a'')]) False NoFile ''/r'' = (Inr first, file) \<and>
     resolveRepositoryAuthorityV1 (sample_world [replicate 40 (CHR ''b''), replicate 40 (CHR ''a'')]) False file ''/r'' =
       (Inr a, file) \<and> repository_id a = repository_id first"
proof -
  let ?W = "sample_world [replicate 40 (CHR ''a'')]" and ?V = "sample_world [replicate 40 (CHR ''b''), replicate 40 (CHR ''a'')]"
  let ?p = "sample_probe [replicate 40 (CHR ''a'')]"
  obtain t where t: "canonicalize (live_identity ?p) = Inr t"
    using encodable_identity unfolding encodable_iff ok_iff by blast
  obtain first where first: "authority_of (host_of ?W) ?p (live_identity ?p) = Inr first"
    using authority_exists[OF encodable_identity] by blast
  have w: "resolveRepositoryAuthorityV1 ?W False NoFile ''/r'' = (Inr first, Bytes t)"
    using sample_probed(1) t first
    by (simp add: resolveRepositoryAuthorityV1_def writePinnedRepositoryIdentityV1_def canonicalJsonV1_agrees[THEN iffD2]
        readPinnedRepositoryIdentityV1_def IDENTITY_READ_RETRY_ATTEMPTS_def upt_rec del: canonicalize.simps)
  have fit: "fits (live_identity ?p)"
    using encodable_identity by (rule fits_bound) (simp add: live_identity_def sample_probe_def enc_strings_def enc_list_def)
  obtain res file' where v: "resolveRepositoryAuthorityV1 ?V False (Bytes t) ''/r'' = (res, file')" by fastforce
  have "host_of ?V = host_of ?W" "parse_json ?V t = Some (norm (live_identity ?p))" by (simp_all add: sample_world_def)
  from identity_survives_new_roots[OF sample_probed w this(1) fit t this(2) v]
  show ?thesis using w v by (auto simp: sample_probe_def Let_def)
qed

end
