(* ===== verification/PublicationGate.thy ===== *)
theory PublicationGate
  imports Repository PathRegex
begin

text \<open>
  Where a push would go (\<open>lib/review-publication-gate.ts\<close>): the configured destination of a
  remote, the object a remote ref names, the objects a remote advertises, and the fast path of a
  release. One evaluation sees one state of the repository and of the remotes. Gate targets are
  JSON values, checked field by field as the code does.
\<close>

section \<open>References and git output\<close>

definition FULL_REF :: "string \<Rightarrow> bool" where
  "FULL_REF s \<longleftrightarrow> starts_with ''refs/'' s \<and> drop 5 s \<noteq> [] \<and> is_alnum (s ! 5) \<and>
     list_all (\<lambda>c. is_alnum c \<or> c \<in> {CHR ''.'', CHR ''_'', CHR ''/'', CHR ''-''}) (drop 6 s)"

definition full_ref :: "string \<Rightarrow> bool" where
  "full_ref s \<longleftrightarrow> FULL_REF s \<and> \<not> js_includes ''..'' s \<and> \<not> js_includes ''//'' s \<and> \<not> js_includes ''/.'' s \<and>
     \<not> ends_with ''/'' s \<and> \<not> ends_with ''.'' s"

definition CONFIGURED_REMOTE_NAME :: "string \<Rightarrow> bool" where
  "CONFIGURED_REMOTE_NAME s \<longleftrightarrow> s \<noteq> [] \<and> is_alnum (hd s) \<and>
     list_all (\<lambda>c. is_alnum c \<or> c \<in> {CHR ''.'', CHR ''_'', CHR ''-''}) (tl s)"

text \<open>The strings among JSON values, and the checks \<open>isObjectId\<close> and \<open>isFullRef\<close>.\<close>

definition isObjectId :: "json \<Rightarrow> bool" where
  "isObjectId v = (case v of JStr s \<Rightarrow> OBJECT_ID s | _ \<Rightarrow> False)"

definition isFullRef :: "json \<Rightarrow> bool" where
  "isFullRef v = (case v of JStr s \<Rightarrow> full_ref s | _ \<Rightarrow> False)"

definition text_field :: "string \<Rightarrow> json \<Rightarrow> string" where
  "text_field k v = (case jget k v of JStr s \<Rightarrow> s | _ \<Rightarrow> [])"

text \<open>\<open>text.split(/\r?\n/).filter(Boolean)\<close>\<close>

fun drop_cr :: "string list \<Rightarrow> string list" where
  "drop_cr [] = []"
| "drop_cr [line] = [line]"
| "drop_cr (line # lines) = (if ends_with [CHR 0x0D] line then butlast line else line) # drop_cr lines"

definition output_lines :: "string \<Rightarrow> string list" where
  "output_lines out = filter (\<lambda>line. line \<noteq> []) (drop_cr (split_on (CHR 0x0A) out))"

definition quoted :: "string \<Rightarrow> string" where
  "quoted s = [CHR 0x22] @ s @ [CHR 0x22]"

definition runGateGit :: "world \<Rightarrow> string \<Rightarrow> string list \<Rightarrow> string result" where
  "runGateGit W cwd args =
     bindr (reviewGitEnvironment (process_env W)) (\<lambda>environ.
     bindr (succeeded (git W environ (Some cwd) args)
       (Error (''Git publication identity could not be resolved: '' @ join '' '' args))) (\<lambda>out. Inr (trim out)))"

section \<open>Destinations\<close>

record push_destination =
  dest_remote :: string
  dest_url :: string
  destination_id :: string

definition listConfiguredRemotes :: "world \<Rightarrow> string \<Rightarrow> string list result" where
  "listConfiguredRemotes W cwd =
     bindr (reviewGitEnvironment (process_env W)) (\<lambda>environ.
     bindr (succeeded (git W environ None [''-C'', cwd, ''remote'']) (Error ''Configured Git remotes could not be listed''))
       (\<lambda>out. Inr (output_lines out)))"

definition probe_git :: "world \<Rightarrow> string option \<Rightarrow> string list \<Rightarrow> (int \<times> string) option" where
  "probe_git W cwd args = git W (publicationProbeGitEnvironment (process_env W)) cwd args"

definition configuredRemoteValues :: "world \<Rightarrow> string \<Rightarrow> string \<Rightarrow> string list result" where
  "configuredRemoteValues W cwd key =
     (case probe_git W None [''-C'', cwd, ''config'', ''--get-all'', key] of
        None \<Rightarrow> Inl (Error (''Configured Git remote value '' @ quoted key @ '' could not be resolved''))
      | Some (code, out) \<Rightarrow>
          if code \<noteq> 0 \<and> code \<noteq> 1 then Inl (Error (''Configured Git remote value '' @ quoted key @ '' could not be resolved''))
          else Inr (if code = 1 then [] else output_lines out))"

definition resolveConfiguredPushDestinationV1 :: "world \<Rightarrow> string \<Rightarrow> string \<Rightarrow> push_destination result" where
  "resolveConfiguredPushDestinationV1 W cwd remote =
     (if \<not> CONFIGURED_REMOTE_NAME remote
      then Inl (Error ''Publication remote must be a bare configured Git remote name, not a URL or path'')
      else bindr (listConfiguredRemotes W cwd) (\<lambda>remotes.
        if remote \<notin> set remotes
        then Inl (Error (''Publication remote '' @ quoted remote @ '' is not a configured Git remote''))
        else bindr (succeeded (probe_git W None [''-C'', cwd, ''remote'', ''get-url'', ''--push'', ''--all'', remote])
            (Error (''Configured remote '' @ quoted remote @ '' push destination could not be resolved''))) (\<lambda>out.
        case output_lines out of
          [url] \<Rightarrow>
            bindr (configuredRemoteValues W cwd (''remote.'' @ remote @ ''.pushurl'')) (\<lambda>pushurls.
              if 1 < length pushurls
              then Inl (Error (''Configured remote '' @ quoted remote @ '' has multiple pushurl destinations''))
              else Inr \<lparr>dest_remote = remote, dest_url = url, destination_id = sha256_hex (host_of W) url\<rparr>)
        | _ \<Rightarrow> Inl (Error (''Configured remote '' @ quoted remote @ '' must have one effective push destination'')))))"

definition split_row :: "string \<Rightarrow> (string \<times> string) option" where
  "split_row line = (case split_on (CHR 0x09) line of [a, b] \<Rightarrow> Some (a, b) | _ \<Rightarrow> None)"

definition rows_where :: "(string \<times> string \<Rightarrow> bool) \<Rightarrow> string list \<Rightarrow> (string \<times> string) list" where
  "rows_where p lines = concat (map (\<lambda>line. case split_row line of
     Some row \<Rightarrow> if p row then [row] else [] | None \<Rightarrow> []) lines)"

definition resolvePushRemoteRefV1 :: "world \<Rightarrow> string \<Rightarrow> string \<Rightarrow> string \<Rightarrow> string \<Rightarrow> string option \<Rightarrow> (push_destination \<times> string option) result" where
  "resolvePushRemoteRefV1 W cwd remote ref label expectedDestinationId =
     bindr (resolveConfiguredPushDestinationV1 W cwd remote) (\<lambda>dest.
       if expectedDestinationId \<noteq> None \<and> expectedDestinationId \<noteq> Some (destination_id dest)
       then Inl (Error (label @ '' publication destination changed or does not match''))
       else if \<not> full_ref ref then Inl (Error (label @ '' is not a full ref''))
       else bindr (succeeded (probe_git W (Some cwd) [''ls-remote'', ''--refs'', dest_url dest, ref])
           (Error (label @ '' could not be resolved''))) (\<lambda>out.
         if out = [] then Inr (dest, None)
         else (let found = rows_where (\<lambda>(oid, name). name = ref \<and> OBJECT_ID oid) (output_lines out) in
           if length found \<noteq> length (output_lines out) then Inl (Error (label @ '' returned malformed output''))
           else (case found of [(oid, _)] \<Rightarrow> Inr (dest, Some oid)
                 | _ \<Rightarrow> Inl (Error (label @ '' resolved ambiguously''))))))"

definition advertised :: "string list \<Rightarrow> (string \<times> string) list" where
  "advertised = rows_where (\<lambda>(oid, name). OBJECT_ID oid \<and> full_ref name)"

definition resolvePushDestinationRefV1 :: "world \<Rightarrow> string \<Rightarrow> string \<Rightarrow> string \<Rightarrow> string \<Rightarrow> string \<Rightarrow> (push_destination \<times> string \<times> string option) result" where
  "resolvePushDestinationRefV1 W cwd remote destinationValue sourceRef label =
     (if starts_with ''refs/'' destinationValue
      then bindr (resolvePushRemoteRefV1 W cwd remote destinationValue label None) (\<lambda>(dest, oid). Inr (dest, destinationValue, oid))
      else bindr (reviewGitEnvironment (process_env W)) (\<lambda>environ.
        bindr (succeeded (git W environ (Some cwd) [''check-ref-format'', ''refs/'' @ destinationValue]) (Error (label @ '' is malformed''))) (\<lambda>_.
        bindr (resolveConfiguredPushDestinationV1 W cwd remote) (\<lambda>dest.
        bindr (succeeded (probe_git W (Some cwd) [''ls-remote'', ''--refs'', dest_url dest])
          (Error (label @ '' could not be resolved''))) (\<lambda>out.
        let found = advertised (output_lines out) in
        if length found \<noteq> length (output_lines out) \<or> length (uniq (map snd found)) \<noteq> length found
        then Inl (Error (label @ '' returned malformed output''))
        else (case filter (\<lambda>(oid, name). ends_with (CHR ''/'' # destinationValue) name) found of
          [(oid, name)] \<Rightarrow> Inr (dest, name, Some oid)
        | [] \<Rightarrow>
            if starts_with ''refs/heads/'' sourceRef then Inr (dest, ''refs/heads/'' @ destinationValue, None)
            else if starts_with ''refs/tags/'' sourceRef then Inr (dest, ''refs/tags/'' @ destinationValue, None)
            else Inl (Error (label @ '' namespace cannot be inferred from the source ref''))
        | _ \<Rightarrow> Inl (Error (label @ '' resolved ambiguously''))))))))"

definition pushRemoteAdvertisesObjectV1 :: "world \<Rightarrow> string \<Rightarrow> string \<Rightarrow> string \<Rightarrow> string \<Rightarrow> bool result" where
  "pushRemoteAdvertisesObjectV1 W cwd remote expectedDestinationId oid =
     bindr (resolveConfiguredPushDestinationV1 W cwd remote) (\<lambda>dest.
       if destination_id dest \<noteq> expectedDestinationId
       then Inl (Error ''Push parent publication destination changed or does not match'')
       else bindr (succeeded (probe_git W (Some cwd) [''ls-remote'', ''--refs'', dest_url dest])
           (Error ''Push parent advertisement could not be resolved'')) (\<lambda>out.
         let found = advertised (output_lines out) in
         if length found \<noteq> length (output_lines out) then Inl (Error ''Push parent advertisement returned malformed output'')
         else Inr (oid \<in> set (map fst found))))"

section \<open>The fast path of a release\<close>

definition RELEASE_FAST_PATH_PROTECTED_REF :: string where
  "RELEASE_FAST_PATH_PROTECTED_REF = ''refs/heads/main''"

definition SEMVER_NUMERIC_IDENTIFIER :: rx where
  "SEMVER_NUMERIC_IDENTIFIER = RAlt (RChr (CHR ''0''))
     (RSeq (RSet (\<lambda>c. is_digit c \<and> c \<noteq> CHR ''0'')) (RStar (RSet is_digit)))"

definition semver_char :: "char \<Rightarrow> bool" where
  "semver_char c \<longleftrightarrow> is_alnum c \<or> c = CHR ''-''"

definition SEMVER_PRERELEASE_IDENTIFIER :: rx where
  "SEMVER_PRERELEASE_IDENTIFIER = RAlt SEMVER_NUMERIC_IDENTIFIER
     (RSeqs [RStar (RSet semver_char), RSet (\<lambda>c. is_alpha c \<or> c = CHR ''-''), RStar (RSet semver_char)])"

definition SEMVER_BUILD_IDENTIFIER :: rx where
  "SEMVER_BUILD_IDENTIFIER = RPlus (RSet semver_char)"

definition dotted :: "rx \<Rightarrow> rx" where
  "dotted r = RSeq r (RStar (RSeq (RChr (CHR ''.'')) r))"

definition RELEASE_SEMVER_TAG_SOURCE :: rx where
  "RELEASE_SEMVER_TAG_SOURCE = RSeqs [RChr (CHR ''v''), SEMVER_NUMERIC_IDENTIFIER, RChr (CHR ''.''),
     SEMVER_NUMERIC_IDENTIFIER, RChr (CHR ''.''), SEMVER_NUMERIC_IDENTIFIER,
     ROpt (RSeq (RChr (CHR ''-'')) (dotted SEMVER_PRERELEASE_IDENTIFIER)),
     ROpt (RSeq (RChr (CHR ''+'')) (dotted SEMVER_BUILD_IDENTIFIER))]"

definition RELEASE_SEMVER_TAG :: "string \<Rightarrow> bool" where
  "RELEASE_SEMVER_TAG s = regex_test (RSeqs [RBol, RELEASE_SEMVER_TAG_SOURCE, REol]) s"

definition RELEASE_FAST_PATH_TAG_REF :: "string \<Rightarrow> bool" where
  "RELEASE_FAST_PATH_TAG_REF s = regex_test (RSeqs [RBol, RStr ''refs/tags/'', RELEASE_SEMVER_TAG_SOURCE, REol]) s"

text \<open>The three captured numbers of a tag that matches: each ends where its digits do.\<close>

definition semver_groups :: "string \<Rightarrow> string \<times> string \<times> string" where
  "semver_groups s =
     (let r1 = tl s; a = takeWhile is_digit r1; r2 = tl (dropWhile is_digit r1); b = takeWhile is_digit r2;
          r3 = tl (dropWhile is_digit r2)
      in (a, b, takeWhile is_digit r3))"

text \<open>
  A field that is read of null or undefined is a type error. Only a string can equal another field
  of the same update and match the pattern, so nothing else is tested.
\<close>

definition projectExactTagCreatePushAsReleaseV1 :: "json \<Rightarrow> json option result" where
  "projectExactTagCreatePushAsReleaseV1 t =
     (if jget ''kind'' t \<noteq> JStr ''push'' \<or> jget ''remote'' t \<noteq> JStr ''origin'' then Inr None
      else (case jget ''updates'' t of
        JUndefined \<Rightarrow> Inl (TypeError ''length of undefined'')
      | JNull \<Rightarrow> Inl (TypeError ''length of null'')
      | JArr [update] \<Rightarrow>
          if update = JNull \<or> update = JUndefined then Inl (TypeError ''kind of null'')
          else (case jget ''destination_ref'' update of
            JStr dest \<Rightarrow>
              if jget ''kind'' update \<noteq> JStr ''create'' \<or> jget ''old_object'' update \<noteq> JNull \<or>
                 jget ''old_peeled_commit'' update \<noteq> JNull \<or> jget ''old_tree'' update \<noteq> JNull \<or>
                 jget ''source_ref'' update \<noteq> JStr dest \<or> \<not> RELEASE_FAST_PATH_TAG_REF dest \<or>
                 \<not> isObjectId (jget ''new_object'' update) \<or> \<not> isObjectId (jget ''new_peeled_commit'' update) \<or>
                 \<not> isObjectId (jget ''new_tree'' update)
              then Inr None
              else Inr (Some (JObj [(''kind'', JStr ''release''), (''tag_ref'', JStr dest),
                (''tag_object'', jget ''new_object'' update), (''peeled_commit'', jget ''new_peeled_commit'' update),
                (''tree'', jget ''new_tree'' update)]))
          | _ \<Rightarrow> Inr None)
      | _ \<Rightarrow> Inr None))"

record ci_status =
  proven :: bool
  ci_result :: "string option"

definition unproven :: ci_status where
  "unproven = \<lparr>proven = False, ci_result = None\<rparr>"

definition ci_success :: ci_status where
  "ci_success = \<lparr>proven = True, ci_result = Some ''success''\<rparr>"

definition count_is :: "json \<Rightarrow> nat \<Rightarrow> bool" where
  "count_is v n \<longleftrightarrow> (case v of JInt i \<Rightarrow> safe_integer i \<and> 0 \<le> i \<and> i = int n | _ \<Rightarrow> False)"

text \<open>The check runs of a summary whose counts agree with its list.\<close>

definition check_runs :: "json \<Rightarrow> json list option" where
  "check_runs summary = (case jget ''checks'' summary of
     JArr runs \<Rightarrow>
       if count_is (jget ''returned'' summary) (length runs) \<and> count_is (jget ''total_count'' summary) (length runs)
       then Some runs else None
   | _ \<Rightarrow> None)"

definition ci_answer :: "world \<Rightarrow> environment \<Rightarrow> string \<Rightarrow> string \<Rightarrow> ci_status" where
  "ci_answer W environ cwd sha =
      (case gh W environ cwd [''api'', ''repos/{owner}/{repo}/commits/'' @ sha @ ''/check-runs?per_page=100'', ''--jq'',
          ''{total_count, returned: (.check_runs | length), checks: [.check_runs[] | [.status, .conclusion]]}''] of
         None \<Rightarrow> unproven
       | Some (code, out) \<Rightarrow>
          if code \<noteq> 0 then unproven
          else (case parse_json W out of
            None \<Rightarrow> unproven
          | Some summary \<Rightarrow>
             (case check_runs summary of
                None \<Rightarrow> unproven
              | Some runs \<Rightarrow>
                  if runs \<noteq> []
                  then (if list_all (\<lambda>check. check = JArr [JStr ''completed'', JStr ''success'']) runs then ci_success else unproven)
                  else (case gh W environ cwd [''api'', ''repos/{owner}/{repo}/commits/'' @ sha @ ''/status'', ''--jq'', ''.state''] of
                      None \<Rightarrow> unproven
                    | Some (code2, state) \<Rightarrow> if code2 \<noteq> 0 \<or> trim state \<noteq> ''success'' then unproven else ci_success))))"

definition deriveReleaseCiStatusForShaV1 :: "world \<Rightarrow> string \<Rightarrow> string \<Rightarrow> ci_status result" where
  "deriveReleaseCiStatusForShaV1 W cwd sha =
     bindr (reviewGitEnvironment (process_env W)) (\<lambda>environ. Inr (ci_answer W environ cwd sha))"

definition recheckReleaseFastPathCiStatusV1 :: "world \<Rightarrow> string \<Rightarrow> string \<Rightarrow> string \<Rightarrow> ci_status result" where
  "recheckReleaseFastPathCiStatusV1 W cwd sha expected =
     bindr (deriveReleaseCiStatusForShaV1 W cwd sha) (\<lambda>derived.
       Inr \<lparr>proven = (proven derived \<and> ci_result derived = Some expected), ci_result = ci_result derived\<rparr>)"

definition resolveConfiguredRemoteUrl :: "world \<Rightarrow> string \<Rightarrow> string \<Rightarrow> string result" where
  "resolveConfiguredRemoteUrl W cwd remote =
     (if \<not> CONFIGURED_REMOTE_NAME remote
      then Inl (Error ''Release fast path remote must be a bare configured Git remote name, not a URL or path'')
      else bindr (listConfiguredRemotes W cwd) (\<lambda>remotes.
        if remote \<notin> set remotes
        then Inl (Error (''Release fast path remote '' @ quoted remote @ '' is not a configured Git remote''))
        else bindr (reviewGitEnvironment (process_env W)) (\<lambda>environ.
        bindr (succeeded (git W environ None [''-C'', cwd, ''remote'', ''get-url'', remote])
          (Error (''Configured remote '' @ quoted remote @ '' URL could not be resolved''))) (\<lambda>out.
        if trim out = [] then Inl (Error (''Configured remote '' @ quoted remote @ '' has no URL''))
        else Inr (trim out)))))"

definition resolveRemoteGateRef :: "world \<Rightarrow> string \<Rightarrow> string \<Rightarrow> string \<Rightarrow> string \<Rightarrow> string option result" where
  "resolveRemoteGateRef W cwd remote ref label =
     (if \<not> full_ref ref then Inl (Error (label @ '' is not a full ref''))
      else bindr (resolveConfiguredRemoteUrl W cwd remote) (\<lambda>url.
        bindr (reviewGitEnvironment (process_env W)) (\<lambda>environ.
        bindr (succeeded (git W environ (Some cwd) [''ls-remote'', ''--refs'', url, ref])
          (Error (label @ '' could not be resolved''))) (\<lambda>out.
        case concat (map (\<lambda>line. case split_on (CHR 0x09) line of
            oid # name # _ \<Rightarrow> if name = ref \<and> OBJECT_ID oid then [oid] else [] | _ \<Rightarrow> []) (output_lines out)) of
          [] \<Rightarrow> Inr None
        | [oid] \<Rightarrow> Inr (Some oid)
        | _ \<Rightarrow> Inl (Error (label @ '' resolved ambiguously''))))))"

definition repositoryRoot :: "world \<Rightarrow> string \<Rightarrow> string result" where
  "repositoryRoot W cwd = runGateGit W cwd [''rev-parse'', ''--show-toplevel'']"

definition resolves_to :: "world \<Rightarrow> string \<Rightarrow> string \<Rightarrow> string \<Rightarrow> string \<Rightarrow> unit result" where
  "resolves_to W cwd expression expected message =
     bindr (runGateGit W cwd [''rev-parse'', ''--verify'', expression]) (\<lambda>out. require (out = expected) (Error message))"

definition assertReleaseIdentity :: "world \<Rightarrow> string \<Rightarrow> json \<Rightarrow> unit result" where
  "assertReleaseIdentity W cwd t =
     (if \<not> isObjectId (jget ''tag_object'' t) \<or> \<not> isObjectId (jget ''peeled_commit'' t) \<or> \<not> isObjectId (jget ''tree'' t)
      then Inl (Error ''Release target requires resolved object IDs'')
      else checks
        [resolves_to W cwd (text_field ''tag_ref'' t @ ''^{object}'') (text_field ''tag_object'' t)
           ''Release tag ref does not resolve to its supplied object'',
         resolves_to W cwd (text_field ''tag_object'' t @ ''^{commit}'') (text_field ''peeled_commit'' t)
           ''Release tag object does not peel to the supplied commit'',
         resolves_to W cwd (text_field ''peeled_commit'' t @ ''^{tree}'') (text_field ''tree'' t)
           ''Release commit does not resolve to the supplied tree''])"

record release_evidence =
  protected_ref :: string
  evidence_remote :: string
  ci_revision :: string
  ci_status_text :: string
  external_evidence :: string
  post_incident :: bool

record fast_path =
  eligible :: bool
  remote_head :: "string option"

definition ineligible :: fast_path where
  "ineligible = \<lparr>eligible = False, remote_head = None\<rparr>"

definition major_release :: "string \<times> string \<times> string \<Rightarrow> bool" where
  "major_release = (\<lambda>(major, minor, patch). patch = ''0'' \<and> (minor = ''0'' \<or> major = ''0''))"

text \<open>The reasons are texts for the reader and are left out: only eligibility and the head are results.\<close>

definition evaluateReleaseFastPathV1 :: "world \<Rightarrow> json \<Rightarrow> release_evidence \<Rightarrow> string \<Rightarrow> fast_path result" where
  "evaluateReleaseFastPathV1 W t evidence cwd =
     (let tag = text_field ''tag_ref'' t in
      if jget ''kind'' t \<noteq> JStr ''release'' then Inr ineligible
      else if protected_ref evidence \<noteq> RELEASE_FAST_PATH_PROTECTED_REF then Inr ineligible
      else if post_incident evidence then Inr ineligible
      else if \<not> isFullRef (jget ''tag_ref'' t) \<or> \<not> starts_with ''refs/tags/'' tag then Inr ineligible
      else if \<not> RELEASE_SEMVER_TAG (drop (length ''refs/tags/'') tag) then Inr ineligible
      else if major_release (semver_groups (drop (length ''refs/tags/'') tag)) then Inr ineligible
      else (case bindr (repositoryRoot W cwd) (\<lambda>root. bindr (assertReleaseIdentity W root t) (\<lambda>_.
          bindr (resolveRemoteGateRef W root (evidence_remote evidence) RELEASE_FAST_PATH_PROTECTED_REF ''release protected main head'')
            (\<lambda>head. Inr (root, head)))) of
        Inl _ \<Rightarrow> Inr ineligible
      | Inr (root, None) \<Rightarrow> Inr ineligible
      | Inr (root, Some head) \<Rightarrow>
          if jget ''peeled_commit'' t \<noteq> JStr head then Inr ineligible
          else if ci_revision evidence \<noteq> head \<or> ci_status_text evidence \<noteq> ''success'' then Inr ineligible
          else bindr (deriveReleaseCiStatusForShaV1 W root head) (\<lambda>derived.
            if \<not> proven derived \<or> ci_result derived \<noteq> Some ''success'' then Inr ineligible
            else if external_evidence evidence \<noteq> ''none'' then Inr ineligible
            else Inr \<lparr>eligible = True, remote_head = Some head\<rparr>)))"

record head_recheck =
  advanced :: bool
  seen_head :: "string option"

definition recheckReleaseFastPathRemoteHeadV1 :: "world \<Rightarrow> string \<Rightarrow> string \<Rightarrow> string \<Rightarrow> head_recheck" where
  "recheckReleaseFastPathRemoteHeadV1 W cwd remote expected =
     (let head = (case bindr (repositoryRoot W cwd) (\<lambda>root.
          resolveRemoteGateRef W root remote RELEASE_FAST_PATH_PROTECTED_REF ''release protected main head'') of
        Inl _ \<Rightarrow> None | Inr h \<Rightarrow> h)
      in \<lparr>advanced = (head = None \<or> head \<noteq> Some expected), seen_head = head\<rparr>)"

section \<open>What an eligible release proves\<close>

lemma succeeded_iff [result_simps]: "succeeded a e = Inr out \<longleftrightarrow> a = Some (0, out)"
  by (auto simp: succeeded_def split: option.splits prod.splits if_splits)

lemma derived_success:
  assumes "deriveReleaseCiStatusForShaV1 W cwd sha = Inr c" "proven c"
  shows "c = ci_success"
proof -
  have "ci_answer W environ cwd sha \<in> {unproven, ci_success}" for environ
    unfolding ci_answer_def by (simp split: option.split prod.split)
  moreover obtain environ where "c = ci_answer W environ cwd sha"
    using assms(1) by (auto simp: deriveReleaseCiStatusForShaV1_def result_simps)
  ultimately have "c = unproven \<or> c = ci_success" by simp
  with assms(2) show ?thesis by (auto simp: unproven_def)
qed

lemma if_ineligible:
  "eligible r \<Longrightarrow> ((if b then Inr ineligible else m) = Inr r) = (\<not> b \<and> m = Inr r)"
  by (auto simp: ineligible_def)

lemma eligible_iff:
  assumes "evaluateReleaseFastPathV1 W t evidence cwd = Inr r" "eligible r"
  shows "\<exists>root head. remote_head r = Some head \<and> jget ''kind'' t = JStr ''release'' \<and> jget ''peeled_commit'' t = JStr head \<and>
    protected_ref evidence = RELEASE_FAST_PATH_PROTECTED_REF \<and> \<not> post_incident evidence \<and> external_evidence evidence = ''none'' \<and>
    starts_with ''refs/tags/'' (text_field ''tag_ref'' t) \<and>
    RELEASE_SEMVER_TAG (drop (length ''refs/tags/'') (text_field ''tag_ref'' t)) \<and>
    \<not> major_release (semver_groups (drop (length ''refs/tags/'') (text_field ''tag_ref'' t))) \<and>
    repositoryRoot W cwd = Inr root \<and> assertReleaseIdentity W root t = Inr () \<and>
    resolveRemoteGateRef W root (evidence_remote evidence) RELEASE_FAST_PATH_PROTECTED_REF ''release protected main head'' = Inr (Some head) \<and>
    deriveReleaseCiStatusForShaV1 W root head = Inr ci_success"
proof -
  note run = assms(1)[unfolded evaluateReleaseFastPathV1_def Let_def if_ineligible[OF assms(2)]]
  let ?probe = "bindr (repositoryRoot W cwd) (\<lambda>root. bindr (assertReleaseIdentity W root t) (\<lambda>_.
          bindr (resolveRemoteGateRef W root (evidence_remote evidence) RELEASE_FAST_PATH_PROTECTED_REF ''release protected main head'')
            (\<lambda>head. Inr (root, head))))"
  obtain root head where h: "?probe = Inr (root, Some head)"
    using run assms(2) by (cases ?probe; cases "snd (projr ?probe)") (auto simp: ineligible_def)
  note run' = run[unfolded h sum.case prod.case option.case if_ineligible[OF assms(2)]]
  from run' have "bindr (deriveReleaseCiStatusForShaV1 W root head) (\<lambda>derived.
      if \<not> proven derived \<or> ci_result derived \<noteq> Some ''success'' then Inr ineligible
      else if external_evidence evidence \<noteq> ''none'' then Inr ineligible
      else Inr \<lparr>eligible = True, remote_head = Some head\<rparr>) = Inr r"
    by (elim conjE)
  then obtain derived where d: "deriveReleaseCiStatusForShaV1 W root head = Inr derived"
    "(if \<not> proven derived \<or> ci_result derived \<noteq> Some ''success'' then Inr ineligible
      else if external_evidence evidence \<noteq> ''none'' then Inr ineligible
      else Inr \<lparr>eligible = True, remote_head = Some head\<rparr>) = (Inr r :: fast_path result)"
    unfolding bindr_eq_Inr by (elim exE conjE) (rule that, assumption, assumption)
  then have r: "proven derived" "external_evidence evidence = ''none''" "remote_head r = Some head"
    unfolding if_ineligible[OF assms(2)] by auto
  from h have "repositoryRoot W cwd = Inr root" "assertReleaseIdentity W root t = Inr ()"
    "resolveRemoteGateRef W root (evidence_remote evidence) RELEASE_FAST_PATH_PROTECTED_REF ''release protected main head'' = Inr (Some head)"
    by (auto simp: bindr_eq_Inr)
  moreover have "deriveReleaseCiStatusForShaV1 W root head = Inr ci_success"
    using d(1) derived_success[OF d(1) r(1)] by simp
  ultimately show ?thesis
    using r(2,3) run' by (intro exI[of _ root] exI[of _ head]) simp
qed

lemma identity_iff:
  "assertReleaseIdentity W root t = Inr () \<longleftrightarrow>
     isObjectId (jget ''tag_object'' t) \<and> isObjectId (jget ''peeled_commit'' t) \<and> isObjectId (jget ''tree'' t) \<and>
     runGateGit W root [''rev-parse'', ''--verify'', text_field ''tag_ref'' t @ ''^{object}''] = Inr (text_field ''tag_object'' t) \<and>
     runGateGit W root [''rev-parse'', ''--verify'', text_field ''tag_object'' t @ ''^{commit}''] = Inr (text_field ''peeled_commit'' t) \<and>
     runGateGit W root [''rev-parse'', ''--verify'', text_field ''peeled_commit'' t @ ''^{tree}''] = Inr (text_field ''tree'' t)"
  by (auto simp: assertReleaseIdentity_def resolves_to_def result_simps)

text \<open>
  What git answers for a branch of a remote: among the lines of \<open>git ls-remote --refs\<close> at the
  configured URL exactly one names the ref with an object id, and it names the given object.
\<close>

definition reported :: "string \<Rightarrow> string \<Rightarrow> bool" where
  "reported ref line = (case split_on (CHR 0x09) line of oid # name # _ \<Rightarrow> name = ref \<and> OBJECT_ID oid | _ \<Rightarrow> False)"

definition remote_reports :: "world \<Rightarrow> string \<Rightarrow> string \<Rightarrow> string \<Rightarrow> string \<Rightarrow> bool" where
  "remote_reports W root remote ref oid \<longleftrightarrow>
     (\<exists>url environ out line. resolveConfiguredRemoteUrl W root remote = Inr url \<and>
        reviewGitEnvironment (process_env W) = Inr environ \<and>
        git W environ (Some root) [''ls-remote'', ''--refs'', url, ref] = Some (0, out) \<and>
        filter (reported ref) (output_lines out) = [line] \<and> take 2 (split_on (CHR 0x09) line) = [oid, ref])"

lemma reported_oids:
  "concat (map (\<lambda>line. case split_on (CHR 0x09) line of
      oid # name # _ \<Rightarrow> if name = ref \<and> OBJECT_ID oid then [oid] else [] | _ \<Rightarrow> []) lines) =
    map (\<lambda>line. hd (split_on (CHR 0x09) line)) (filter (reported ref) lines)"
  by (induction lines) (auto simp: reported_def split: list.split)

lemma reported_take: "reported ref line \<Longrightarrow> take 2 (split_on (CHR 0x09) line) = [hd (split_on (CHR 0x09) line), ref]"
  by (auto simp: reported_def numeral_2_eq_2 split: list.splits)

lemma one_reported:
  "(\<exists>line. filter (reported ref) lines = [line] \<and> take 2 (split_on (CHR 0x09) line) = [oid, ref]) \<longleftrightarrow>
    map (\<lambda>line. hd (split_on (CHR 0x09) line)) (filter (reported ref) lines) = [oid]"
proof -
  have "reported ref line" if "filter (reported ref) lines = [line]" for line
    using filter_eq_ConsD[OF that] by blast
  then show ?thesis by (auto simp: map_eq_Cons_conv reported_take)
qed

lemma one_answer:
  "(case xs of [] \<Rightarrow> Inr None | [oid] \<Rightarrow> Inr (Some oid) | _ \<Rightarrow> Inl e) = Inr (Some head) \<longleftrightarrow> xs = [head]"
  by (auto split: list.splits)

lemma resolveRemoteGateRef_reports:
  assumes "full_ref ref"
  shows "resolveRemoteGateRef W root remote ref label = Inr (Some oid) \<longleftrightarrow> remote_reports W root remote ref oid"
proof -
  have "(\<not> full_ref ref) = False" using assms by simp
  then show ?thesis
    unfolding resolveRemoteGateRef_def remote_reports_def reported_oids
    by (simp only: if_False bindr_eq_Inr succeeded_iff one_answer one_reported[symmetric]) blast
qed

lemma protected_is_full: "full_ref RELEASE_FAST_PATH_PROTECTED_REF"
  by code_simp

text \<open>
  What the \<open>gh\<close> command must answer for CI to have succeeded: the check runs of the commit, as
  many as both of their counts say, each of them completed with success; and, when there is none,
  the combined status of the commit.
\<close>

definition ci_succeeded :: "world \<Rightarrow> string \<Rightarrow> string \<Rightarrow> bool" where
  "ci_succeeded W root sha \<longleftrightarrow>
     (\<exists>environ out summary runs. reviewGitEnvironment (process_env W) = Inr environ \<and>
        gh W environ root [''api'', ''repos/{owner}/{repo}/commits/'' @ sha @ ''/check-runs?per_page=100'', ''--jq'',
          ''{total_count, returned: (.check_runs | length), checks: [.check_runs[] | [.status, .conclusion]]}''] = Some (0, out) \<and>
        parse_json W out = Some summary \<and> jget ''checks'' summary = JArr runs \<and>
        jget ''total_count'' summary = JInt (int (length runs)) \<and> jget ''returned'' summary = JInt (int (length runs)) \<and>
        set runs \<subseteq> {JArr [JStr ''completed'', JStr ''success'']} \<and>
        (runs = [] \<longrightarrow> (\<exists>state. trim state = ''success'' \<and>
           gh W environ root [''api'', ''repos/{owner}/{repo}/commits/'' @ sha @ ''/status'', ''--jq'', ''.state''] = Some (0, state))))"

lemma count_is_iff: "count_is v n \<longleftrightarrow> v = JInt (int n) \<and> safe_integer (int n)"
  by (auto simp: count_is_def split: json.split)

lemma check_runs_iff:
  "check_runs summary = Some runs \<longleftrightarrow> jget ''checks'' summary = JArr runs \<and> safe_integer (int (length runs)) \<and>
     jget ''total_count'' summary = JInt (int (length runs)) \<and> jget ''returned'' summary = JInt (int (length runs))"
  by (auto simp: check_runs_def count_is_iff split: json.split)

lemma unproven_not_success [simp]: "unproven \<noteq> ci_success"
  by (simp add: unproven_def ci_success_def)

lemma derived_means_succeeded:
  assumes "deriveReleaseCiStatusForShaV1 W root sha = Inr ci_success"
  shows "ci_succeeded W root sha"
proof -
  obtain environ where e: "reviewGitEnvironment (process_env W) = Inr environ" "ci_answer W environ root sha = ci_success"
    using assms by (auto simp: deriveReleaseCiStatusForShaV1_def bindr_eq_Inr)
  from e(2) obtain out summary runs where r: "gh W environ root [''api'', ''repos/{owner}/{repo}/commits/'' @ sha @ ''/check-runs?per_page=100'', ''--jq'',
          ''{total_count, returned: (.check_runs | length), checks: [.check_runs[] | [.status, .conclusion]]}''] = Some (0, out)"
      "parse_json W out = Some summary" "check_runs summary = Some runs"
    unfolding ci_answer_def by (auto split: option.splits if_splits prod.splits)
  note rest = e(2)[unfolded ci_answer_def r option.case prod.case, simplified]
  have "set runs \<subseteq> {JArr [JStr ''completed'', JStr ''success'']}"
    using rest by (auto simp: list_all_iff split: if_splits)
  moreover have "\<exists>state. trim state = ''success'' \<and>
      gh W environ root [''api'', ''repos/{owner}/{repo}/commits/'' @ sha @ ''/status'', ''--jq'', ''.state''] = Some (0, state)" if "runs = []"
    using rest that by (auto split: option.splits if_splits prod.splits)
  ultimately show ?thesis
    using e(1) r(1,2) r(3)[unfolded check_runs_iff] unfolding ci_succeeded_def by blast
qed

lemma recheck_reports:
  "\<not> advanced (recheckReleaseFastPathRemoteHeadV1 W cwd remote head) \<longleftrightarrow>
     (\<exists>root. repositoryRoot W cwd = Inr root \<and> remote_reports W root remote RELEASE_FAST_PATH_PROTECTED_REF head)"
  unfolding resolveRemoteGateRef_reports[OF protected_is_full, symmetric, where label = "''release protected main head''"]
    recheckReleaseFastPathRemoteHeadV1_def Let_def
  by (cases "repositoryRoot W cwd") (auto split: sum.split)

text \<open>
  C27: what an eligible release proves. The tag is a semantic version that is neither x.0.0 nor
  0.y.0; the repository resolves the tag to the tag object, that to the commit and that to the tree
  of the target; the commit is the head that \<open>git ls-remote\<close> reports for \<open>refs/heads/main\<close> at
  the configured remote; the \<open>gh\<close> command, and not only the caller, says that CI succeeded for it:
  all the check runs are listed and each is completed with success, or there is none and the
  combined status is success; and there is neither an incident nor external evidence. A recheck
  at any later state of the repository and the remote then reports no advance exactly when
  \<open>git ls-remote\<close> reports that same commit again.
\<close>

theorem release_fast_path_proves:
  assumes "evaluateReleaseFastPathV1 W t evidence cwd = Inr r" and "eligible r"
  shows "\<exists>root head. repositoryRoot W cwd = Inr root \<and> remote_head r = Some head \<and> text_field ''peeled_commit'' t = head \<and>
    remote_reports W root (evidence_remote evidence) ''refs/heads/main'' head \<and>
    runGateGit W root [''rev-parse'', ''--verify'', text_field ''tag_ref'' t @ ''^{object}''] = Inr (text_field ''tag_object'' t) \<and>
    runGateGit W root [''rev-parse'', ''--verify'', text_field ''tag_object'' t @ ''^{commit}''] = Inr head \<and>
    runGateGit W root [''rev-parse'', ''--verify'', head @ ''^{tree}''] = Inr (text_field ''tree'' t) \<and>
    ci_succeeded W root head \<and>
    RELEASE_SEMVER_TAG (drop 10 (text_field ''tag_ref'' t)) \<and>
    \<not> major_release (semver_groups (drop 10 (text_field ''tag_ref'' t))) \<and>
    \<not> post_incident evidence \<and> external_evidence evidence = ''none'' \<and>
    (\<forall>later. (\<not> advanced (recheckReleaseFastPathRemoteHeadV1 later cwd (evidence_remote evidence) head)) =
      (\<exists>root'. repositoryRoot later cwd = Inr root' \<and>
         remote_reports later root' (evidence_remote evidence) ''refs/heads/main'' head))"
proof -
  obtain root head where h: "remote_head r = Some head" "jget ''peeled_commit'' t = JStr head"
    "\<not> post_incident evidence" "external_evidence evidence = ''none''"
    "RELEASE_SEMVER_TAG (drop (length ''refs/tags/'') (text_field ''tag_ref'' t))"
    "\<not> major_release (semver_groups (drop (length ''refs/tags/'') (text_field ''tag_ref'' t)))"
    "repositoryRoot W cwd = Inr root" "assertReleaseIdentity W root t = Inr ()"
    "resolveRemoteGateRef W root (evidence_remote evidence) RELEASE_FAST_PATH_PROTECTED_REF ''release protected main head'' = Inr (Some head)"
    "deriveReleaseCiStatusForShaV1 W root head = Inr ci_success"
    using eligible_iff[OF assms] by (elim exE conjE)
  have p: "text_field ''peeled_commit'' t = head" using h(2) by (simp add: text_field_def)
  have l: "length ''refs/tags/'' = 10" by simp
  note main = RELEASE_FAST_PATH_PROTECTED_REF_def
  have "remote_reports W root (evidence_remote evidence) ''refs/heads/main'' head"
    using h(9) unfolding resolveRemoteGateRef_reports[OF protected_is_full] unfolding main .
  with h(1,3,4,7) derived_means_succeeded[OF h(10)] h(5,6)[unfolded l]
    h(8)[unfolded identity_iff p] p recheck_reports[unfolded main] show ?thesis
    by (intro exI[of _ root] exI[of _ head] conjI allI) (elim conjE, assumption | assumption | rule recheck_reports[unfolded main])+
qed

definition release_world :: world where
  "release_world = (sample_world [])\<lparr>
     git := \<lambda>environ cwd args. Some (0,
       if last args = ''--show-toplevel'' then ''/r''
       else if last args = ''remote'' then ''origin''
       else if last args = ''origin'' then ''ssh://h/r''
       else if hd args = ''ls-remote'' then replicate 40 (CHR ''b'') @ [CHR 0x09] @ ''refs/heads/main''
       else if last args = ''refs/tags/v1.2.3^{object}'' then replicate 40 (CHR ''a'')
       else if last args = replicate 40 (CHR ''a'') @ ''^{commit}'' then replicate 40 (CHR ''b'')
       else replicate 40 (CHR ''c'')),
     gh := \<lambda>environ cwd args. Some (0, ''''),
     parse_json := \<lambda>t. Some (JObj [(''total_count'', JInt 1), (''returned'', JInt 1),
       (''checks'', JArr [JArr [JStr ''completed'', JStr ''success'']])])\<rparr>"

definition release_target :: json where
  "release_target = JObj [(''kind'', JStr ''release''), (''tag_ref'', JStr ''refs/tags/v1.2.3''),
     (''tag_object'', JStr (replicate 40 (CHR ''a''))), (''peeled_commit'', JStr (replicate 40 (CHR ''b''))),
     (''tree'', JStr (replicate 40 (CHR ''c'')))]"

definition sample_release :: release_evidence where
  "sample_release = \<lparr>protected_ref = ''refs/heads/main'', evidence_remote = ''origin'',
     ci_revision = replicate 40 (CHR ''b''), ci_status_text = ''success'', external_evidence = ''none'', post_incident = False\<rparr>"

theorem release_fast_path_proves_witness:
  "\<exists>r. evaluateReleaseFastPathV1 release_world release_target sample_release ''/r'' = Inr r \<and> eligible r \<and>
     ci_succeeded release_world ''/r'' (replicate 40 (CHR ''b''))"
proof -
  have r: "evaluateReleaseFastPathV1 release_world release_target sample_release ''/r'' =
      Inr \<lparr>eligible = True, remote_head = Some (replicate 40 (CHR ''b''))\<rparr>" by code_simp
  have e: "eligible \<lparr>eligible = True, remote_head = Some (replicate 40 (CHR ''b''))\<rparr>" by simp
  obtain root head where h: "repositoryRoot release_world ''/r'' = Inr root"
    "remote_head \<lparr>eligible = True, remote_head = Some (replicate 40 (CHR ''b''))\<rparr> = Some head"
    "ci_succeeded release_world root head"
    using release_fast_path_proves[OF r e] by (elim exE conjE) (rule that)
  moreover have "repositoryRoot release_world ''/r'' = Inr ''/r''" by code_simp
  ultimately show ?thesis using r by simp
qed

end
