(* ===== verification/Receipts.thy ===== *)
theory Receipts
  imports ReviewGraph
begin

text \<open>
  Receipts of a terminal review (\<open>lib/review-transaction.ts\<close>): the body that repeats what the
  review bound, its hash, and the two checks that a gate makes of one: that it is intact and that
  it is the receipt of the authoritative state.
\<close>

section \<open>Bodies and envelopes\<close>

record receipt_body =
  receipt_schema :: string
  receipt_lineage :: string
  receipt_mode :: review_mode
  receipt_base_tree :: string
  receipt_complete_tree :: string
  receipt_projection :: projection
  receipt_initial_tree :: string
  receipt_final_tree :: string
  receipt_route :: review_route
  receipt_lenses :: "review_lens list"
  receipt_policy :: string
  receipt_ledger_hash :: string
  receipt_evidence :: string
  receipt_budget :: review_counters
  receipt_counters :: review_counters
  receipt_terminal :: terminal_outcome

record receipt =
  receipt_body :: receipt_body
  receipt_hash :: string

definition enc_receipt :: "receipt_body \<Rightarrow> json" where
  "enc_receipt b = JObj [(''schema'', JStr (receipt_schema b)), (''lineage_id'', JStr (receipt_lineage b)),
     (''mode'', JStr (mode_text (receipt_mode b))), (''base_tree'', JStr (receipt_base_tree b)),
     (''complete_snapshot_tree'', JStr (receipt_complete_tree b)),
     (''review_projection'', enc_projection (receipt_projection b)),
     (''initial_review_tree'', JStr (receipt_initial_tree b)), (''final_candidate_tree'', JStr (receipt_final_tree b)),
     (''route'', JStr (route_text (receipt_route b))), (''lenses'', enc_lenses (receipt_lenses b)),
     (''policy_hash'', JStr (receipt_policy b)), (''frozen_ledger_hash'', JStr (receipt_ledger_hash b)),
     (''evidence_hash'', JStr (receipt_evidence b)), (''budget'', enc_counters (receipt_budget b)),
     (''counters'', enc_counters (receipt_counters b)), (''terminal_state'', JStr (terminal_text (receipt_terminal b)))]"

lemma faithful_receipt: "faithful enc_receipt"
  unfolding enc_receipt_def [abs_def]
proof (rule faithful_object, goal_cases)
  case (3 x y)
  have "receipt_mode x = receipt_mode y" "receipt_route x = receipt_route y" "receipt_terminal x = receipt_terminal y"
    using 3[of "''mode''"] 3[of "''route''"] 3[of "''terminal_state''"] inj_mode_text inj_route_text inj_terminal_text
    by (simp_all add: inj_def)
  with 3[of "''schema''"] 3[of "''lineage_id''"] 3[of "''base_tree''"] 3[of "''complete_snapshot_tree''"]
    3[of "''review_projection''"] 3[of "''initial_review_tree''"] 3[of "''final_candidate_tree''"] 3[of "''lenses''"]
    3[of "''policy_hash''"] 3[of "''frozen_ledger_hash''"] 3[of "''evidence_hash''"] 3[of "''budget''"] 3[of "''counters''"]
  show ?case
    by (simp add: faithfulD[OF faithful_projection] faithfulD[OF faithful_lenses] faithfulD[OF faithful_counters])
qed (simp_all add: faithfulD[OF faithful_projection] faithfulD[OF faithful_lenses] faithfulD[OF faithful_counters])

definition RECEIPT_SCHEMA :: string where
  "RECEIPT_SCHEMA = ''gentle-ai.review-receipt-body/v1''"

definition assertReceiptBody :: "receipt_body \<Rightarrow> unit result" where
  "assertReceiptBody b = checks
     [require (receipt_schema b = RECEIPT_SCHEMA) (IntegrityError ''Unknown receipt body schema''),
      assertLineageId (receipt_lineage b),
      assertObjectId (receipt_base_tree b) ''base tree'',
      assertObjectId (receipt_complete_tree b) ''complete snapshot tree'',
      assertObjectId (receipt_initial_tree b) ''initial review tree'',
      assertObjectId (receipt_final_tree b) ''final candidate tree'',
      assertProjectionBinding (receipt_projection b) (receipt_complete_tree b) (receipt_initial_tree b),
      assertDigest (receipt_policy b) ''policy hash'',
      assertDigest (receipt_ledger_hash b) ''frozen ledger hash'',
      assertDigest (receipt_evidence b) ''evidence hash'',
      assertBudget (receipt_budget b),
      assertCounters (receipt_counters b) (receipt_budget b) None]"

definition createReceiptEnvelope :: "host \<Rightarrow> receipt_body \<Rightarrow> receipt result" where
  "createReceiptEnvelope E b =
     bindr (assertReceiptBody b) (\<lambda>_. Inr \<lparr>receipt_body = b, receipt_hash = chash E (enc_receipt b)\<rparr>)"

definition assertReceiptIntegrity :: "host \<Rightarrow> receipt \<Rightarrow> unit result" where
  "assertReceiptIntegrity E envelope = checks
     [assertReceiptBody (receipt_body envelope),
      assertDigest (receipt_hash envelope) ''receipt hash'',
      require (chash E (enc_receipt (receipt_body envelope)) = receipt_hash envelope) (IntegrityError ''Receipt hash mismatch'')]"

section \<open>The receipt of a state\<close>

text \<open>The fields a receipt needs, where the code finds them truthy (an empty string is not).\<close>

definition receipt_fields :: "review_state \<Rightarrow> (frozen_ledger \<times> string \<times> terminal_outcome) option" where
  "receipt_fields s = (case (ledger s, final_candidate_tree s, terminal_state s) of
     (Some l, Some t, Some o') \<Rightarrow> if t = [] then None else Some (l, t, o') | _ \<Rightarrow> None)"

definition expected_body :: "review_state \<Rightarrow> frozen_ledger \<times> string \<times> terminal_outcome \<Rightarrow> receipt_body" where
  "expected_body s = (\<lambda>(l, t, o').
     \<lparr>receipt_schema = RECEIPT_SCHEMA, receipt_lineage = lineage_id s, receipt_mode = mode s,
      receipt_base_tree = base_tree s, receipt_complete_tree = complete_snapshot_tree s,
      receipt_projection = review_projection s, receipt_initial_tree = initial_review_tree s, receipt_final_tree = t,
      receipt_route = route s, receipt_lenses = lenses s, receipt_policy = policy_hash s,
      receipt_ledger_hash = frozen_ledger_hash l, receipt_evidence = evidence_hash s,
      receipt_budget = budget s, receipt_counters = counters s, receipt_terminal = o'\<rparr>)"

definition createReceiptForState :: "host \<Rightarrow> review_state \<Rightarrow> receipt result" where
  "createReceiptForState E s =
     (if phase s \<noteq> TERMINAL then Inl (IntegrityError ''Only terminal authoritative state can mint a receipt'')
      else (case receipt_fields s of
        None \<Rightarrow> Inl (IntegrityError ''Only terminal authoritative state can mint a receipt'')
      | Some f \<Rightarrow> createReceiptEnvelope E (expected_body s f)))"

definition assertReceiptMatchesState :: "host \<Rightarrow> receipt \<Rightarrow> review_state \<Rightarrow> unit result" where
  "assertReceiptMatchesState E r s =
     (case receipt_fields s of
        None \<Rightarrow> Inl (IntegrityError ''Authoritative state cannot mint a receipt'')
      | Some f \<Rightarrow> require (chash E (enc_receipt (expected_body s f)) = chash E (enc_receipt (receipt_body r)))
          (IntegrityError ''Receipt body does not match authoritative state''))"

lemma chash_digest: "digest_host E \<Longrightarrow> DIGEST (chash E v)"
  by (simp add: chash_def digest_host_def)

section \<open>What a receipt proves\<close>

text \<open>The state is valid enough for its receipt: a part of what \<open>assertState\<close> requires.\<close>

lemma assertState_mints:
  assumes "digest_host E" "assertState E s previous = Inr ()" "receipt_fields s = Some f"
  shows "assertReceiptBody (expected_body s f) = Inr ()"
proof -
  have "createFrozenLedger E rws = Inr l \<Longrightarrow> DIGEST (frozen_ledger_hash l)" for rws l
    using chash_digest[OF assms(1)]
    by (auto simp: createFrozenLedger_def result_simps Let_def split: option.splits)
  then have l: "assertFrozenLedgerIntegrity E l = Inr () \<Longrightarrow> DIGEST (frozen_ledger_hash l)" for l
    by (fastforce simp: assertFrozenLedgerIntegrity_def result_simps split: if_splits)
  have c: "assertCounters (counters s) (budget s) None = Inr ()"
    using assms(2) by (auto simp: assertState_def assertCounters_def result_simps)
  show ?thesis
    using assms(2,3) c unfolding assertReceiptBody_def receipt_fields_def
    by (auto simp: assertState_def expected_body_def result_simps assertDigest_def l split: option.splits if_splits)
qed


lemma mint_iff:
  "createReceiptForState E s = Inr r \<longleftrightarrow> phase s = TERMINAL \<and>
     (\<exists>f. receipt_fields s = Some f \<and> assertReceiptBody (expected_body s f) = Inr () \<and>
        r = \<lparr>receipt_body = expected_body s f, receipt_hash = chash E (enc_receipt (expected_body s f))\<rparr>)"
  by (auto simp: createReceiptForState_def createReceiptEnvelope_def result_simps split: option.splits)

lemma integrity_iff:
  "assertReceiptIntegrity E r = Inr () \<longleftrightarrow> assertReceiptBody (receipt_body r) = Inr () \<and> DIGEST (receipt_hash r) \<and>
     chash E (enc_receipt (receipt_body r)) = receipt_hash r"
  by (auto simp: assertReceiptIntegrity_def assertDigest_def result_simps)

lemma matches_iff:
  "assertReceiptMatchesState E r s = Inr () \<longleftrightarrow>
     (\<exists>f. receipt_fields s = Some f \<and> chash E (enc_receipt (expected_body s f)) = chash E (enc_receipt (receipt_body r)))"
  by (auto simp: assertReceiptMatchesState_def result_simps split: option.splits)

end
