(* ===== verification/ReviewGate.thy ===== *)
theory ReviewGate
  imports PublicationGate Receipts
begin

text \<open>
  The gate of a review (\<open>evaluateGateTarget\<close> and what it calls, \<open>lib/review-transaction.ts\<close>): does
  the commit, push, pull request or release that is about to happen carry exactly the tree that an
  approved receipt names? Git answers in the environment of the process.
\<close>

section \<open>Git objects\<close>

definition gate_git :: "world \<Rightarrow> string \<Rightarrow> string list \<Rightarrow> string result" where
  "gate_git W cwd args =
     bindr (succeeded (git W (process_env W) (Some cwd) args) (Error (''Command failed: git '' @ join '' '' args)))
       (\<lambda>out. Inr (trim out))"

definition repositoryRootForGate :: "world \<Rightarrow> string \<Rightarrow> string result" where
  "repositoryRootForGate W cwd = gate_git W cwd [''rev-parse'', ''--show-toplevel'']"

definition rev_parse :: "world \<Rightarrow> string \<Rightarrow> string \<Rightarrow> string \<Rightarrow> string result" where
  "rev_parse W cwd name kind = gate_git W cwd [''rev-parse'', ''--verify'', name @ ''^{'' @ kind @ ''}'']"

definition resolveGateObject :: "world \<Rightarrow> string \<Rightarrow> string \<Rightarrow> string \<Rightarrow> string result" where
  "resolveGateObject W cwd oid label =
     (if \<not> OBJECT_ID oid then Inl (IntegrityError (label @ '' is not an object ID''))
      else bindr (rev_parse W cwd oid ''object'') (\<lambda>resolved.
        if resolved \<noteq> oid then Inl (IntegrityError (label @ '' does not resolve exactly'')) else Inr resolved))"

definition resolveGateRef :: "world \<Rightarrow> string \<Rightarrow> string \<Rightarrow> string \<Rightarrow> string result" where
  "resolveGateRef W cwd ref label =
     (if \<not> full_ref ref then Inl (IntegrityError (label @ '' is not a full ref'')) else rev_parse W cwd ref ''object'')"

definition assertTreeObject :: "world \<Rightarrow> string \<Rightarrow> string \<Rightarrow> string \<Rightarrow> unit result" where
  "assertTreeObject W cwd tree label =
     bindr (resolveGateObject W cwd tree label) (\<lambda>_.
     bindr (gate_git W cwd [''cat-file'', ''-t'', tree]) (\<lambda>kind.
       require (kind = ''tree'') (IntegrityError (label @ '' is not a tree object''))))"

definition assertCommitBinding :: "world \<Rightarrow> string \<Rightarrow> string \<Rightarrow> string \<Rightarrow> string \<Rightarrow> string \<Rightarrow> unit result" where
  "assertCommitBinding W cwd oid peeledCommit tree label =
     bindr (resolveGateObject W cwd oid (label @ '' object'')) (\<lambda>_.
     bindr (resolveGateObject W cwd peeledCommit (label @ '' peeled commit'')) (\<lambda>_.
     bindr (assertTreeObject W cwd tree (label @ '' tree'')) (\<lambda>_.
     bindr (rev_parse W cwd oid ''commit'') (\<lambda>resolvedCommit.
       if resolvedCommit \<noteq> peeledCommit
       then Inl (IntegrityError (label @ '' object does not peel to the supplied commit''))
       else bindr (rev_parse W cwd peeledCommit ''tree'') (\<lambda>resolvedTree.
         require (resolvedTree = tree) (IntegrityError (label @ '' commit does not resolve to the supplied tree'')))))))"

section \<open>Push targets\<close>

record inspection =
  valid :: bool
  matchesReceipt :: bool
  targetTree :: "string option"
  inspect_reason :: string

definition refused :: "string \<Rightarrow> inspection" where
  "refused why = \<lparr>valid = False, matchesReceipt = False, targetTree = None, inspect_reason = why\<rparr>"

definition inspected :: "bool \<Rightarrow> string \<Rightarrow> string \<Rightarrow> string \<Rightarrow> inspection" where
  "inspected m tree yes no = \<lparr>valid = True, matchesReceipt = m, targetTree = Some tree, inspect_reason = if m then yes else no\<rparr>"

text \<open>
  One update of a push: Inl is the reason of an early return, Inr whether it matches the receipt;
  the outer result is the exception.
\<close>

definition single_parent :: "string \<Rightarrow> string \<Rightarrow> string option" where
  "single_parent commit line = (case split_on (CHR '' '') line of
     [child, parent] \<Rightarrow> if child \<noteq> commit \<or> \<not> OBJECT_ID parent then None else Some parent | _ \<Rightarrow> None)"

definition push_create :: "world \<Rightarrow> receipt \<Rightarrow> string \<Rightarrow> string \<Rightarrow> string \<Rightarrow> json \<Rightarrow> (string + bool) result" where
  "push_create W r cwd remote dest u =
     (let dst = text_field ''destination_ref'' u; src = text_field ''source_ref'' u;
          commit = text_field ''new_peeled_commit'' u; tree = text_field ''new_tree'' u;
          matching = (tree = receipt_final_tree (receipt_body r)) in
      if jget ''old_object'' u \<noteq> JNull \<or> jget ''old_peeled_commit'' u \<noteq> JNull \<or> jget ''old_tree'' u \<noteq> JNull
      then Inr (Inl ''Push create must bind an explicitly absent old identity.'')
      else bindr (resolvePushRemoteRefV1 W cwd remote dst ''push remote destination ref'' (Some dest)) (\<lambda>(_, there).
        if there \<noteq> None then Inr (Inl ''Push create destination ref already exists.'')
        else if starts_with ''refs/tags/'' dst
        then (if \<not> starts_with ''refs/tags/'' src \<or> src \<noteq> dst
              then Inr (Inl ''Push tag create requires one exact matching tag source and destination ref.'')
              else if \<not> matching
              then Inr (Inl ''Push tag create tree does not match the approved receipt final candidate.'')
              else bindr (pushRemoteAdvertisesObjectV1 W cwd remote dest commit) (\<lambda>there.
                if \<not> there
                then Inr (Inl ''Push tag create peeled commit is not advertised by the bound publication destination.'')
                else Inr (Inr matching)))
        else bindr (gate_git W cwd [''rev-list'', ''--parents'', ''-n'', ''1'', commit]) (\<lambda>line.
          case single_parent commit line of
            None \<Rightarrow> Inr (Inl ''Push create requires exactly one resolved parent commit.'')
          | Some parent \<Rightarrow>
              bindr (rev_parse W cwd parent ''tree'') (\<lambda>parentTree.
                if parentTree \<noteq> receipt_base_tree (receipt_body r)
                then Inr (Inl ''Push create parent tree does not match the approved receipt base tree.'')
                else bindr (pushRemoteAdvertisesObjectV1 W cwd remote dest parent) (\<lambda>there.
                  if \<not> there
                  then Inr (Inl ''Push create parent is not advertised by the bound publication destination.'')
                  else Inr (Inr matching))))))"

definition push_existing :: "world \<Rightarrow> receipt \<Rightarrow> string \<Rightarrow> string \<Rightarrow> string \<Rightarrow> json \<Rightarrow> (string + bool) result" where
  "push_existing W r cwd remote dest u =
     (if \<not> isObjectId (jget ''old_object'' u) \<or> \<not> isObjectId (jget ''old_peeled_commit'' u) \<or> \<not> isObjectId (jget ''old_tree'' u)
      then Inr (Inl ''Push old identity is unresolved.'')
      else bindr (resolvePushRemoteRefV1 W cwd remote (text_field ''destination_ref'' u) ''push remote destination ref'' (Some dest))
        (\<lambda>(_, there). case there of
           None \<Rightarrow> Inr (Inl ''Push update destination ref does not exist.'')
         | Some oid \<Rightarrow>
             if oid \<noteq> text_field ''old_object'' u
             then Inr (Inl ''Push update destination ref does not match its supplied old object.'')
             else bindr (assertCommitBinding W cwd (text_field ''old_object'' u) (text_field ''old_peeled_commit'' u)
                 (text_field ''old_tree'' u) ''push old identity'') (\<lambda>_.
               Inr (Inr (text_field ''new_tree'' u = receipt_final_tree (receipt_body r) \<and>
                 text_field ''old_tree'' u = receipt_base_tree (receipt_body r))))))"

definition push_update :: "world \<Rightarrow> receipt \<Rightarrow> string \<Rightarrow> string \<Rightarrow> string \<Rightarrow> json \<Rightarrow> (string + bool) result" where
  "push_update W r cwd remote dest u =
     (if (case u of JObj _ \<Rightarrow> False | _ \<Rightarrow> True) then Inr (Inl ''Push update is malformed.'')
      else if \<not> isFullRef (jget ''source_ref'' u) \<or> \<not> isFullRef (jget ''destination_ref'' u)
      then Inr (Inl ''Push update refs must be fully resolved.'')
      else if \<not> isObjectId (jget ''new_object'' u) \<or> \<not> isObjectId (jget ''new_peeled_commit'' u) \<or> \<not> isObjectId (jget ''new_tree'' u)
      then Inr (Inl ''Push new identity is unresolved.'')
      else bindr (resolveGateRef W cwd (text_field ''source_ref'' u) ''push source ref'') (\<lambda>source.
        if source \<noteq> text_field ''new_object'' u
        then Inr (Inl ''Push source ref does not resolve to its supplied new object.'')
        else bindr (assertCommitBinding W cwd (text_field ''new_object'' u) (text_field ''new_peeled_commit'' u)
            (text_field ''new_tree'' u) ''push new identity'') (\<lambda>_.
          if jget ''kind'' u = JStr ''create'' then push_create W r cwd remote dest u
          else if jget ''kind'' u = JStr ''update'' then push_existing W r cwd remote dest u
          else Inr (Inl ''Push deletion or unsupported update kind is forbidden.''))))"

fun push_updates :: "world \<Rightarrow> receipt \<Rightarrow> string \<Rightarrow> string \<Rightarrow> string \<Rightarrow> json list \<Rightarrow> (string + bool) result" where
  "push_updates W r cwd remote dest [] = Inr (Inr True)"
| "push_updates W r cwd remote dest (u # us) =
     bindr (push_update W r cwd remote dest u) (\<lambda>here. case here of
       Inl why \<Rightarrow> Inr (Inl why)
     | Inr m \<Rightarrow> bindr (push_updates W r cwd remote dest us) (\<lambda>rest. case rest of
         Inl why \<Rightarrow> Inr (Inl why) | Inr ms \<Rightarrow> Inr (Inr (m \<and> ms))))"

definition update_key :: "json \<Rightarrow> string" where
  "update_key u = text_field ''destination_ref'' u @ [CHR 0x00] @ text_field ''source_ref'' u"

definition inspectPushTarget :: "world \<Rightarrow> json \<Rightarrow> receipt \<Rightarrow> string \<Rightarrow> inspection result" where
  "inspectPushTarget W t r cwd =
     (case (jget ''remote'' t, jget ''destination_id'' t, jget ''updates'' t) of
        (JStr remote, JStr dest, JArr us) \<Rightarrow>
          if \<not> DIGEST dest then Inr (refused ''Push target requires one bound publication destination.'')
          else if us = [] then Inr (refused ''Push target requires a complete non-empty update set.'')
          else bindr (push_updates W r cwd remote dest us) (\<lambda>run. case run of
            Inl why \<Rightarrow> Inr (refused why)
          | Inr m \<Rightarrow>
              (let keys = map update_key us; trees = uniq (map (text_field ''new_tree'') us) in
               if length (uniq keys) \<noteq> length keys then Inr (refused ''Push update set contains duplicate ref pairs.'')
               else if canonicalize (enc_strings keys) \<noteq> canonicalize (enc_strings (sort keys))
               then Inr (refused ''Push update set is not in stable ref order.'')
               else (case trees of
                 [tree] \<Rightarrow> Inr (inspected m tree ''Every push ref update matches the approved receipt.''
                   ''Push ref update semantics differ from the approved receipt.'')
               | _ \<Rightarrow> Inr (refused ''Push update set has an ambiguous target tree.''))))
      | (JStr remote, JStr dest, _) \<Rightarrow>
          Inr (refused (if DIGEST dest then ''Push target requires a complete non-empty update set.''
            else ''Push target requires one bound publication destination.''))
      | (JStr remote, _, _) \<Rightarrow> Inr (refused ''Push target requires one bound publication destination.'')
      | _ \<Rightarrow> Inr (refused ''Push target requires an exact remote identity.''))"

section \<open>Targets of every kind\<close>

definition inspect_commit :: "world \<Rightarrow> json \<Rightarrow> receipt \<Rightarrow> string \<Rightarrow> string option \<Rightarrow> inspection result" where
  "inspect_commit W t r cwd actualTree =
     (let tree = text_field ''intended_commit_tree'' t in
      if \<not> isObjectId (jget ''intended_commit_tree'' t) then Inr (refused ''Intended commit tree is unresolved.'')
      else bindr (assertTreeObject W cwd tree ''intended commit tree'') (\<lambda>_.
      bindr (case actualTree of Some a \<Rightarrow> Inr a | None \<Rightarrow> gate_git W cwd [''write-tree'']) (\<lambda>actual.
      bindr (assertTreeObject W cwd actual ''actual intended commit tree'') (\<lambda>_.
        if actual \<noteq> tree then Inr (refused ''The actual staged tree does not match the supplied intended commit tree.'')
        else Inr (inspected (tree = receipt_final_tree (receipt_body r)) tree
          ''Intended commit tree matches the approved receipt.'' ''Intended commit tree differs from the approved receipt.'')))))"

definition inspect_pull_request :: "world \<Rightarrow> json \<Rightarrow> receipt \<Rightarrow> string \<Rightarrow> inspection result" where
  "inspect_pull_request W t r cwd =
     (let f = (\<lambda>k. text_field k t) in
      if \<not> isFullRef (jget ''base_ref'' t) \<or> \<not> isObjectId (jget ''base_commit'' t) \<or> \<not> isObjectId (jget ''base_tree'' t) \<or>
         \<not> isFullRef (jget ''head_ref'' t) \<or> \<not> isObjectId (jget ''head_commit'' t) \<or> \<not> isObjectId (jget ''head_tree'' t)
      then Inr (refused ''Pull request target contains unresolved identity.'')
      else bindr (resolveGateRef W cwd (f ''base_ref'') ''pull request base ref'') (\<lambda>base.
        if base \<noteq> f ''base_commit''
        then Inr (refused ''Pull request base ref does not resolve to its supplied commit.'')
        else bindr (resolveGateRef W cwd (f ''head_ref'') ''pull request head ref'') (\<lambda>head.
          if head \<noteq> f ''head_commit''
          then Inr (refused ''Pull request head ref does not resolve to its supplied commit.'')
          else bindr (assertCommitBinding W cwd (f ''base_commit'') (f ''base_commit'') (f ''base_tree'') ''pull request base'') (\<lambda>_.
          bindr (assertCommitBinding W cwd (f ''head_commit'') (f ''head_commit'') (f ''head_tree'') ''pull request head'') (\<lambda>_.
            Inr (inspected (f ''base_tree'' = receipt_base_tree (receipt_body r) \<and> f ''head_tree'' = receipt_final_tree (receipt_body r))
              (f ''head_tree'') ''Pull request base and head match the approved receipt.''
              ''Pull request base or head differs from the approved receipt.''))))))"

definition inspect_release :: "world \<Rightarrow> json \<Rightarrow> receipt \<Rightarrow> string \<Rightarrow> inspection result" where
  "inspect_release W t r cwd =
     (let f = (\<lambda>k. text_field k t) in
      if \<not> isFullRef (jget ''tag_ref'' t) \<or> \<not> starts_with ''refs/tags/'' (f ''tag_ref'') \<or>
         \<not> isObjectId (jget ''tag_object'' t) \<or> \<not> isObjectId (jget ''peeled_commit'' t) \<or> \<not> isObjectId (jget ''tree'' t)
      then Inr (refused ''Release target contains unresolved identity.'')
      else bindr (resolveGateRef W cwd (f ''tag_ref'') ''release tag ref'') (\<lambda>tag.
        if tag \<noteq> f ''tag_object'' then Inr (refused ''Release tag ref does not resolve to its supplied object.'')
        else bindr (assertCommitBinding W cwd (f ''tag_object'') (f ''peeled_commit'') (f ''tree'') ''release identity'') (\<lambda>_.
          Inr (inspected (f ''tree'' = receipt_final_tree (receipt_body r)) (f ''tree'')
            ''Release tag and commit tree match the approved receipt.'' ''Release commit tree differs from the approved receipt.''))))"

fun exn_message :: "exn \<Rightarrow> string" where
  "exn_message (Error m) = m" | "exn_message (TypeError m) = m" | "exn_message (IntegrityError m) = m"
| "exn_message (CanonicalError m) = m" | "exn_message (SchemaError m) = m" | "exn_message (StoreError m) = m"
| "exn_message (LockError m) = m" | "exn_message (RepositoryError m) = m"

definition inspectGateTarget :: "world \<Rightarrow> json \<Rightarrow> receipt \<Rightarrow> string \<Rightarrow> string option \<Rightarrow> inspection" where
  "inspectGateTarget W t r cwd actualTree =
     (case (case jget ''kind'' t of
        JStr kind \<Rightarrow>
          if kind = ''intended-commit'' then inspect_commit W t r cwd actualTree
          else if kind = ''push'' then inspectPushTarget W t r cwd
          else if kind = ''pull-request'' then inspect_pull_request W t r cwd
          else if kind = ''release'' then inspect_release W t r cwd
          else Inr (refused ''Unsupported gate target kind.'')
      | _ \<Rightarrow> Inr (refused ''Gate target is malformed.'')) of
        Inl e \<Rightarrow> refused (''Gate target identity cannot be resolved in the repository: '' @ exn_message e)
      | Inr i \<Rightarrow> i)"

datatype gate_status = ALLOW | SCOPE_CHANGED | DENY

fun gate_text :: "gate_status \<Rightarrow> string" where
  "gate_text ALLOW = ''allow''" | "gate_text SCOPE_CHANGED = ''scope-changed''" | "gate_text DENY = ''deny''"

record gate_result =
  gate_status :: gate_status
  target_hash :: string
  result_receipt :: string
  gate_reason :: string
  gate_claim :: "child_claim option"

definition enc_gate_result :: "gate_result \<Rightarrow> json" where
  "enc_gate_result g = JObj [(''status'', JStr (gate_text (gate_status g))), (''actor_count'', JInt 0),
     (''target_hash'', JStr (target_hash g)), (''receipt_hash'', JStr (result_receipt g)), (''reason'', JStr (gate_reason g)),
     (''child_claim'', enc_opt enc_claim (gate_claim g))]"

definition deniedGateResult :: "string \<Rightarrow> string \<Rightarrow> string \<Rightarrow> gate_result" where
  "deniedGateResult receiptHash targetHash why =
     \<lparr>gate_status = DENY, target_hash = targetHash, result_receipt = receiptHash, gate_reason = why, gate_claim = None\<rparr>"

definition target_digest :: "world \<Rightarrow> json \<Rightarrow> string" where
  "target_digest W t = (case canonicalHash (host_of W) t of
     Inl _ \<Rightarrow> chash (host_of W) (JObj [(''invalid_target'', JBool True)]) | Inr h \<Rightarrow> h)"

definition evaluateGateTarget :: "world \<Rightarrow> receipt \<Rightarrow> json \<Rightarrow> string \<Rightarrow> string option \<Rightarrow> gate_result" where
  "evaluateGateTarget W r t cwd actualTree =
     (let targetHash = target_digest W t in
      case assertReceiptIntegrity (host_of W) r of
        Inl e \<Rightarrow> deniedGateResult (receipt_hash r) targetHash (''Receipt integrity failed: '' @ exn_message e)
      | Inr _ \<Rightarrow>
          if receipt_terminal (receipt_body r) \<noteq> APPROVED
          then deniedGateResult (receipt_hash r) targetHash ''Only an approved receipt can cross a gate.''
          else (case repositoryRootForGate W cwd of
            Inl e \<Rightarrow> deniedGateResult (receipt_hash r) targetHash (''Gate repository cannot be resolved: '' @ exn_message e)
          | Inr root \<Rightarrow>
              (let i = inspectGateTarget W t r root actualTree in
               if \<not> valid i then deniedGateResult (receipt_hash r) targetHash (inspect_reason i)
               else \<lparr>gate_status = (if matchesReceipt i then ALLOW else SCOPE_CHANGED), target_hash = targetHash,
                     result_receipt = receipt_hash r, gate_reason = inspect_reason i, gate_claim = None\<rparr>)))"

section \<open>What an open gate proves\<close>

text \<open>A commit, by its object or a tag, carries a tree: what git must answer for it.\<close>

definition carries :: "world \<Rightarrow> string \<Rightarrow> string \<Rightarrow> string \<Rightarrow> string \<Rightarrow> bool" where
  "carries W cwd oid commit tree \<longleftrightarrow> rev_parse W cwd oid ''commit'' = Inr commit \<and> rev_parse W cwd commit ''tree'' = Inr tree \<and>
     gate_git W cwd [''cat-file'', ''-t'', tree] = Inr ''tree''"

lemma assertCommitBinding_carries:
  "assertCommitBinding W cwd oid commit tree label = Inr () \<Longrightarrow> carries W cwd oid commit tree"
  by (auto simp: assertCommitBinding_def assertTreeObject_def carries_def result_simps)

lemma resolveGateRef_iff [result_simps]:
  "resolveGateRef W cwd ref label = Inr x \<longleftrightarrow> full_ref ref \<and> rev_parse W cwd ref ''object'' = Inr x"
  by (auto simp: resolveGateRef_def)

text \<open>What each kind of target must be for the gate to open: every tree is one git answers for.\<close>

definition push_crosses :: "world \<Rightarrow> string \<Rightarrow> receipt_body \<Rightarrow> string \<Rightarrow> string \<Rightarrow> json \<Rightarrow> bool" where
  "push_crosses W root b remote dest u \<longleftrightarrow>
     (let f = (\<lambda>k. text_field k u);
          there = (\<lambda>x. \<exists>d. resolvePushRemoteRefV1 W root remote (f ''destination_ref'') ''push remote destination ref'' (Some dest) = Inr (d, x)) in
      rev_parse W root (f ''source_ref'') ''object'' = Inr (f ''new_object'') \<and>
      carries W root (f ''new_object'') (f ''new_peeled_commit'') (receipt_final_tree b) \<and>
      (if jget ''kind'' u = JStr ''create''
       then there None \<and>
         (if starts_with ''refs/tags/'' (f ''destination_ref'')
          then f ''source_ref'' = f ''destination_ref'' \<and>
            pushRemoteAdvertisesObjectV1 W root remote dest (f ''new_peeled_commit'') = Inr True
          else (\<exists>parent. gate_git W root [''rev-list'', ''--parents'', ''-n'', ''1'', f ''new_peeled_commit''] =
                Inr (f ''new_peeled_commit'' @ '' '' @ parent) \<and>
              rev_parse W root parent ''tree'' = Inr (receipt_base_tree b) \<and>
              pushRemoteAdvertisesObjectV1 W root remote dest parent = Inr True))
       else there (Some (f ''old_object'')) \<and>
         carries W root (f ''old_object'') (f ''old_peeled_commit'') (receipt_base_tree b)))"

definition crosses :: "world \<Rightarrow> string \<Rightarrow> receipt_body \<Rightarrow> string option \<Rightarrow> json \<Rightarrow> bool" where
  "crosses W root b actualTree t \<longleftrightarrow>
     (let f = (\<lambda>k. text_field k t); kind = text_field ''kind'' t in
      if kind = ''intended-commit''
      then f ''intended_commit_tree'' = receipt_final_tree b \<and>
        rev_parse W root (receipt_final_tree b) ''object'' = Inr (receipt_final_tree b) \<and>
        gate_git W root [''cat-file'', ''-t'', receipt_final_tree b] = Inr ''tree'' \<and>
        (case actualTree of Some a \<Rightarrow> a = receipt_final_tree b | None \<Rightarrow> gate_git W root [''write-tree''] = Inr (receipt_final_tree b))
      else if kind = ''pull-request''
      then rev_parse W root (f ''base_ref'') ''object'' = Inr (f ''base_commit'') \<and>
        carries W root (f ''base_commit'') (f ''base_commit'') (receipt_base_tree b) \<and>
        rev_parse W root (f ''head_ref'') ''object'' = Inr (f ''head_commit'') \<and>
        carries W root (f ''head_commit'') (f ''head_commit'') (receipt_final_tree b)
      else if kind = ''release''
      then starts_with ''refs/tags/'' (f ''tag_ref'') \<and> rev_parse W root (f ''tag_ref'') ''object'' = Inr (f ''tag_object'') \<and>
        carries W root (f ''tag_object'') (f ''peeled_commit'') (receipt_final_tree b)
      else kind = ''push'' \<and>
        (\<exists>us. jget ''updates'' t = JArr us \<and> us \<noteq> [] \<and> sorted (map update_key us) \<and> distinct (map update_key us) \<and>
          (\<forall>u \<in> set us. push_crosses W root b (f ''remote'') (f ''destination_id'') u)))"

lemma if_refused: "valid i \<Longrightarrow> ((if b then Inr (refused why) else m) = Inr i) = (\<not> b \<and> m = Inr i)"
  by (auto simp: refused_def)

lemma refused_not [simp]: "valid i \<Longrightarrow> refused why \<noteq> i" "\<not> valid (refused why)"
  by (auto simp: refused_def)

lemma inspected_simps [simp]: "matchesReceipt (inspected m tree yes no) = m" "valid (inspected m tree yes no)"
  by (simp_all add: inspected_def)

lemma assertTreeObject_tree:
  "assertTreeObject W cwd tree label = Inr () \<Longrightarrow>
     rev_parse W cwd tree ''object'' = Inr tree \<and> gate_git W cwd [''cat-file'', ''-t'', tree] = Inr ''tree''"
  by (auto simp: assertTreeObject_def resolveGateObject_def result_simps split: if_splits)

lemma commit_crosses:
  assumes "inspect_commit W t r root a = Inr i" "valid i" "matchesReceipt i" "text_field ''kind'' t = ''intended-commit''"
  shows "crosses W root (receipt_body r) a t"
  using assms(1,3,4) unfolding inspect_commit_def Let_def if_refused[OF assms(2)] crosses_def
  by (auto simp: bindr_eq_Inr if_refused[OF assms(2)] dest!: assertTreeObject_tree split: option.splits)

lemma pull_request_crosses:
  assumes "inspect_pull_request W t r root = Inr i" "valid i" "matchesReceipt i" "text_field ''kind'' t = ''pull-request''"
  shows "crosses W root (receipt_body r) a t"
  using assms(1,3,4) unfolding inspect_pull_request_def Let_def if_refused[OF assms(2)] crosses_def
  by (auto simp: bindr_eq_Inr if_refused[OF assms(2)] resolveGateRef_iff dest!: assertCommitBinding_carries)

lemma release_crosses:
  assumes "inspect_release W t r root = Inr i" "valid i" "matchesReceipt i" "text_field ''kind'' t = ''release''"
  shows "crosses W root (receipt_body r) a t"
  using assms(1,3,4) unfolding inspect_release_def Let_def if_refused[OF assms(2)] crosses_def
  by (auto simp: bindr_eq_Inr if_refused[OF assms(2)] resolveGateRef_iff dest!: assertCommitBinding_carries)

lemma split_on_ne [simp]: "split_on d s \<noteq> []"
  by (induction s) (auto split: list.splits)

lemma join_split: "join [d] (split_on d s) = s"
proof (induction s)
  case (Cons c s)
  obtain p ps where "split_on d s = p # ps" by (cases "split_on d s") simp_all
  with Cons show ?case by (cases ps) auto
qed simp

lemma split_pair: "split_on d s = [a, b] \<Longrightarrow> s = a @ d # b"
  using join_split[of d s] by simp

lemma single_parentD: "single_parent commit line = Some parent \<Longrightarrow> line = commit @ '' '' @ parent"
  by (auto simp: single_parent_def split: list.splits if_splits dest!: split_pair)

lemma if_stop: "((if b then Inr (Inl why) else m) = Inr (Inr x)) = (\<not> b \<and> m = Inr (Inr x))"
  by simp

lemma option_stop:
  "((case x of None \<Rightarrow> Inr (Inl why) | Some y \<Rightarrow> f y) = Inr (Inr m)) = (\<exists>y. x = Some y \<and> f y = Inr (Inr m))"
  by (cases x) auto

lemma push_create_matches:
  assumes "push_create W r root remote dest u = Inr (Inr True)" "jget ''kind'' u = JStr ''create''"
    "rev_parse W root (text_field ''source_ref'' u) ''object'' = Inr (text_field ''new_object'' u)"
    "carries W root (text_field ''new_object'' u) (text_field ''new_peeled_commit'' u) (text_field ''new_tree'' u)"
  shows "push_crosses W root (receipt_body r) remote dest u"
  using assms unfolding push_create_def Let_def push_crosses_def if_stop
  by (auto simp: bindr_eq_Inr if_stop option_stop split: if_splits dest!: single_parentD)

lemma push_existing_matches:
  assumes "push_existing W r root remote dest u = Inr (Inr True)" "jget ''kind'' u \<noteq> JStr ''create''"
    "rev_parse W root (text_field ''source_ref'' u) ''object'' = Inr (text_field ''new_object'' u)"
    "carries W root (text_field ''new_object'' u) (text_field ''new_peeled_commit'' u) (text_field ''new_tree'' u)"
  shows "push_crosses W root (receipt_body r) remote dest u"
  using assms unfolding push_existing_def Let_def push_crosses_def if_stop
  by (auto simp: bindr_eq_Inr if_stop option_stop dest!: assertCommitBinding_carries)

lemma push_update_matches:
  assumes "push_update W r root remote dest u = Inr (Inr True)"
  shows "push_crosses W root (receipt_body r) remote dest u"
proof -
  from assms have s: "rev_parse W root (text_field ''source_ref'' u) ''object'' = Inr (text_field ''new_object'' u)"
    and c: "carries W root (text_field ''new_object'' u) (text_field ''new_peeled_commit'' u) (text_field ''new_tree'' u)"
    and k: "(if jget ''kind'' u = JStr ''create'' then push_create W r root remote dest u
          else if jget ''kind'' u = JStr ''update'' then push_existing W r root remote dest u
          else Inr (Inl ''Push deletion or unsupported update kind is forbidden.'')) = Inr (Inr True)"
    unfolding push_update_def if_stop
    by (auto simp: bindr_eq_Inr if_stop resolveGateRef_iff dest!: assertCommitBinding_carries simp del: if_split_eq1)
  show ?thesis
  proof (cases "jget ''kind'' u = JStr ''create''")
    case True
    with k show ?thesis by (intro push_create_matches[OF _ True s c]) simp
  next
    case False
    with k show ?thesis by (intro push_existing_matches[OF _ False s c]) (simp split: if_splits)
  qed
qed

lemma push_updates_match:
  "push_updates W r root remote dest us = Inr (Inr True) \<Longrightarrow> \<forall>u \<in> set us. push_crosses W root (receipt_body r) remote dest u"
proof (induction us)
  case (Cons u us)
  obtain here where h: "push_update W r root remote dest u = Inr here" "(case here of Inl why \<Rightarrow> Inr (Inl why)
      | Inr m \<Rightarrow> bindr (push_updates W r root remote dest us) (\<lambda>rest. case rest of
         Inl why \<Rightarrow> Inr (Inl why) | Inr ms \<Rightarrow> Inr (Inr (m \<and> ms)))) = (Inr (Inr True) :: (string + bool) result)"
    using Cons.prems by (auto simp only: push_updates.simps bindr_eq_Inr)
  then obtain m where m: "here = Inr m" by (cases here) simp_all
  with h(2) obtain rest where "push_updates W r root remote dest us = Inr rest"
    "(case rest of Inl why \<Rightarrow> Inr (Inl why) | Inr ms \<Rightarrow> Inr (Inr (m \<and> ms))) = (Inr (Inr True) :: (string + bool) result)"
    by (auto simp only: sum.case bindr_eq_Inr)
  then have "push_update W r root remote dest u = Inr (Inr True)" "push_updates W r root remote dest us = Inr (Inr True)"
    using h(1) m by (cases rest; simp)+
  with Cons.IH push_update_matches show ?case by simp
qed simp

lemma length_uniq_distinct: "length (uniq xs) = length xs \<Longrightarrow> distinct xs"
  using distinct_card[OF distinct_uniq[of xs]] by (intro card_distinct) simp

lemma push_target_crosses:
  assumes "inspectPushTarget W t r root = Inr i" "valid i" "matchesReceipt i" "text_field ''kind'' t = ''push''"
  shows "crosses W root (receipt_body r) a t"
proof -
  obtain remote dest us where t: "jget ''remote'' t = JStr remote" "jget ''destination_id'' t = JStr dest" "jget ''updates'' t = JArr us"
    using assms(1,2) unfolding inspectPushTarget_def by (auto split: json.splits)
  note run = assms(1)[unfolded inspectPushTarget_def t prod.case json.case if_refused[OF assms(2)]]
  then obtain m where m: "push_updates W r root remote dest us = Inr (Inr m)" "us \<noteq> []"
    using assms(2)
    by (cases "push_updates W r root remote dest us"; cases "projr (push_updates W r root remote dest us)") auto
  have run': "(let keys = map update_key us; trees = uniq (map (text_field ''new_tree'') us) in
       if length (uniq keys) \<noteq> length keys then Inr (refused ''Push update set contains duplicate ref pairs.'')
       else if canonicalize (enc_strings keys) \<noteq> canonicalize (enc_strings (sort keys))
       then Inr (refused ''Push update set is not in stable ref order.'')
       else (case trees of [tree] \<Rightarrow> Inr (inspected m tree ''Every push ref update matches the approved receipt.''
           ''Push ref update semantics differ from the approved receipt.'')
         | _ \<Rightarrow> Inr (refused ''Push update set has an ambiguous target tree.''))) = (Inr i :: inspection result)"
    using run unfolding m(1) by simp
  then have k: "length (uniq (map update_key us)) = length (map update_key us)"
    "canonicalize (enc_strings (map update_key us)) = canonicalize (enc_strings (sort (map update_key us)))"
    "(case uniq (map (text_field ''new_tree'') us) of
       [tree] \<Rightarrow> Inr (inspected m tree ''Every push ref update matches the approved receipt.''
         ''Push ref update semantics differ from the approved receipt.'')
     | _ \<Rightarrow> Inr (refused ''Push update set has an ambiguous target tree.'')) = (Inr i :: inspection result)"
    unfolding Let_def if_refused[OF assms(2)] by auto
  have "m" using k(3) assms(2,3) by (auto split: list.splits)
  with m push_updates_match have "\<forall>u \<in> set us. push_crosses W root (receipt_body r) remote dest u" by simp
  moreover have "map update_key us = sort (map update_key us)"
    using k(2) faithfulD[OF faithful_strings] by (simp add: canonicalize_eq_iff)
  then have "sorted (map update_key us)" by (metis sorted_sort)
  moreover have "distinct (map update_key us)" using k(1) by (rule length_uniq_distinct)
  ultimately show ?thesis
    using m(2) t assms(4) by (simp add: crosses_def text_field_def)
qed

lemma inspect_crosses:
  assumes "inspectGateTarget W t r root a = i" "valid i" "matchesReceipt i"
  shows "crosses W root (receipt_body r) a t"
proof -
  obtain kind where k: "jget ''kind'' t = JStr kind"
    using assms(1,2) unfolding inspectGateTarget_def by (cases "jget ''kind'' t") auto
  then have f: "text_field ''kind'' t = kind" by (simp add: text_field_def)
  let ?run = "if kind = ''intended-commit'' then inspect_commit W t r root a
          else if kind = ''push'' then inspectPushTarget W t r root
          else if kind = ''pull-request'' then inspect_pull_request W t r root
          else if kind = ''release'' then inspect_release W t r root
          else Inr (refused ''Unsupported gate target kind.'')"
  have run: "?run = Inr i"
    using assms(1,2) unfolding inspectGateTarget_def k json.case by (cases ?run) auto
  consider "kind = ''intended-commit''" | "kind = ''push''" | "kind = ''pull-request''" | "kind = ''release''"
    using run assms(2) by (cases "kind \<in> {''intended-commit'', ''push'', ''pull-request'', ''release''}") auto
  then show ?thesis
  proof cases
    case 1 with run f show ?thesis by (intro commit_crosses[OF _ assms(2,3)]) simp_all
  next
    case 2 with run f show ?thesis by (intro push_target_crosses[OF _ assms(2,3)]) simp_all
  next
    case 3 with run f show ?thesis by (intro pull_request_crosses[OF _ assms(2,3)]) simp_all
  next
    case 4 with run f show ?thesis by (intro release_crosses[OF _ assms(2,3)]) simp_all
  qed
qed

lemma allow_iff:
  "gate_status (evaluateGateTarget W r t cwd a) = ALLOW \<longleftrightarrow>
     assertReceiptIntegrity (host_of W) r = Inr () \<and> receipt_terminal (receipt_body r) = APPROVED \<and>
     (\<exists>root. repositoryRootForGate W cwd = Inr root \<and> valid (inspectGateTarget W t r root a) \<and>
        matchesReceipt (inspectGateTarget W t r root a))"
  by (auto simp: evaluateGateTarget_def Let_def deniedGateResult_def split: sum.splits if_splits)

end
