(* ===== verification/GateClaims.thy ===== *)
theory GateClaims
  imports ReviewGate OrdinaryClaims
begin

text \<open>
  The properties of receipts and gates: which receipts are accepted for a state, and what it means
  for the world that a gate lets a commit, push, pull request or release through.
\<close>

section \<open>The receipt of the sample lineage\<close>

lemma sample_mints:
  "\<exists>t. run_reducers (reduceReviewState code_unit_host) sample_state sample_history = Inr t \<and> phase t = TERMINAL \<and>
     terminal_state t = Some APPROVED \<and> final_candidate_tree t = Some (sample_tree (CHR ''c'')) \<and>
     ok (createReceiptForState code_unit_host t)"
proof -
  have "(case run_reducers (reduceReviewState code_unit_host) sample_state sample_history of
      Inl e \<Rightarrow> False
    | Inr t \<Rightarrow> phase t = TERMINAL \<and> terminal_state t = Some APPROVED \<and> final_candidate_tree t = Some (sample_tree (CHR ''c'')) \<and>
        (case receipt_fields t of None \<Rightarrow> False | Some f \<Rightarrow> assertReceiptBody (expected_body t f) = Inr ()))"
    by code_simp
  then show ?thesis by (auto simp: ok_iff mint_iff split: sum.splits option.splits)
qed

lemma code_unit_digest: "digest_host code_unit_host"
proof -
  have "list_all is_hex (replicate 64 (CHR ''0''))" by code_simp
  then show ?thesis unfolding digest_host_def code_unit_host_def DIGEST_def by simp
qed

section \<open>Properties\<close>

text \<open>
  C26: the receipts that a gate accepts for a terminal state are exactly the one that is minted
  from it: that receipt passes both checks, and a receipt that passes both, with a body the hash
  tells from the state's own, has every field of the state and the state's hash. In a state that
  \<open>assertState\<close> accepts, with a ledger and a final tree, minting does not fail.
\<close>

theorem receipt_checks_exact:
  assumes "digest_host E" and "phase s = TERMINAL"
    and "\<forall>f. receipt_fields s = Some f \<longrightarrow> texts_apart E (enc_receipt (expected_body s f)) (enc_receipt (receipt_body r))"
  shows "(assertReceiptIntegrity E r = Inr () \<and> assertReceiptMatchesState E r s = Inr ()) = (createReceiptForState E s = Inr r) \<and>
    (assertState E s None = Inr () \<and> receipt_fields s \<noteq> None \<longrightarrow> (\<exists>m. createReceiptForState E s = Inr m))"
proof (rule conjI, rule iffI)
  assume "assertReceiptIntegrity E r = Inr () \<and> assertReceiptMatchesState E r s = Inr ()"
  then obtain f where f: "receipt_fields s = Some f" "assertReceiptBody (receipt_body r) = Inr ()"
    "chash E (enc_receipt (receipt_body r)) = receipt_hash r"
    "chash E (enc_receipt (expected_body s f)) = chash E (enc_receipt (receipt_body r))"
    unfolding integrity_iff matches_iff by blast
  note b = faithfulD[OF faithful_receipt]
  have "receipt_body r = expected_body s f"
    using chash_eqD[OF f(4) _ b(2) b(2)] assms(3) f(1) b(3) by fastforce
  with f assms(2) show "createReceiptForState E s = Inr r" unfolding mint_iff by (metis receipt.surjective old.unit.exhaust)
next
  assume "createReceiptForState E s = Inr r"
  then show "assertReceiptIntegrity E r = Inr () \<and> assertReceiptMatchesState E r s = Inr ()"
    unfolding mint_iff integrity_iff matches_iff using chash_digest[OF assms(1)] by auto
next
  show "assertState E s None = Inr () \<and> receipt_fields s \<noteq> None \<longrightarrow> (\<exists>m. createReceiptForState E s = Inr m)"
    using assertState_mints[OF assms(1), of s None] assms(2) unfolding mint_iff by fastforce
qed
theorem receipt_checks_exact_witness:
  "\<exists>t r. run_reducers (reduceReviewState code_unit_host) sample_state sample_history = Inr t \<and>
     createReceiptForState code_unit_host t = Inr r \<and> assertReceiptIntegrity code_unit_host r = Inr () \<and>
     assertReceiptMatchesState code_unit_host r t = Inr ()"
proof -
  obtain t r where t: "run_reducers (reduceReviewState code_unit_host) sample_state sample_history = Inr t"
    "phase t = TERMINAL" "createReceiptForState code_unit_host t = Inr r"
    using sample_mints by (auto simp: ok_iff)
  have "\<forall>f. receipt_fields t = Some f \<longrightarrow>
      texts_apart code_unit_host (enc_receipt (expected_body t f)) (enc_receipt (receipt_body r))"
    using t(3) by (auto simp: mint_iff texts_apart_def hash_apart_def)
  from receipt_checks_exact[OF code_unit_digest t(2) this] t show ?thesis by blast
qed

text \<open>
  C11: a gate opens only for what was reviewed. When a gate answers ALLOW, the receipt is intact and approved, and in the
  repository of the gate the target carries the final tree of the receipt. A commit: that tree is an object git knows as
  a tree, and it is the staged tree that git writes, or, where the caller hands over the tree it staged, that one. A
  release: git peels the tag to a commit with that tree. A pull request: the head ref is a commit with that tree and the
  base ref one with the base tree of the receipt. A push: every update, in order and without duplicates, sends a source
  ref that git peels to a commit with that tree; a new branch has a single parent, which carries the base tree and is
  advertised by the destination; an existing ref is at the old object the update names, which carries the base tree;
  a new tag has the name of its source and points to a commit that the destination already advertises, and nothing
  more is asked about what lies below it.
\<close>

theorem gate_opens_only_for_reviewed:
  assumes "gate_status (evaluateGateTarget W r t cwd actualTree) = ALLOW"
  shows "assertReceiptIntegrity (host_of W) r = Inr () \<and> receipt_terminal (receipt_body r) = APPROVED \<and>
    (\<exists>root. repositoryRootForGate W cwd = Inr root \<and> crosses W root (receipt_body r) actualTree t)"
  using assms inspect_crosses unfolding allow_iff by blast

definition commit_world :: world where
  "commit_world = (sample_world [])\<lparr>
     git := \<lambda>environ cwd args. Some (0,
       if last args = ''--show-toplevel'' then ''/r''
       else if hd args = ''cat-file'' then ''tree''
       else sample_tree (CHR ''c''))\<rparr>"

definition commit_target :: json where
  "commit_target = JObj [(''kind'', JStr ''intended-commit''), (''intended_commit_tree'', JStr (sample_tree (CHR ''c'')))]"

theorem gate_opens_only_for_reviewed_witness:
  "\<exists>t r. run_reducers (reduceReviewState code_unit_host) sample_state sample_history = Inr t \<and>
     createReceiptForState code_unit_host t = Inr r \<and>
     gate_status (evaluateGateTarget commit_world r commit_target ''/r'' None) = ALLOW \<and>
     crosses commit_world ''/r'' (receipt_body r) None commit_target"
proof -
  obtain t r where t: "run_reducers (reduceReviewState code_unit_host) sample_state sample_history = Inr t"
    "terminal_state t = Some APPROVED" "final_candidate_tree t = Some (sample_tree (CHR ''c''))"
    "createReceiptForState code_unit_host t = Inr r"
    using sample_mints by (auto simp: ok_iff)
  have h: "host_of commit_world = code_unit_host" by (simp add: commit_world_def sample_world_def)
  have "assertReceiptIntegrity code_unit_host r = Inr ()" "receipt_terminal (receipt_body r) = APPROVED"
    "receipt_final_tree (receipt_body r) = sample_tree (CHR ''c'')"
    using t chash_digest[OF code_unit_digest]
    by (auto simp: mint_iff integrity_iff receipt_fields_def expected_body_def split: option.splits if_splits)
  moreover have "repositoryRootForGate commit_world ''/r'' = Inr ''/r''" by code_simp
  moreover have "inspectGateTarget commit_world commit_target r ''/r'' None =
      inspected (sample_tree (CHR ''c'') = receipt_final_tree (receipt_body r)) (sample_tree (CHR ''c''))
        ''Intended commit tree matches the approved receipt.'' ''Intended commit tree differs from the approved receipt.''"
  proof -
    have "inspect_commit commit_world commit_target r ''/r'' None = Inr (inspected
        (sample_tree (CHR ''c'') = receipt_final_tree (receipt_body r)) (sample_tree (CHR ''c''))
        ''Intended commit tree matches the approved receipt.'' ''Intended commit tree differs from the approved receipt.'')"
      by code_simp
    then show ?thesis by (simp add: inspectGateTarget_def commit_target_def jget_def)
  qed
  ultimately have allow: "gate_status (evaluateGateTarget commit_world r commit_target ''/r'' None) = ALLOW"
    unfolding allow_iff h by simp
  from gate_opens_only_for_reviewed[OF this] have "crosses commit_world ''/r'' (receipt_body r) None commit_target"
    using \<open>repositoryRootForGate commit_world ''/r'' = Inr ''/r''\<close> by auto
  with t allow show ?thesis by blast
qed

end
