(* ===== verification/TransactionStore.thy ===== *)
theory TransactionStore
  imports ReviewGate ObjectStore
begin

text \<open>
  The transaction store (\<open>ReviewTransactionStore\<close> and \<open>validateReviewGraphReplayV1\<close>,
  \<open>lib/review-transaction.ts\<close>): lineages as chains of events under the current root set, read by
  walking and replaying the chain, written by one event and one publication, with an idempotency
  journal in the state. The disk is the one of the object store; results are JSON values.
\<close>

section \<open>Replay\<close>

definition same_state :: "host \<Rightarrow> review_state \<Rightarrow> review_state \<Rightarrow> bool" where
  "same_state E s t \<longleftrightarrow> chash E (enc_state s) = chash E (enc_state t)"

definition enc_journal :: "journal_entry list \<Rightarrow> json" where
  "enc_journal = enc_list enc_journal_entry"

definition enc_claims :: "child_claim list \<Rightarrow> json" where
  "enc_claims = enc_list enc_claim"

definition transition_texts :: "string list" where
  "transition_texts = map transition_text [ORDINARY_DISCOVERY, ORDINARY_EVIDENCE, ORDINARY_FIX, ORDINARY_NO_FIX,
     ORDINARY_VALIDATION, ORDINARY_FINAL_VERIFICATION, JUDGMENT_DAY_DISCOVERY, JUDGMENT_DAY_FIX,
     JUDGMENT_DAY_REJUDGMENT, JUDGMENT_DAY_FINAL_VERIFICATION]"

definition replay_prepared :: "host \<Rightarrow> review_state \<Rightarrow> json \<Rightarrow> review_state \<Rightarrow> unit result" where
  "replay_prepared E previous input state = checks
     [require (case jget ''transition'' input of JStr t \<Rightarrow> t \<in> set transition_texts | _ \<Rightarrow> False)
        (IntegrityError ''Graph prepared operation transition is invalid''),
      require (same_state E (previous\<lparr>revision := revision state, request_journal := request_journal state\<rparr>) state)
        (IntegrityError ''Graph prepared operation replay does not match event state'')]"

definition replay_gate :: "host \<Rightarrow> review_state \<Rightarrow> event_kind \<Rightarrow> json \<Rightarrow> review_state \<Rightarrow> unit result" where
  "replay_gate E previous kind input state =
     (let journal = request_journal state; priorClaims = or_empty (child_claims previous);
          nextClaims = or_empty (child_claims state) in
      checks
       [require (kind = GATE_EVALUATED \<and> length journal = length (request_journal previous) + 1 \<and>
            chash E (enc_journal (butlast journal)) = chash E (enc_journal (request_journal previous)))
          (IntegrityError ''Graph gate replay journal is invalid''),
        require (journal \<noteq> [] \<and> operation (last journal) = GATE \<and> status (last journal) = COMPLETED \<and>
            request_hash (last journal) = chash E input)
          (IntegrityError ''Graph gate replay request is invalid''),
        require (length priorClaims \<le> length nextClaims \<and> length nextClaims \<le> length priorClaims + 1 \<and>
            chash E (enc_claims (take (length priorClaims) nextClaims)) = chash E (enc_claims priorClaims))
          (IntegrityError ''Graph gate replay claims are invalid''),
        require (same_state E (previous\<lparr>revision := revision state, request_journal := journal,
            child_claims := (if nextClaims = [] then child_claims previous else Some nextClaims)\<rparr>) state)
          (IntegrityError ''Graph gate replay does not match event state'')])"

text \<open>
  The code hands the input of a reducer event to the reducer of its transition as it is; here an
  input that was written for another transition is refused.
\<close>

definition replay_reducer :: "host \<Rightarrow> review_state \<Rightarrow> string \<Rightarrow> replay_input \<Rightarrow> review_state \<Rightarrow> unit result" where
  "replay_reducer E previous transition input state =
     (case input of
        ReduceInput r \<Rightarrow>
          if transition_text (transition_of r) \<noteq> transition
          then Inl (IntegrityError ''Reducer input does not belong to its transition'')
          else bindr (reduceReviewState E previous r) (\<lambda>replayed.
            require (same_state E (replayed\<lparr>revision := revision state, request_journal := request_journal state\<rparr>) state)
              (IntegrityError ''Graph adjacent reducer replay does not match event state''))
      | _ \<Rightarrow> Inl (IntegrityError ''Reducer input does not belong to its transition''))"

definition replay_event :: "host \<Rightarrow> review_state option \<Rightarrow> event_body \<Rightarrow> review_state result" where
  "replay_event E previous b =
     (let state = payload_state b in
      if chash E (enc_state state) \<noteq> reduced_state_hash b
      then Inl (IntegrityError ''Graph event state reduction is invalid'')
      else (case (reducer_transition b, reducer_input b) of
        (Some transition, Some input) \<Rightarrow>
          bindr (assertState E state previous) (\<lambda>_.
          bindr (case previous of
              None \<Rightarrow> require (transition = ''start'' \<and> chash E (enc_replay_input input) = chash E (enc_state state))
                (IntegrityError ''Graph genesis reducer input is invalid'')
            | Some p \<Rightarrow>
                if transition = ''operation-prepared'' then replay_prepared E p (enc_replay_input input) state
                else if transition = ''gate'' then replay_gate E p (event_kind b) (enc_replay_input input) state
                else if transition \<in> set transition_texts then replay_reducer E p transition input state
                else Inl (IntegrityError ''Graph event reducer transition is unsupported'')) (\<lambda>_. Inr state))
      | _ \<Rightarrow> Inl (IntegrityError ''Graph event lacks canonical reducer transition/input'')))"

fun replay_events :: "host \<Rightarrow> review_state option \<Rightarrow> event_envelope list \<Rightarrow> review_state option result" where
  "replay_events E previous [] = Inr previous"
| "replay_events E previous (e # es) =
     bindr (replay_event E previous (body e)) (\<lambda>state. replay_events E (Some state) es)"

definition validateReviewGraphReplayV1 :: "host \<Rightarrow> event_envelope list \<Rightarrow> review_state result" where
  "validateReviewGraphReplayV1 E es =
     (if es = [] then Inl (IntegrityError ''Graph replay requires a genesis event'')
      else bindr (replay_events E None es) (\<lambda>s. case s of
        None \<Rightarrow> Inl (IntegrityError ''Graph replay requires a genesis event'') | Some state \<Rightarrow> Inr state))"

section \<open>Reading a lineage\<close>

definition find_lineage :: "string \<Rightarrow> root_entry list \<Rightarrow> root_entry option" where
  "find_lineage lineage es = find (\<lambda>e. entry_lineage e = lineage \<and> entry_mode e = ''graph'') es"

definition matches_descriptor :: "store_descriptor option \<Rightarrow> incarnation \<Rightarrow> bool" where
  "matches_descriptor descriptor i = (case descriptor of None \<Rightarrow> True
     | Some v \<Rightarrow> store_epoch i = Some (descriptor_epoch v) \<and> authority_incarnation i = Some (descriptor_incarnation v) \<and>
         reset_id i = Some (Some (initialized_by_reset v)))"

text \<open>Walk from the head to the genesis event; the events come back newest first.\<close>

fun walk :: "host \<Rightarrow> graph_disk \<Rightarrow> store_descriptor option \<Rightarrow> string \<Rightarrow> nat \<Rightarrow> string option \<Rightarrow> string list \<Rightarrow> (event_envelope list \<times> nat) result" where
  "walk E d v lineage expected None seen = Inr ([], expected)"
| "walk E d v lineage expected (Some i) seen =
     (if i \<in> set seen then Inl (IntegrityError ''Graph predecessor closure contains a cycle'')
      else bindr (readEvent E d i) (\<lambda>e.
        let b = body e; state = payload_state b in
        if \<not> matches_descriptor v (event_incarnation b)
        then Inl (IntegrityError ''Graph event does not match the live authority incarnation'')
        else if event_lineage b \<noteq> lineage \<or> event_sequence b \<noteq> int expected
        then Inl (IntegrityError ''Graph predecessor closure is discontinuous'')
        else if chash E (enc_state state) \<noteq> reduced_state_hash b
        then Inl (IntegrityError ''Graph event state reduction is invalid'')
        else if lineage_id state \<noteq> lineage \<or> revision state \<noteq> event_sequence b
        then Inl (IntegrityError ''Graph event does not match lineage state'')
        else (case expected of
          0 \<Rightarrow> if predecessor_event b \<noteq> None \<or> event_kind b \<noteq> LINEAGE_CREATED
               then Inl (IntegrityError ''Graph genesis is invalid'') else Inr ([e], 0)
        | Suc m \<Rightarrow> bindr (walk E d v lineage m (predecessor_event b) (i # seen)) (\<lambda>(es, k). Inr (e # es, k)))))"

definition live_descriptor :: "authority \<Rightarrow> graph_disk \<Rightarrow> store_descriptor option result" where
  "live_descriptor auth d = (if store_file d = None then Inr None
     else bindr (readStoreDescriptor auth d) (\<lambda>v. Inr (Some v)))"

definition readGraphState :: "host \<Rightarrow> authority \<Rightarrow> graph_disk \<Rightarrow> string \<Rightarrow> review_state result" where
  "readGraphState E auth d lineage =
     bindr (readCurrent E auth d) (\<lambda>root.
     bindr (live_descriptor auth d) (\<lambda>v.
     if \<not> matches_descriptor v (root_incarnation (root_body root))
     then Inl (IntegrityError ''Graph root does not match the live authority incarnation'')
     else (case find_lineage lineage (lineages (root_body root)) of
       None \<Rightarrow> Inl (IntegrityError ''Graph lineage is missing from authoritative root set'')
     | Some entry \<Rightarrow>
        if entry_sequence entry < 0
        then bindr (readEvent E d (head_event_id entry)) (\<lambda>_. Inl (IntegrityError ''Graph predecessor closure is discontinuous''))
        else bindr (walk E d v lineage (nat (entry_sequence entry)) (Some (head_event_id entry)) []) (\<lambda>(reversed, expected).
          case validateReviewGraphReplayV1 E (rev reversed) of
            Inl e \<Rightarrow> Inl (IntegrityError (''Authoritative graph semantic replay failed: '' @ exn_message e))
          | Inr headState \<Rightarrow>
              if expected \<noteq> 0 \<or> chash E (enc_state headState) \<noteq> entry_state_hash entry
              then Inl (IntegrityError ''Graph root entry does not bind a complete reduced state'')
              else Inr headState))))"

section \<open>Writing a lineage\<close>

definition incarnation_of :: "store_descriptor option \<Rightarrow> incarnation" where
  "incarnation_of descriptor = (case descriptor of None \<Rightarrow> no_incarnation
     | Some v \<Rightarrow> \<lparr>store_epoch = Some (descriptor_epoch v), authority_incarnation = Some (descriptor_incarnation v),
         reset_id = Some (Some (initialized_by_reset v))\<rparr>)"

definition kind_for :: "bool \<Rightarrow> journal_entry list \<Rightarrow> event_kind" where
  "kind_for genesis journal =
     (if genesis then LINEAGE_CREATED
      else if journal \<noteq> [] \<and> status (last journal) = PENDING then OPERATION_PREPARED
      else if journal \<noteq> [] \<and> operation (last journal) = GATE then GATE_EVALUATED
      else OPERATION_COMPLETED)"

definition next_event :: "host \<Rightarrow> store_descriptor option \<Rightarrow> string option \<Rightarrow> string \<Rightarrow> replay_input \<Rightarrow> review_state \<Rightarrow> event_body" where
  "next_event E v predecessor transition input next =
     \<lparr>event_schema = EVENT_SCHEMA, event_incarnation = incarnation_of v, event_lineage = lineage_id next,
      event_sequence = revision next, predecessor_event = predecessor,
      event_kind = kind_for (predecessor = None) (request_journal next), reducer_transition = Some transition,
      reducer_input = Some input, payload_state = next, reduced_state_hash = chash E (enc_state next)\<rparr>"

definition next_lineages :: "host \<Rightarrow> event_envelope \<Rightarrow> root_entry list \<Rightarrow> root_entry list" where
  "next_lineages E e old =
     sort_by (\<lambda>a b. locale_compare E (entry_lineage a) (entry_lineage b))
       (filter (\<lambda>x. entry_lineage x \<noteq> event_lineage (body e)) old @
        [\<lparr>entry_lineage = event_lineage (body e), entry_mode = ''graph'', head_event_id = event_id e,
          entry_sequence = event_sequence (body e), entry_state_hash = reduced_state_hash (body e)\<rparr>])"

definition next_root :: "host \<Rightarrow> authority \<Rightarrow> store_descriptor option \<Rightarrow> root_set option \<Rightarrow> event_envelope \<Rightarrow> root_body" where
  "next_root E auth v current e =
     \<lparr>root_schema = ROOT_SCHEMA, root_authority = auth, root_incarnation = incarnation_of v,
      generation = (case current of None \<Rightarrow> 0 | Some r \<Rightarrow> generation (root_body r) + 1),
      predecessor_root = map_option root_set_id current,
      lineages = next_lineages E e (case current of None \<Rightarrow> [] | Some r \<Rightarrow> lineages (root_body r))\<rparr>"

text \<open>\<open>cloneCanonical\<close>: what canonical JSON refuses is an error, and undefined properties are dropped.\<close>

definition cloneCanonical :: "json \<Rightarrow> json result" where
  "cloneCanonical v = bindr (canonicalize v) (\<lambda>_. Inr (norm v))"

definition clone_input :: "replay_input \<Rightarrow> replay_input result" where
  "clone_input i = bindr (cloneCanonical (enc_replay_input i)) (\<lambda>_. Inr (case i of
     PreparedInput t r \<Rightarrow> PreparedInput t (norm r) | GateInput r \<Rightarrow> GateInput (norm r) | _ \<Rightarrow> i))"

definition try_opt :: "'a result \<Rightarrow> 'a option" where
  "try_opt m = (case m of Inl _ \<Rightarrow> None | Inr x \<Rightarrow> Some x)"

definition writeGraphState :: "host \<Rightarrow> authority \<Rightarrow> (nat \<Rightarrow> bool) \<Rightarrow> review_state \<Rightarrow> review_state option \<Rightarrow> string \<Rightarrow> replay_input \<Rightarrow> graph_disk \<Rightarrow> unit result \<times> graph_disk" where
  "writeGraphState E auth faults next previous transition input d =
     (let current = try_opt (readCurrent E auth d);
          existing = (case current of None \<Rightarrow> None | Some r \<Rightarrow> find_lineage (lineage_id next) (lineages (root_body r)));
          v = try_opt (readStoreDescriptor auth d) in
      if previous \<noteq> None \<and> existing = None then (Inl (IntegrityError ''Graph predecessor is missing''), d)
      else if previous = None \<and> existing \<noteq> None then (Inl (IntegrityError ''Graph lineage already exists''), d)
      else (case bindr (clone_input input) (\<lambda>i.
          createReviewEventV1 E (next_event E v (map_option head_event_id existing) transition i next)) of
        Inl e \<Rightarrow> (Inl e, d)
      | Inr ev \<Rightarrow>
         (case installEvent E d ev of
            Inl e \<Rightarrow> (Inl e, d)
          | Inr d1 \<Rightarrow>
             (case installRootSet E auth d1 (next_root E auth v current ev) of
                Inl e \<Rightarrow> (Inl e, d1)
              | Inr (root, d2) \<Rightarrow> publishRootSet E auth faults d2 root))))"

section \<open>The store\<close>

text \<open>
  What a mutation finds around the disk: the authority the store was opened with and the one the
  repository has now, and whether the mutation lock could be taken and given back.
\<close>

record store_env =
  env_host :: host
  opened :: repository_authority
  live_now :: "repository_authority result"
  lock_taken :: "unit result"
  lock_released :: "unit result"
  store_faults :: "nat \<Rightarrow> bool"

definition auth_of :: "store_env \<Rightarrow> authority" where
  "auth_of S = \<lparr>repo_id = repository_id (opened S), auth_id = authority_id (opened S)\<rparr>"

definition assertCurrentRepositoryAuthority :: "store_env \<Rightarrow> unit result" where
  "assertCurrentRepositoryAuthority S = bindr (live_now S) (\<lambda>current.
     require (common_directory current = common_directory (opened S) \<and> repository_id current = repository_id (opened S) \<and>
         authority_id current = authority_id (opened S))
       (IntegrityError ''Repository authority changed before graph mutation''))"

definition withLock :: "store_env \<Rightarrow> string \<Rightarrow> (graph_disk \<Rightarrow> 'a result \<times> graph_disk) \<Rightarrow> graph_disk \<Rightarrow> 'a result \<times> graph_disk" where
  "withLock S lockId action d =
     (case bindr (assertLineageId lockId) (\<lambda>_. bindr (assertCurrentRepositoryAuthority S) (\<lambda>_. lock_taken S)) of
        Inl e \<Rightarrow> (Inl e, d)
      | Inr _ \<Rightarrow> (case action d of (res, d') \<Rightarrow>
          (case lock_released S of Inl e \<Rightarrow> (Inl e, d') | Inr _ \<Rightarrow> (res, d'))))"

definition write_result :: "store_env \<Rightarrow> review_state \<Rightarrow> review_state option \<Rightarrow> string \<Rightarrow> replay_input \<Rightarrow> 'a \<Rightarrow> graph_disk \<Rightarrow> 'a result \<times> graph_disk" where
  "write_result S next previous transition input res d =
     (case writeGraphState (env_host S) (auth_of S) (store_faults S) next previous transition input d of
        (Inl e, d') \<Rightarrow> (Inl e, d') | (Inr _, d') \<Rightarrow> (Inr res, d'))"

definition readUnlocked :: "store_env \<Rightarrow> graph_disk \<Rightarrow> string \<Rightarrow> review_state result" where
  "readUnlocked S d lineage = readGraphState (env_host S) (auth_of S) d lineage"

definition store_read :: "store_env \<Rightarrow> graph_disk \<Rightarrow> string \<Rightarrow> review_state result" where
  "store_read S d lineage = bindr (assertLineageId lineage) (\<lambda>_. readUnlocked S d lineage)"

definition repairCurrentAuthority :: "store_env \<Rightarrow> graph_disk \<Rightarrow> unit result \<times> graph_disk" where
  "repairCurrentAuthority S = withLock S ''authority-repair'' (repairCurrentPointers (env_host S) (auth_of S) (store_faults S))"

section \<open>Operations\<close>

definition start_result :: "review_state \<Rightarrow> json" where
  "start_result s = JObj [(''lineage_id'', JStr (lineage_id s)), (''phase'', JStr ''started''), (''revision'', JInt 0)]"

definition started_state :: "host \<Rightarrow> review_state \<Rightarrow> string \<Rightarrow> review_state" where
  "started_state E s key = s\<lparr>request_journal := [\<lparr>operation = OP_START, idempotency_key = key,
     request_hash = chash E (enc_state s), status = COMPLETED, authorization = None, canonical_result = Some (start_result s)\<rparr>]\<rparr>"

definition store_create :: "store_env \<Rightarrow> review_state \<Rightarrow> string \<Rightarrow> graph_disk \<Rightarrow> json result \<times> graph_disk" where
  "store_create S initial key d =
     (case bindr (assertState (env_host S) initial None) (\<lambda>_. checks
        [require (trim key \<noteq> []) (IntegrityError ''Lineage start requires an idempotency key''),
         require (revision initial = 0 \<and> request_journal initial = [] \<and> phase initial = STARTED \<and>
             terminal_state initial = None \<and> ledger initial = None)
           (IntegrityError ''A new lineage must start only through a clean started state'')]) of
        Inl e \<Rightarrow> (Inl e, d)
      | Inr _ \<Rightarrow> withLock S (lineage_id initial) (\<lambda>d.
          (let started = started_state (env_host S) initial key in
           case assertState (env_host S) started None of
             Inl e \<Rightarrow> (Inl e, d)
           | Inr _ \<Rightarrow> write_result S started None ''start'' (StartInput started) (start_result initial) d)) d)"

definition reducerOperationResult :: "review_state \<Rightarrow> int \<Rightarrow> json" where
  "reducerOperationResult s n = JObj [(''revision'', JInt n), (''phase'', JStr (phase_text (phase s))),
     (''terminal_state'', enc_opt (\<lambda>t. JStr (terminal_text t)) (terminal_state s))]"

definition find_entry :: "string \<Rightarrow> journal_entry list \<Rightarrow> journal_entry option" where
  "find_entry key journal = find (\<lambda>e. idempotency_key e = key) journal"

definition assertNoPendingOperation :: "review_state \<Rightarrow> unit result" where
  "assertNoPendingOperation s = require (\<not> list_ex (\<lambda>e. status e = PENDING) (request_journal s))
     (IntegrityError ''Unresolved pending operation blocks mutation'')"

text \<open>The result of a completed entry: \<open>cloneCanonical\<close> of undefined is a type error.\<close>

definition stored_result :: "journal_entry \<Rightarrow> json result" where
  "stored_result e = (case canonical_result e of
     None \<Rightarrow> Inl (TypeError ''Canonical JSON rejects undefined'') | Some v \<Rightarrow> cloneCanonical v)"

record completed_run =
  run_lineage :: string
  run_operation :: review_operation
  run_key :: string
  run_body :: json
  before_replay :: "graph_disk \<Rightarrow> unit result"
  run_apply :: "review_state \<Rightarrow> (review_state \<times> json) result"
  event_transition :: string
  event_input :: replay_input

text \<open>
  The shape of the three methods that journal: under the lock, read the lineage, decide on a stored
  result (Inl) or on a next state with its transition, its input and its result (Inr), and write.
\<close>

definition journaled :: "store_env \<Rightarrow> string \<Rightarrow> (graph_disk \<Rightarrow> review_state \<Rightarrow> ('r + review_state \<times> (string \<times> replay_input) \<times> 'r) result) \<Rightarrow>
    graph_disk \<Rightarrow> 'r result \<times> graph_disk" where
  "journaled S lineage decide = withLock S lineage (\<lambda>d.
     case bindr (readUnlocked S d lineage) (\<lambda>current. bindr (decide d current) (\<lambda>out. Inr (current, out))) of
       Inl e \<Rightarrow> (Inl e, d)
     | Inr (current, Inl res) \<Rightarrow> (Inr res, d)
     | Inr (current, Inr (next, (transition, input), res)) \<Rightarrow> write_result S next (Some current) transition input res d)"

definition decide_run :: "store_env \<Rightarrow> completed_run \<Rightarrow> graph_disk \<Rightarrow> review_state \<Rightarrow> (json + review_state \<times> (string \<times> replay_input) \<times> json) result" where
  "decide_run S q d current = bindr (canonicalHash (env_host S) (run_body q)) (\<lambda>requestHash.
     case find_entry (run_key q) (request_journal current) of
       Some existing \<Rightarrow>
         if operation existing \<noteq> run_operation q \<or> request_hash existing \<noteq> requestHash
         then Inl (IntegrityError ''Idempotency key was reused with a different request'')
         else if status existing = PENDING then Inl (IntegrityError ''Unresolved pending operation blocks replay'')
         else bindr (stored_result existing) (\<lambda>res. Inr (Inl res))
     | None \<Rightarrow>
         bindr (before_replay q d) (\<lambda>_. bindr (assertNoPendingOperation current) (\<lambda>_.
         bindr (run_apply q current) (\<lambda>(state, res). bindr (cloneCanonical res) (\<lambda>result.
         let next = state\<lparr>revision := revision current + 1, request_journal := request_journal current @
           [\<lparr>operation = run_operation q, idempotency_key = run_key q, request_hash = requestHash,
             status = COMPLETED, authorization = None, canonical_result = Some result\<rparr>]\<rparr> in
         bindr (assertState (env_host S) next (Some current)) (\<lambda>_.
           Inr (Inr (next, (event_transition q, event_input q), result))))))))"

definition runCompletedOperation :: "store_env \<Rightarrow> completed_run \<Rightarrow> graph_disk \<Rightarrow> json result \<times> graph_disk" where
  "runCompletedOperation S q = journaled S (run_lineage q) (decide_run S q)"

text \<open>\<open>runReducerOperation\<close>: the reduction and its transition are the request.\<close>

definition reduction_request :: "reduction \<Rightarrow> json" where
  "reduction_request r = JObj [(''transition'', JStr (transition_text (transition_of r))), (''input'', enc_reduction r)]"

definition runReducerOperation :: "store_env \<Rightarrow> string \<Rightarrow> string \<Rightarrow> reduction \<Rightarrow> graph_disk \<Rightarrow> json result \<times> graph_disk" where
  "runReducerOperation S lineage key r = runCompletedOperation S
     \<lparr>run_lineage = lineage, run_operation = operationForTransition (transition_of r), run_key = key,
      run_body = reduction_request r, before_replay = (\<lambda>_. Inr ()),
      run_apply = (\<lambda>current. bindr (reduceReviewState (env_host S) current r) (\<lambda>reduced.
        Inr (reduced, reducerOperationResult reduced (revision current + 1)))),
      event_transition = transition_text (transition_of r), event_input = ReduceInput r\<rparr>"

text \<open>An operation in two steps: the entry is journaled as pending, then completed.\<close>

record prepared_request =
  prep_lineage :: string
  prep_transition :: review_transition
  prep_key :: string
  prep_body :: json
  prep_authorization :: "json option"

definition prepared_json :: "prepared_request \<Rightarrow> json" where
  "prepared_json q = JObj [(''transition'', JStr (transition_text (prep_transition q))), (''request'', prep_body q)]"

definition clone_option :: "json option \<Rightarrow> json option result" where
  "clone_option v = (case v of None \<Rightarrow> Inr None | Some x \<Rightarrow> bindr (cloneCanonical x) (\<lambda>y. Inr (Some y)))"

definition decide_begin :: "store_env \<Rightarrow> prepared_request \<Rightarrow> graph_disk \<Rightarrow> review_state \<Rightarrow> (unit + review_state \<times> (string \<times> replay_input) \<times> unit) result" where
  "decide_begin S q d current = bindr (canonicalHash (env_host S) (prepared_json q)) (\<lambda>requestHash.
     case find_entry (prep_key q) (request_journal current) of
       Some existing \<Rightarrow>
         if operation existing \<noteq> operationForTransition (prep_transition q) \<or> request_hash existing \<noteq> requestHash
         then Inl (IntegrityError ''Idempotency key was reused with a different request'')
         else Inl (IntegrityError (if status existing = PENDING then ''Unresolved pending operation blocks replay''
             else ''Completed operation cannot be reopened''))
     | None \<Rightarrow>
         bindr (assertNoPendingOperation current) (\<lambda>_.
         bindr (clone_option (prep_authorization q)) (\<lambda>auth.
         let next = current\<lparr>revision := revision current + 1, request_journal := request_journal current @
           [\<lparr>operation = operationForTransition (prep_transition q), idempotency_key = prep_key q, request_hash = requestHash,
             status = PENDING, authorization = auth, canonical_result = None\<rparr>]\<rparr> in
         bindr (assertState (env_host S) next (Some current)) (\<lambda>_. Inr (Inr (next, (''operation-prepared'',
           PreparedInput (transition_text (prep_transition q)) (prep_body q)), ()))))))"

definition beginReducerOperation :: "store_env \<Rightarrow> prepared_request \<Rightarrow> graph_disk \<Rightarrow> unit result \<times> graph_disk" where
  "beginReducerOperation S q = journaled S (prep_lineage q) (decide_begin S q)"

fun complete_entry :: "string \<Rightarrow> json \<Rightarrow> journal_entry list \<Rightarrow> journal_entry list" where
  "complete_entry key res [] = []"
| "complete_entry key res (e # es) =
     (if idempotency_key e = key then e\<lparr>status := COMPLETED, canonical_result := Some res\<rparr> # es
      else e # complete_entry key res es)"

definition decide_complete :: "store_env \<Rightarrow> prepared_request \<Rightarrow> reduction \<Rightarrow> graph_disk \<Rightarrow> review_state \<Rightarrow> (json + review_state \<times> (string \<times> replay_input) \<times> json) result" where
  "decide_complete S q r d current = bindr (canonicalHash (env_host S) (prepared_json q)) (\<lambda>requestHash.
     case find_entry (prep_key q) (request_journal current) of
       None \<Rightarrow> Inl (IntegrityError ''Pending reducer operation was not found'')
     | Some existing \<Rightarrow>
         if operation existing \<noteq> operationForTransition (prep_transition q) \<or> request_hash existing \<noteq> requestHash
         then Inl (IntegrityError ''Idempotency key was reused with a different request'')
         else if status existing = COMPLETED then bindr (stored_result existing) (\<lambda>res. Inr (Inl res))
         else bindr (require (transition_of r = prep_transition q)
             (IntegrityError ''Reducer input does not belong to its transition'')) (\<lambda>_.
           bindr (reduceReviewState (env_host S) current r) (\<lambda>reduced.
           bindr (cloneCanonical (reducerOperationResult reduced (revision current + 1))) (\<lambda>res.
           let next = reduced\<lparr>revision := revision current + 1,
             request_journal := complete_entry (prep_key q) res (request_journal current)\<rparr> in
           bindr (assertState (env_host S) next (Some current)) (\<lambda>_.
             Inr (Inr (next, (transition_text (prep_transition q), ReduceInput r), res)))))))"

definition completeReducerOperation :: "store_env \<Rightarrow> prepared_request \<Rightarrow> reduction \<Rightarrow> graph_disk \<Rightarrow> json result \<times> graph_disk" where
  "completeReducerOperation S q r = journaled S (prep_lineage q) (decide_complete S q r)"

section \<open>Gates\<close>

record gate_options =
  gate_receipt :: receipt
  gate_target :: json
  gate_cwd :: string
  gate_key :: string
  scopeBudget :: review_counters
  actualTree :: "string option"

definition createScopeChildClaim :: "host \<Rightarrow> string \<Rightarrow> string \<Rightarrow> review_counters \<Rightarrow> child_claim result" where
  "createScopeChildClaim E parent tree b = bindr (checks [assertLineageId parent, assertObjectId tree ''scope target tree'', assertBudget b])
     (\<lambda>_. Inr \<lparr>claim_parent = parent, claim_tree = tree, claim_lineage = chash E (enc_claim_identity parent tree), claim_budget = b\<rparr>)"

definition gate_request :: "gate_options \<Rightarrow> string \<Rightarrow> string \<Rightarrow> json" where
  "gate_request q targetHash root = JObj [(''receipt_hash'', JStr (receipt_hash (gate_receipt q))), (''target_hash'', JStr targetHash),
     (''repository_root'', JStr root), (''actual_intended_commit_tree'', enc_null (actualTree q))]"

definition apply_gate :: "world \<Rightarrow> gate_options \<Rightarrow> string \<Rightarrow> string \<Rightarrow> review_state \<Rightarrow> (review_state \<times> gate_result) result" where
  "apply_gate W q targetHash root s =
     (let E = host_of W; r = gate_receipt q in
      bindr (assertReceiptIntegrity E r) (\<lambda>_.
      bindr (assertReceiptMatchesState E r s) (\<lambda>_.
      let evaluated = evaluateGateTarget W r (gate_target q) root (actualTree q) in
      if gate_status evaluated \<noteq> SCOPE_CHANGED then Inr (s, evaluated)
      else (case targetTree (inspectGateTarget W (gate_target q) r root (actualTree q)) of
          None \<Rightarrow> Inr (s, deniedGateResult (receipt_hash r) targetHash ''Changed scope does not resolve to one target tree.'')
        | Some tree \<Rightarrow>
            if tree = [] then Inr (s, deniedGateResult (receipt_hash r) targetHash ''Changed scope does not resolve to one target tree.'')
            else (case find (\<lambda>c. claim_tree c = tree) (or_empty (child_claims s)) of
              Some claim \<Rightarrow> Inr (s, evaluated\<lparr>gate_claim := Some claim\<rparr>)
            | None \<Rightarrow> bindr (createScopeChildClaim E (lineage_id s) tree (scopeBudget q)) (\<lambda>claim.
                Inr (s\<lparr>child_claims := Some (or_empty (child_claims s) @ [claim])\<rparr>, evaluated\<lparr>gate_claim := Some claim\<rparr>)))))))"

definition validateGate :: "world \<Rightarrow> store_env \<Rightarrow> gate_options \<Rightarrow> (graph_disk \<Rightarrow> unit result) \<Rightarrow> graph_disk \<Rightarrow> json result \<times> graph_disk" where
  "validateGate W S q beforeReplay d =
     (case bindr (canonicalHash (host_of W) (gate_target q)) (\<lambda>h.
        bindr (repositoryRootForGate W (gate_cwd q)) (\<lambda>root. Inr (h, root))) of
        Inl e \<Rightarrow> (Inl e, d)
      | Inr (h, root) \<Rightarrow> runCompletedOperation S
          \<lparr>run_lineage = receipt_lineage (receipt_body (gate_receipt q)), run_operation = GATE, run_key = gate_key q,
           run_body = gate_request q h root, before_replay = beforeReplay,
           run_apply = (\<lambda>s. bindr (apply_gate W q h root s) (\<lambda>(s', g). Inr (s', enc_gate_result g))),
           event_transition = ''gate'', event_input = GateInput (gate_request q h root)\<rparr> d)"

text \<open>A receipt that the store minted: the code marks it with a symbol no caller can name.\<close>

record authoritative_receipt =
  envelope :: receipt
  minted_repository :: string
  minted_authority :: string
  minted_directory :: string
  minted_root :: string
  minted_head :: string
  minted_epoch :: "string option"
  minted_incarnation :: "string option"
  authority_receipt_hash :: string

definition enc_authority_receipt :: "authoritative_receipt \<Rightarrow> json" where
  "enc_authority_receipt a = JObj [(''receipt_hash'', JStr (receipt_hash (envelope a))),
     (''repository_id'', JStr (minted_repository a)), (''authority_id'', JStr (minted_authority a)),
     (''common_directory'', JStr (minted_directory a)), (''root_set_id'', JStr (minted_root a)),
     (''head_event_id'', JStr (minted_head a)), (''store_epoch'', enc_opt JStr (minted_epoch a)),
     (''authority_incarnation_id'', enc_opt JStr (minted_incarnation a))]"

definition createAuthoritativeReceipt :: "store_env \<Rightarrow> graph_disk \<Rightarrow> string \<Rightarrow> authoritative_receipt result" where
  "createAuthoritativeReceipt S d lineage =
     (let E = env_host S; auth = auth_of S in
      bindr (store_read S d lineage) (\<lambda>s.
      bindr (createReceiptForState E s) (\<lambda>r.
      bindr (readCurrent E auth d) (\<lambda>root.
      case find_lineage lineage (lineages (root_body root)) of
        None \<Rightarrow> Inl (IntegrityError ''Authoritative graph head is missing'')
      | Some entry \<Rightarrow>
          let v = try_opt (readStoreDescriptor auth d);
              a = \<lparr>envelope = r, minted_repository = repo_id auth, minted_authority = auth_id auth,
                   minted_directory = common_directory (opened S), minted_root = root_set_id root,
                   minted_head = head_event_id entry, minted_epoch = map_option descriptor_epoch v,
                   minted_incarnation = map_option descriptor_incarnation v, authority_receipt_hash = []\<rparr>
          in Inr (a\<lparr>authority_receipt_hash := chash E (enc_authority_receipt a)\<rparr>)))))"

definition bound_receipt :: "store_env \<Rightarrow> authoritative_receipt \<Rightarrow> graph_disk \<Rightarrow> unit result" where
  "bound_receipt S a d =
     (let v = try_opt (readStoreDescriptor (auth_of S) d) in
      bindr (require ((minted_epoch a = None \<and> minted_incarnation a = None) \<or>
          (case v of None \<Rightarrow> False | Some w \<Rightarrow> minted_epoch a = Some (descriptor_epoch w) \<and>
             minted_incarnation a = Some (descriptor_incarnation w)))
        (IntegrityError ''REVIEW_RECEIPT_EPOCH_MISMATCH'')) (\<lambda>_.
      bindr (readCurrent (env_host S) (auth_of S) d) (\<lambda>root.
      require (case find_lineage (receipt_lineage (receipt_body (envelope a))) (lineages (root_body root)) of None \<Rightarrow> False
          | Some entry \<Rightarrow> root_set_id root = minted_root a \<and> head_event_id entry = minted_head a)
        (IntegrityError ''Authoritative receipt is stale or unbound from the current graph head''))))"

text \<open>\<open>gate_authority\<close> is what \<open>resolveRepositoryAuthorityV1\<close> answers for the directory of the gate.\<close>

definition validateAuthoritativeGate :: "world \<Rightarrow> store_env \<Rightarrow> repository_authority result \<Rightarrow> authoritative_receipt \<Rightarrow> gate_options \<Rightarrow> graph_disk \<Rightarrow> json result \<times> graph_disk" where
  "validateAuthoritativeGate W S gate_authority a q d =
     (case gate_authority of
        Inl e \<Rightarrow> (Inl e, d)
      | Inr g \<Rightarrow>
          if common_directory g \<noteq> common_directory (opened S) \<or> repository_id g \<noteq> minted_repository a \<or> authority_id g \<noteq> minted_authority a
          then (Inl (IntegrityError ''Gate repository authority does not match receipt authority''), d)
          else validateGate W S (q\<lparr>gate_receipt := envelope a\<rparr>) (bound_receipt S a) d)"

end
