(* ===== verification/StoreChains.thy ===== *)
theory StoreChains
  imports TransactionStore ObjectClaims
begin

text \<open>
  Chains of events under growing disks: what a successful read of a lineage found, and why a later
  event or another lineage's event does not change it. Everything here holds for any host.
\<close>

section \<open>Searching and sorting\<close>

lemma find_filter: "find P xs = (case filter P xs of [] \<Rightarrow> None | x # _ \<Rightarrow> Some x)"
  by (induction xs) auto

lemma filter_insert_by:
  assumes "\<And>y. P x \<Longrightarrow> P y \<Longrightarrow> c x y \<le> 0"
  shows "filter P (insert_by c x ys) = filter P (x # ys)"
  using assms by (induction ys) auto

text \<open>A stable sort leaves the order of elements alone that it does not tell apart.\<close>

lemma filter_sort_by:
  assumes "\<And>x y. P x \<Longrightarrow> P y \<Longrightarrow> c x y \<le> 0"
  shows "filter P (sort_by c xs) = filter P xs"
  using assms unfolding sort_by_def by (induction xs) (simp_all add: filter_insert_by)

lemma find_lineage_sorted:
  assumes "locale_compare E l l \<le> 0"
  shows "find_lineage l (sort_by (\<lambda>a b. locale_compare E (entry_lineage a) (entry_lineage b)) es) = find_lineage l es"
  using assms unfolding find_lineage_def find_filter by (subst filter_sort_by) auto

lemma find_lineage_append:
  "find_lineage l (xs @ ys) = (case find_lineage l xs of None \<Rightarrow> find_lineage l ys | Some e \<Rightarrow> Some e)"
  unfolding find_lineage_def by (induction xs) auto

lemma find_lineage_filter:
  "find_lineage l (filter (\<lambda>x. entry_lineage x \<noteq> l') es) = (if l = l' then None else find_lineage l es)"
  unfolding find_lineage_def by (induction es) auto

definition head_entry :: "event_envelope \<Rightarrow> root_entry" where
  "head_entry e = \<lparr>entry_lineage = event_lineage (body e), entry_mode = ''graph'', head_event_id = event_id e,
     entry_sequence = event_sequence (body e), entry_state_hash = reduced_state_hash (body e)\<rparr>"

lemma find_next_lineages:
  assumes "collation E"
  shows "find_lineage l (next_lineages E e old) = (if l = event_lineage (body e) then Some (head_entry e) else find_lineage l old)"
proof -
  have "locale_compare E l l \<le> 0" using assms by (simp add: collation_def)
  then show ?thesis
    unfolding next_lineages_def find_lineage_sorted[OF \<open>locale_compare E l l \<le> 0\<close>] find_lineage_append find_lineage_filter
    by (auto simp: find_lineage_def head_entry_def split: option.splits)
qed

section \<open>Returning\<close>

lemma sum_stop: "((case m of Inl e \<Rightarrow> Inl (f e) | Inr x \<Rightarrow> g x) = Inr y) = (\<exists>x. m = Inr x \<and> g x = Inr y)"
  by (cases m) simp_all

lemma option_throw: "((case m of None \<Rightarrow> Inl e | Some x \<Rightarrow> g x) = Inr y) = (\<exists>x. m = Some x \<and> g x = Inr y)"
  by (cases m) simp_all

lemma if_dead: "((if b then bindr m (\<lambda>_. Inl e) else n) = Inr y) = (\<not> b \<and> n = Inr y)"
  by (cases m) simp_all

section \<open>Chains\<close>

lemma readEvent_iff:
  "readEvent E d i = Inr e \<longleftrightarrow> map_of (event_files d) i = Some (Some e) \<and> fits (enc_event_envelope e) \<and>
     validateReviewEventV1 E e = Inr e \<and> event_id e = i"
  unfolding readEvent_def option_throw
  by (auto simp: sum_stop if_Inl_eq_Inr validate_event_iff split: option.splits)

text \<open>\<open>d'\<close> answers every read of an event of the lineage the way \<open>d\<close> does.\<close>

definition keeps_events :: "host \<Rightarrow> string \<Rightarrow> graph_disk \<Rightarrow> graph_disk \<Rightarrow> bool" where
  "keeps_events E l d d' \<longleftrightarrow> (\<forall>i e. readEvent E d i = Inr e \<longrightarrow> event_lineage (body e) = l \<longrightarrow> readEvent E d' i = Inr e)"

lemma keeps_events_refl [simp]: "keeps_events E l d d"
  by (simp add: keeps_events_def)

text \<open>One step of the walk, as an equivalence: the only early return is the genesis event.\<close>

lemma walk_step:
  "walk E d v l n (Some i) seen = Inr (es, k) \<longleftrightarrow>
     i \<notin> set seen \<and> (\<exists>e rest. readEvent E d i = Inr e \<and> es = e # rest \<and> matches_descriptor v (event_incarnation (body e)) \<and>
       event_lineage (body e) = l \<and> event_sequence (body e) = int n \<and>
       chash E (enc_state (payload_state (body e))) = reduced_state_hash (body e) \<and>
       lineage_id (payload_state (body e)) = l \<and> revision (payload_state (body e)) = int n \<and>
       (case n of 0 \<Rightarrow> predecessor_event (body e) = None \<and> event_kind (body e) = LINEAGE_CREATED \<and> rest = [] \<and> k = 0
        | Suc m \<Rightarrow> walk E d v l m (predecessor_event (body e)) (i # seen) = Inr (rest, k)))"
  by (cases "readEvent E d i"; cases n) (auto simp: Let_def result_simps split: sum.splits prod.splits)

lemma walk_transfer:
  assumes "walk E d v l n p seen = Inr (es, k)" "keeps_events E l d d'"
    "set seen' \<subseteq> set seen \<union> X" "\<forall>e \<in> set es. event_id e \<notin> X"
  shows "walk E d' v l n p seen' = Inr (es, k)"
  using assms(1,3,4)
proof (induction n arbitrary: p seen seen' es)
  case 0
  then show ?case
  proof (cases p)
    case (Some i)
    with 0 assms(2) show ?thesis unfolding Some walk_step by (auto simp: keeps_events_def readEvent_iff)
  qed simp
next
  case (Suc n)
  show ?case
  proof (cases p)
    case None
    with Suc.prems show ?thesis by simp
  next
    case (Some i)
    obtain e rest where e: "es = e # rest" "readEvent E d i = Inr e" "event_lineage (body e) = l" "i \<notin> set seen"
      and r: "walk E d v l n (predecessor_event (body e)) (i # seen) = Inr (rest, k)"
      and w: "walk E d v l (Suc n) (Some i) seen = Inr (es, k)"
      using Suc.prems(1) unfolding Some walk_step by auto
    have "event_id e = i" using e(2) by (simp add: readEvent_iff)
    then have "i \<notin> set seen'" using Suc.prems(2,3) e by auto
    moreover have "walk E d' v l n (predecessor_event (body e)) (i # seen') = Inr (rest, k)"
      using Suc.prems(2,3) e(1) by (intro Suc.IH[OF r]) auto
    moreover have "readEvent E d' i = Inr e" using assms(2) e(2,3) by (simp add: keeps_events_def)
    ultimately show ?thesis using w e(1,2) unfolding Some walk_step by auto
  qed
qed

lemma walk_events:
  "walk E d v l n p seen = Inr (es, k) \<Longrightarrow> e \<in> set es \<Longrightarrow>
     readEvent E d (event_id e) = Inr e \<and> event_sequence (body e) \<le> int n \<and> event_lineage (body e) = l"
proof (induction n arbitrary: p seen es)
  case 0
  then show ?case by (cases p) (auto simp: walk_step readEvent_iff simp del: walk.simps(2))
next
  case (Suc n)
  show ?case
  proof (cases p)
    case (Some i)
    with Suc show ?thesis by (fastforce simp: walk_step readEvent_iff simp del: walk.simps(2))
  qed (use Suc in auto)
qed

section \<open>Replay\<close>

lemma replay_event_state: "replay_event E p b = Inr s \<Longrightarrow> s = payload_state b"
  by (auto simp: replay_event_def Let_def result_simps split: option.splits if_splits)

lemma replay_events_append:
  "replay_events E p (xs @ ys) = bindr (replay_events E p xs) (\<lambda>q. replay_events E q ys)"
proof (induction xs arbitrary: p)
  case (Cons x xs)
  then show ?case by (cases "replay_event E p (body x)") simp_all
qed simp

lemma replay_snoc:
  assumes "validateReviewGraphReplayV1 E es = Inr p" "replay_event E (Some p) (body e) = Inr s"
  shows "validateReviewGraphReplayV1 E (es @ [e]) = Inr s"
  using assms by (auto simp: validateReviewGraphReplayV1_def replay_events_append result_simps split: option.splits if_splits)

lemma replay_last:
  assumes "validateReviewGraphReplayV1 E (es @ [e]) = Inr s"
  shows "s = payload_state (body e)"
  using assms replay_event_state
  by (auto simp: validateReviewGraphReplayV1_def replay_events_append result_simps split: option.splits)

section \<open>Reading\<close>

lemma readGraphState_iff:
  "readGraphState E auth d l = Inr s \<longleftrightarrow>
     (\<exists>root v entry es. readCurrent E auth d = Inr root \<and> live_descriptor auth d = Inr v \<and>
        matches_descriptor v (root_incarnation (root_body root)) \<and>
        find_lineage l (lineages (root_body root)) = Some entry \<and> 0 \<le> entry_sequence entry \<and>
        walk E d v l (nat (entry_sequence entry)) (Some (head_event_id entry)) [] = Inr (es, 0) \<and>
        validateReviewGraphReplayV1 E (rev es) = Inr s \<and> chash E (enc_state s) = entry_state_hash entry)"
  unfolding readGraphState_def bindr_eq_Inr if_Inl_eq_Inr option_throw if_dead split_paired_Ex prod.case sum_stop
  by (auto simp: not_less simp del: walk.simps)

lemma readGraphState_head:
  assumes "walk E d v l n (Some i) [] = Inr (es, k)" "validateReviewGraphReplayV1 E (rev es) = Inr s"
  shows "revision s = int n \<and> lineage_id s = l"
proof -
  obtain e rest where e: "es = e # rest" "lineage_id (payload_state (body e)) = l" "revision (payload_state (body e)) = int n"
    using assms(1) unfolding walk_step by auto
  then have "s = payload_state (body e)" using assms(2) replay_last by simp
  with e show ?thesis by simp
qed

lemma readGraphState_names: "readGraphState E auth d l = Inr s \<Longrightarrow> lineage_id s = l \<and> 0 \<le> revision s"
  unfolding readGraphState_iff using readGraphState_head by fastforce

section \<open>Growing disks\<close>

text \<open>
  \<open>d'\<close> has everything that \<open>d\<close> has, the same descriptor, and no new event of any lineage but \<open>l\<close>.
\<close>

lemma keeps_events_trans: "keeps_events E k a b \<Longrightarrow> keeps_events E k b c \<Longrightarrow> keeps_events E k a c"
  by (simp add: keeps_events_def)

definition grows :: "host \<Rightarrow> string \<Rightarrow> graph_disk \<Rightarrow> graph_disk \<Rightarrow> bool" where
  "grows E l d d' \<longleftrightarrow> (\<forall>k. keeps_events E k d d') \<and> (\<forall>k. k \<noteq> l \<longrightarrow> keeps_events E k d' d) \<and>
     (\<forall>i r. readRootSet E d i = Inr r \<longrightarrow> readRootSet E d' i = Inr r) \<and> store_file d' = store_file d"

lemma grows_refl [simp]: "grows E l d d"
  by (simp add: grows_def)

lemma grows_trans:
  assumes "grows E l a b" "grows E l b c"
  shows "grows E l a c"
proof -
  note A = assms[unfolded grows_def]
  have "keeps_events E k a c" for k using A keeps_events_trans[of E k a b c] by simp
  moreover have "keeps_events E k c a" if "k \<noteq> l" for k using A that keeps_events_trans[of E k c b a] by simp
  ultimately show ?thesis using A by (simp add: grows_def)
qed

lemma same_objects_grows:
  assumes "same_objects d d'"
  shows "grows E l d d'"
proof -
  have "store_file d' = store_file d" using assms by (simp add: same_objects_def)
  then show ?thesis by (simp add: grows_def keeps_events_def same_objects_reads(1,2)[OF assms])
qed

lemma installEvent_iff:
  "installEvent E d e = Inr d' \<longleftrightarrow> validateReviewEventV1 E e = Inr e \<and> fits (enc_event_envelope e) \<and>
     (\<exists>files. install_immutable (event_id e) e (event_files d) = Inr files \<and> d' = d\<lparr>event_files := files\<rparr>)"
  by (auto simp: installEvent_def result_simps validate_event_iff)

lemma installEvent_reads:
  assumes "installEvent E d e = Inr d'"
  shows "readEvent E d' (event_id e) = Inr e" "grows E (event_lineage (body e)) d d'"
    "\<And>k. target E auth d' k = target E auth d k" "root_files d' = root_files d"
proof -
  obtain files where f: "install_immutable (event_id e) e (event_files d) = Inr files" "d' = d\<lparr>event_files := files\<rparr>"
    and e: "validateReviewEventV1 E e = Inr e" "fits (enc_event_envelope e)"
    using assms by (auto simp: installEvent_iff)
  show here: "readEvent E d' (event_id e) = Inr e"
    using install_immutable_reads(1)[OF f(1)] f(2) e by (simp add: readEvent_iff)
  have "readEvent E d' i = Inr x \<longleftrightarrow> readEvent E d i = Inr x" if "event_lineage (body x) \<noteq> event_lineage (body e)" for i x
  proof -
    have "x \<noteq> e" using that by blast
    then show ?thesis using f[unfolded install_immutable_iff] by (elim disjE conjE) (simp_all add: readEvent_iff)
  qed
  moreover have "readEvent E d i = Inr x \<Longrightarrow> readEvent E d' i = Inr x" for i x
    using install_immutable_reads(2)[OF f(1)] f(2) by (auto simp: readEvent_iff)
  moreover have "readRootSet E d' i = readRootSet E d i" for i using f(2) by (simp add: readRootSet_def)
  ultimately show "grows E (event_lineage (body e)) d d'" using f(2) by (auto simp: grows_def keeps_events_def)
  show "target E auth d' k = target E auth d k" for k using f(2) by (simp add: target_objects)
  show "root_files d' = root_files d" using f(2) by simp
qed

lemma installRootSet_grows:
  assumes "installRootSet E auth d b = Inr (r, d')"
  shows "grows E l d d'" "root_body r = b" "\<And>k. target E auth d' k = target E auth d k"
proof -
  obtain files where f: "d' = d\<lparr>root_files := files\<rparr>" "root_body r = b" using assms by (auto simp: installRootSet_iff)
  then show "root_body r = b" "target E auth d' k = target E auth d k" for k by (simp_all add: target_objects)
  have "readEvent E d' i = readEvent E d i" for i using f(1) by (simp add: readEvent_def)
  then show "grows E l d d'" using f(1) installRootSet_keeps[OF assms] by (simp add: grows_def keeps_events_def)
qed

lemma healthy_grows:
  assumes "healthy E auth d r" "grows E l d d'" "\<And>k. target E auth d' k = target E auth d k"
  shows "healthy E auth d' r"
  using assms by (simp add: healthy_def grows_def)

section \<open>What the store shows\<close>

text \<open>The abstract store: the state of every lineage that can be read.\<close>

definition view :: "host \<Rightarrow> authority \<Rightarrow> graph_disk \<Rightarrow> string \<Rightarrow> review_state option" where
  "view E auth d l = try_opt (readGraphState E auth d l)"

lemma try_opt_Some [simp]: "try_opt m = Some x \<longleftrightarrow> m = Inr x"
  by (auto simp: try_opt_def split: sum.splits)

lemma view_Some: "view E auth d l = Some s \<longleftrightarrow> readGraphState E auth d l = Inr s"
  by (simp add: view_def)

lemma live_descriptor_grows: "grows E l d d' \<Longrightarrow> live_descriptor auth d' = live_descriptor auth d"
  by (simp add: grows_def live_descriptor_def readStoreDescriptor_def)

lemma live_descriptor_try: "live_descriptor auth d = Inr v \<Longrightarrow> try_opt (readStoreDescriptor auth d) = v"
  by (auto simp: live_descriptor_def result_simps readStoreDescriptor_def try_opt_def split: if_splits)

lemma read_transfer:
  assumes "readGraphState E auth d k = Inr s" "keeps_events E k d d'" "readCurrent E auth d = Inr root" "readCurrent E auth d' = Inr root'"
    "live_descriptor auth d' = live_descriptor auth d" "live_descriptor auth d = Inr v"
    "matches_descriptor v (root_incarnation (root_body root'))"
    "find_lineage k (lineages (root_body root')) = find_lineage k (lineages (root_body root))"
  shows "readGraphState E auth d' k = Inr s"
proof -
  obtain entry es where w: "find_lineage k (lineages (root_body root)) = Some entry" "0 \<le> entry_sequence entry"
    "walk E d v k (nat (entry_sequence entry)) (Some (head_event_id entry)) [] = Inr (es, 0)"
    "validateReviewGraphReplayV1 E (rev es) = Inr s" "chash E (enc_state s) = entry_state_hash entry"
    using assms(1,3,6) unfolding readGraphState_iff by auto
  then have "walk E d' v k (nat (entry_sequence entry)) (Some (head_event_id entry)) [] = Inr (es, 0)"
    using walk_transfer[OF w(3) assms(2), of "[]" "{}"] by simp
  with w assms show ?thesis unfolding readGraphState_iff by auto
qed

text \<open>The lineages that an event is not about look the same under the old root and under the next one.\<close>

lemma view_elsewhere:
  assumes "grows E l d d'" "k \<noteq> l" "readCurrent E auth d = Inr root" "readCurrent E auth d' = Inr root'"
    "live_descriptor auth d = Inr v" "matches_descriptor v (root_incarnation (root_body root))"
    "matches_descriptor v (root_incarnation (root_body root'))"
    "find_lineage k (lineages (root_body root')) = find_lineage k (lineages (root_body root))"
  shows "view E auth d' k = view E auth d k"
proof -
  have k: "keeps_events E k d d'" "keeps_events E k d' d" using assms(1,2) by (simp_all add: grows_def)
  note live = live_descriptor_grows[OF assms(1), of auth]
  have live': "live_descriptor auth d' = Inr v" using live assms(5) by simp
  have "view E auth d' k = Some s \<longleftrightarrow> view E auth d k = Some s" for s
    unfolding view_Some
    using read_transfer[OF _ k(1) assms(3,4) live assms(5,7,8)]
      read_transfer[OF _ k(2) assms(4,3) live[symmetric] live' assms(6) assms(8)[symmetric]] by (rule iffI[rotated])
  then show ?thesis by (metis option.exhaust)
qed

lemma view_same_root:
  assumes "grows E l d d'" "readGraphState E auth d l = Inr p" "readCurrent E auth d = Inr root" "readCurrent E auth d' = Inr root"
  shows "view E auth d' = view E auth d"
proof
  fix k
  obtain v where v: "live_descriptor auth d = Inr v" "matches_descriptor v (root_incarnation (root_body root))"
    using assms(2,3) unfolding readGraphState_iff by auto
  show "view E auth d' k = view E auth d k"
  proof (cases "k = l")
    case True
    have "readGraphState E auth d' l = Inr p"
      using assms(1) read_transfer[OF assms(2) _ assms(3,4) live_descriptor_grows[OF assms(1)] v refl] by (simp add: grows_def)
    with True assms(2) show ?thesis by (simp add: view_def)
  qed (use view_elsewhere[OF assms(1) _ assms(3,4) v v(2) refl] in simp)
qed

section \<open>Writing\<close>

text \<open>What the replay will accept as the successor of a state.\<close>

definition follows :: "host \<Rightarrow> review_state \<Rightarrow> review_state \<Rightarrow> string \<Rightarrow> replay_input \<Rightarrow> bool" where
  "follows E p n t i \<longleftrightarrow> lineage_id n = lineage_id p \<and> revision n = revision p + 1 \<and>
     (\<forall>v pred i'. clone_input i = Inr i' \<longrightarrow> replay_event E (Some p) (next_event E v (Some pred) t i' n) = Inr n)"

lemma next_event_simps [simp]:
  "event_lineage (next_event E v pred t i n) = lineage_id n" "event_sequence (next_event E v pred t i n) = revision n"
  "predecessor_event (next_event E v pred t i n) = pred" "payload_state (next_event E v pred t i n) = n"
  "reduced_state_hash (next_event E v pred t i n) = chash E (enc_state n)"
  "event_incarnation (next_event E v pred t i n) = incarnation_of v"
  "event_kind (next_event E v pred t i n) = kind_for (pred = None) (request_journal n)"
  "reducer_transition (next_event E v pred t i n) = Some t" "reducer_input (next_event E v pred t i n) = Some i"
  "(next_event E v pred t i n)\<lparr>event_schema := EVENT_SCHEMA\<rparr> = next_event E v pred t i n"
  by (simp_all add: next_event_def)

lemma next_root_simps [simp]:
  "root_incarnation (next_root E auth v cur e) = incarnation_of v"
  "lineages (next_root E auth v (Some r) e) = next_lineages E e (lineages (root_body r))"
  "lineages (next_root E auth v None e) = next_lineages E e []"
  by (simp_all add: next_root_def)

lemma matches_incarnation_of [simp]: "matches_descriptor v (incarnation_of v)"
  by (simp add: matches_descriptor_def incarnation_of_def split: option.split)

text \<open>A write that got to the publication: the event and the root are on the disk.\<close>

definition prepared :: "host \<Rightarrow> authority \<Rightarrow> graph_disk \<Rightarrow> event_body \<Rightarrow> root_set option \<Rightarrow> store_descriptor option \<Rightarrow> event_envelope \<Rightarrow> root_set \<Rightarrow> graph_disk \<Rightarrow> bool" where
  "prepared E auth d b current v ev root d2 \<longleftrightarrow> createReviewEventV1 E b = Inr ev \<and> body ev = b \<and>
     grows E (event_lineage b) d d2 \<and> readEvent E d2 (event_id ev) = Inr ev \<and>
     root_body root = next_root E auth v current ev \<and> (\<forall>k. target E auth d2 k = target E auth d k)"

lemma write_runs:
  assumes "writeGraphState E auth faults n p t i d = (res, d')"
    and "existing = (case try_opt (readCurrent E auth d) of None \<Rightarrow> None | Some r \<Rightarrow> find_lineage (lineage_id n) (lineages (root_body r)))"
    and "v = try_opt (readStoreDescriptor auth d)"
  shows "(res \<noteq> Inr () \<and> grows E (lineage_id n) d d' \<and> (\<forall>k. target E auth d' k = target E auth d k)) \<or>
    (\<exists>ev root d2 i'. clone_input i = Inr i' \<and> (p = None \<longleftrightarrow> existing = None) \<and>
       prepared E auth d (next_event E v (map_option head_event_id existing) t i' n) (try_opt (readCurrent E auth d)) v ev root d2 \<and>
       publishRootSet E auth faults d2 root = (res, d'))"
proof -
  let ?b = "\<lambda>i'. next_event E v (map_option head_event_id existing) t i' n"
  let ?create = "bindr (clone_input i) (\<lambda>i'. createReviewEventV1 E (?b i'))"
  note W = assms(1)[unfolded writeGraphState_def Let_def assms(2,3)[symmetric]]
  show ?thesis
  proof (cases "(p = None) = (existing = None)")
    case False
    with W show ?thesis by (auto split: if_splits)
  next
    case same: True
    show ?thesis
    proof (cases ?create)
      case (Inl e)
      with W same show ?thesis by auto
    next
      case (Inr ev)
      then obtain i' where i: "clone_input i = Inr i'" "createReviewEventV1 E (?b i') = Inr ev" by (auto simp: result_simps)
      then have ev: "body ev = ?b i'" by (auto simp: create_event_iff)
      show ?thesis
      proof (cases "installEvent E d ev")
        case (Inl e)
        with W same Inr show ?thesis by auto
      next
        case d1: (Inr d1)
        note I = installEvent_reads[OF d1, unfolded ev next_event_simps]
        show ?thesis
        proof (cases "installRootSet E auth d1 (next_root E auth v (try_opt (readCurrent E auth d)) ev)")
          case (Inl e)
          with W same Inr d1 I show ?thesis by auto
        next
          case out: (Inr out)
          obtain root d2 where o: "out = (root, d2)" by fastforce
          note R = installRootSet_grows[OF out[unfolded o]]
          have "grows E (lineage_id n) d d2" using grows_trans I(2) R(1) by blast
          moreover have "readEvent E d2 (event_id ev) = Inr ev"
            using I(1) R(1)[of "lineage_id n"] by (simp add: grows_def keeps_events_def)
          ultimately have "prepared E auth d (?b i') (try_opt (readCurrent E auth d)) v ev root d2"
            using ev R(2,3) I(3) i(2) by (simp add: prepared_def)
          moreover have "publishRootSet E auth faults d2 root = (res, d')" using W same Inr d1 out o by auto
          ultimately show ?thesis using i(1) same by blast
        qed
      qed
    qed
  qed
qed

lemma chain_extends:
  assumes "walk E d v l m (Some h) [] = Inr (es, 0)" "grows E l d d'" "readEvent E d' (event_id ev) = Inr ev"
    "body ev = next_event E v (Some h) t i n" "lineage_id n = l" "revision n = int m + 1"
  shows "walk E d' v l (Suc m) (Some (event_id ev)) [] = Inr (ev # es, 0)"
proof -
  have keep: "keeps_events E l d d'" using assms(2) by (simp add: grows_def)
  have "event_id e \<noteq> event_id ev" if "e \<in> set es" for e
  proof
    assume same: "event_id e = event_id ev"
    note e = walk_events[OF assms(1) that]
    then have "readEvent E d' (event_id e) = Inr e" using keep by (simp add: keeps_events_def)
    then have "e = ev" using same assms(3) by simp
    then show False using e assms(4,6) by simp
  qed
  then have "walk E d' v l m (Some h) [event_id ev] = Inr (es, 0)"
    by (intro walk_transfer[OF assms(1) keep, of _ "{event_id ev}"]) auto
  then show ?thesis using assms(3-6) by (subst walk_step) (simp del: walk.simps)
qed

lemma written_view:
  assumes "collation E" "readGraphState E auth d l = Inr p" "readCurrent E auth d = Inr root0" "v = try_opt (readStoreDescriptor auth d)"
    "find_lineage l (lineages (root_body root0)) = Some entry" "follows E p n t i" "clone_input i = Inr i'"
    "prepared E auth d (next_event E v (Some (head_event_id entry)) t i' n) (Some root0) v ev root d2"
    "grows E l d2 d'" "readCurrent E auth d' = Inr root"
  shows "view E auth d' = (view E auth d)(l := Some n)"
proof -
  obtain es where live: "live_descriptor auth d = Inr v" "matches_descriptor v (root_incarnation (root_body root0))"
    and w: "0 \<le> entry_sequence entry" "walk E d v l (nat (entry_sequence entry)) (Some (head_event_id entry)) [] = Inr (es, 0)"
      "validateReviewGraphReplayV1 E (rev es) = Inr p"
    using assms(2,3,5) live_descriptor_try[of auth d] unfolding readGraphState_iff assms(4) by fastforce
  note p = readGraphState_head[OF w(2,3)]
  note P = assms(8)[unfolded prepared_def]
  have ev: "body ev = next_event E v (Some (head_event_id entry)) t i' n" and n: "lineage_id n = l" "revision n = int (nat (entry_sequence entry)) + 1"
    using P assms(6) p by (simp_all add: follows_def)
  have g: "grows E l d d'" using P n(1) grows_trans[OF _ assms(9)] by simp
  have here: "readEvent E d' (event_id ev) = Inr ev" using P assms(9) by (simp add: grows_def keeps_events_def)
  have R: "root_body root = next_root E auth v (Some root0) ev" using P by simp
  have live': "live_descriptor auth d' = Inr v" using live_descriptor_grows[OF g] live(1) by simp
  have find: "find_lineage k (lineages (root_body root)) = (if k = l then Some (head_entry ev) else find_lineage k (lineages (root_body root0)))" for k
    unfolding R next_root_simps find_next_lineages[OF assms(1)] ev next_event_simps n(1) by simp
  have "validateReviewGraphReplayV1 E (rev es @ [ev]) = Inr n"
    using assms(6,7) ev by (intro replay_snoc[OF w(3)]) (simp add: follows_def)
  moreover have "find_lineage l (lineages (root_body root)) = Some (head_entry ev)" by (simp add: find)
  moreover have "matches_descriptor v (root_incarnation (root_body root))" by (simp add: R)
  moreover have h: "head_event_id (head_entry ev) = event_id ev" "entry_state_hash (head_entry ev) = chash E (enc_state n)"
    "entry_sequence (head_entry ev) = int (Suc (nat (entry_sequence entry)))" by (simp_all add: head_entry_def ev n(2))
  moreover have "walk E d' v l (nat (entry_sequence (head_entry ev))) (Some (head_event_id (head_entry ev))) [] = Inr (ev # es, 0)"
    unfolding h nat_int by (rule chain_extends[OF w(2) g here ev n])
  ultimately have "readGraphState E auth d' l = Inr n"
    unfolding readGraphState_iff using assms(10) live'
    by (intro exI[of _ root] exI[of _ v] exI[of _ "head_entry ev"] exI[of _ "ev # es"]) (simp del: walk.simps)
  moreover have "view E auth d' k = view E auth d k" if "k \<noteq> l" for k
    using view_elsewhere[OF g that assms(3,10) live] R find that by simp
  ultimately show ?thesis by (auto simp: view_def fun_eq_iff)
qed

text \<open>
  A write after a read: the store either still shows what it showed, or the new state of that one
  lineage. It shows the new one when the write returns, whatever the faults; after a fault that
  threw, the CURRENT pointers of a healthy store still have a quorum.
\<close>

lemma write_refines:
  assumes "digest_host E" "collation E" "readGraphState E auth d l = Inr p" "follows E p n t i"
    "writeGraphState E auth faults n (Some p) t i d = (res, d')"
  shows "(res = Inr () \<longrightarrow> view E auth d' = (view E auth d)(l := Some n) \<and> (\<exists>r. healthy E auth d' r)) \<and>
    ((\<exists>r. healthy E auth d r) \<longrightarrow> (readCurrent E auth d' = readCurrent E auth d \<and> view E auth d' = view E auth d \<or>
        view E auth d' = (view E auth d)(l := Some n)) \<and>
       (\<exists>r. quorate E auth d' r))"
proof -
  obtain root0 v entry where r: "readCurrent E auth d = Inr root0" "v = try_opt (readStoreDescriptor auth d)"
    "find_lineage l (lineages (root_body root0)) = Some entry"
    using assms(3) unfolding readGraphState_iff by blast
  have l: "lineage_id n = l" using assms(3,4) readGraphState_names by (simp add: follows_def)
  have cur: "try_opt (readCurrent E auth d) = Some root0" using r(1) by simp
  consider (early) "res \<noteq> Inr ()" "grows E l d d'" "\<forall>k. target E auth d' k = target E auth d k"
    | (late) ev root d2 i' where "clone_input i = Inr i'"
       "prepared E auth d (next_event E v (Some (head_event_id entry)) t i' n) (Some root0) v ev root d2"
       "publishRootSet E auth faults d2 root = (res, d')"
    using write_runs[OF assms(5) refl r(2)] unfolding cur option.case l r(3) by auto
  then show ?thesis
  proof cases
    case early
    have "readCurrent E auth d' = readCurrent E auth d \<and> view E auth d' = view E auth d \<and> quorate E auth d' r" if "healthy E auth d r" for r
    proof -
      have h: "healthy E auth d' r" using healthy_grows[OF that early(2)] early(3) by simp
      then have "readCurrent E auth d' = Inr r" by (rule quorate_current[OF healthy_quorate])
      moreover have "root0 = r" using quorate_current[OF healthy_quorate[OF that]] r(1) by simp
      ultimately show ?thesis using view_same_root[OF early(2) assms(3) r(1)] healthy_quorate[OF h] r(1) by simp
    qed
    with early(1) show ?thesis by blast
  next
    case late
    note P = late(2)[unfolded prepared_def next_event_simps l]
    note V = written_view[OF assms(2,3) r assms(4) late(1,2)]
    have out: "same_objects d2 d' \<or> d' = d2" using publish_runs[OF assms(1) late(3)] by blast
    then have g2: "grows E l d2 d'" using same_objects_grows by auto
    have "view E auth d' = (view E auth d)(l := Some n) \<and> healthy E auth d' root" if "res = Inr ()"
    proof -
      have "healthy E auth d' root" using publish_runs[OF assms(1) late(3)] that
        by (elim disjE conjE exE) (auto simp: le_less)
      then show ?thesis using V[OF g2] quorate_current[OF healthy_quorate] by blast
    qed
    moreover have "(readCurrent E auth d' = readCurrent E auth d \<and> view E auth d' = view E auth d \<or>
        view E auth d' = (view E auth d)(l := Some n)) \<and> (\<exists>q. quorate E auth d' q)"
      if "healthy E auth d old" for old
    proof -
      have old: "root0 = old" using quorate_current[OF healthy_quorate[OF that]] r(1) by simp
      have "healthy E auth d2 old" using healthy_grows[OF that] P by blast
      from publish_outcome[OF assms(1) this late(3)] obtain now where now: "now = old \<or> now = root" "quorate E auth d' now" by blast
      then have c: "readCurrent E auth d' = Inr now" by (intro quorate_current)
      show ?thesis
      proof (cases "now = root")
        case True
        then show ?thesis using V[OF g2] c now by blast
      next
        case False
        then show ?thesis using view_same_root[OF grows_trans[OF _ g2] assms(3) r(1)] P c now old r(1) by auto
      qed
    qed
    ultimately show ?thesis by blast
  qed
qed

end
