(* ===== verification/StoreOps.thy ===== *)
theory StoreOps
  imports StoreChains
begin

text \<open>
  The operations of the transaction store over what the store shows. The contract of the lineage
  store is a locale: a write that the replay accepts changes one lineage and no other. A
  journaled operation reads its lineage, decides on a stored result or on one write, and writes;
  what holds of every such operation is proved once, and each method of the code is shown to be one.
\<close>

section \<open>The contract\<close>

text \<open>
  \<open>decide d p\<close> is what an operation makes of the state \<open>p\<close> it read from \<open>d\<close>: an exception, a stored
  result, or a next state with what is written beside it and the result.
\<close>

definition performs :: "('d \<Rightarrow> string \<Rightarrow> 's option) \<Rightarrow> ('s \<Rightarrow> 's \<Rightarrow> 't \<Rightarrow> 'd \<Rightarrow> unit result \<times> 'd) \<Rightarrow> string \<Rightarrow>
    ('d \<Rightarrow> 's \<Rightarrow> ('r + 's \<times> 't \<times> 'r) result) \<Rightarrow> 'd \<Rightarrow> 'r \<Rightarrow> 'd \<Rightarrow> bool" where
  "performs see put l decide d res d' \<longleftrightarrow> (\<exists>p. see d l = Some p \<and>
     (decide d p = Inr (Inl res) \<and> d' = d \<or>
      (\<exists>n t. decide d p = Inr (Inr (n, t, res)) \<and> put n p t d = (Inr (), d'))))"

locale lineage_store =
  fixes sound :: "'e \<Rightarrow> bool"
    and see :: "'e \<Rightarrow> 'd \<Rightarrow> string \<Rightarrow> 's option"
    and put :: "'e \<Rightarrow> 's \<Rightarrow> 's \<Rightarrow> 't \<Rightarrow> 'd \<Rightarrow> unit result \<times> 'd"
    and accepts :: "'e \<Rightarrow> 's \<Rightarrow> 's \<Rightarrow> 't \<Rightarrow> bool"
  assumes write_view: "sound S \<Longrightarrow> see S d l = Some p \<Longrightarrow> accepts S p n t \<Longrightarrow> put S n p t d = (Inr (), d') \<Longrightarrow>
      see S d' = (see S d)(l := Some n)"
begin

lemma write_elsewhere:
  assumes "sound S" "see S d l = Some p" "accepts S p n t" "put S n p t d = (Inr (), d')" "k \<noteq> l"
  shows "see S d' k = see S d k"
  using write_view[OF assms(1-4)] assms(5) by simp

lemma performs_view:
  assumes "sound S" "\<And>p n t r. see S d l = Some p \<Longrightarrow> decide d p = Inr (Inr (n, t, r)) \<Longrightarrow> accepts S p n t"
    "performs (see S) (put S) l decide d res d'"
  obtains (stored) p where "see S d l = Some p" "decide d p = Inr (Inl res)" "d' = d"
    | (written) p n t where "see S d l = Some p" "decide d p = Inr (Inr (n, t, res))" "see S d' = (see S d)(l := Some n)"
proof -
  obtain p where p: "see S d l = Some p" "decide d p = Inr (Inl res) \<and> d' = d \<or>
      (\<exists>n t. decide d p = Inr (Inr (n, t, res)) \<and> put S n p t d = (Inr (), d'))"
    using assms(3) unfolding performs_def by blast
  from p(2) show thesis
  proof (elim disjE exE conjE)
    assume "decide d p = Inr (Inl res)" "d' = d"
    with p(1) show thesis by (rule stored)
  next
    fix n t assume w: "decide d p = Inr (Inr (n, t, res))" "put S n p t d = (Inr (), d')"
    show thesis using p(1) w(1) write_view[OF assms(1) p(1) assms(2)[OF p(1) w(1)] w(2)] by (rule written)
  qed
qed

text \<open>An operation that finds its own result in what it wrote may be repeated.\<close>

lemma performs_again:
  assumes "sound S" "\<And>p n t r. see S d l = Some p \<Longrightarrow> decide d p = Inr (Inr (n, t, r)) \<Longrightarrow> accepts S p n t"
    "\<And>p n t r. see S d l = Some p \<Longrightarrow> decide d p = Inr (Inr (n, t, r)) \<Longrightarrow> decide d' n = Inr (Inl r)"
    "performs (see S) (put S) l decide d res d'"
  shows "performs (see S) (put S) l decide d' res d'"
  using assms(1,2,4)
proof (rule performs_view)
  fix p assume "see S d l = Some p" "decide d p = Inr (Inl res)" "d' = d"
  then show ?thesis by (auto simp: performs_def)
next
  fix p n t assume "see S d l = Some p" "decide d p = Inr (Inr (n, t, res))" "see S d' = (see S d)(l := Some n)"
  with assms(3) show ?thesis by (auto simp: performs_def)
qed

lemma performs_elsewhere:
  assumes "sound S" "\<And>p n t r. see S d l = Some p \<Longrightarrow> decide d p = Inr (Inr (n, t, r)) \<Longrightarrow> accepts S p n t"
    "performs (see S) (put S) l decide d res d'" "k \<noteq> l"
  shows "see S d' k = see S d k"
  using assms(1-3)
proof (rule performs_view)
qed (use assms(4) in simp_all)



end

section \<open>The model keeps the contract\<close>

definition store_sound :: "store_env \<Rightarrow> bool" where
  "store_sound S \<longleftrightarrow> digest_host (env_host S) \<and> collation (env_host S)"

definition store_view :: "store_env \<Rightarrow> graph_disk \<Rightarrow> string \<Rightarrow> review_state option" where
  "store_view S = view (env_host S) (auth_of S)"

definition store_write :: "store_env \<Rightarrow> review_state \<Rightarrow> review_state \<Rightarrow> string \<times> replay_input \<Rightarrow> graph_disk \<Rightarrow> unit result \<times> graph_disk" where
  "store_write S n p = (\<lambda>(t, i). writeGraphState (env_host S) (auth_of S) (store_faults S) n (Some p) t i)"

definition store_accepts :: "store_env \<Rightarrow> review_state \<Rightarrow> review_state \<Rightarrow> string \<times> replay_input \<Rightarrow> bool" where
  "store_accepts S p n = (\<lambda>(t, i). follows (env_host S) p n t i)"

interpretation lineage: lineage_store store_sound store_view store_write store_accepts
proof (unfold_locales, goal_cases)
  case (1 S d l p n t d')
  obtain tr i where t: "t = (tr, i)" by fastforce
  show ?case
    using write_refines[of "env_host S" "auth_of S" d l p n tr i "store_faults S" "Inr ()" d'] 1
    by (simp add: t store_sound_def store_view_def store_write_def store_accepts_def view_Some)
qed

lemma store_view_read: "readUnlocked S d l = Inr s \<longleftrightarrow> store_view S d l = Some s"
  by (simp add: readUnlocked_def store_view_def view_Some)

lemma store_read_iff: "store_read S d l = Inr s \<longleftrightarrow> LINEAGE_ID l \<and> store_view S d l = Some s"
  by (auto simp: store_read_def assertLineageId_def result_simps store_view_read)

section \<open>What the replay accepts\<close>

lemma immutable_encodable: "encodable (JObj (immutable_fields s))"
  using enc_opt_encodable[OF faithful_str, of "parent_lineage_id s"] enc_opt_encodable[OF faithful_strings, of "genesis_paths s"]
    enc_opt_encodable[OF faithful_store, of "snapshot_object_store s"]
  by (simp add: immutable_fields_def faithfulD[OF faithful_lenses] faithfulD[OF faithful_counters] faithfulD[OF faithful_projection])

lemma assertState_lineage:
  assumes "assertState E n (Some p) = Inr ()"
  shows "lineage_id n = lineage_id p"
proof -
  have "assertImmutableState E p n = Inr ()" using assms by (simp add: assertState_def result_simps)
  then have "canonicalize (JObj (immutable_fields p)) = canonicalize (JObj (immutable_fields n))"
    by (simp add: assertImmutableState_def result_simps)
  then have "norm (JObj (immutable_fields p)) = norm (JObj (immutable_fields n))"
    using canonicalize_eq_iff[OF immutable_encodable immutable_encodable] by blast
  then show ?thesis using immutable_fields_inj by metis
qed

lemma transition_texts: "transition_text t \<in> set transition_texts"
  "transition_text t \<noteq> ''start''" "transition_text t \<noteq> ''operation-prepared''" "transition_text t \<noteq> ''gate''"
  by (cases t; simp add: transition_texts_def)+

lemma same_state_refl [simp]: "same_state E s s"
  by (simp add: same_state_def)

lemma follows_reduce:
  assumes "reduceReviewState E p r = Inr m" "n = m\<lparr>revision := revision p + 1, request_journal := j\<rparr>"
    "assertState E n (Some p) = Inr ()"
  shows "follows E p n (transition_text (transition_of r)) (ReduceInput r)"
  using assms assertState_lineage[OF assms(3)] transition_texts
  by (auto simp: follows_def clone_input_def replay_event_def replay_reducer_def Let_def result_simps)

lemma follows_prepare:
  assumes "n = p\<lparr>revision := revision p + 1, request_journal := j\<rparr>" "assertState E n (Some p) = Inr ()"
  shows "follows E p n ''operation-prepared'' (PreparedInput (transition_text t) r)"
  using assms assertState_lineage[OF assms(2)] transition_texts(1)
  by (auto simp: follows_def clone_input_def replay_event_def replay_prepared_def jget_def Let_def result_simps)

lemma chash_of_norm [simp]: "chash E (norm v) = chash E v"
  by (simp add: chash_def canonicalize_norm)

lemma claims_last: "(s :: review_state)\<lparr>child_claims := c, revision := k, request_journal := j\<rparr> = s\<lparr>revision := k, request_journal := j, child_claims := c\<rparr>"
  by (cases s) simp

lemma follows_gate:
  assumes "n = p\<lparr>child_claims := c, revision := revision p + 1, request_journal := request_journal p @ [e]\<rparr>"
    "c = child_claims p \<or> (\<exists>x. c = Some (or_empty (child_claims p) @ [x]))"
    "operation e = GATE" "status e = COMPLETED" "request_hash e = chash E r" "assertState E n (Some p) = Inr ()"
  shows "follows E p n ''gate'' (GateInput r)"
proof -
  have "replay_gate E p GATE_EVALUATED (norm r) n = Inr ()"
    using assms(1)[unfolded claims_last] assms(2-5) by (cases "child_claims p") (auto simp: replay_gate_def Let_def result_simps or_empty_def split: option.splits)
  then show ?thesis
    using assms assertState_lineage[OF assms(6)]
    by (auto simp: follows_def clone_input_def replay_event_def kind_for_def Let_def result_simps)
qed

section \<open>Operations\<close>

definition available :: "store_env \<Rightarrow> string \<Rightarrow> bool" where
  "available S l \<longleftrightarrow> LINEAGE_ID l \<and> assertCurrentRepositoryAuthority S = Inr () \<and> lock_taken S = Inr () \<and> lock_released S = Inr ()"

lemma withLock_Inr:
  "withLock S l act d = (Inr x, d') \<longleftrightarrow> available S l \<and> act d = (Inr x, d')"
  by (cases "assertLineageId l"; cases "assertCurrentRepositoryAuthority S"; cases "lock_taken S"; cases "lock_released S")
    (auto simp: withLock_def available_def assertLineageId_def require_def split: prod.splits if_splits)

lemma write_result_Inr:
  "write_result S n p t i r d = (Inr x, d') \<longleftrightarrow> x = r \<and>
     writeGraphState (env_host S) (auth_of S) (store_faults S) n p t i d = (Inr (), d')"
  by (auto simp: write_result_def split: prod.splits sum.splits)

lemma journaled_performs:
  "journaled S l decide d = (Inr res, d') \<longleftrightarrow>
     available S l \<and> performs (store_view S) (store_write S) l decide d res d'"
proof -
  let ?out = "bindr (readUnlocked S d l) (\<lambda>current. bindr (decide d current) (\<lambda>out. Inr (current, out)))"
  have "(case ?out of Inl e \<Rightarrow> (Inl e, d) | Inr (current, Inl r) \<Rightarrow> (Inr r, d)
      | Inr (current, Inr (next, (t, i), r)) \<Rightarrow> write_result S next (Some current) t i r d) = (Inr res, d') \<longleftrightarrow>
      performs (store_view S) (store_write S) l decide d res d'"
  proof (cases "readUnlocked S d l")
    case (Inl e)
    then have "store_view S d l = None" using store_view_read[of S d l] by (cases "store_view S d l") auto
    with Inl show ?thesis by (simp add: performs_def)
  next
    case (Inr p)
    then have v: "store_view S d l = Some p" by (simp add: store_view_read)
    show ?thesis
    proof (cases "decide d p")
      case (Inl e)
      with Inr v show ?thesis by (simp add: performs_def)
    next
      case out: (Inr out)
      with Inr v show ?thesis
        by (cases out) (auto simp: performs_def store_write_def write_result_Inr)
    qed
  qed
  then show ?thesis unfolding journaled_def withLock_Inr by simp
qed

lemma journaled_Inl:
  assumes "available S l" "store_view S d l = Some p" "decide d p = Inl e"
  shows "journaled S l decide d = (Inl e, d)"
proof -
  have "readUnlocked S d l = Inr p" using assms(2) by (simp add: store_view_read)
  with assms(1,3) show ?thesis
    by (simp add: journaled_def withLock_def available_def assertLineageId_def)
qed

section \<open>Decisions\<close>

lemma norm_idem: "encodable v \<Longrightarrow> norm (norm v) = norm v"
  using canonicalize_eq_iff[of "norm v" v] by (simp add: encodable_iff canonicalize_norm)

lemma cloneCanonical_idem: "cloneCanonical v = Inr w \<Longrightarrow> cloneCanonical w = Inr w"
  by (auto simp: cloneCanonical_def result_simps canonicalize_norm norm_idem encodable_iff ok_iff)

definition completed_entry :: "completed_run \<Rightarrow> string \<Rightarrow> json \<Rightarrow> journal_entry" where
  "completed_entry q h res = \<lparr>operation = run_operation q, idempotency_key = run_key q, request_hash = h,
     status = COMPLETED, authorization = None, canonical_result = Some res\<rparr>"

lemma decide_run_new:
  "decide_run S q d p = Inr (Inr (n, t, res)) \<longleftrightarrow> find_entry (run_key q) (request_journal p) = None \<and>
     (\<exists>h m out. canonicalHash (env_host S) (run_body q) = Inr h \<and> before_replay q d = Inr () \<and>
       assertNoPendingOperation p = Inr () \<and> run_apply q p = Inr (m, out) \<and> cloneCanonical out = Inr res \<and>
       n = m\<lparr>revision := revision p + 1, request_journal := request_journal p @ [completed_entry q h res]\<rparr> \<and>
       assertState (env_host S) n (Some p) = Inr () \<and> t = (event_transition q, event_input q))"
  unfolding decide_run_def completed_entry_def
  by (cases "find_entry (run_key q) (request_journal p)") (auto simp: result_simps Let_def split: if_splits prod.splits)

lemma decide_run_stored:
  "decide_run S q d p = Inr (Inl res) \<longleftrightarrow> (\<exists>h e. canonicalHash (env_host S) (run_body q) = Inr h \<and>
     find_entry (run_key q) (request_journal p) = Some e \<and> operation e = run_operation q \<and> request_hash e = h \<and>
     status e \<noteq> PENDING \<and> stored_result e = Inr res)"
  unfolding decide_run_def
  by (cases "find_entry (run_key q) (request_journal p)") (auto simp: result_simps Let_def split: if_splits prod.splits)

lemma find_entry_append:
  "find_entry k (xs @ ys) = (case find_entry k xs of None \<Rightarrow> find_entry k ys | Some e \<Rightarrow> Some e)"
  unfolding find_entry_def by (induction xs) auto

lemma stored_completed: "cloneCanonical out = Inr res \<Longrightarrow> stored_result (completed_entry q h res) = Inr res"
  by (simp add: stored_result_def completed_entry_def cloneCanonical_idem)

text \<open>What a run writes it finds again.\<close>

lemma decide_run_again:
  assumes "decide_run S q d p = Inr (Inr (n, t, res))"
  shows "decide_run S q d' n = Inr (Inl res)"
proof -
  obtain h m out where r: "canonicalHash (env_host S) (run_body q) = Inr h" "cloneCanonical out = Inr res"
    "find_entry (run_key q) (request_journal p) = None"
    "n = m\<lparr>revision := revision p + 1, request_journal := request_journal p @ [completed_entry q h res]\<rparr>"
    using assms unfolding decide_run_new by blast
  then have "find_entry (run_key q) (request_journal n) = Some (completed_entry q h res)"
    by (simp add: find_entry_append) (simp add: find_entry_def completed_entry_def)
  then show ?thesis
    unfolding decide_run_stored using r(1) stored_completed[OF r(2)]
    by (intro exI[of _ h] exI[of _ "completed_entry q h res"]) (simp add: completed_entry_def)
qed

definition reducer_run :: "store_env \<Rightarrow> string \<Rightarrow> string \<Rightarrow> reduction \<Rightarrow> completed_run" where
  "reducer_run S lineage key r =
     \<lparr>run_lineage = lineage, run_operation = operationForTransition (transition_of r), run_key = key,
      run_body = reduction_request r, before_replay = (\<lambda>_. Inr ()),
      run_apply = (\<lambda>current. bindr (reduceReviewState (env_host S) current r) (\<lambda>reduced.
        Inr (reduced, reducerOperationResult reduced (revision current + 1)))),
      event_transition = transition_text (transition_of r), event_input = ReduceInput r\<rparr>"

lemma runReducerOperation_run:
  "runReducerOperation S l key r = journaled S l (decide_run S (reducer_run S l key r))"
  by (simp add: runReducerOperation_def runCompletedOperation_def reducer_run_def)

lemma reducer_run_accepted:
  assumes "decide_run S (reducer_run S l key r) d p = Inr (Inr (n, t, res))"
  shows "store_accepts S p n t"
proof -
  obtain m j where "reduceReviewState (env_host S) p r = Inr m" "n = m\<lparr>revision := revision p + 1, request_journal := j\<rparr>"
    "assertState (env_host S) n (Some p) = Inr ()" "t = (transition_text (transition_of r), ReduceInput r)"
    using assms unfolding decide_run_new by (auto simp: reducer_run_def result_simps)
  then show ?thesis using follows_reduce by (simp add: store_accepts_def)
qed

lemma decide_begin_new:
  "decide_begin S q d p = Inr (Inr (n, t, res)) \<longleftrightarrow> find_entry (prep_key q) (request_journal p) = None \<and>
     (\<exists>h a. canonicalHash (env_host S) (prepared_json q) = Inr h \<and> assertNoPendingOperation p = Inr () \<and>
        clone_option (prep_authorization q) = Inr a \<and>
        n = p\<lparr>revision := revision p + 1, request_journal := request_journal p @
          [\<lparr>operation = operationForTransition (prep_transition q), idempotency_key = prep_key q, request_hash = h,
            status = PENDING, authorization = a, canonical_result = None\<rparr>]\<rparr> \<and>
        assertState (env_host S) n (Some p) = Inr () \<and>
        t = (''operation-prepared'', PreparedInput (transition_text (prep_transition q)) (prep_body q)))"
  unfolding decide_begin_def
  by (cases "find_entry (prep_key q) (request_journal p)") (auto simp: result_simps Let_def split: if_splits)

lemma decide_begin_stored: "decide_begin S q d p \<noteq> Inr (Inl res)"
  unfolding decide_begin_def
  by (cases "find_entry (prep_key q) (request_journal p)") (auto simp: result_simps Let_def split: if_splits)

lemma begin_accepted:
  assumes "decide_begin S q d p = Inr (Inr (n, t, res))"
  shows "store_accepts S p n t"
  using assms follows_prepare unfolding decide_begin_new by (fastforce simp: store_accepts_def)

lemma decide_complete_new:
  "decide_complete S q r d p = Inr (Inr (n, t, res)) \<longleftrightarrow>
     (\<exists>h e m. find_entry (prep_key q) (request_journal p) = Some e \<and> canonicalHash (env_host S) (prepared_json q) = Inr h \<and>
        operation e = operationForTransition (prep_transition q) \<and> request_hash e = h \<and> status e \<noteq> COMPLETED \<and>
        transition_of r = prep_transition q \<and> reduceReviewState (env_host S) p r = Inr m \<and>
        cloneCanonical (reducerOperationResult m (revision p + 1)) = Inr res \<and>
        n = m\<lparr>revision := revision p + 1, request_journal := complete_entry (prep_key q) res (request_journal p)\<rparr> \<and>
        assertState (env_host S) n (Some p) = Inr () \<and> t = (transition_text (prep_transition q), ReduceInput r))"
  unfolding decide_complete_def
  by (cases "find_entry (prep_key q) (request_journal p)") (auto simp: result_simps Let_def split: if_splits)

lemma complete_accepted:
  assumes "decide_complete S q r d p = Inr (Inr (n, t, res))"
  shows "store_accepts S p n t"
  using assms follows_reduce unfolding decide_complete_new by (fastforce simp: store_accepts_def)

definition gate_run :: "world \<Rightarrow> gate_options \<Rightarrow> string \<Rightarrow> string \<Rightarrow> (graph_disk \<Rightarrow> unit result) \<Rightarrow> completed_run" where
  "gate_run W q h root before =
     \<lparr>run_lineage = receipt_lineage (receipt_body (gate_receipt q)), run_operation = GATE, run_key = gate_key q,
      run_body = gate_request q h root, before_replay = before,
      run_apply = (\<lambda>s. bindr (apply_gate W q h root s) (\<lambda>(s', g). Inr (s', enc_gate_result g))),
      event_transition = ''gate'', event_input = GateInput (gate_request q h root)\<rparr>"

lemma validateGate_run:
  "validateGate W S q before d = (Inr res, d') \<longleftrightarrow>
     (\<exists>h root. canonicalHash (host_of W) (gate_target q) = Inr h \<and> repositoryRootForGate W (gate_cwd q) = Inr root \<and>
        journaled S (receipt_lineage (receipt_body (gate_receipt q))) (decide_run S (gate_run W q h root before)) d = (Inr res, d'))"
  unfolding validateGate_def runCompletedOperation_def gate_run_def
  by (cases "canonicalHash (host_of W) (gate_target q)"; cases "repositoryRootForGate W (gate_cwd q)") simp_all

text \<open>A gate leaves the state alone or adds one claim.\<close>

lemma apply_gate_state:
  assumes "apply_gate W q h root s = Inr (s', g)"
  shows "\<exists>c. s' = s\<lparr>child_claims := c\<rparr> \<and> (c = child_claims s \<or> (\<exists>x. c = Some (or_empty (child_claims s) @ [x])))"
proof -
  have "s' = s \<or> (\<exists>x. s' = s\<lparr>child_claims := Some (or_empty (child_claims s) @ [x])\<rparr>)"
    using assms unfolding apply_gate_def by (auto simp: result_simps Let_def split: if_splits option.splits)
  moreover have "s = s\<lparr>child_claims := child_claims s\<rparr>" by simp
  ultimately show ?thesis by metis
qed

lemma hash_request: "canonicalHash E v = Inr h \<Longrightarrow> h = chash E v"
  by (auto simp: canonicalHash_def chash_def text_of_def result_simps)

lemma gate_run_accepted:
  assumes "decide_run S (gate_run W q h root before) d p = Inr (Inr (n, t, res))"
  shows "store_accepts S p n t"
proof -
  let ?q = "gate_run W q h root before"
  obtain k m out where r: "canonicalHash (env_host S) (gate_request q h root) = Inr k" "run_apply ?q p = Inr (m, out)"
    "n = m\<lparr>revision := revision p + 1, request_journal := request_journal p @ [completed_entry ?q k res]\<rparr>"
    "assertState (env_host S) n (Some p) = Inr ()" "t = (''gate'', GateInput (gate_request q h root))"
    using assms unfolding decide_run_new by (auto simp: gate_run_def)
  obtain c where c: "m = p\<lparr>child_claims := c\<rparr>" "c = child_claims p \<or> (\<exists>x. c = Some (or_empty (child_claims p) @ [x]))"
    using r(2) apply_gate_state by (fastforce simp: gate_run_def result_simps)
  have "follows (env_host S) p n ''gate'' (GateInput (gate_request q h root))"
    using r(3,4) c hash_request[OF r(1)]
    by (intro follows_gate[where c = c and e = "completed_entry ?q k res"]) (auto simp: completed_entry_def gate_run_def)
  with r(5) show ?thesis by (simp add: store_accepts_def)
qed

end
