(* ===== verification/StoreHistory.thy ===== *)
theory StoreHistory
  imports StoreOps
begin

text \<open>
  Histories of the transaction store: any calls of its methods with any faults, each followed by the
  repair an operator runs after a crash. No lineage that could be read is lost or rewritten: its
  binding stays, its revision and counters only grow, what was frozen, completed or terminal stays.
\<close>

section \<open>How a lineage may change\<close>

definition closed_fields :: "review_state \<Rightarrow> review_phase \<times> string \<times> string option \<times> frozen_ledger option \<times> string \<times> review_counters \<times>
    fix_batch option \<times> string list option \<times> string list option \<times> terminal_outcome option" where
  "closed_fields s = (phase s, current_candidate_tree s, final_candidate_tree s, ledger s, evidence_hash s, counters s,
     fix_record s, active_finding_ids s, escalation_reasons s, terminal_state s)"

definition advances :: "host \<Rightarrow> review_state \<Rightarrow> review_state \<Rightarrow> bool" where
  "advances E p n \<longleftrightarrow> immutable_fields n = immutable_fields p \<and> revision p \<le> revision n \<and>
     (\<forall>k. counters p k \<le> counters n k) \<and>
     (\<forall>f. ledger p = Some f \<longrightarrow> (\<exists>g. ledger n = Some g \<and> chash E (enc_ledger f) = chash E (enc_ledger g))) \<and>
     (terminal_state p \<noteq> None \<longrightarrow> closed_fields n = closed_fields p) \<and>
     (\<forall>e \<in> set (request_journal p). status e = COMPLETED \<longrightarrow> e \<in> set (request_journal n))"

lemma advances_refl [simp]: "advances E p p"
  by (simp add: advances_def)

lemma advances_trans:
  assumes "advances E a b" "advances E b c"
  shows "advances E a c"
proof -
  note A = assms[unfolded advances_def]
  have "counters a k \<le> counters c k" for k using A order_trans by blast
  moreover have "closed_fields c = closed_fields a" if "terminal_state a \<noteq> None"
  proof -
    have b: "closed_fields b = closed_fields a" using A that by simp
    then have "terminal_state b \<noteq> None" using that by (simp add: closed_fields_def)
    with A b show ?thesis by simp
  qed
  moreover have "\<exists>g. ledger c = Some g \<and> chash E (enc_ledger f) = chash E (enc_ledger g)" if "ledger a = Some f" for f
    using A that by metis
  ultimately show ?thesis using A unfolding advances_def by (auto intro: order_trans)
qed

lemma immutable_fields_eq:
  assumes "norm (JObj (immutable_fields s)) = norm (JObj (immutable_fields t))"
  shows "immutable_fields s = immutable_fields t"
  using immutable_fields_inj[OF assms] by (simp add: immutable_fields_def)

lemma enc_resolution_ok: "encodable (enc_resolution r)"
  by (auto simp: enc_resolution_def)

lemma terminal_encodable: "encodable (JObj (terminal_fields s))"
proof -
  have "enc_opt (enc_list enc_resolution) v = JUndefined \<or> encodable (enc_opt (enc_list enc_resolution) v)" for v
    by (rule enc_opt_ok) (simp add: enc_list_ok enc_resolution_ok)
  moreover have "enc_opt (\<lambda>t. JStr (terminal_text t)) v = JUndefined \<or> encodable (enc_opt (\<lambda>t. JStr (terminal_text t)) v)" for v
    by (rule enc_opt_ok) simp
  ultimately show ?thesis
    using enc_opt_encodable[OF faithful_str, of "final_candidate_tree s"] enc_opt_encodable[OF faithful_ledger, of "ledger s"]
      enc_opt_encodable[OF faithful_fix, of "fix_record s"] enc_opt_encodable[OF faithful_strings, of "active_finding_ids s"]
      enc_opt_encodable[OF faithful_strings, of "escalation_reasons s"]
    by (simp add: terminal_fields_def faithfulD[OF faithful_counters])
qed

lemma closed_fields_eq:
  assumes "norm (JObj (terminal_fields s)) = norm (JObj (terminal_fields t))"
  shows "closed_fields s = closed_fields t"
proof -
  have f: "map_option norm (obj_field k (terminal_fields s)) = map_option norm (obj_field k (terminal_fields t))" for k
    using assms by (rule obj_field_norm) (simp_all add: terminal_fields_def)
  note fs = f[unfolded terminal_fields_def]
  have "final_candidate_tree s = final_candidate_tree t"
    using fs[of "''final_candidate_tree''"] by (intro opt_field_eq[OF faithful_str]) simp
  moreover have "ledger s = ledger t"
    using fs[of "''frozen_ledger''"] by (intro opt_field_eq[OF faithful_ledger]) simp
  moreover have "fix_record s = fix_record t"
    using fs[of "''fix_record''"] by (intro opt_field_eq[OF faithful_fix]) simp
  moreover have "active_finding_ids s = active_finding_ids t"
    using fs[of "''active_finding_ids''"] by (intro opt_field_eq[OF faithful_strings]) simp
  moreover have "escalation_reasons s = escalation_reasons t"
    using fs[of "''escalation_reasons''"] by (intro opt_field_eq[OF faithful_strings]) simp
  moreover have "terminal_state s = terminal_state t"
    using fs[of "''terminal_state''"] by (intro opt_field_eq[OF faithful_text[OF inj_terminal_text]]) simp
  moreover have "counters s = counters t"
    using fs[of "''counters''"] by (simp add: faithfulD[OF faithful_counters])
  moreover have "phase s = phase t"
    using fs[of "''phase''"] inj_phase_text by (simp add: inj_def)
  ultimately show ?thesis
    using fs[of "''current_candidate_tree''"] fs[of "''evidence_hash''"] by (simp add: closed_fields_def)
qed

lemma canonical_norm:
  assumes "canonicalize a = canonicalize b" "encodable a" "encodable b"
  shows "norm a = norm b"
  using assms canonicalize_eq_iff by blast

text \<open>\<open>assertState\<close> against the previous state is what makes a lineage advance.\<close>

lemma assertState_advances:
  assumes "assertState E n (Some p) = Inr ()" "revision n = revision p + 1"
    "\<forall>e \<in> set (request_journal p). status e = COMPLETED \<longrightarrow> e \<in> set (request_journal n)"
  shows "advances E p n"
proof -
  have i: "assertImmutableState E p n = Inr ()" and c: "assertCounters (counters n) (budget n) (Some (counters p)) = Inr ()"
    using assms(1) by (simp_all add: assertState_def result_simps)
  have "counters p k \<le> counters n k" for k
    using c COUNTER_KEYS_all[of k] by (auto simp: assertCounters_def result_simps)
  moreover have "canonicalize (JObj (immutable_fields p)) = canonicalize (JObj (immutable_fields n))"
    "terminal_state p \<noteq> None \<Longrightarrow> canonicalize (JObj (terminal_fields p)) = canonicalize (JObj (terminal_fields n))"
    and l: "\<And>f. ledger p = Some f \<Longrightarrow> \<exists>g. ledger n = Some g \<and> chash E (enc_ledger f) = chash E (enc_ledger g)"
    using i by (auto simp: assertImmutableState_def result_simps split: option.splits)
  then have "immutable_fields p = immutable_fields n" "terminal_state p \<noteq> None \<Longrightarrow> closed_fields p = closed_fields n"
    using canonical_norm[OF _ immutable_encodable immutable_encodable] canonical_norm[OF _ terminal_encodable terminal_encodable]
      immutable_fields_eq closed_fields_eq by blast+
  ultimately show ?thesis using l assms(2,3) by (simp add: advances_def)
qed

lemma complete_entry_keeps:
  assumes "find_entry key j = Some e" "status e \<noteq> COMPLETED"
  shows "\<forall>x \<in> set j. status x = COMPLETED \<longrightarrow> x \<in> set (complete_entry key res j)"
  using assms unfolding find_entry_def by (induction j) (auto split: if_splits)

lemma run_advances:
  assumes "decide_run S q d p = Inr (Inr (n, t, res))"
  shows "advances (env_host S) p n"
  using assms unfolding decide_run_new by (auto intro!: assertState_advances)

lemma begin_advances:
  assumes "decide_begin S q d p = Inr (Inr (n, t, res))"
  shows "advances (env_host S) p n"
  using assms unfolding decide_begin_new by (auto intro!: assertState_advances)

lemma complete_advances:
  assumes "decide_complete S q r d p = Inr (Inr (n, t, res))"
  shows "advances (env_host S) p n"
proof -
  obtain e m where "find_entry (prep_key q) (request_journal p) = Some e" "status e \<noteq> COMPLETED"
    "n = m\<lparr>revision := revision p + 1, request_journal := complete_entry (prep_key q) res (request_journal p)\<rparr>"
    "assertState (env_host S) n (Some p) = Inr ()"
    using assms unfolding decide_complete_new by blast
  then show ?thesis using complete_entry_keeps by (intro assertState_advances) simp_all
qed

section \<open>One call\<close>

lemma write_quorate:
  assumes "digest_host E" "healthy E auth d old" "writeGraphState E auth faults n p t i d = (res, d')"
  shows "\<exists>r. quorate E auth d' r"
  using write_runs[OF assms(3) refl refl]
proof (elim disjE conjE exE)
  assume "grows E (lineage_id n) d d'" "\<forall>j. target E auth d' j = target E auth d j"
  then show ?thesis using healthy_quorate[OF healthy_grows[OF assms(2)]] by blast
next
  fix ev r d2 i'
  assume P: "prepared E auth d (next_event E (try_opt (readStoreDescriptor auth d)) (map_option head_event_id
      (case try_opt (readCurrent E auth d) of None \<Rightarrow> None | Some r \<Rightarrow> find_lineage (lineage_id n) (lineages (root_body r)))) t i' n)
      (try_opt (readCurrent E auth d)) (try_opt (readStoreDescriptor auth d)) ev r d2"
    and pub: "publishRootSet E auth faults d2 r = (res, d')"
  have "healthy E auth d2 old" using healthy_grows[OF assms(2)] P unfolding prepared_def by blast
  from publish_outcome[OF assms(1) this pub] show ?thesis by blast
qed

text \<open>A write of a lineage, or of one that cannot be read yet, leaves every other readable lineage alone.\<close>

lemma write_keeps:
  assumes "digest_host E" "collation E" "healthy E auth d old" "writeGraphState E auth faults n p t i d = (res, d')"
    "view E auth d k = Some s" "k \<noteq> lineage_id n \<or> p = None"
  shows "view E auth d' k = Some s \<and> (\<exists>r. quorate E auth d' r)"
proof -
  have root: "readCurrent E auth d = Inr old" using quorate_current[OF healthy_quorate[OF assms(3)]] .
  then have cur: "try_opt (readCurrent E auth d) = Some old" by simp
  have s: "readGraphState E auth d k = Inr s" using assms(5) by (simp add: view_Some)
  obtain v entry where v: "live_descriptor auth d = Inr v" "matches_descriptor v (root_incarnation (root_body old))"
    "find_lineage k (lineages (root_body old)) = Some entry"
    using s root unfolding readGraphState_iff by auto
  have vt: "v = try_opt (readStoreDescriptor auth d)" using live_descriptor_try[OF v(1)] by simp
  have keep: "view E auth d' k = Some s" if g: "grows E (lineage_id n) d d'" and "readCurrent E auth d' = Inr now"
    and "matches_descriptor v (root_incarnation (root_body now))"
    and "find_lineage k (lineages (root_body now)) = find_lineage k (lineages (root_body old))" for now
    using read_transfer[OF s _ root that(2) live_descriptor_grows[OF g] v(1) that(3,4)] g by (simp add: view_Some grows_def)
  consider (early) "grows E (lineage_id n) d d'" "\<forall>j. target E auth d' j = target E auth d j"
    | (late) ev r d2 i' e where "(p = None \<longleftrightarrow> find_lineage (lineage_id n) (lineages (root_body old)) = None)"
       "prepared E auth d (next_event E v e t i' n) (Some old) v ev r d2" "publishRootSet E auth faults d2 r = (res, d')"
    using write_runs[OF assms(4) refl vt] unfolding cur option.case by auto
  then show ?thesis
  proof cases
    case early
    then have h: "healthy E auth d' old" using healthy_grows[OF assms(3) early(1)] by simp
    then show ?thesis using keep[OF early(1) _ v(2) refl] quorate_current[OF healthy_quorate] healthy_quorate[OF h] by blast
  next
    case late
    note P = late(2)[unfolded prepared_def next_event_simps]
    have k: "k \<noteq> lineage_id n" using assms(6) late(1) v(3) by auto
    have "healthy E auth d2 old" using healthy_grows[OF assms(3)] P by blast
    from publish_outcome[OF assms(1) this late(3)] obtain now where now: "now = old \<or> now = r" "quorate E auth d' now" "same_objects d2 d'"
      by blast
    have g: "grows E (lineage_id n) d d'" using P grows_trans[OF _ same_objects_grows[OF now(3)]] by blast
    have "body ev = next_event E v e t i' n" and R: "root_body r = next_root E auth v (Some old) ev" using P by simp_all
    then have "find_lineage k (lineages (root_body r)) = find_lineage k (lineages (root_body old))"
      unfolding R next_root_simps find_next_lineages[OF assms(2)] using k by simp
    then have "view E auth d' k = Some s"
      using now(1) keep[OF g quorate_current[OF now(2)]] v(2) R by auto
    then show ?thesis using now(2) by blast
  qed
qed

text \<open>A healthy store shows an initial segment of what will come: each readable lineage only advances.\<close>

definition moves :: "host \<Rightarrow> authority \<Rightarrow> graph_disk \<Rightarrow> graph_disk \<Rightarrow> bool" where
  "moves E auth d d' \<longleftrightarrow> (\<exists>r. quorate E auth d' r) \<and>
     (\<forall>k p. view E auth d k = Some p \<longrightarrow> (\<exists>n. view E auth d' k = Some n \<and> advances E p n))"

lemma moves_refl: "healthy E auth d r \<Longrightarrow> moves E auth d d"
  using healthy_quorate by (fastforce simp: moves_def)

lemma write_moves:
  assumes "store_sound S" "healthy (env_host S) (auth_of S) d r" "store_view S d l = Some p" "store_accepts S p n t"
    "advances (env_host S) p n" "store_write S n p t d = (res, d')"
  shows "moves (env_host S) (auth_of S) d d'"
proof -
  obtain tr i where t: "t = (tr, i)" by fastforce
  note E = assms(1)[unfolded store_sound_def]
  have l: "lineage_id n = l"
    using assms(3,4) readGraphState_names by (auto simp: t store_accepts_def follows_def store_view_def view_Some)
  note W = assms(6)[unfolded store_write_def t prod.case]
  have s: "readGraphState (env_host S) (auth_of S) d l = Inr p" using assms(3) by (simp add: store_view_def view_Some)
  have "(view (env_host S) (auth_of S) d' = view (env_host S) (auth_of S) d \<or>
      view (env_host S) (auth_of S) d' = (view (env_host S) (auth_of S) d)(l := Some n)) \<and> (\<exists>q. quorate (env_host S) (auth_of S) d' q)"
    using write_refines[OF _ _ s _ W] E assms(2,4) by (auto simp: t store_accepts_def)
  then show ?thesis using assms(3,5) by (auto simp: moves_def store_view_def)
qed

lemma journaled_moves:
  assumes "store_sound S" "healthy (env_host S) (auth_of S) d r"
    "\<And>p n t x. decide d p = Inr (Inr (n, t, x)) \<Longrightarrow> store_accepts S p n t \<and> advances (env_host S) p n"
  shows "moves (env_host S) (auth_of S) d (snd (journaled S l decide d))"
proof -
  let ?act = "\<lambda>d. case bindr (readUnlocked S d l) (\<lambda>current. bindr (decide d current) (\<lambda>out. Inr (current, out))) of
       Inl e \<Rightarrow> (Inl e, d) | Inr (current, Inl res) \<Rightarrow> (Inr res, d)
     | Inr (current, Inr (next, (transition, input), res)) \<Rightarrow> write_result S next (Some current) transition input res d"
  have lock: "snd (withLock S l act d) = d \<or> snd (withLock S l act d) = snd (act d)" for act :: "graph_disk \<Rightarrow> 'x result \<times> graph_disk"
    by (auto simp: withLock_def split: sum.splits prod.splits)
  have stay: "moves (env_host S) (auth_of S) d d" using assms(2) by (rule moves_refl)
  have "moves (env_host S) (auth_of S) d (snd (?act d))"
  proof (cases "bindr (readUnlocked S d l) (\<lambda>current. bindr (decide d current) (\<lambda>out. Inr (current, out)))")
    case (Inl e)
    with stay show ?thesis by simp
  next
    case (Inr q)
    obtain p out where q: "q = (p, out)" by fastforce
    with Inr have r: "readUnlocked S d l = Inr p" "decide d p = Inr out" by (auto simp: result_simps)
    show ?thesis
    proof (cases out)
      case (Inl res)
      with Inr q stay show ?thesis by simp
    next
      case o: (Inr o')
      obtain n t i x where x: "o' = (n, (t, i), x)" by (cases o') auto
      obtain w d' where w: "store_write S n p (t, i) d = (w, d')" by fastforce
      have "store_accepts S p n (t, i) \<and> advances (env_host S) p n" using assms(3) r(2) o x by blast
      then have "moves (env_host S) (auth_of S) d d'"
        using write_moves[OF assms(1,2) _ _ _ w] r(1) by (simp add: store_view_read)
      moreover have "snd (?act d) = d'"
        using w Inr q o x by (auto simp: write_result_def store_write_def split: sum.splits)
      ultimately show ?thesis by simp
    qed
  qed
  then show ?thesis using lock[of ?act] stay unfolding journaled_def by (elim disjE) (simp_all only:)
qed

section \<open>Histories\<close>

datatype store_call =
    CreateCall review_state string
  | RunCall string string reduction
  | BeginCall prepared_request
  | CompleteCall prepared_request reduction
  | GateCall world "repository_authority result" authoritative_receipt gate_options
  | RepairCall

fun exec :: "store_env \<Rightarrow> store_call \<Rightarrow> graph_disk \<Rightarrow> graph_disk" where
  "exec S (CreateCall s key) d = snd (store_create S s key d)"
| "exec S (RunCall l key r) d = snd (runReducerOperation S l key r d)"
| "exec S (BeginCall q) d = snd (beginReducerOperation S q d)"
| "exec S (CompleteCall q r) d = snd (completeReducerOperation S q r d)"
| "exec S (GateCall W g a q) d = snd (validateAuthoritativeGate W S g a q d)"
| "exec S RepairCall d = snd (repairCurrentAuthority S d)"

definition settle :: "store_env \<Rightarrow> graph_disk \<Rightarrow> graph_disk" where
  "settle S d = snd (repairCurrentPointers (env_host S) (auth_of S) (\<lambda>_. False) d)"

fun history :: "(store_env \<times> store_call) list \<Rightarrow> graph_disk \<Rightarrow> graph_disk" where
  "history [] d = d"
| "history ((S, c) # cs) d = history cs (settle S (exec S c d))"

lemma quorate_view:
  assumes "same_objects d d'" "quorate E auth d r" "quorate E auth d' r" "view E auth d k = Some s"
  shows "view E auth d' k = Some s"
proof -
  have root: "readCurrent E auth d = Inr r" "readCurrent E auth d' = Inr r"
    using assms(2,3) by (auto intro: quorate_current)
  have g: "grows E k d d'" using same_objects_grows[OF assms(1)] .
  have s: "readGraphState E auth d k = Inr s" using assms(4) by (simp add: view_Some)
  obtain v where v: "live_descriptor auth d = Inr v" "matches_descriptor v (root_incarnation (root_body r))"
    using s root(1) unfolding readGraphState_iff by auto
  have "keeps_events E k d d'" using g by (simp add: grows_def)
  from read_transfer[OF s this root live_descriptor_grows[OF g] v refl] show ?thesis by (simp add: view_Some)
qed

lemma settle_heals:
  assumes "digest_host E" "moves E auth d d'" "repairCurrentPointers E auth (\<lambda>_. False) d' = (res, d2)"
  shows "(\<exists>r. healthy E auth d2 r) \<and> moves E auth d d2 \<and> res = Inr ()"
proof -
  obtain r where r: "quorate E auth d' r" using assms(2) by (auto simp: moves_def)
  note R = repair_quorate[OF assms(1) r assms(3)]
  then have "healthy E auth d2 r" "quorate E auth d2 r" "same_objects d' d2" by simp_all
  then show ?thesis using assms(2) quorate_view[OF _ r] R unfolding moves_def by metis
qed

lemma withLock_moves:
  assumes "moves E auth d d" "moves E auth d (snd (act d))"
  shows "moves E auth d (snd (withLock S l act d))"
  using assms by (auto simp: withLock_def split: sum.splits prod.splits)

lemma create_moves:
  assumes "store_sound S" "healthy (env_host S) (auth_of S) d r"
  shows "moves (env_host S) (auth_of S) d (snd (store_create S s key d))"
proof -
  have stay: "moves (env_host S) (auth_of S) d d" using assms(2) by (rule moves_refl)
  have w: "moves (env_host S) (auth_of S) d (snd (write_result S n None t i x d))" for n t i x
  proof -
    obtain res d' where run: "writeGraphState (env_host S) (auth_of S) (store_faults S) n None t i d = (res, d')" by fastforce
    have "moves (env_host S) (auth_of S) d d'"
    proof (cases "\<exists>k p. view (env_host S) (auth_of S) d k = Some p")
      case True
      then show ?thesis
        using write_keeps[OF _ _ assms(2) run] assms(1) advances_refl unfolding store_sound_def moves_def by metis
    next
      case False
      then show ?thesis using write_quorate[OF _ assms(2) run] assms(1) by (simp add: moves_def store_sound_def)
    qed
    moreover have "snd (write_result S n None t i x d) = d'" using run by (auto simp: write_result_def split: sum.splits)
    ultimately show ?thesis by simp
  qed
  show ?thesis
    unfolding store_create_def
    by (auto simp: stay Let_def intro!: withLock_moves w split: sum.splits)
qed

lemma gate_moves:
  assumes "store_sound S" "healthy (env_host S) (auth_of S) d r"
  shows "moves (env_host S) (auth_of S) d (snd (validateAuthoritativeGate W S g a q d))"
proof -
  have "moves (env_host S) (auth_of S) d (snd (validateGate W S q' before d))" for q' before
    unfolding validateGate_def runCompletedOperation_def gate_run_def[symmetric] Let_def
    by (auto simp: moves_refl[OF assms(2)] intro!: journaled_moves[OF assms] intro: gate_run_accepted run_advances split: sum.splits)
  with moves_refl[OF assms(2)] show ?thesis by (simp add: validateAuthoritativeGate_def split: sum.splits)
qed

lemma repair_moves:
  assumes "store_sound S" "healthy (env_host S) (auth_of S) d r"
  shows "moves (env_host S) (auth_of S) d (snd (repairCurrentAuthority S d))"
proof -
  obtain res d' where run: "repairCurrentPointers (env_host S) (auth_of S) (store_faults S) d = (res, d')" by fastforce
  note R = repair_quorate[OF _ healthy_quorate[OF assms(2)] run]
  then have "same_objects d d'" "quorate (env_host S) (auth_of S) d' r" using assms(1) by (simp_all add: store_sound_def)
  then have "moves (env_host S) (auth_of S) d d'"
    using quorate_view[OF _ healthy_quorate[OF assms(2)]] advances_refl unfolding moves_def by metis
  then show ?thesis
    unfolding repairCurrentAuthority_def using run moves_refl[OF assms(2)] by (intro withLock_moves) simp_all
qed

lemma exec_moves:
  assumes "store_sound S" "healthy (env_host S) (auth_of S) d r"
  shows "moves (env_host S) (auth_of S) d (exec S c d)"
proof (cases c)
  case (RunCall l key r')
  then show ?thesis
    by (auto simp: runReducerOperation_run intro!: journaled_moves[OF assms] intro: reducer_run_accepted run_advances)
next
  case (BeginCall q)
  then show ?thesis
    by (auto simp: beginReducerOperation_def intro!: journaled_moves[OF assms] intro: begin_accepted begin_advances)
next
  case (CompleteCall q r')
  then show ?thesis
    by (auto simp: completeReducerOperation_def intro!: journaled_moves[OF assms] intro: complete_accepted complete_advances)
qed (simp_all add: create_moves[OF assms] gate_moves[OF assms] repair_moves[OF assms])

lemma history_advances:
  assumes "\<forall>(S, c) \<in> set cs. env_host S = E \<and> auth_of S = auth" "digest_host E" "collation E" "healthy E auth d r"
  shows "(\<exists>r'. healthy E auth (history cs d) r') \<and>
    (\<forall>k p. view E auth d k = Some p \<longrightarrow> (\<exists>n. view E auth (history cs d) k = Some n \<and> advances E p n))"
  using assms(1,4)
proof (induction cs arbitrary: d r)
  case Nil
  then show ?case by auto
next
  case (Cons sc cs)
  obtain S c where sc: "sc = (S, c)" by fastforce
  have S: "env_host S = E" "auth_of S = auth" using Cons.prems(1) sc by simp_all
  then have "store_sound S" using assms(2,3) by (simp add: store_sound_def)
  then have "moves E auth d (exec S c d)" using exec_moves[of S d r c] Cons.prems(2) S by simp
  moreover obtain res d2 where run: "repairCurrentPointers E auth (\<lambda>_. False) (exec S c d) = (res, d2)" by fastforce
  ultimately have d2: "\<exists>r. healthy E auth d2 r" "moves E auth d d2" using settle_heals[OF assms(2)] by blast+
  then obtain r2 where "healthy E auth d2 r2" by blast
  moreover have "history (sc # cs) d = history cs d2" using run S by (simp add: sc settle_def)
  ultimately have IH: "\<exists>r'. healthy E auth (history (sc # cs) d) r'"
    "\<And>k p. view E auth d2 k = Some p \<Longrightarrow> \<exists>n. view E auth (history (sc # cs) d) k = Some n \<and> advances E p n"
    using Cons.IH[of d2 r2] Cons.prems(1) by auto
  have "\<exists>n. view E auth (history (sc # cs) d) k = Some n \<and> advances E p n" if here: "view E auth d k = Some p" for k p
  proof -
    obtain m where "view E auth d2 k = Some m" "advances E p m" using d2(2) here unfolding moves_def by blast
    with IH(2) show ?thesis using advances_trans by blast
  qed
  with IH(1) show ?case by blast
qed

end
