(* ===== verification/SampleStore.thy ===== *)
theory SampleStore
  imports StoreHistory GateClaims
begin

text \<open>
  When a write succeeds, and sample stores: a disk with one lineage whose genesis event carries a
  given state, under a host whose digest tells the first event and the first root set from all
  other texts.
\<close>

section \<open>Encodings of events\<close>

lemma enc_state_encodable:
  assumes "list_all (\<lambda>e. encodable (enc_journal_entry e)) (request_journal s)"
  shows "encodable (enc_state s)"
proof -
  have "encodable (enc_proof p)" for p
    by (simp add: enc_proof_def enc_acceptance_def enc_list_ok faithfulD[OF faithful_strings] faithfulD[OF faithful_regression]
        faithfulD[OF faithful_follow_up])
  moreover have "encodable (enc_claim c)" for c
    by (simp add: enc_claim_def faithfulD[OF faithful_counters])
  ultimately have "enc_opt enc_proof (validation_evidence s) = JUndefined \<or> encodable (enc_opt enc_proof (validation_evidence s))"
    "enc_opt (enc_list enc_claim) (child_claims s) = JUndefined \<or> encodable (enc_opt (enc_list enc_claim) (child_claims s))"
    by (auto intro!: enc_opt_ok enc_list_ok)
  moreover have "encodable (enc_list enc_journal_entry (request_journal s))"
    using assms by (simp add: enc_list_def list_all_iff)
  ultimately show ?thesis
    using immutable_encodable[of s] terminal_encodable[of s] by (simp add: enc_state_def)
qed

lemma enc_event_encodable:
  assumes "encodable (enc_state (payload_state b))"
    "\<And>i. reducer_input b = Some i \<Longrightarrow> encodable (enc_replay_input i)"
  shows "encodable (enc_event b)"
  using assms
  by (cases "reducer_input b"; cases "predecessor_event b"; cases "reducer_transition b")
    (auto simp: enc_event_def enc_incarnation_def enc_null_def enc_opt_def split: option.split)

lemma domainHash_encodable:
  assumes "encodable v" "domain_ok d"
  shows "domainHashV1 E d v = Inr (dhash E d v)"
proof -
  obtain t where "canonicalize v = Inr t" using assms(1) by (auto simp: encodable_iff ok_iff)
  moreover from this have "canonicalJsonV1 False v = Inr t" by (simp add: canonicalJsonV1_agrees)
  ultimately show ?thesis using assms(2) by (simp add: domainHashV1_def dhash_def text_of_def)
qed

section \<open>A digest that knows two texts\<close>

definition zeros :: string where "zeros = replicate 64 (CHR ''0'')"
definition ones :: string where "ones = replicate 64 (CHR ''1'')"

lemma hex_digests: "DIGEST zeros" "DIGEST ones" "zeros \<noteq> ones" "length zeros = 64" "length ones = 64"
  by (code_simp)+

definition genesis_of :: "review_state \<Rightarrow> event_body" where
  "genesis_of s = \<lparr>event_schema = EVENT_SCHEMA, event_incarnation = no_incarnation, event_lineage = lineage_id s,
     event_sequence = 0, predecessor_event = None, event_kind = LINEAGE_CREATED, reducer_transition = Some ''start'',
     reducer_input = Some (StartInput s), payload_state = s, reduced_state_hash = zeros\<rparr>"

definition event_of :: "review_state \<Rightarrow> event_envelope" where
  "event_of s = \<lparr>body = genesis_of s, event_id = ones\<rparr>"

definition root_of :: "review_state \<Rightarrow> root_set" where
  "root_of s = \<lparr>root_body = \<lparr>root_schema = ROOT_SCHEMA, root_authority = sample_authority, root_incarnation = no_incarnation,
     generation = 0, predecessor_root = None, lineages = [head_entry (event_of s)]\<rparr>, root_set_id = ones\<rparr>"

definition store_host :: "review_state \<Rightarrow> host" where
  "store_host s = code_unit_host\<lparr>sha256_hex := \<lambda>t.
     if t = domain_text ''event'' (text_of (canonicalize (enc_event (genesis_of s)))) \<or>
        t = domain_text ''root-set'' (text_of (canonicalize (enc_root_body (root_body (root_of s))))) then ones else zeros\<rparr>"

definition disk_of :: "review_state \<Rightarrow> graph_disk" where
  "disk_of s = \<lparr>event_files = [(ones, Some (event_of s))], root_files = [(ones, Some (root_of s))],
     pointers = \<lambda>k. Some (make_pointer (store_host s) sample_authority (root_of s) (int k)), store_file = None\<rparr>"

lemma store_host_sound: "digest_host (store_host s)" "collation (store_host s)"
proof -
  show "digest_host (store_host s)" using hex_digests by (simp add: digest_host_def store_host_def)
  show "collation (store_host s)" proof -
    have "locale_compare (store_host s) = locale_compare code_unit_host" by (simp add: store_host_def)
    with code_unit_collation(1) show ?thesis unfolding collation_def by metis
  qed
qed

lemma text_first: "text_of (canonicalize v) = [] \<or> hd (text_of (canonicalize v)) \<noteq> CHR ''g''"
proof (cases "canonicalize v")
  case (Inr t)
  have "list_all (\<lambda>n. (char_of (48 + n) :: char) \<noteq> CHR ''g'') [0..<10]" by code_simp
  then have c: "n < 10 \<Longrightarrow> (char_of (48 + n) :: char) \<noteq> CHR ''g''" for n :: nat by (simp add: list_all_iff)
  have d: "digits n \<noteq> [] \<and> hd (digits n) \<noteq> CHR ''g''" for n
  proof (induction n rule: digits.induct)
    case (1 n)
    then show ?case using c by (cases "n < 10") (simp_all add: digits.simps[of n])
  qed
  from Inr show ?thesis
    using d by (cases v) (auto simp: text_of_def quote_def decimal_def object_text_def result_simps split: if_splits)
qed (simp add: text_of_def)

lemma store_chash [simp]: "chash (store_host s) v = zeros"
proof -
  have "text_of (canonicalize v) \<noteq> domain_text d t" for d t
    using text_first[of v] by (auto simp: domain_text_def)
  then show ?thesis by (simp add: chash_def store_host_def)
qed

lemma store_dhash:
  "dhash (store_host s) d v = (if (d = ''event'' \<and> text_of (canonicalize v) = text_of (canonicalize (enc_event (genesis_of s)))) \<or>
     (d = ''root-set'' \<and> text_of (canonicalize v) = text_of (canonicalize (enc_root_body (root_body (root_of s))))) then ones else zeros)"
  if "d = ''event'' \<or> d = ''root-set''"
  using that by (auto simp: dhash_def store_host_def domain_text_def)

section \<open>The disk with one lineage\<close>

definition journal_ok :: "review_state \<Rightarrow> bool" where
  "journal_ok s \<longleftrightarrow> list_all (\<lambda>e. encodable (enc_journal_entry e)) (request_journal s)"

text \<open>A state that may stand at the start of a lineage, small enough to be read back.\<close>

definition storable :: "review_state \<Rightarrow> bool" where
  "storable s \<longleftrightarrow> assertState (store_host s) s None = Inr () \<and> revision s = 0 \<and> journal_ok s \<and>
     text_bound (enc_state s) \<le> 60000 \<and> length (lineage_id s) \<le> 100"

lemma genesis_encodable: "journal_ok s \<Longrightarrow> encodable (enc_event (genesis_of s))"
  by (rule enc_event_encodable) (auto simp: genesis_of_def journal_ok_def enc_state_encodable)

lemma head_entry_encodable: "encodable (enc_entry e)"
  by (simp add: enc_entry_def)

lemma root_encodable: "encodable (enc_root_body b)"
  by (cases "predecessor_root b")
    (auto simp: enc_root_body_def enc_authority_def enc_incarnation_def enc_null_def enc_list_def head_entry_encodable list_all_iff
      enc_opt_def split: option.split)

lemma event_domain: "domain_ok ''event''"
  by code_simp

lemma disk_event:
  assumes "storable s"
  shows "readEvent (store_host s) (disk_of s) ones = Inr (event_of s)"
proof -
  note s = assms[unfolded storable_def]
  have e: "encodable (enc_event (genesis_of s))" using genesis_encodable s by blast
  have "assertBody (genesis_of s) = Inr ()"
    using s hex_digests(1) by (auto simp: assertBody_def genesis_of_def EVENT_SCHEMA_def incarnation_ok_def no_incarnation_def
        schema_digest_def assertState_def assertLineageId_def safe_integer_def REDUCER_TRANSITIONS_def result_simps)
  moreover have "domainHashV1 (store_host s) ''event'' (enc_event (genesis_of s)) = Inr ones"
    using domainHash_encodable[OF e event_domain] by (simp add: store_dhash)
  moreover have "fits (enc_event_envelope (event_of s))"
    using e s hex_digests(4,5)
    by (intro fits_bound) (auto simp: enc_event_envelope_def event_of_def enc_event_def genesis_of_def enc_incarnation_def
        no_incarnation_def enc_null_def EVENT_SCHEMA_def)
  ultimately show ?thesis
    using hex_digests(2) by (simp add: readEvent_iff validate_event_iff event_of_def disk_of_def)
qed

lemma disk_healthy:
  assumes "storable s"
  shows "healthy (store_host s) sample_authority (disk_of s) (root_of s)"
proof -
  have l: "length (lineage_id s) \<le> 100" using assms by (simp add: storable_def)
  have "dhash (store_host s) ''root-set'' (enc_root_body (root_body (root_of s))) = ones" by (simp add: store_dhash)
  moreover have "fits (enc_root_set (root_of s))"
    using l hex_digests(4,5)
    by (intro fits_bound) (auto simp: enc_root_set_def root_encodable, simp add: root_of_def enc_root_body_def enc_authority_def
        enc_incarnation_def no_incarnation_def enc_null_def enc_list_def enc_entry_def head_entry_def event_of_def genesis_of_def
        sample_authority_def ROOT_SCHEMA_def)
  ultimately have r: "readRootSet (store_host s) (disk_of s) ones = Inr (root_of s)"
    by (simp add: readRootSet_def disk_of_def) (simp add: root_of_def)
  have "pointer_valid (store_host s) sample_authority (make_pointer (store_host s) sample_authority (root_of s) e)" for e
    by (rule make_pointer_valid) (simp add: root_of_def hex_digests)
  then have "target (store_host s) sample_authority (disk_of s) k = Some (root_target (root_of s))" for k
    by (simp add: target_def readPointer_def disk_of_def root_target_def)
  with r show ?thesis by (simp add: healthy_def) (simp add: root_of_def)
qed

lemma disk_view:
  assumes "storable s"
  shows "view (store_host s) sample_authority (disk_of s) (lineage_id s) = Some s"
proof -
  note s = assms[unfolded storable_def]
  have "replay_event (store_host s) None (genesis_of s) = Inr s"
    using s by (simp add: replay_event_def genesis_of_def Let_def)
  then have "validateReviewGraphReplayV1 (store_host s) [event_of s] = Inr s"
    by (simp add: validateReviewGraphReplayV1_def event_of_def)
  moreover have "walk (store_host s) (disk_of s) None (lineage_id s) 0 (Some ones) [] = Inr ([event_of s], 0)"
    using s by (subst walk_step) (simp add: disk_event[OF assms] matches_descriptor_def, simp add: event_of_def genesis_of_def)
  moreover have "readCurrent (store_host s) sample_authority (disk_of s) = Inr (root_of s)"
    using quorate_current[OF healthy_quorate[OF disk_healthy[OF assms]]] .
  moreover have "live_descriptor sample_authority (disk_of s) = Inr None" by (simp add: live_descriptor_def disk_of_def)
  moreover have "find_lineage (lineage_id s) (lineages (root_body (root_of s))) = Some (head_entry (event_of s))"
    by (simp add: find_lineage_def root_of_def head_entry_def event_of_def genesis_of_def)
  moreover have "head_event_id (head_entry (event_of s)) = ones" "entry_sequence (head_entry (event_of s)) = 0"
    "entry_state_hash (head_entry (event_of s)) = zeros"
    by (simp_all add: head_entry_def event_of_def genesis_of_def)
  ultimately show ?thesis
    unfolding view_Some readGraphState_iff
    by (intro exI[of _ "root_of s"] exI[of _ None] exI[of _ "head_entry (event_of s)"] exI[of _ "[event_of s]"])
      (simp add: matches_descriptor_def del: walk.simps)
qed

section \<open>Writes that succeed\<close>

lemma try_opt_simps [simp]: "try_opt (Inr x) = Some x" "try_opt (Inl e) = None"
  by (simp_all add: try_opt_def)

lemma write_succeeds:
  assumes "digest_host E" "healthy E auth d old" "find_lineage (lineage_id n) (lineages (root_body old)) = Some entry"
    "v = try_opt (readStoreDescriptor auth d)" "clone_input i = Inr i'"
    "createReviewEventV1 E (next_event E v (Some (head_event_id entry)) t i' n) = Inr ev"
    "fits (enc_event_envelope ev)" "map_of (event_files d) (event_id ev) = None"
    "root = next_root E auth v (Some old) ev" "safe_integer (generation root)" "0 < generation root"
    "map_of (root_files d) (dhash E ''root-set'' (enc_root_body root)) = None"
    "fits (enc_root_set \<lparr>root_body = root, root_set_id = dhash E ''root-set'' (enc_root_body root)\<rparr>)"
    "\<forall>k. \<not> faults k"
  shows "\<exists>d'. writeGraphState E auth faults n (Some p) t i d = (Inr (), d')"
proof -
  have cur: "readCurrent E auth d = Inr old" using quorate_current[OF healthy_quorate[OF assms(2)]] .
  let ?r = "\<lparr>root_body = root, root_set_id = dhash E ''root-set'' (enc_root_body root)\<rparr>"
  define d1 where "d1 = d\<lparr>event_files := (event_id ev, Some ev) # event_files d\<rparr>"
  define d2 where "d2 = d1\<lparr>root_files := (root_set_id ?r, Some ?r) # root_files d1\<rparr>"
  have i1: "installEvent E d ev = Inr d1"
    using assms(6-8) created_event_valid[OF assms(1)] by (simp add: installEvent_iff install_immutable_iff d1_def)
  have dig: "DIGEST (root_set_id old)"
    using assms(2) readRootSet_digest[OF assms(1), of d] unfolding healthy_def by blast
  have i2: "installRootSet E auth d1 root = Inr (?r, d2)"
    using assms(9-12) dig by (auto simp: installRootSet_iff install_immutable_iff d1_def d2_def next_root_def)
  have h: "healthy E auth d2 old"
    using healthy_grows[OF assms(2) grows_trans[OF installEvent_reads(2)[OF i1] installRootSet_grows(1)[OF i2]]]
      installEvent_reads(3)[OF i1] installRootSet_grows(3)[OF i2] by simp
  have "publish_check E auth d2 ?r = Inr ()"
    using installRootSet_reads[OF i2] assms(9,13) quorate_current[OF healthy_quorate[OF h]]
    unfolding publish_check_iff by (simp add: next_root_def)
  moreover obtain res d' where pub: "publishRootSet E auth faults d2 ?r = (res, d')" by fastforce
  ultimately have "res = Inr ()" using publish_free[OF assms(1) pub] assms(14) by blast
  then show ?thesis
    unfolding writeGraphState_def Let_def using assms(3-6,9) i1 i2 pub by (simp add: cur)
qed

section \<open>An operation on the sample disk\<close>

definition sample_repository :: repository_authority where
  "sample_repository = \<lparr>common_directory = ''/c'', store_root = ''/c/reviews'', repository_identity = JNull,
     repository_id = ''r'', authority_id = ''a''\<rparr>"

definition env_of :: "review_state \<Rightarrow> (nat \<Rightarrow> bool) \<Rightarrow> store_env" where
  "env_of s faults = \<lparr>env_host = store_host s, opened = sample_repository, live_now = Inr sample_repository,
     lock_taken = Inr (), lock_released = Inr (), store_faults = faults\<rparr>"

lemma env_of_simps [simp]:
  "env_host (env_of s f) = store_host s" "auth_of (env_of s f) = sample_authority" "store_faults (env_of s f) = f"
  "store_sound (env_of s f)" "available (env_of s f) l \<longleftrightarrow> LINEAGE_ID l"
  "store_view (env_of s f) = view (store_host s) sample_authority"
  by (simp_all add: env_of_def auth_of_def sample_repository_def sample_authority_def store_sound_def store_host_sound
      available_def assertCurrentRepositoryAuthority_def store_view_def)

lemma event_sequence_norm:
  assumes "norm (enc_event b) = norm (enc_event b')"
  shows "event_sequence b = event_sequence b'"
  using obj_field_norm[OF assms[unfolded enc_event_def], of "''sequence''"]
  by (simp add: enc_incarnation_def)

lemma text_differs:
  assumes "encodable a" "encodable b" "norm a \<noteq> norm b"
  shows "text_of (canonicalize a) \<noteq> text_of (canonicalize b)"
proof
  assume "text_of (canonicalize a) = text_of (canonicalize b)"
  moreover have "ok (canonicalize a)" "ok (canonicalize b)" using assms(1,2) unfolding encodable_iff by simp_all
  ultimately have "canonicalize a = canonicalize b" by (auto simp: ok_iff text_of_def)
  with assms show False by (simp add: canonicalize_eq_iff)
qed

text \<open>The second event of the lineage and the second root set have identities of their own.\<close>

lemma sample_write:
  assumes "storable s" "lineage_id n = lineage_id s" "revision n = 1" "assertState (store_host s) n (Some s) = Inr ()"
    "clone_input i = Inr i'" "tr \<in> set REDUCER_TRANSITIONS" "(kind_for False (request_journal n) = GATE_EVALUATED) = (tr = ''gate'')"
    "encodable (enc_replay_input i')" "journal_ok n" "text_bound (enc_state n) \<le> 60000" "text_bound (enc_replay_input i') \<le> 60000"
    "length tr \<le> 100"
  shows "\<exists>d'. writeGraphState (store_host s) sample_authority (\<lambda>_. False) n (Some s) tr i (disk_of s) = (Inr (), d')"
proof -
  note s = assms(1)[unfolded storable_def]
  let ?E = "store_host s"
  let ?b = "next_event ?E None (Some ones) tr i' n"
  let ?ev = "\<lparr>body = ?b, event_id = zeros\<rparr>"
  let ?root = "next_root ?E sample_authority None (Some (root_of s)) ?ev"
  have e: "encodable (enc_event ?b)"
    using assms(8,9) by (intro enc_event_encodable) (auto simp: enc_state_encodable journal_ok_def)
  have "norm (enc_event ?b) \<noteq> norm (enc_event (genesis_of s))"
    using event_sequence_norm[of ?b "genesis_of s"] assms(3) by (auto simp: genesis_of_def)
  moreover have g: "encodable (enc_event (genesis_of s))" using genesis_encodable s by blast
  ultimately have "dhash ?E ''event'' (enc_event ?b) = zeros"
    using text_differs[OF e] by (simp add: store_dhash)
  moreover have body_ok: "assertBody ?b = Inr ()"
    using assms(2-4,6,7) hex_digests(1,2)
    by (auto simp: assertBody_def incarnation_ok_def incarnation_of_def no_incarnation_def schema_digest_def assertState_def
        assertLineageId_def safe_integer_def result_simps next_event_def)
  ultimately have ev: "createReviewEventV1 ?E ?b = Inr ?ev"
    using domainHash_encodable[OF e event_domain] by (simp add: create_event_iff)
  have n: "length (lineage_id n) \<le> 100" using s assms(2) by simp
  have kt: "length (kind_text k) \<le> 20" for k by (cases k) simp_all
  have fit: "fits (enc_event_envelope ?ev)"
    using e assms(3,10-12) hex_digests(4,5) n kt[of "kind_for False (request_journal n)"]
    by (intro fits_bound) (auto simp: enc_event_envelope_def, simp add: enc_event_def next_event_def enc_incarnation_def
        incarnation_of_def no_incarnation_def enc_null_def EVENT_SCHEMA_def)
  have gen: "generation ?root = 1" by (simp add: next_root_def root_of_def)
  have "norm (enc_root_body ?root) \<noteq> norm (enc_root_body (root_body (root_of s)))"
    using generation_norm[of ?root "root_body (root_of s)"] gen by (auto simp: root_of_def)
  then have rid: "dhash ?E ''root-set'' (enc_root_body ?root) = zeros"
    using text_differs[OF root_encodable root_encodable] by (simp add: store_dhash)
  have lin: "lineages ?root = [head_entry ?ev]"
    using assms(2) by (simp add: next_lineages_def root_of_def head_entry_def event_of_def genesis_of_def sort_by_def)
  have rest: "root_schema ?root = ROOT_SCHEMA" "root_authority ?root = sample_authority" "predecessor_root ?root = Some ones"
    "root_incarnation ?root = no_incarnation"
    by (simp_all add: next_root_def root_of_def incarnation_of_def no_incarnation_def)
  have "text_bound (enc_root_body ?root) \<le> 10000"
    using n hex_digests(4,5) assms(3) unfolding enc_root_body_def gen lin rest
    by (simp add: enc_list_def enc_entry_def head_entry_def enc_authority_def enc_incarnation_def enc_null_def
        sample_authority_def ROOT_SCHEMA_def no_incarnation_def)
  then have fit2: "fits (enc_root_set \<lparr>root_body = ?root, root_set_id = dhash ?E ''root-set'' (enc_root_body ?root)\<rparr>)"
    using hex_digests(4) unfolding rid by (intro root_set_fits) (simp_all add: root_encodable)
  have "find_lineage (lineage_id n) (lineages (root_body (root_of s))) = Some (head_entry (event_of s))"
    using assms(2) by (simp add: find_lineage_def root_of_def head_entry_def event_of_def genesis_of_def)
  moreover have "head_event_id (head_entry (event_of s)) = ones" by (simp add: head_entry_def event_of_def)
  moreover have "None = try_opt (readStoreDescriptor sample_authority (disk_of s))"
    by (simp add: readStoreDescriptor_def disk_of_def)
  moreover have "map_of (event_files (disk_of s)) zeros = None" "map_of (root_files (disk_of s)) zeros = None"
    using hex_digests(3) by (simp_all add: disk_of_def)
  ultimately show ?thesis
    using write_succeeds[OF store_host_sound(1) disk_healthy[OF assms(1)], of n "head_entry (event_of s)" None i i' tr ?ev ?root "\<lambda>_. False" s]
      assms(5) ev fit fit2 gen rid by (simp add: safe_integer_def)
qed

section \<open>A started review and its discovery\<close>

definition sample_started :: review_state where
  "sample_started = sample_state\<lparr>request_journal := [\<lparr>operation = OP_START, idempotency_key = ''start'',
     request_hash = zeros, status = COMPLETED, authorization = None, canonical_result = Some (start_result sample_state)\<rparr>]\<rparr>"

definition empty_ledger :: frozen_ledger where
  "empty_ledger = \<lparr>ledger_schema = LEDGER_SCHEMA, rows = [], frozen_ledger_hash = zeros\<rparr>"

definition sample_discovered :: review_state where
  "sample_discovered = sample_started\<lparr>ledger := Some empty_ledger, phase := DISCOVERY_COMPLETE,
     counters := zeroCounters(review_batches := 1, review_actors := 1)\<rparr>"

definition discovered_result :: json where
  "discovered_result = norm (reducerOperationResult sample_discovered 1)"

definition sample_journaled :: review_state where
  "sample_journaled = sample_discovered\<lparr>revision := 1, request_journal := request_journal sample_started @
     [\<lparr>operation = FREEZE_LEDGER, idempotency_key = ''discovery'', request_hash = zeros, status = COMPLETED,
       authorization = None, canonical_result = Some discovered_result\<rparr>]\<rparr>"

lemma started_state_of [simp]: "started_state (store_host s) sample_state ''start'' = sample_started"
  by (simp add: started_state_def sample_started_def)

lemma sample_start_valid: "assertState E sample_state None = Inr ()"
  using createReviewState_initial[OF sample_created] by blast

lemmas sample_defs = sample_started_def sample_state_def initial_state_def sample_create_def sample_snapshot_def sample_tree_def
  sample_digest_def sample_budget_def zeroCounters_def sample_store_def STATE_SCHEMA_def start_result_def

lemma lens_length: "length (lens_text l) \<le> 20"
  by (cases l) simp_all

lemma sample_bound: "text_bound (enc_state sample_started) \<le> 20000"
  using lens_length[of "dominantLens sample_evidence"] hex_digests(4)
  by (simp add: sample_defs enc_state_def immutable_fields_def terminal_fields_def enc_counters_def COUNTER_KEYS_def enc_lenses_def
      enc_list_def enc_strings_def enc_store_def enc_journal_entry_def Let_def)

lemma sample_storable: "storable sample_started"
proof -
  have "assertState (store_host sample_started) sample_started None = Inr ()"
    using sample_start_valid[of "store_host sample_started"] hex_digests(1)
    by (simp add: assertState_def sample_started_def result_simps assertDigest_def)
  moreover have "revision sample_started = 0" "length (lineage_id sample_started) \<le> 100" "journal_ok sample_started"
    by (simp_all add: sample_started_def sample_state_def initial_state_def sample_create_def journal_ok_def enc_journal_entry_def
        start_result_def Let_def)
  moreover have "text_bound (enc_state sample_started) \<le> 60000" using sample_bound by simp
  ultimately show ?thesis by (simp add: storable_def)
qed

lemma discovered_norm: "cloneCanonical (reducerOperationResult sample_discovered 1) = Inr discovered_result"
proof -
  have "encodable (reducerOperationResult sample_discovered 1)"
    by (simp add: reducerOperationResult_def sample_discovered_def sample_started_def sample_state_def)
  then show ?thesis by (auto simp: cloneCanonical_def discovered_result_def encodable_iff ok_iff)
qed

lemma discovery_reduces:
  "reduceReviewState (store_host s) sample_started (OrdinaryDiscovery []) = Inr sample_discovered"
proof -
  have "createFrozenLedger (store_host s) [] = Inr empty_ledger"
    by (simp add: createFrozenLedger_def sort_by_def Let_def empty_ledger_def)
  then show ?thesis
    by (simp add: recordOrdinaryDiscovery_def assertOrdinaryMode_def assertOrdinaryBudget_def ordinary_budget_def
        assertRouteBinding_def increment_def sample_defs sample_discovered_def Let_def fun_upd_def)
qed

lemma journaled_valid: "assertState (store_host s) sample_journaled (Some sample_started) = Inr ()"
proof -
  have "assertFrozenLedgerIntegrity (store_host s) empty_ledger = Inr ()"
    by (simp add: assertFrozenLedgerIntegrity_def createFrozenLedger_def sort_by_def Let_def empty_ledger_def)
  moreover have "assertState (store_host s) sample_started None = Inr ()"
    using sample_start_valid[of "store_host s"] hex_digests(1)
    by (simp add: assertState_def sample_started_def result_simps assertDigest_def)
  ultimately show ?thesis
    using hex_digests(1)
    by (simp add: assertState_def sample_journaled_def sample_discovered_def result_simps assertDigest_def assertCounters_def
        assertImmutableState_def immutable_fields_def COUNTER_KEYS_def) (simp add: sample_defs safe_integer_def)
qed

lemma discovery_decided:
  "decide_run (env_of s f) (reducer_run (env_of s f) l ''discovery'' (OrdinaryDiscovery [])) d sample_started =
     Inr (Inr (sample_journaled, (''ordinary-discovery'', ReduceInput (OrdinaryDiscovery [])), discovered_result))"
proof -
  have "encodable (reduction_request (OrdinaryDiscovery []))"
    using enc_reduction_ok[of "OrdinaryDiscovery []"] by (simp add: reduction_request_def)
  then have h: "canonicalHash (store_host s) (reduction_request (OrdinaryDiscovery [])) = Inr zeros"
    by (simp add: canonicalHash_chash)
  have r: "revision sample_started = 0" by (simp add: sample_defs)
  have j: "find_entry ''discovery'' (request_journal sample_started) = None" "assertNoPendingOperation sample_started = Inr ()"
    by (simp_all add: sample_started_def find_entry_def assertNoPendingOperation_def)
  show ?thesis
    unfolding decide_run_new reducer_run_def completed_run.simps env_of_simps
    using h j journaled_valid r
    by (intro conjI exI[of _ zeros] exI[of _ sample_discovered] exI[of _ "reducerOperationResult sample_discovered 1"])
      (simp_all add: discovery_reduces[unfolded reduceReviewState.simps] discovered_norm sample_journaled_def completed_entry_def)
qed

lemma clone_reduce: "clone_input (ReduceInput r) = Inr (ReduceInput r)"
  using enc_reduction_ok[of r] by (auto simp: clone_input_def cloneCanonical_def encodable_iff ok_iff)

lemma journaled_parts:
  "journal_ok sample_journaled" "kind_for False (request_journal sample_journaled) = OPERATION_COMPLETED"
  "lineage_id sample_journaled = lineage_id sample_started" "revision sample_journaled = 1"
proof -
  have "encodable discovered_result"
    using cloneCanonical_idem[OF discovered_norm] by (auto simp: cloneCanonical_def encodable_iff ok_iff result_simps)
  then show "journal_ok sample_journaled" 
    using sample_storable by (auto simp: storable_def journal_ok_def sample_journaled_def enc_journal_entry_def)
  show "kind_for False (request_journal sample_journaled) = OPERATION_COMPLETED"
    "lineage_id sample_journaled = lineage_id sample_started" "revision sample_journaled = 1"
    by (simp_all add: sample_journaled_def kind_for_def sample_discovered_def)
qed

lemma journaled_bound: "text_bound (enc_state sample_journaled) \<le> 60000"
proof -
  have "discovered_result = JObj [(''phase'', JStr ''discovery-complete''), (''revision'', JInt 1)]" by code_simp
  have "text_bound discovered_result \<le> 1000" by (subst \<open>discovered_result = _\<close>) simp
  then show ?thesis
    using lens_length[of "dominantLens sample_evidence"] hex_digests(4)
    by (simp add: sample_journaled_def sample_discovered_def empty_ledger_def LEDGER_SCHEMA_def enc_ledger_def enc_rows_def
        sample_defs enc_state_def immutable_fields_def terminal_fields_def enc_counters_def COUNTER_KEYS_def enc_lenses_def
        enc_list_def enc_strings_def enc_store_def enc_journal_entry_def Let_def)
qed

lemma sample_lineage_id: "LINEAGE_ID ''lineage-1''"
  by code_simp

lemma sample_run:
  "\<exists>d'. runReducerOperation (env_of sample_started (\<lambda>_. False)) ''lineage-1'' ''discovery'' (OrdinaryDiscovery []) (disk_of sample_started) =
     (Inr discovered_result, d')"
proof -
  let ?S = "env_of sample_started (\<lambda>_. False)"
  have l: "lineage_id sample_started = ''lineage-1''" by (simp add: sample_defs)
  have journal: "journal_ok sample_journaled" "kind_for False (request_journal sample_journaled) = OPERATION_COMPLETED"
    "text_bound (enc_state sample_journaled) \<le> 60000" "lineage_id sample_journaled = lineage_id sample_started" "revision sample_journaled = 1"
    using journaled_bound by (simp_all add: journaled_parts)
  then obtain d' where w: "writeGraphState (store_host sample_started) sample_authority (\<lambda>_. False) sample_journaled (Some sample_started)
      ''ordinary-discovery'' (ReduceInput (OrdinaryDiscovery [])) (disk_of sample_started) = (Inr (), d')"
    using sample_write[OF sample_storable journal(4,5) journaled_valid clone_reduce, of "''ordinary-discovery''" "OrdinaryDiscovery []"]
      enc_reduction_ok[of "OrdinaryDiscovery []"] by (auto simp: REDUCER_TRANSITIONS_def enc_rows_def enc_list_def)
  have "performs (store_view ?S) (store_write ?S) ''lineage-1'' (decide_run ?S (reducer_run ?S ''lineage-1'' ''discovery'' (OrdinaryDiscovery [])))
      (disk_of sample_started) discovered_result d'"
    unfolding performs_def using disk_view[OF sample_storable] discovery_decided w
    by (auto simp: l store_write_def)
  then show ?thesis unfolding runReducerOperation_run journaled_performs using sample_lineage_id by auto
qed

end
