(* ===== verification/StoreClaims.thy ===== *)
theory StoreClaims
  imports SampleStore
begin

text \<open>
  The properties of the transaction store: what an operation does to what the store shows, what
  repeating, crashing and interleaving operations do, and what a gate asks of its receipt.
\<close>

section \<open>Faults and repair\<close>

lemma same_objects_sym: "same_objects d d' \<Longrightarrow> same_objects d' d"
  by (simp add: same_objects_def)

lemma settled_view:
  assumes "digest_host E" "quorate E auth d r" "repairCurrentPointers E auth faults d = (res, d')"
  shows "view E auth d' = view E auth d"
proof
  fix k
  have q: "same_objects d d'" "quorate E auth d' r" using repair_quorate[OF assms] by simp_all
  then have "view E auth d k = Some s \<longleftrightarrow> view E auth d' k = Some s" for s
    using quorate_view[OF q(1) assms(2) q(2)] quorate_view[OF same_objects_sym[OF q(1)] q(2) assms(2)] by blast
  then show "view E auth d' k = view E auth d k" by (metis option.exhaust)
qed

abbreviation with_faults :: "store_env \<Rightarrow> (nat \<Rightarrow> bool) \<Rightarrow> store_env" where
  "with_faults S f \<equiv> S\<lparr>store_faults := f\<rparr>"

lemma with_faults_host [simp]: "env_host (with_faults S f) = env_host S"
  by simp

lemma with_faults_run [simp]:
  "reducer_run (with_faults S f) l key x = reducer_run S l key x" "decide_run (with_faults S f) q = decide_run S q"
  unfolding reducer_run_def decide_run_def [abs_def] with_faults_host by (rule refl)+

lemma with_faults_simps [simp]:
  "store_view (with_faults S f) = store_view S" "auth_of (with_faults S f) = auth_of S" "available (with_faults S f) l = available S l"
  "store_sound (with_faults S f) = store_sound S" "store_accepts (with_faults S f) = store_accepts S"
  by (simp_all add: store_view_def auth_of_def available_def assertCurrentRepositoryAuthority_def store_sound_def store_accepts_def
      fun_eq_iff)

text \<open>A run whose decision is to write, under any faults: the disk of the write, whatever is returned.\<close>

lemma journaled_write:
  assumes "available S l" "store_view S d l = Some p" "decide d p = Inr (Inr (n, t, res))" "journaled S l decide d = (out, d')"
  shows "\<exists>w. store_write S n p t d = (w, d') \<and> out = (case w of Inl e \<Rightarrow> Inl e | Inr _ \<Rightarrow> Inr res)"
proof -
  obtain tr i where t: "t = (tr, i)" by fastforce
  have "readUnlocked S d l = Inr p" using assms(2) by (simp add: store_view_read)
  moreover obtain w d2 where w: "store_write S n p (tr, i) d = (w, d2)" by fastforce
  ultimately show ?thesis
    using assms(1,3,4) t
    by (cases w) (auto simp: journaled_def withLock_def available_def assertLineageId_def write_result_def store_write_def)
qed

lemma journaled_stored:
  assumes "available S l" "store_view S d l = Some p" "decide d p = Inr (Inl res)"
  shows "journaled S l decide d = (Inr res, d)"
  using assms unfolding journaled_performs by (auto simp: performs_def)

lemma store_write_outcome:
  assumes "store_sound S" "healthy (env_host S) (auth_of S) d r" "store_view S d l = Some p" "store_accepts S p n t"
    "store_write S n p t d = (w, d')"
  shows "(readCurrent (env_host S) (auth_of S) d' = readCurrent (env_host S) (auth_of S) d \<and> store_view S d' = store_view S d \<or>
      store_view S d' = (store_view S d)(l := Some n)) \<and> (\<exists>q. quorate (env_host S) (auth_of S) d' q)"
proof -
  obtain tr i where t: "t = (tr, i)" by fastforce
  show ?thesis
    using write_refines[of "env_host S" "auth_of S" d l p n tr i "store_faults S" w d'] assms
    by (auto simp: t store_sound_def store_view_def store_write_def store_accepts_def view_Some)
qed

text \<open>Everything of a write but its publication does not depend on the faults.\<close>

lemma write_parts:
  assumes "writeGraphState E auth faults n p t i d = (Inr (), d')"
  obtains ev e1 root e2 where "installEvent E d ev = Inr e1"
    "installRootSet E auth e1 (next_root E auth (try_opt (readStoreDescriptor auth d)) (try_opt (readCurrent E auth d)) ev) = Inr (root, e2)"
    "\<And>f. writeGraphState E auth f n p t i d = publishRootSet E auth f e2 root"
    "\<And>f c. try_opt (readStoreDescriptor auth c) = try_opt (readStoreDescriptor auth d) \<Longrightarrow> readCurrent E auth c = readCurrent E auth d \<Longrightarrow>
       writeGraphState E auth f n p t i c =
         (case installEvent E c ev of Inl e \<Rightarrow> (Inl e, c) | Inr c1 \<Rightarrow>
           (case installRootSet E auth c1 (next_root E auth (try_opt (readStoreDescriptor auth d)) (try_opt (readCurrent E auth d)) ev) of
              Inl e \<Rightarrow> (Inl e, c1) | Inr (r, c2) \<Rightarrow> publishRootSet E auth f c2 r))"
proof -
  let ?existing = "case try_opt (readCurrent E auth d) of None \<Rightarrow> None | Some r \<Rightarrow> find_lineage (lineage_id n) (lineages (root_body r))"
  let ?v = "try_opt (readStoreDescriptor auth d)"
  let ?b = "bindr (clone_input i) (\<lambda>i. createReviewEventV1 E (next_event E ?v (map_option head_event_id ?existing) t i n))"
  have guards: "\<not> (p \<noteq> None \<and> ?existing = None)" "\<not> (p = None \<and> ?existing \<noteq> None)"
    using assms unfolding writeGraphState_def Let_def by (auto split: if_splits)
  then obtain ev where ev: "?b = Inr ev"
    using assms unfolding writeGraphState_def Let_def if_not_P[OF guards(1)] if_not_P[OF guards(2)] by (cases ?b) simp_all
  note W = writeGraphState_def[of E auth f n p t i d for f, unfolded Let_def if_not_P[OF guards(1)] if_not_P[OF guards(2)] ev sum.case]
  obtain e1 where e1: "installEvent E d ev = Inr e1" using assms unfolding W by (cases "installEvent E d ev") simp_all
  obtain root e2 where e2: "installRootSet E auth e1 (next_root E auth ?v (try_opt (readCurrent E auth d)) ev) = Inr (root, e2)"
    using assms unfolding W e1 by (cases "installRootSet E auth e1 (next_root E auth ?v (try_opt (readCurrent E auth d)) ev)") auto
  show thesis
  proof (rule that[OF e1 e2])
    show "writeGraphState E auth f n p t i d = publishRootSet E auth f e2 root" for f unfolding W e1 by (simp add: e2)
    show "writeGraphState E auth f n p t i c =
         (case installEvent E c ev of Inl e \<Rightarrow> (Inl e, c) | Inr c1 \<Rightarrow>
           (case installRootSet E auth c1 (next_root E auth ?v (try_opt (readCurrent E auth d)) ev) of
              Inl e \<Rightarrow> (Inl e, c1) | Inr (r, c2) \<Rightarrow> publishRootSet E auth f c2 r))"
      if "try_opt (readStoreDescriptor auth c) = ?v" "readCurrent E auth c = readCurrent E auth d" for f c
      unfolding writeGraphState_def Let_def that if_not_P[OF guards(1)] if_not_P[OF guards(2)] ev sum.case by (rule refl)
  qed
qed

lemma write_retry:
  assumes "digest_host E" "healthy E auth d old" "writeGraphState E auth (\<lambda>_. False) n p t i d = (Inr (), d0)"
    "writeGraphState E auth faults n p t i d = (w, d1)" "repairCurrentPointers E auth (\<lambda>_. False) d1 = (rep, d2)"
  shows "(\<exists>now. quorate E auth d1 now) \<and> (readCurrent E auth d1 = Inr old \<longrightarrow>
    (\<exists>d3. writeGraphState E auth (\<lambda>_. False) n p t i d2 = (Inr (), d3)))"
proof -
  have cur: "readCurrent E auth d = Inr old" using quorate_current[OF healthy_quorate[OF assms(2)]] .
  obtain ev e1 root e2 where parts: "installEvent E d ev = Inr e1"
    "installRootSet E auth e1 (next_root E auth (try_opt (readStoreDescriptor auth d)) (try_opt (readCurrent E auth d)) ev) = Inr (root, e2)"
    "\<And>f. writeGraphState E auth f n p t i d = publishRootSet E auth f e2 root"
    "\<And>f c. try_opt (readStoreDescriptor auth c) = try_opt (readStoreDescriptor auth d) \<Longrightarrow> readCurrent E auth c = readCurrent E auth d \<Longrightarrow>
       writeGraphState E auth f n p t i c =
         (case installEvent E c ev of Inl e \<Rightarrow> (Inl e, c) | Inr c1 \<Rightarrow>
           (case installRootSet E auth c1 (next_root E auth (try_opt (readStoreDescriptor auth d)) (try_opt (readCurrent E auth d)) ev) of
              Inl e \<Rightarrow> (Inl e, c1) | Inr (r, c2) \<Rightarrow> publishRootSet E auth f c2 r))"
    by (rule write_parts[OF assms(3)]) (rule that; (assumption | simp))
  have h: "healthy E auth e2 old"
    using healthy_grows[OF assms(2) grows_trans[OF installEvent_reads(2)[OF parts(1)] installRootSet_grows(1)[OF parts(2)]]]
      installEvent_reads(3)[OF parts(1)] installRootSet_grows(3)[OF parts(2)] by simp
  have check: "publish_check E auth e2 root = Inr ()"
    using publish_runs[OF assms(1), of auth "\<lambda>_. False" e2 root "Inr ()" d0] assms(3) unfolding parts(3) by blast
  obtain now where now: "quorate E auth d1 now" "same_objects e2 d1"
    using publish_outcome[OF assms(1) h] assms(4) unfolding parts(3) by blast
  have R: "same_objects d1 d2" "quorate E auth d2 now" "healthy E auth d2 now"
    using repair_quorate[OF assms(1) now(1) assms(5)] by simp_all
  have obj: "same_objects e2 d2" using now(2) R(1) same_objects_trans by blast
  have "\<exists>d3. writeGraphState E auth (\<lambda>_. False) n p t i d2 = (Inr (), d3)" if "readCurrent E auth d1 = Inr old"
  proof -
    have "now = old" using quorate_current[OF now(1)] that by simp
    then have h2: "healthy E auth d2 old" "readCurrent E auth d2 = Inr old" using R quorate_current by simp_all
    have f: "event_files d2 = event_files e2" "root_files d2 = root_files e2" "store_file d2 = store_file e2"
      using obj by (simp_all add: same_objects_def)
    have "try_opt (readStoreDescriptor auth d2) = try_opt (readStoreDescriptor auth d)"
      using installEvent_reads(2)[OF parts(1)] installRootSet_grows(1)[OF parts(2)] f(3)
      by (simp add: grows_def readStoreDescriptor_def)
    note W = parts(4)[OF this, unfolded h2(2) cur, OF refl]
    have "installEvent E d2 ev = Inr d2"
      using parts(1,2) f(1) by (auto simp: installEvent_iff installRootSet_iff install_immutable_iff)
    moreover have "installRootSet E auth d2 (next_root E auth (try_opt (readStoreDescriptor auth d)) (Some old) ev) = Inr (root, d2)"
      using parts(2) f(2) by (auto simp: cur installRootSet_iff install_immutable_iff)
    ultimately have "writeGraphState E auth f n p t i d2 = publishRootSet E auth f d2 root" for f unfolding W by simp
    moreover have "publish_check E auth d2 root = Inr ()"
      using check h2(2) quorate_current[OF healthy_quorate[OF h]] same_objects_reads(1)[OF obj]
      unfolding publish_check_iff by simp
    moreover obtain x d3 where pub: "publishRootSet E auth (\<lambda>_. False) d2 root = (x, d3)" by fastforce
    ultimately show ?thesis using publish_free[OF assms(1) pub] by simp
  qed
  with now(1) show ?thesis by blast
qed

section \<open>Properties\<close>

text \<open>
  C8: an operation is one atomic update of one lineage. When \<open>runReducerOperation\<close> returns for a key
  that the journal of the lineage does not have, its reducer accepted the state, nothing was
  pending, and the store afterwards shows the reduced state with the next revision and one more
  completed journal entry, which holds the result, and everything else as before.
\<close>

theorem operation_is_one_update:
  assumes "store_sound S" and "store_read S d l = Inr p" and "find_entry key (request_journal p) = None"
    and "runReducerOperation S l key x d = (Inr res, d')"
  shows "\<exists>m entry. reduceReviewState (env_host S) p x = Inr m \<and>
    store_view S d' = (store_view S d)(l := Some (m\<lparr>revision := revision p + 1, request_journal := request_journal p @ [entry]\<rparr>)) \<and>
    idempotency_key entry = key \<and> operation entry = operationForTransition (transition_of x) \<and> status entry = COMPLETED \<and>
    canonical_result entry = Some res \<and> res = norm (reducerOperationResult m (revision p + 1)) \<and>
    \<not> list_ex (\<lambda>e. status e = PENDING) (request_journal p) \<and> (\<exists>r. healthy (env_host S) (auth_of S) d' r)"
proof -
  have p: "store_view S d l = Some p" using assms(2) by (simp add: store_read_iff)
  have run: "performs (store_view S) (store_write S) l (decide_run S (reducer_run S l key x)) d res d'"
    using assms(4) unfolding runReducerOperation_run journaled_performs by blast
  then obtain n t where w: "decide_run S (reducer_run S l key x) d p = Inr (Inr (n, t, res))" "store_write S n p t d = (Inr (), d')"
    using p assms(3) by (auto simp: performs_def decide_run_stored reducer_run_def)
  note acc = reducer_run_accepted[OF w(1)]
  have v: "store_view S d' = (store_view S d)(l := Some n)" using lineage.write_view[OF assms(1) p acc w(2)] .
  obtain h m out where r: "reduceReviewState (env_host S) p x = Inr m" "out = reducerOperationResult m (revision p + 1)"
    "cloneCanonical out = Inr res" "assertNoPendingOperation p = Inr ()"
    "n = m\<lparr>revision := revision p + 1, request_journal := request_journal p @ [completed_entry (reducer_run S l key x) h res]\<rparr>"
    using w(1) unfolding decide_run_new by (auto simp: reducer_run_def result_simps)
  obtain tr i where t: "t = (tr, i)" by fastforce
  have "\<exists>r. healthy (env_host S) (auth_of S) d' r"
    using write_refines[of "env_host S" "auth_of S" d l p n tr i "store_faults S" "Inr ()" d'] assms(1) p acc w(2)
    by (simp add: t store_sound_def store_view_def store_write_def store_accepts_def view_Some)
  with v r show ?thesis
    by (intro exI[of _ m] exI[of _ "completed_entry (reducer_run S l key x) h res"])
      (auto simp: completed_entry_def reducer_run_def cloneCanonical_def assertNoPendingOperation_def result_simps)
qed

lemma sample_read: "store_read (env_of sample_started f) (disk_of sample_started) ''lineage-1'' = Inr sample_started"
  using disk_view[OF sample_storable] sample_lineage_id by (simp add: store_read_iff sample_defs)

theorem operation_is_one_update_witness:
  "\<exists>d'. runReducerOperation (env_of sample_started (\<lambda>_. False)) ''lineage-1'' ''discovery'' (OrdinaryDiscovery []) (disk_of sample_started) =
       (Inr discovered_result, d') \<and>
     (\<exists>m. reduceReviewState (store_host sample_started) sample_started (OrdinaryDiscovery []) = Inr m)"
proof -
  let ?S = "env_of sample_started (\<lambda>_. False)"
  obtain d' where run: "runReducerOperation ?S ''lineage-1'' ''discovery'' (OrdinaryDiscovery []) (disk_of sample_started) =
      (Inr discovered_result, d')" using sample_run by blast
  have "find_entry ''discovery'' (request_journal sample_started) = None" by (simp add: sample_started_def find_entry_def)
  from operation_is_one_update[OF _ sample_read this run] run show ?thesis by auto
qed

text \<open>
  operations are idempotent and do not disturb each other. When \<open>runReducerOperation\<close> has
  returned, running it again returns the same result and leaves the disk as it is; the same key
  with another request is refused, without a change; and what the store shows of other lineages has not changed.
\<close>

theorem operation_is_idempotent:
  assumes "store_sound S" and "runReducerOperation S l key x d = (Inr res, d')"
  shows "runReducerOperation S l key x d' = (Inr res, d') \<and>
    (chash (env_host S) (reduction_request y) \<noteq> chash (env_host S) (reduction_request x) \<longrightarrow>
       runReducerOperation S l key y d' = (Inl (IntegrityError ''Idempotency key was reused with a different request''), d')) \<and>
    (\<forall>k. k \<noteq> l \<longrightarrow> store_view S d' k = store_view S d k)"
proof -
  let ?q = "reducer_run S l key x"
  have run: "available S l" "performs (store_view S) (store_write S) l (decide_run S ?q) d res d'"
    using assms(2) unfolding runReducerOperation_run journaled_performs by blast+
  have again: "performs (store_view S) (store_write S) l (decide_run S ?q) d' res d'"
    by (rule lineage.performs_again[OF assms(1) reducer_run_accepted decide_run_again run(2)])
  have elsewhere: "store_view S d' k = store_view S d k" if "k \<noteq> l" for k
    by (rule lineage.performs_elsewhere[OF assms(1) reducer_run_accepted run(2) that])
  have "runReducerOperation S l key y d' = (Inl (IntegrityError ''Idempotency key was reused with a different request''), d')"
    if "chash (env_host S) (reduction_request y) \<noteq> chash (env_host S) (reduction_request x)"
  proof -
    obtain p where p: "store_view S d' l = Some p" "decide_run S ?q d' p = Inr (Inl res) \<or> (\<exists>n t. decide_run S ?q d' p = Inr (Inr (n, t, res)) \<and> store_write S n p t d' = (Inr (), d'))"
      using again by (auto simp: performs_def)
    have hash: "canonicalHash (env_host S) (reduction_request z) = Inr (chash (env_host S) (reduction_request z))" for z
      using enc_reduction_ok[of z] by (intro canonicalHash_chash) (simp add: reduction_request_def)
    have "decide_run S ?q d' p = Inr (Inl res)"
    proof (rule ccontr)
      assume "\<not> ?thesis"
      then obtain n t where "decide_run S ?q d' p = Inr (Inr (n, t, res))" "store_write S n p t d' = (Inr (), d')" using p(2) by blast
      then have nw: "decide_run S ?q d' p = Inr (Inr (n, t, res))" "store_write S n p t d' = (Inr (), d')" .
      have v: "store_view S d' = (store_view S d')(l := Some n)"
        by (rule lineage.write_view[OF assms(1) p(1) reducer_run_accepted[OF nw(1)] nw(2)])
      have "revision n = revision p + 1" using nw(1) unfolding decide_run_new by auto
      moreover have "p = n" using p(1) fun_cong[OF v, of l] by simp
      ultimately show False by simp
    qed
    then obtain e where "find_entry key (request_journal p) = Some e" "request_hash e = chash (env_host S) (reduction_request x)"
      using hash by (auto simp: decide_run_stored reducer_run_def)
    then have "decide_run S (reducer_run S l key y) d' p = Inl (IntegrityError ''Idempotency key was reused with a different request'')"
      using that hash by (simp add: decide_run_def reducer_run_def)
    then show ?thesis unfolding runReducerOperation_run by (rule journaled_Inl[OF run(1) p(1)])
  qed
  with again elsewhere run(1) show ?thesis by (simp add: runReducerOperation_run journaled_performs)
qed

theorem operation_is_idempotent_witness:
  "\<exists>d'. runReducerOperation (env_of sample_started (\<lambda>_. False)) ''lineage-1'' ''discovery'' (OrdinaryDiscovery []) (disk_of sample_started) =
       (Inr discovered_result, d') \<and>
     runReducerOperation (env_of sample_started (\<lambda>_. False)) ''lineage-1'' ''discovery'' (OrdinaryDiscovery []) d' = (Inr discovered_result, d')"
proof -
  let ?S = "env_of sample_started (\<lambda>_. False)"
  obtain d' where run: "runReducerOperation ?S ''lineage-1'' ''discovery'' (OrdinaryDiscovery []) (disk_of sample_started) =
      (Inr discovered_result, d')" using sample_run by blast
  from operation_is_idempotent[OF _ run] run show ?thesis by auto
qed

text \<open>
  C7: the store never loses or rewrites a lineage. Take a healthy store and any history of
  calls of the store's methods (starts, runs, both halves of prepared operations, gates and
  repairs), each under any faults and each followed by the repair that recovers the pointers. Then the store
  is healthy again, and every lineage that could be read before can be read, with the same
  immutable binding, at no smaller revision or counters, with the ledger it had frozen, the
  completed journal entries it had, and, once it was terminal, with the same outcome.
\<close>

theorem store_keeps_every_lineage:
  assumes "\<forall>(S, c) \<in> set calls. env_host S = E \<and> auth_of S = auth" and "digest_host E" and "collation E" and "healthy E auth d r"
  shows "(\<exists>r'. healthy E auth (history calls d) r') \<and>
    (\<forall>k p. view E auth d k = Some p \<longrightarrow> (\<exists>n. view E auth (history calls d) k = Some n \<and> advances E p n))"
  using assms by (rule history_advances)

theorem store_keeps_every_lineage_witness:
  "let d = history [(env_of sample_started (\<lambda>k. k = 1), RunCall ''lineage-1'' ''discovery'' (OrdinaryDiscovery [])),
       (env_of sample_started (\<lambda>_. False), RunCall ''lineage-1'' ''discovery'' (OrdinaryDiscovery []))] (disk_of sample_started) in
     \<exists>n. view (store_host sample_started) sample_authority d ''lineage-1'' = Some n \<and> advances (store_host sample_started) sample_started n"
proof -
  have "view (store_host sample_started) sample_authority (disk_of sample_started) ''lineage-1'' = Some sample_started"
    using disk_view[OF sample_storable] by (simp add: sample_defs)
  then show ?thesis
    using store_keeps_every_lineage[OF _ store_host_sound disk_healthy[OF sample_storable],
        of "[(env_of sample_started (\<lambda>k. k = 1), RunCall ''lineage-1'' ''discovery'' (OrdinaryDiscovery [])),
             (env_of sample_started (\<lambda>_. False), RunCall ''lineage-1'' ''discovery'' (OrdinaryDiscovery []))]"]
    unfolding Let_def by auto
qed

text \<open>
  C9: a crashed operation is applied exactly once. On a healthy store, let an operation that would
  return without faults be cut short by any fault, the pointers be repaired and the operation be
  repeated. The repetition returns what the undisturbed operation would have returned on the
  first disk, and the store shows exactly what it would have shown after it.
\<close>

theorem crashed_operation_applies_once:
  assumes "store_sound S" and "healthy (env_host S) (auth_of S) d r"
    and "runReducerOperation (with_faults S (\<lambda>_. False)) l key x d = (Inr res, d0)"
    and "runReducerOperation (with_faults S faults) l key x d = (out, d1)"
    and "repairCurrentPointers (env_host S) (auth_of S) (\<lambda>_. False) d1 = (rep, d2)"
  shows "rep = Inr () \<and> (\<exists>d3. runReducerOperation (with_faults S (\<lambda>_. False)) l key x d2 = (Inr res, d3) \<and>
    store_view S d3 = store_view S d0)"
proof -
  let ?q = "reducer_run S l key x" and ?C = "with_faults S (\<lambda>_. False)" and ?F = "with_faults S faults"
  note run = runReducerOperation_run[of "with_faults S f" for f, unfolded with_faults_run]
  have first: "available S l" "performs (store_view S) (store_write ?C) l (decide_run S ?q) d res d0"
    using assms(3) unfolding run journaled_performs by simp_all
  have again: "\<exists>d3. runReducerOperation ?C l key x d2 = (Inr res, d3) \<and> store_view S d3 = V"
    if "performs (store_view S) (store_write ?C) l (decide_run S ?q) d2 res d3" "store_view S d3 = V" for d3 V
    using that first(1) unfolding run journaled_performs by auto
  have E: "digest_host (env_host S)" using assms(1) by (simp add: store_sound_def)
  have sound: "store_sound ?C" "store_sound ?F" using assms(1) by simp_all
  have once: "store_view S e = (store_view S c)(l := Some n)"
    if "decide_run S ?q c p = Inr (Inr (n, t, z))" "store_view S c l = Some p" "store_write ?C n p t c = (Inr (), e)" for c e p n t z
    using lineage.write_view[OF sound(1), of c l p n t e] reducer_run_accepted[OF that(1)] that(2,3) by simp
  have same: "decide_run S ?q c p = decide_run S ?q c' p" for c c' p
    unfolding decide_run_def reducer_run_def completed_run.simps by (rule refl)
  have settled: "store_view S d2 = store_view S d1 \<and> rep = Inr ()" if "quorate (env_host S) (auth_of S) d1 q" for q
    using settled_view[OF E that assms(5)] repair_quorate[OF E that assms(5)] by (simp add: store_view_def)
  obtain p where p: "store_view S d l = Some p" using first(2) by (auto simp: performs_def)
  consider (stored) "decide_run S ?q d p = Inr (Inl res)" "d0 = d"
    | (new) n t where "decide_run S ?q d p = Inr (Inr (n, t, res))" "store_write ?C n p t d = (Inr (), d0)"
    using first(2) p by (auto simp: performs_def)
  then show ?thesis
  proof cases
    case stored
    have "d1 = d" using journaled_stored[of ?F l d p "decide_run S ?q" res] first(1) p stored(1) assms(4) unfolding run by simp
    then have s: "store_view S d2 = store_view S d" "rep = Inr ()" using settled[of r] healthy_quorate[OF assms(2)] by simp_all
    then have "performs (store_view S) (store_write ?C) l (decide_run S ?q) d2 res d2"
      using p stored(1) same[of d2 p d] by (simp add: performs_def)
    from again[OF this] s stored(2) show ?thesis by simp
  next
    case new
    have target: "store_view S d0 = (store_view S d)(l := Some n)" using once[OF new(1) p new(2)] .
    obtain w where w: "store_write ?F n p t d = (w, d1)"
      using journaled_write[of ?F l d p "decide_run S ?q" n t res out d1] first(1) p new(1) assms(4) unfolding run by auto
    obtain tr i where t: "t = (tr, i)" by fastforce
    have views: "readCurrent (env_host S) (auth_of S) d1 = readCurrent (env_host S) (auth_of S) d \<and> store_view S d1 = store_view S d \<or> store_view S d1 = (store_view S d)(l := Some n)" "\<exists>q. quorate (env_host S) (auth_of S) d1 q"
      using store_write_outcome[OF sound(2), of d r l p n t w d1] assms(2) p w reducer_run_accepted[OF new(1)] by simp_all
    then obtain q where q: "quorate (env_host S) (auth_of S) d1 q" by blast
    note s = settled[OF q]
    show ?thesis
    proof (cases "store_view S d1 = (store_view S d)(l := Some n)")
      case True
      then have "performs (store_view S) (store_write ?C) l (decide_run S ?q) d2 res d2"
        using s decide_run_again[OF new(1), of d2] by (simp add: performs_def)
      from again[OF this] s True target show ?thesis by simp
    next
      case False
      then have before: "store_view S d2 = store_view S d" using views(1) s by simp
      have "\<exists>d3. store_write ?C n p t d2 = (Inr (), d3)"
        using write_retry[OF E assms(2), of n "Some p" tr i d0 faults w d1 rep d2] new(2) w assms(5) views(1) False
          quorate_current[OF healthy_quorate[OF assms(2)]]
        by (simp add: t store_write_def)
      then obtain d3 where d3: "store_write ?C n p t d2 = (Inr (), d3)" by blast
      have "decide_run S ?q d2 p = Inr (Inr (n, t, res))" using new(1) same[of d2 p d] by simp
      then have "performs (store_view S) (store_write ?C) l (decide_run S ?q) d2 res d3" "store_view S d3 = store_view S d0"
        using d3 p before once[of d2 p n t res d3] target unfolding t by (auto simp: performs_def)
      from again[OF this] s show ?thesis by simp
    qed
  qed
qed

lemma env_of_faults [simp]: "with_faults (env_of s f) g = env_of s g"
  by (simp add: env_of_def)

theorem crashed_operation_applies_once_witness:
  "let S = env_of sample_started; crash = snd (runReducerOperation (S (\<lambda>k. k = 1)) ''lineage-1'' ''discovery'' (OrdinaryDiscovery []) (disk_of sample_started));
       repaired = snd (repairCurrentPointers (store_host sample_started) sample_authority (\<lambda>_. False) crash) in
   fst (runReducerOperation (S (\<lambda>_. False)) ''lineage-1'' ''discovery'' (OrdinaryDiscovery []) repaired) = Inr discovered_result"
proof -
  let ?S = "env_of sample_started (\<lambda>_. False)"
  obtain d0 where calm: "runReducerOperation ?S ''lineage-1'' ''discovery'' (OrdinaryDiscovery []) (disk_of sample_started) =
      (Inr discovered_result, d0)" using sample_run by blast
  obtain out d1 where crash: "runReducerOperation (env_of sample_started (\<lambda>k. k = 1)) ''lineage-1'' ''discovery'' (OrdinaryDiscovery [])
      (disk_of sample_started) = (out, d1)" by fastforce
  obtain rep d2 where repair: "repairCurrentPointers (store_host sample_started) sample_authority (\<lambda>_. False) d1 = (rep, d2)" by fastforce
  have "healthy (env_host ?S) (auth_of ?S) (disk_of sample_started) (root_of sample_started)"
    using disk_healthy[OF sample_storable] by simp
  from crashed_operation_applies_once[of ?S, unfolded env_of_faults, OF _ this calm crash] repair
  have "\<exists>d3. runReducerOperation ?S ''lineage-1'' ''discovery'' (OrdinaryDiscovery []) d2 = (Inr discovered_result, d3)" by auto
  then show ?thesis unfolding Let_def crash snd_conv repair by auto
qed

section \<open>Operations in two steps\<close>

lemma complete_entry_find:
  assumes "find_entry key j = Some e"
  shows "find_entry key (complete_entry key res j) = Some (e\<lparr>status := COMPLETED, canonical_result := Some res\<rparr>)"
  using assms unfolding find_entry_def by (induction j) (auto split: if_splits)

lemma decide_complete_again:
  assumes "decide_complete S q x d p = Inr (Inr (n, t, res))"
  shows "decide_complete S q x d' n = Inr (Inl res)"
proof -
  obtain h e m where r: "find_entry (prep_key q) (request_journal p) = Some e" "canonicalHash (env_host S) (prepared_json q) = Inr h"
    "operation e = operationForTransition (prep_transition q)" "request_hash e = h"
    "cloneCanonical (reducerOperationResult m (revision p + 1)) = Inr res"
    "n = m\<lparr>revision := revision p + 1, request_journal := complete_entry (prep_key q) res (request_journal p)\<rparr>"
    using assms unfolding decide_complete_new by blast
  have "find_entry (prep_key q) (request_journal n) = Some (e\<lparr>status := COMPLETED, canonical_result := Some res\<rparr>)"
    using complete_entry_find[OF r(1)] r(6) by simp
  then show ?thesis
    using r(2-4) cloneCanonical_idem[OF r(5)] by (simp add: decide_complete_def stored_result_def)
qed

text \<open>
  a prepared operation blocks its lineage until it is completed. After \<open>beginReducerOperation\<close>
  returned, the journal ends with its pending entry and nothing else of the lineage has changed but
  the revision; a run or another preparation under a new key is refused, without a change; so
  is the same preparation again. When \<open>completeReducerOperation\<close> returns for the same request, the
  reducer it names has been applied to what was prepared, and completing again returns the same.
\<close>

theorem prepared_operation_blocks:
  assumes "store_sound S" and "store_read S d l = Inr p" and "prep_lineage q = l" and "beginReducerOperation S q d = (Inr (), d')"
  shows "\<exists>n h a. store_view S d' = (store_view S d)(l := Some n) \<and> canonicalHash (env_host S) (prepared_json q) = Inr h \<and>
    n = p\<lparr>revision := revision p + 1, request_journal := request_journal p @ [\<lparr>operation = operationForTransition (prep_transition q),
       idempotency_key = prep_key q, request_hash = h, status = PENDING, authorization = a, canonical_result = None\<rparr>]\<rparr> \<and>
    (\<forall>key x. find_entry key (request_journal n) = None \<longrightarrow>
       runReducerOperation S l key x d' = (Inl (IntegrityError ''Unresolved pending operation blocks mutation''), d')) \<and>
    (\<forall>q'. prep_lineage q' = l \<longrightarrow> encodable (prepared_json q') \<longrightarrow> find_entry (prep_key q') (request_journal n) = None \<longrightarrow>
       beginReducerOperation S q' d' = (Inl (IntegrityError ''Unresolved pending operation blocks mutation''), d')) \<and>
    beginReducerOperation S q d' = (Inl (IntegrityError ''Unresolved pending operation blocks replay''), d') \<and>
    (\<forall>x res d2. completeReducerOperation S q x d' = (Inr res, d2) \<longrightarrow>
       (\<exists>m. reduceReviewState (env_host S) n x = Inr m \<and> transition_of x = prep_transition q \<and> store_view S d2 = (store_view S d')(l := Some
          (m\<lparr>revision := revision n + 1, request_journal := complete_entry (prep_key q) res (request_journal n)\<rparr>))) \<and>
       completeReducerOperation S q x d2 = (Inr res, d2))"
proof -
  have p: "store_view S d l = Some p" using assms(2) by (simp add: store_read_iff)
  have run: "available S l" "performs (store_view S) (store_write S) l (decide_begin S q) d () d'"
    using assms(4) unfolding beginReducerOperation_def journaled_performs assms(3) by blast+
  obtain n t where w: "decide_begin S q d p = Inr (Inr (n, t, ()))" "store_write S n p t d = (Inr (), d')"
    using run(2) p by (auto simp: performs_def decide_begin_stored)
  have v: "store_view S d' = (store_view S d)(l := Some n)" by (rule lineage.write_view[OF assms(1) p begin_accepted[OF w(1)] w(2)])
  then have here: "store_view S d' l = Some n" by simp
  obtain h a where n: "canonicalHash (env_host S) (prepared_json q) = Inr h" "find_entry (prep_key q) (request_journal p) = None"
    "n = p\<lparr>revision := revision p + 1, request_journal := request_journal p @ [\<lparr>operation = operationForTransition (prep_transition q),
       idempotency_key = prep_key q, request_hash = h, status = PENDING, authorization = a, canonical_result = None\<rparr>]\<rparr>"
    using w(1) unfolding decide_begin_new by blast
  have found: "find_entry (prep_key q) (request_journal n) = Some \<lparr>operation = operationForTransition (prep_transition q),
       idempotency_key = prep_key q, request_hash = h, status = PENDING, authorization = a, canonical_result = None\<rparr>"
    using n(2,3) by (simp add: find_entry_append) (simp add: find_entry_def)
  have pend: "assertNoPendingOperation n = Inl (IntegrityError ''Unresolved pending operation blocks mutation'')"
    using n(3) by (simp add: assertNoPendingOperation_def require_def)
  have 1: "runReducerOperation S l key x d' = (Inl (IntegrityError ''Unresolved pending operation blocks mutation''), d')"
    if "find_entry key (request_journal n) = None" for key x
    unfolding runReducerOperation_run
  proof (rule journaled_Inl[OF run(1) here])
    have "canonicalHash (env_host S) (reduction_request x) = Inr (chash (env_host S) (reduction_request x))"
      using enc_reduction_ok[of x] by (intro canonicalHash_chash) (simp add: reduction_request_def)
    then show "decide_run S (reducer_run S l key x) d' n = Inl (IntegrityError ''Unresolved pending operation blocks mutation'')"
      using that pend by (simp add: decide_run_def reducer_run_def)
  qed
  have 2: "beginReducerOperation S q' d' = (Inl (IntegrityError ''Unresolved pending operation blocks mutation''), d')"
    if "prep_lineage q' = l" "encodable (prepared_json q')" "find_entry (prep_key q') (request_journal n) = None" for q'
    unfolding beginReducerOperation_def that(1)
    by (rule journaled_Inl[OF run(1) here]) (simp add: decide_begin_def canonicalHash_chash that pend)
  have 3: "beginReducerOperation S q d' = (Inl (IntegrityError ''Unresolved pending operation blocks replay''), d')"
    unfolding beginReducerOperation_def assms(3)
    by (rule journaled_Inl[OF run(1) here]) (simp add: decide_begin_def n(1) found)
  have 4: "(\<exists>m. reduceReviewState (env_host S) n x = Inr m \<and> transition_of x = prep_transition q \<and> store_view S d2 = (store_view S d')(l := Some
          (m\<lparr>revision := revision n + 1, request_journal := complete_entry (prep_key q) res (request_journal n)\<rparr>))) \<and>
       completeReducerOperation S q x d2 = (Inr res, d2)"
    if "completeReducerOperation S q x d' = (Inr res, d2)" for x res d2
  proof -
    have perf: "performs (store_view S) (store_write S) l (decide_complete S q x) d' res d2"
      using that unfolding completeReducerOperation_def journaled_performs assms(3) by blast
    have "decide_complete S q x d' n \<noteq> Inr (Inl res)"
      by (auto simp: decide_complete_def n(1) found result_simps Let_def)
    then obtain m t' where c: "decide_complete S q x d' n = Inr (Inr (m, t', res))" "store_write S m n t' d' = (Inr (), d2)"
      using perf here by (auto simp: performs_def)
    have "store_view S d2 = (store_view S d')(l := Some m)"
      by (rule lineage.write_view[OF assms(1) here complete_accepted[OF c(1)] c(2)])
    moreover have "performs (store_view S) (store_write S) l (decide_complete S q x) d2 res d2"
      by (rule lineage.performs_again[OF assms(1) complete_accepted decide_complete_again perf])
    ultimately show ?thesis
      using c(1) run(1) unfolding decide_complete_new completeReducerOperation_def journaled_performs assms(3) by auto
  qed
  show ?thesis
    by (rule exI[of _ n], rule exI[of _ h], rule exI[of _ a],
        rule conjI[OF v conjI[OF n(1) conjI[OF n(3) conjI[OF _ conjI[OF _ conjI[OF 3]]]]]])
      ((intro allI impI, rule 1 2 4, assumption+)+)
qed

definition sample_prepare :: prepared_request where
  "sample_prepare = \<lparr>prep_lineage = ''lineage-1'', prep_transition = ORDINARY_DISCOVERY, prep_key = ''prepare'',
     prep_body = JNull, prep_authorization = None\<rparr>"

definition sample_prepared :: review_state where
  "sample_prepared = sample_started\<lparr>revision := 1, request_journal := request_journal sample_started @
     [\<lparr>operation = FREEZE_LEDGER, idempotency_key = ''prepare'', request_hash = zeros, status = PENDING,
       authorization = None, canonical_result = None\<rparr>]\<rparr>"

lemma prepared_valid: "assertState (store_host s) sample_prepared (Some sample_started) = Inr ()"
proof -
  have "assertState (store_host s) sample_started None = Inr ()"
    using sample_start_valid[of "store_host s"] hex_digests(1)
    by (simp add: assertState_def sample_started_def result_simps assertDigest_def)
  then show ?thesis
    using hex_digests(1)
    by (simp add: assertState_def sample_prepared_def result_simps assertDigest_def assertCounters_def
        assertImmutableState_def immutable_fields_def COUNTER_KEYS_def) (simp add: sample_defs safe_integer_def)
qed

lemma prepared_bound: "text_bound (enc_state sample_prepared) \<le> 60000"
  using lens_length[of "dominantLens sample_evidence"] hex_digests(4)
  by (simp add: sample_prepared_def sample_defs enc_state_def immutable_fields_def terminal_fields_def enc_counters_def
      COUNTER_KEYS_def enc_lenses_def enc_list_def enc_strings_def enc_store_def enc_journal_entry_def Let_def)

lemma sample_begin:
  "\<exists>d'. beginReducerOperation (env_of sample_started (\<lambda>_. False)) sample_prepare (disk_of sample_started) = (Inr (), d')"
proof -
  let ?S = "env_of sample_started (\<lambda>_. False)" and ?i = "PreparedInput ''ordinary-discovery'' JNull"
  have "ok (canonicalize (enc_replay_input ?i))" by code_simp
  then have i: "clone_input ?i = Inr ?i"
    by (auto simp: clone_input_def cloneCanonical_def ok_iff simp del: canonicalize.simps)
  have "\<exists>d'. writeGraphState (store_host sample_started) sample_authority (\<lambda>_. False) sample_prepared (Some sample_started)
      ''operation-prepared'' ?i (disk_of sample_started) = (Inr (), d')"
    using sample_write[OF sample_storable _ _ prepared_valid i, of "''operation-prepared''"] prepared_bound sample_storable
    by (simp add: sample_prepared_def kind_for_def REDUCER_TRANSITIONS_def storable_def journal_ok_def enc_journal_entry_def)
  then obtain d' where w: "writeGraphState (store_host sample_started) sample_authority (\<lambda>_. False) sample_prepared (Some sample_started)
      ''operation-prepared'' ?i (disk_of sample_started) = (Inr (), d')" by blast
  have "decide_begin ?S sample_prepare (disk_of sample_started) sample_started = Inr (Inr (sample_prepared, (''operation-prepared'', ?i), ()))"
    unfolding decide_begin_new using prepared_valid
    by (intro conjI exI[of _ zeros] exI[of _ None])
      (simp_all add: sample_prepare_def sample_prepared_def prepared_json_def canonicalHash_chash clone_option_def
        assertNoPendingOperation_def, simp_all add: sample_defs find_entry_def)
  then show ?thesis
    unfolding beginReducerOperation_def journaled_performs performs_def
    using disk_view[OF sample_storable] w sample_lineage_id
    by (intro exI[of _ d'] conjI exI[of _ sample_started] disjI2 exI[of _ sample_prepared] exI[of _ "(''operation-prepared'', ?i)"])
      (simp_all add: store_write_def sample_prepare_def, simp add: sample_defs)
qed

theorem prepared_operation_blocks_witness:
  "\<exists>d'. beginReducerOperation (env_of sample_started (\<lambda>_. False)) sample_prepare (disk_of sample_started) = (Inr (), d') \<and>
     beginReducerOperation (env_of sample_started (\<lambda>_. False)) sample_prepare d' =
       (Inl (IntegrityError ''Unresolved pending operation blocks replay''), d')"
proof -
  let ?S = "env_of sample_started (\<lambda>_. False)"
  obtain d' where b: "beginReducerOperation ?S sample_prepare (disk_of sample_started) = (Inr (), d')" using sample_begin by blast
  have "prep_lineage sample_prepare = ''lineage-1''" by (simp add: sample_prepare_def)
  from prepared_operation_blocks[OF _ sample_read this b] b show ?thesis by auto
qed

end
