(* ===== verification/Decoding.thy ===== *)
theory Decoding
  imports Canonical
begin

text \<open>
  The primitive decoders of \<open>lib/review-integration-v2.ts\<close>: every answer of the native provider is a
  parsed JSON value that a decoder either refuses with a \<open>TypeError\<close> naming the member at fault, or
  turns into a typed value. The regular expressions of the code are predicates on strings here. The
  second half states, for every primitive, what its acceptance means; the component proofs
  invert decoders with these facts only.
\<close>

named_theorems decode_simps \<open>what the acceptance of a decoder means\<close>

section \<open>Patterns\<close>

definition is_lower :: "char \<Rightarrow> bool" where
  "is_lower c \<longleftrightarrow> (CHR ''a'' \<le> c \<and> c \<le> CHR ''z'') \<or> is_digit c"

definition prefixed_hex :: "string \<Rightarrow> string \<Rightarrow> bool" where
  "prefixed_hex p s \<longleftrightarrow> starts_with p s \<and> length s = length p + 64 \<and> list_all is_hex (drop (length p) s)"

text \<open>\<open>/^sha256:[0-9a-f]{64}$/\<close>, \<open>/^(?:[0-9a-f]{40}|[0-9a-f]{64})$/\<close>, \<open>/^rctx[12]_[0-9a-f]{64}$/\<close>\<close>

definition SHA256 :: "string \<Rightarrow> bool" where
  "SHA256 = prefixed_hex ''sha256:''"

definition GIT_TREE :: "string \<Rightarrow> bool" where
  "GIT_TREE s \<longleftrightarrow> length s \<in> {40, 64} \<and> list_all is_hex s"

definition CONTEXT_HANDLE :: "string \<Rightarrow> bool" where
  "CONTEXT_HANDLE s \<longleftrightarrow> prefixed_hex ''rctx1_'' s \<or> prefixed_hex ''rctx2_'' s"

text \<open>\<open>/^[a-z0-9]+(?:-[a-z0-9]+)*$/\<close> for a separator: words of lower-case letters and digits\<close>

definition slug :: "char \<Rightarrow> string \<Rightarrow> bool" where
  "slug sep s \<longleftrightarrow> list_all (\<lambda>w. w \<noteq> [] \<and> list_all is_lower w) (split_on sep s)"

text \<open>\<open>/^[...]+$/\<close> for a class of characters, and \<open>/^[0-7]{6}$/\<close>\<close>

definition all_of :: "(char \<Rightarrow> bool) \<Rightarrow> string \<Rightarrow> bool" where
  "all_of p s \<longleftrightarrow> s \<noteq> [] \<and> list_all p s"

definition CODE :: "string \<Rightarrow> bool" where
  "CODE = all_of (\<lambda>c. is_lower c \<or> c = CHR ''_'')"

definition ARGUMENT_NAME :: "string \<Rightarrow> bool" where
  "ARGUMENT_NAME = all_of (\<lambda>c. is_lower c \<or> c = CHR ''_'' \<or> c = CHR ''-'')"

definition OPERATION_TOKEN :: "string \<Rightarrow> bool" where
  "OPERATION_TOKEN = all_of (\<lambda>c. is_lower c \<or> c = CHR ''-'')"

definition line_end :: "char \<Rightarrow> bool" where
  "line_end c \<longleftrightarrow> of_char c \<in> {10, 13 :: nat}"

definition SINGLE_LINE :: "string \<Rightarrow> bool" where
  "SINGLE_LINE = all_of (\<lambda>c. \<not> line_end c)"

definition FILE_MODE :: "string \<Rightarrow> bool" where
  "FILE_MODE s \<longleftrightarrow> length s = 6 \<and> list_all (\<lambda>c. CHR ''0'' \<le> c \<and> c \<le> CHR ''7'') s"

text \<open>
  \<open>/^(?!\/)(?!.*(?:^|\/)\.\.(?:\/|$)).+$/\<close>: one line, not absolute, no segment that is two dots.
  A dot matches no line terminator, so the look-ahead sees the whole of what the rest accepts.
\<close>

definition SAFE_PATH :: "string \<Rightarrow> bool" where
  "SAFE_PATH s \<longleftrightarrow> SINGLE_LINE s \<and> hd s \<noteq> CHR ''/'' \<and> ''..'' \<notin> set (split_on (CHR ''/'') s)"

section \<open>Primitives\<close>

definition keys_of :: "json \<Rightarrow> string list" where
  "keys_of v = (case v of JObj kvs \<Rightarrow> map fst kvs | _ \<Rightarrow> [])"

definition decode_record :: "json \<Rightarrow> string \<Rightarrow> json result" where
  "decode_record v l = (case v of JObj kvs \<Rightarrow> Inr v | _ \<Rightarrow> Inl (TypeError (l @ '' must be an object'')))"

definition exactRecord :: "string list \<Rightarrow> string list \<Rightarrow> bool \<Rightarrow> json \<Rightarrow> string \<Rightarrow> json result" where
  "exactRecord required optional allowAdditional v l =
     bindr (decode_record v l) (\<lambda>body.
     bindr (for_each (\<lambda>k. require (k \<in> set (keys_of body)) (TypeError (l @ ''.'' @ k @ '' is required''))) required) (\<lambda>_.
     bindr (if allowAdditional then Inr ()
       else for_each (\<lambda>k. require (k \<in> set (required @ optional)) (TypeError (l @ ''.'' @ k @ '' is not allowed''))) (keys_of body)) (\<lambda>_.
       Inr body)))"

abbreviation exact :: "string list \<Rightarrow> string list \<Rightarrow> json \<Rightarrow> string \<Rightarrow> json result" where
  "exact required optional \<equiv> exactRecord required optional False"

text \<open>A bound that may be absent.\<close>

fun within :: "('a::ord) option \<Rightarrow> 'a \<Rightarrow> bool" where
  "within None n = True"
| "within (Some m) n = (n \<le> m)"

definition decode_text :: "nat \<Rightarrow> nat option \<Rightarrow> (string \<Rightarrow> bool) \<Rightarrow> json \<Rightarrow> string \<Rightarrow> string result" where
  "decode_text minimum maximum pattern v l = (case v of
       JStr s \<Rightarrow>
         if length s < minimum \<or> \<not> within maximum (length s) \<or> \<not> pattern s
         then Inl (TypeError (l @ '' is invalid'')) else Inr s
     | _ \<Rightarrow> Inl (TypeError (l @ '' is invalid'')))"

abbreviation pattern_text :: "(string \<Rightarrow> bool) \<Rightarrow> json \<Rightarrow> string \<Rightarrow> string result" where
  "pattern_text \<equiv> decode_text 0 None"

definition nonempty :: "json \<Rightarrow> string \<Rightarrow> string result" where
  "nonempty = decode_text 1 None (\<lambda>_. True)"

definition boolean :: "json \<Rightarrow> string \<Rightarrow> bool result" where
  "boolean v l = (case v of JBool b \<Rightarrow> Inr b | _ \<Rightarrow> Inl (TypeError (l @ '' must be a boolean'')))"

definition integer :: "int \<Rightarrow> int option \<Rightarrow> json \<Rightarrow> string \<Rightarrow> int result" where
  "integer minimum maximum v l = (case v of
       JInt n \<Rightarrow>
         if \<not> safe_integer n \<or> n < minimum \<or> \<not> within maximum n
         then Inl (TypeError (l @ '' must be an integer in range'')) else Inr n
     | _ \<Rightarrow> Inl (TypeError (l @ '' must be an integer in range'')))"

definition enumeration :: "string list \<Rightarrow> json \<Rightarrow> string \<Rightarrow> string result" where
  "enumeration values v l = (case v of
       JStr s \<Rightarrow> if s \<in> set values then Inr s else Inl (TypeError (l @ '' is unsupported''))
     | _ \<Rightarrow> Inl (TypeError (l @ '' is unsupported'')))"

text \<open>
  Decoded items are compared by their canonical JSON, which tells different strings, numbers and
  records of them apart: two items have the same text exactly when they are equal.
\<close>

definition item_label :: "string \<Rightarrow> nat \<Rightarrow> string" where
  "item_label l i = l @ ''['' @ decimal (int i) @ '']''"

definition decode_array :: "nat \<Rightarrow> nat option \<Rightarrow> bool \<Rightarrow> (json \<Rightarrow> string \<Rightarrow> 'a result) \<Rightarrow> json \<Rightarrow> string \<Rightarrow> 'a list result" where
  "decode_array minimum maximum unique decodeItem v l = (case v of
       JArr vs \<Rightarrow>
         if length vs < minimum \<or> \<not> within maximum (length vs)
         then Inl (TypeError (l @ '' has an invalid length''))
         else bindr (sequence (map (\<lambda>(i, x). decodeItem x (item_label l i)) (enumerate 0 vs))) (\<lambda>xs.
           if unique \<and> \<not> distinct xs then Inl (TypeError (l @ '' must not contain duplicates'')) else Inr xs)
     | _ \<Rightarrow> Inl (TypeError (l @ '' has an invalid length'')))"

definition stringArray :: "nat \<Rightarrow> nat option \<Rightarrow> bool \<Rightarrow> (string \<Rightarrow> bool) \<Rightarrow> json \<Rightarrow> string \<Rightarrow> string list result" where
  "stringArray minimum maximum unique pattern = decode_array minimum maximum unique (decode_text 1 None pattern)"

definition enumArray :: "string list \<Rightarrow> nat \<Rightarrow> nat option \<Rightarrow> bool \<Rightarrow> json \<Rightarrow> string \<Rightarrow> string list result" where
  "enumArray values minimum maximum unique = decode_array minimum maximum unique (enumeration values)"

definition sha256 :: "json \<Rightarrow> string \<Rightarrow> string result" where
  "sha256 = pattern_text SHA256"

definition gitTree :: "json \<Rightarrow> string \<Rightarrow> string result" where
  "gitTree = pattern_text GIT_TREE"

definition lineage :: "json \<Rightarrow> string \<Rightarrow> string result" where
  "lineage = pattern_text (slug (CHR ''-''))"

definition safePath :: "json \<Rightarrow> string \<Rightarrow> string result" where
  "safePath = decode_text 1 None SAFE_PATH"

definition REVIEW_INTEGRATION_CONTRACT :: string where
  "REVIEW_INTEGRATION_CONTRACT = ''gentle-ai.review-integration/v2''"

text \<open>A member of a fixed value, \<open>if (body.k !== w) throw new TypeError(message)\<close>.\<close>

definition fixed :: "string \<Rightarrow> json \<Rightarrow> string \<Rightarrow> json \<Rightarrow> unit result" where
  "fixed k w message body = require (jget k body = w) (TypeError message)"

definition requireIdentity :: "json \<Rightarrow> string \<Rightarrow> string option \<Rightarrow> unit result" where
  "requireIdentity body schema operation = checks
     [fixed ''schema'' (JStr schema) (''schema must be '' @ schema) body,
      fixed ''contract'' (JStr REVIEW_INTEGRATION_CONTRACT) (''contract must be '' @ REVIEW_INTEGRATION_CONTRACT) body,
      (case operation of None \<Rightarrow> Inr () | Some o' \<Rightarrow> fixed ''operation'' (JStr o') (''operation must be '' @ o') body)]"

definition assertExactSet :: "string list \<Rightarrow> string list \<Rightarrow> string \<Rightarrow> unit result" where
  "assertExactSet actual expected l =
     require (length actual = length expected \<and> list_all (\<lambda>x. x \<in> set actual) expected)
       (TypeError (l @ '' does not match the required integration surface''))"

definition assertSupersetOf :: "string list \<Rightarrow> string list \<Rightarrow> string \<Rightarrow> unit result" where
  "assertSupersetOf actual required l =
     (let missing = filter (\<lambda>x. x \<notin> set actual) required in
      require (missing = []) (TypeError (l @ '' omits the required integration surface: '' @ join '', '' missing)))"

text \<open>
  A member of a record under the label of the record, and an optional one:
  \<open>body.k === undefined ? undefined : decode(body.k, label)\<close>.
\<close>

definition member_of :: "(json \<Rightarrow> string \<Rightarrow> 'a result) \<Rightarrow> string \<Rightarrow> json \<Rightarrow> string \<Rightarrow> 'a result" where
  "member_of f k body l = f (jget k body) (l @ ''.'' @ k)"

definition has :: "string \<Rightarrow> json \<Rightarrow> bool" where
  "has k body \<longleftrightarrow> jget k body \<noteq> JUndefined"

definition optional_member :: "(json \<Rightarrow> string \<Rightarrow> 'a result) \<Rightarrow> string \<Rightarrow> json \<Rightarrow> string \<Rightarrow> 'a option result" where
  "optional_member f k body l =
     (if \<not> has k body then Inr None else bindr (member_of f k body l) (\<lambda>x. Inr (Some x)))"

section \<open>What acceptance means\<close>

definition is_object :: "json \<Rightarrow> bool" where
  "is_object v \<longleftrightarrow> (\<exists>kvs. v = JObj kvs)"

text \<open>The members a closed record may have, and the ones it must have.\<close>

definition closed :: "string list \<Rightarrow> string list \<Rightarrow> json \<Rightarrow> bool" where
  "closed required optional v \<longleftrightarrow> is_object v \<and> set required \<subseteq> set (keys_of v) \<and> set (keys_of v) \<subseteq> set required \<union> set optional"

lemma record_ok [decode_simps]: "decode_record v l = Inr b \<longleftrightarrow> is_object v \<and> b = v"
  by (auto simp: decode_record_def is_object_def split: json.splits)

lemma exact_ok [decode_simps]: "exact required optional v l = Inr b \<longleftrightarrow> closed required optional v \<and> b = v"
  by (auto simp: exactRecord_def closed_def result_simps decode_simps)

lemma open_record_ok [decode_simps]:
  "exactRecord required optional True v l = Inr b \<longleftrightarrow> is_object v \<and> set required \<subseteq> set (keys_of v) \<and> b = v"
  by (auto simp: exactRecord_def result_simps decode_simps)

lemma text_ok [decode_simps]:
  "decode_text mn mx p v l = Inr s \<longleftrightarrow> v = JStr s \<and> mn \<le> length s \<and> within mx (length s) \<and> p s"
  by (auto simp: decode_text_def split: json.splits option.splits)

lemma nonempty_ok [decode_simps]: "nonempty v l = Inr s \<longleftrightarrow> v = JStr s \<and> s \<noteq> []"
  by (cases s) (auto simp: nonempty_def decode_simps)

lemma boolean_ok [decode_simps]: "boolean v l = Inr b \<longleftrightarrow> v = JBool b"
  by (auto simp: boolean_def split: json.splits)

lemma integer_ok [decode_simps]:
  "integer mn mx v l = Inr n \<longleftrightarrow> v = JInt n \<and> safe_integer n \<and> mn \<le> n \<and> within mx n"
  by (auto simp: integer_def split: json.splits option.splits)

lemma enumeration_ok [decode_simps]: "enumeration values v l = Inr s \<longleftrightarrow> v = JStr s \<and> s \<in> set values"
  by (auto simp: enumeration_def split: json.splits)

lemma shapes_ok [decode_simps]:
  "sha256 v l = Inr s \<longleftrightarrow> v = JStr s \<and> SHA256 s"
  "gitTree v l = Inr s \<longleftrightarrow> v = JStr s \<and> GIT_TREE s"
  "lineage v l = Inr s \<longleftrightarrow> v = JStr s \<and> slug (CHR ''-'') s"
  by (auto simp: sha256_def gitTree_def lineage_def decode_simps)

lemma safePath_ok [decode_simps]: "safePath v l = Inr s \<longleftrightarrow> v = JStr s \<and> SAFE_PATH s"
  by (cases s) (auto simp: safePath_def decode_simps SAFE_PATH_def SINGLE_LINE_def all_of_def)

lemma array_ok [decode_simps]:
  "decode_array mn mx u f v l = Inr xs \<longleftrightarrow>
     (\<exists>vs. v = JArr vs \<and> mn \<le> length vs \<and> within mx (length vs) \<and> length xs = length vs \<and>
        (\<forall>i < length vs. f (vs ! i) (item_label l i) = Inr (xs ! i)) \<and> (u \<longrightarrow> distinct xs))"
proof (cases "\<exists>vs. v = JArr vs")
  case True
  then obtain vs where v: "v = JArr vs" by blast
  have "map (\<lambda>(i, x). f x (item_label l i)) (enumerate 0 vs) = map Inr xs \<longleftrightarrow>
      length xs = length vs \<and> (\<forall>i < length vs. f (vs ! i) (item_label l i) = Inr (xs ! i))"
    by (auto simp: list_eq_iff_nth_eq nth_enumerate_eq)
  then show ?thesis
    unfolding v decode_array_def json.case if_Inl_eq_Inr bindr_eq_Inr sequence_eq_Inr by auto
next
  case False
  then show ?thesis by (auto simp: decode_array_def split: json.splits)
qed

lemma array_items:
  assumes "decode_array mn mx u f v l = Inr xs" and "x \<in> set xs"
  obtains w k where "f w k = Inr x"
  using assms by (force simp: decode_simps in_set_conv_nth)

lemma string_items:
  "(\<exists>vs. v = JArr vs \<and> M (length vs) \<and> length xs = length vs \<and> (\<forall>i < length vs. vs ! i = JStr (xs ! i) \<and> P (xs ! i)) \<and> Q) \<longleftrightarrow>
     v = JArr (map JStr xs) \<and> M (length xs) \<and> (\<forall>x \<in> set xs. P x) \<and> Q" (is "?l \<longleftrightarrow> ?r")
proof
  assume ?l
  then obtain vs where v: "v = JArr vs" "M (length vs)" "length xs = length vs" "\<forall>i < length vs. vs ! i = JStr (xs ! i) \<and> P (xs ! i)" Q
    by blast
  have "vs = map JStr xs" using v(3,4) by (intro nth_equalityI) simp_all
  moreover have "\<forall>x \<in> set xs. P x" using v(3,4) unfolding all_set_conv_all_nth by metis
  ultimately show ?r using v(1,2,5) by simp
next
  assume ?r
  then show ?l by (intro exI[of _ "map JStr xs"]) (simp add: all_set_conv_all_nth)
qed

lemma item_text_ok: "decode_text (Suc 0) None p v l = Inr s \<longleftrightarrow> v = JStr s \<and> s \<noteq> [] \<and> p s"
  by (cases s) (auto simp: text_ok)

lemma stringArray_ok [decode_simps]:
  "stringArray mn mx u p v l = Inr xs \<longleftrightarrow>
     v = JArr (map JStr xs) \<and> (mn \<le> length xs \<and> within mx (length xs)) \<and> (\<forall>x \<in> set xs. x \<noteq> [] \<and> p x) \<and> (u \<longrightarrow> distinct xs)"
proof -
  have "stringArray mn mx u p v l = Inr xs \<longleftrightarrow>
      (\<exists>vs. v = JArr vs \<and> (mn \<le> length vs \<and> within mx (length vs)) \<and> length xs = length vs \<and>
        (\<forall>i < length vs. vs ! i = JStr (xs ! i) \<and> (xs ! i \<noteq> [] \<and> p (xs ! i))) \<and> (u \<longrightarrow> distinct xs))"
    by (auto simp: stringArray_def array_ok item_text_ok)
  also have "\<dots> \<longleftrightarrow> v = JArr (map JStr xs) \<and> (mn \<le> length xs \<and> within mx (length xs)) \<and> (\<forall>x \<in> set xs. x \<noteq> [] \<and> p x) \<and> (u \<longrightarrow> distinct xs)"
    by (rule string_items[where M = "\<lambda>n. mn \<le> n \<and> within mx n" and P = "\<lambda>x. x \<noteq> [] \<and> p x"])
  finally show ?thesis .
qed

lemma enumArray_ok [decode_simps]:
  "enumArray values mn mx u v l = Inr xs \<longleftrightarrow>
     v = JArr (map JStr xs) \<and> (mn \<le> length xs \<and> within mx (length xs)) \<and> (\<forall>x \<in> set xs. x \<in> set values) \<and> (u \<longrightarrow> distinct xs)"
proof -
  have "enumArray values mn mx u v l = Inr xs \<longleftrightarrow>
      (\<exists>vs. v = JArr vs \<and> (mn \<le> length vs \<and> within mx (length vs)) \<and> length xs = length vs \<and>
        (\<forall>i < length vs. vs ! i = JStr (xs ! i) \<and> xs ! i \<in> set values) \<and> (u \<longrightarrow> distinct xs))"
    by (auto simp: enumArray_def array_ok enumeration_ok)
  also have "\<dots> \<longleftrightarrow> v = JArr (map JStr xs) \<and> (mn \<le> length xs \<and> within mx (length xs)) \<and> (\<forall>x \<in> set xs. x \<in> set values) \<and> (u \<longrightarrow> distinct xs)"
    by (rule string_items[where M = "\<lambda>n. mn \<le> n \<and> within mx n" and P = "\<lambda>x. x \<in> set values"])
  finally show ?thesis .
qed

lemma fixed_ok [decode_simps]: "fixed k w m b = Inr u \<longleftrightarrow> jget k b = w"
  by (simp add: fixed_def result_simps)

lemma requireIdentity_ok [decode_simps]:
  "requireIdentity b schema op = Inr u \<longleftrightarrow> jget ''schema'' b = JStr schema \<and>
     jget ''contract'' b = JStr REVIEW_INTEGRATION_CONTRACT \<and> (\<forall>p. op = Some p \<longrightarrow> jget ''operation'' b = JStr p)"
  by (auto simp: requireIdentity_def result_simps decode_simps split: option.splits)

text \<open>
  The length and the inclusion together say that both lists are the same up to order, when the
  expected one has no duplicates.
\<close>

lemma assertExactSet_ok [decode_simps]:
  "assertExactSet actual expected l = Inr u \<longleftrightarrow> length actual = length expected \<and> set expected \<subseteq> set actual"
  by (auto simp: assertExactSet_def result_simps list_all_iff)

lemma exact_set_perm:
  assumes "length xs = length ys" and "set ys \<subseteq> set xs" and "distinct ys"
  shows "distinct xs" and "set xs = set ys"
proof -
  have "card (set ys) = length xs" using assms(1,3) by (simp add: distinct_card)
  moreover have "card (set xs) \<le> length xs" by (rule card_length)
  moreover have "card (set ys) \<le> card (set xs)" by (rule card_mono[OF _ assms(2)]) simp
  ultimately have c: "card (set xs) = length xs" "card (set ys) = card (set xs)" by linarith+
  show "distinct xs" using c(1) by (rule card_distinct)
  show "set xs = set ys" using card_subset_eq[OF _ assms(2) c(2)] by simp
qed

lemma assertSupersetOf_ok [decode_simps]: "assertSupersetOf actual required l = Inr u \<longleftrightarrow> set required \<subseteq> set actual"
  by (auto simp: assertSupersetOf_def Let_def result_simps filter_empty_conv)

lemma optional_ok [decode_simps]:
  "optional_member f k b l = Inr y \<longleftrightarrow>
     (case y of None \<Rightarrow> \<not> has k b | Some x \<Rightarrow> has k b \<and> member_of f k b l = Inr x)"
  by (auto simp: optional_member_def result_simps split: option.splits)

lemma has_key: "has k b \<Longrightarrow> k \<in> set (keys_of b)"
  by (force simp: has_def jget_def keys_of_def split: json.splits option.splits dest: map_of_SomeD)

end
