(* ===== verification/CapabilityDecoder.thy ===== *)
theory CapabilityDecoder
  imports Decoding
begin

text \<open>
  The capabilities of the native provider (\<open>decodeReviewCapabilitiesV2\<close>,
  \<open>lib/review-integration-v2.ts\<close>): which protocol minors are accepted, the surface each of them must
  advertise, and the decoder that accepts a provider exactly when it offers at least that surface
  and is the executable that was verified.
\<close>

section \<open>The required surface\<close>

definition REQUIRED_OPERATIONS :: "string list" where
  "REQUIRED_OPERATIONS = [''review.repair'', ''review.start'', ''review.status'']"

definition REQUIRED_GATES :: "string list" where
  "REQUIRED_GATES = [''post-apply'', ''pre-commit'', ''pre-push'', ''pre-pr'', ''release'']"


definition REQUIRED_PROJECTIONS :: "string list" where
  "REQUIRED_PROJECTIONS = [''staged'', ''workspace'']"

definition AUTHORITY_VERSIONS :: "string list" where
  "AUTHORITY_VERSIONS = [''compact-v2'', ''legacy-v1'']"

definition REQUIRED_SCHEMAS_COMMON :: "string list" where
  "REQUIRED_SCHEMAS_COMMON = [''gentle-ai.review-admitted-result/v2'', ''gentle-ai.review-artifact-subject/v2'',
     ''gentle-ai.review-authority-repair-assessment/v1'', ''gentle-ai.review-authority-status/v1'',
     ''gentle-ai.review-gate-request/v1'', ''gentle-ai.review-integration.failure/v2'',
     ''gentle-ai.review-final-verification-incident/v1'', ''gentle-ai.review-integration.operation/v2'',
     ''gentle-ai.review-integration.projection/v1'', ''gentle-ai.review-integration.repair/v2'',
     ''gentle-ai.review-receipt/v1'', ''gentle-ai.review-receipt/v2'', ''gentle-ai.review-result-artifact/v2'',
     ''gentle-ai.review-targeted-validation-request/v1'', ''gentle-ai.review-verification-evidence/v2'',
     ''https://gentle-ai.dev/schema/review/refuter/v1'', ''https://gentle-ai.dev/schema/review/reviewer/v1'',
     ''https://gentle-ai.dev/schema/review/validator/v1'']"

definition REQUIRED_MANDATORY_FEATURES_V23 :: "string list" where
  "REQUIRED_MANDATORY_FEATURES_V23 = [''compact_v2_authority'', ''immutable_snapshot'', ''legacy_v1_target_scoped_read_only'',
     ''repository_independent_capabilities'', ''restart_safe_projection'', ''target_scoped_status'',
     ''uniform_failure_envelope'']"

definition RETIRED_SCHEMAS_V23 :: "string list" where
  "RETIRED_SCHEMAS_V23 = [''gentle-ai.review-final-verification-incident/v1'', ''gentle-ai.review-receipt/v2'',
     ''gentle-ai.review-verification-evidence/v2'']"

definition REQUIRED_SCHEMAS_COMMON_V23 :: "string list" where
  "REQUIRED_SCHEMAS_COMMON_V23 = filter (\<lambda>s. s \<notin> set RETIRED_SCHEMAS_V23) REQUIRED_SCHEMAS_COMMON"

definition OPTIONAL_FEATURE_NAMES :: "string list" where
  "OPTIONAL_FEATURE_NAMES = [''base_ref_workspace_overlay'', ''bounded_process_waits'', ''classified_authority_repair'',
     ''exact_gate_receipt_discovery'', ''native_frozen_candidate_context'', ''native_low_risk_verification'',
     ''native_next_transition'', ''one_shot_final_verification_retry'', ''opaque_repository_context'',
     ''outcome_bound_verification_evidence'', ''provider_artifact_admission'', ''provider_bound_native_git_context'',
     ''provider_targeted_validation_request'', ''recovered_correction_evidence'', ''risk_reasons'',
     ''scope_change_diagnostics'', ''validating_result_reopen'']"

definition FEATURE_NAMES :: "string list" where
  "FEATURE_NAMES = [''base_ref_workspace_overlay'', ''bounded_process_waits'', ''classified_authority_repair'',
     ''compact_v2_authority'', ''exact_gate_receipt_discovery'', ''exact_receipt_replay'', ''five_delivery_gates'',
     ''immutable_snapshot'', ''legacy_v1_target_scoped_read_only'', ''native_frozen_candidate_context'',
     ''native_low_risk_verification'', ''native_next_transition'', ''one_shot_final_verification_retry'',
     ''opaque_repository_context'', ''outcome_bound_verification_evidence'', ''provider_artifact_admission'',
     ''provider_bound_native_git_context'', ''provider_targeted_validation_request'',
     ''recovered_correction_evidence'', ''repository_independent_capabilities'', ''restart_safe_projection'',
     ''risk_reasons'', ''scope_change_diagnostics'', ''sdd_receipt_binding'', ''target_scoped_status'',
     ''uniform_failure_envelope'', ''validating_result_reopen'']"

definition REQUIRED_MANDATORY_FEATURES :: "string list" where
  "REQUIRED_MANDATORY_FEATURES = filter (\<lambda>n. n \<notin> set OPTIONAL_FEATURE_NAMES) FEATURE_NAMES"

text \<open>The accepted schema identities, by protocol minor.\<close>

record capabilities_identity =
  protocolMinor :: int
  requiredSchemas :: "string list"
  requiredMandatoryFeatures :: "string list option"
  optionalFeatureFloor :: "nat option"

definition identity_schemas :: "string list \<Rightarrow> string \<Rightarrow> string \<Rightarrow> string \<Rightarrow> string \<Rightarrow> string list" where
  "identity_schemas common suffix consent start status = common @
     [''gentle-ai.review-integration.capabilities/'' @ suffix, ''gentle-ai.review-integration.consent/'' @ consent,
      ''gentle-ai.review-integration.start/'' @ start, ''gentle-ai.review-integration.status/'' @ status]"

definition selection_schema :: "string" where
  "selection_schema = ''gentle-ai.review-intended-untracked-selection/v1''"

definition CAPABILITIES_SCHEMA_IDENTITIES :: "(string \<times> capabilities_identity) list" where
  "CAPABILITIES_SCHEMA_IDENTITIES =
     [(''gentle-ai.review-integration.capabilities/v2'', \<lparr>protocolMinor = 0,
         requiredSchemas = identity_schemas REQUIRED_SCHEMAS_COMMON ''v2'' ''v2'' ''v3'' ''v3'',
         requiredMandatoryFeatures = None, optionalFeatureFloor = None\<rparr>),
      (''gentle-ai.review-integration.capabilities/v2.1'', \<lparr>protocolMinor = 1,
         requiredSchemas = identity_schemas REQUIRED_SCHEMAS_COMMON ''v2.1'' ''v3'' ''v3'' ''v3'',
         requiredMandatoryFeatures = None, optionalFeatureFloor = None\<rparr>),
      (''gentle-ai.review-integration.capabilities/v2.2'', \<lparr>protocolMinor = 2,
         requiredSchemas = identity_schemas REQUIRED_SCHEMAS_COMMON ''v2.2'' ''v3'' ''v3'' ''v5'',
         requiredMandatoryFeatures = None, optionalFeatureFloor = None\<rparr>),
      (''gentle-ai.review-integration.capabilities/v2.3'', \<lparr>protocolMinor = 3,
         requiredSchemas = identity_schemas REQUIRED_SCHEMAS_COMMON_V23 ''v2.3'' ''v3'' ''v4'' ''v5'',
         requiredMandatoryFeatures = Some REQUIRED_MANDATORY_FEATURES_V23, optionalFeatureFloor = Some 14\<rparr>),
      (''gentle-ai.review-integration.capabilities/v2.4'', \<lparr>protocolMinor = 4,
         requiredSchemas = identity_schemas REQUIRED_SCHEMAS_COMMON_V23 ''v2.4'' ''v3'' ''v4'' ''v6'' @ [selection_schema],
         requiredMandatoryFeatures = Some REQUIRED_MANDATORY_FEATURES_V23, optionalFeatureFloor = Some 14\<rparr>),
      (''gentle-ai.review-integration.capabilities/v2.5'', \<lparr>protocolMinor = 5,
         requiredSchemas = identity_schemas REQUIRED_SCHEMAS_COMMON_V23 ''v2.5'' ''v3'' ''v4'' ''v6'' @ [selection_schema],
         requiredMandatoryFeatures = Some REQUIRED_MANDATORY_FEATURES_V23, optionalFeatureFloor = Some 14\<rparr>),
      (''gentle-ai.review-integration.capabilities/v2.6'', \<lparr>protocolMinor = 6,
         requiredSchemas = identity_schemas REQUIRED_SCHEMAS_COMMON_V23 ''v2.6'' ''v3'' ''v4'' ''v6'' @ [selection_schema],
         requiredMandatoryFeatures = Some REQUIRED_MANDATORY_FEATURES_V23, optionalFeatureFloor = Some 14\<rparr>)]"

section \<open>The decoder\<close>

record review_feature =
  feature_name :: string
  supported :: bool
  requires :: "string list"

record review_capabilities =
  packageVersion :: string
  buildId :: string
  executableDigest :: string
  operations :: "string list"
  gates :: "string list"
  projections :: "string list"
  schemas :: "string list"
  mandatoryFeatures :: "string list"
  optionalFeatures :: "string list"
  capabilities_raw :: json

definition decode_feature :: "(json \<Rightarrow> string \<Rightarrow> string result) \<Rightarrow> json \<Rightarrow> string \<Rightarrow> review_feature result" where
  "decode_feature decodeName v l =
     bindr (exact [''name'', ''supported'', ''requires''] [] v l) (\<lambda>b.
     bindr (member_of decodeName ''name'' b l) (\<lambda>n.
     bindr (member_of boolean ''supported'' b l) (\<lambda>s.
     bindr (member_of (stringArray 0 None True (\<lambda>_. True)) ''requires'' b l) (\<lambda>r.
     Inr \<lparr>feature_name = n, supported = s, requires = r\<rparr>))))"

definition decodeFeature :: "json \<Rightarrow> string \<Rightarrow> review_feature result" where
  "decodeFeature = decode_feature (enumeration FEATURE_NAMES)"

definition decodeOptionalFeature :: "json \<Rightarrow> string \<Rightarrow> review_feature result" where
  "decodeOptionalFeature = decode_feature nonempty"

definition decode_package :: "json \<Rightarrow> string result" where
  "decode_package body =
     bindr (exact [''name'', ''version'', ''release_channel''] [] (jget ''package'' body) ''capabilities.package'') (\<lambda>b.
     bindr (fixed ''name'' (JStr ''gentle-ai'') ''capabilities package identity mismatch'' b) (\<lambda>_.
     bindr (member_of nonempty ''version'' b ''capabilities.package'') (\<lambda>version.
     bindr (member_of (enumeration [''development'', ''prerelease'', ''stable'']) ''release_channel'' b ''capabilities.package'') (\<lambda>_.
     Inr version))))"

definition decode_build :: "json \<Rightarrow> string result" where
  "decode_build body =
     bindr (exact [''id'', ''go_version'', ''module_version'', ''vcs'', ''vcs_revision'', ''vcs_time'', ''vcs_modified''] [] (jget ''build'' body) ''capabilities.build'') (\<lambda>b.
     bindr (member_of sha256 ''id'' b ''capabilities.build'') (\<lambda>i.
     bindr (member_of nonempty ''go_version'' b ''capabilities.build'') (\<lambda>_.
     bindr (for_each (\<lambda>k. bindr (member_of (decode_text 0 None (\<lambda>_. True)) k b ''capabilities.build'') (\<lambda>_. Inr ())) [''module_version'', ''vcs'', ''vcs_revision'', ''vcs_time'']) (\<lambda>_.
     bindr (member_of (enumeration [''true'', ''false'', ''unknown'']) ''vcs_modified'' b ''capabilities.build'') (\<lambda>_.
     Inr i)))))"

definition decode_executable :: "json \<Rightarrow> string \<Rightarrow> string result" where
  "decode_executable body verified =
     bindr (exact [''sha256'', ''evidence'', ''verification''] [] (jget ''executable'' body) ''capabilities.executable'') (\<lambda>b.
     bindr (member_of sha256 ''sha256'' b ''capabilities.executable'') (\<lambda>digest.
     bindr (require (jget ''evidence'' b = JStr ''self-reported'' \<and> jget ''verification'' b = JStr ''compare-with-published-manifest'')
       (TypeError ''capabilities executable evidence is incompatible'')) (\<lambda>_.
     bindr (sha256 (JStr (if starts_with ''sha256:'' verified then verified else ''sha256:'' @ verified)) ''verified executable digest'') (\<lambda>expected.
     bindr (require (digest = expected) (TypeError ''review provider executable digest mismatch'')) (\<lambda>_.
     Inr digest)))))"

definition advertised :: "string \<Rightarrow> nat \<Rightarrow> json \<Rightarrow> string list result" where
  "advertised k floor body = member_of (stringArray floor None True (\<lambda>_. True)) k body ''capabilities''"

definition decode_surface :: "string list \<Rightarrow> json \<Rightarrow> unit result" where
  "decode_surface required body =
     bindr (advertised ''operations'' (length REQUIRED_OPERATIONS) body) (\<lambda>advertisedOperations.
     bindr (advertised ''gates'' (length REQUIRED_GATES) body) (\<lambda>advertisedGates.
     bindr (advertised ''projections'' (length REQUIRED_PROJECTIONS) body) (\<lambda>advertisedProjections.
     bindr (advertised ''schemas'' (length required) body) (\<lambda>advertisedSchemas.
     checks
       [assertSupersetOf advertisedOperations REQUIRED_OPERATIONS ''capabilities operations'',
       assertSupersetOf advertisedGates REQUIRED_GATES ''capabilities gates'',
       assertSupersetOf advertisedProjections REQUIRED_PROJECTIONS ''capabilities projections'',
       assertSupersetOf advertisedSchemas required ''capabilities schemas'']))))"

definition decode_features :: "capabilities_identity \<Rightarrow> json \<Rightarrow> (string list \<times> review_feature list) result" where
  "decode_features i body =
     bindr (exact [''mandatory'', ''optional''] [] (jget ''features'' body) ''capabilities.features'') (\<lambda>b.
     (let required = (case requiredMandatoryFeatures i of None \<Rightarrow> REQUIRED_MANDATORY_FEATURES | Some fs \<Rightarrow> fs) in
     bindr (member_of (decode_array (length required) None False decodeFeature) ''mandatory'' b ''capabilities.features'') (\<lambda>mandatory.
     bindr (member_of (decode_array (case optionalFeatureFloor i of None \<Rightarrow> 17 | Some n \<Rightarrow> n) None True decodeOptionalFeature) ''optional'' b ''capabilities.features'') (\<lambda>optional.
     (let mandatoryNames = map feature_name mandatory; optionalNames = map feature_name optional in
     bindr (assertExactSet mandatoryNames required ''mandatory capabilities'') (\<lambda>_.
     bindr (require (distinct optionalNames) (TypeError ''optional capabilities contain duplicate names'')) (\<lambda>_.
     bindr (require (\<not> (list_ex (\<lambda>n. n \<in> set mandatoryNames) optionalNames)) (TypeError ''mandatory and optional capabilities overlap'')) (\<lambda>_.
     bindr (require (list_all supported mandatory) (TypeError ''mandatory capability is unsupported'')) (\<lambda>_.
     Inr (mandatoryNames, optional))))))))))"

definition decode_compatibility :: "json \<Rightarrow> unit result" where
  "decode_compatibility body =
     bindr (exact [''minimum_protocol_major'', ''maximum_protocol_major'', ''additive_minor_policy'', ''unknown_mandatory'', ''unknown_optional'',
       ''modes'', ''legacy_window''] [] (jget ''compatibility'' body) ''capabilities.compatibility'') (\<lambda>b.
     bindr (require (jget ''minimum_protocol_major'' b = JInt 2 \<and> jget ''maximum_protocol_major'' b = JInt 2 \<and>
       jget ''additive_minor_policy'' b = JStr ''optional-fields-only'' \<and> jget ''unknown_mandatory'' b = JStr ''reject'' \<and>
       jget ''unknown_optional'' b = JStr ''ignore'') (TypeError ''incompatible capability evolution policy'')) (\<lambda>_.
     bindr (member_of (enumArray AUTHORITY_VERSIONS 2 (Some 2) False) ''modes'' b ''capabilities.compatibility'') (\<lambda>modes.
     bindr (require (modes ! 0 = ''compact-v2'' \<and> modes ! 1 = ''legacy-v1'') (TypeError ''capabilities compatibility modes are out of order'')) (\<lambda>_.
     bindr (exact [''mode'', ''state'', ''read_only'', ''deprecation_started'', ''removal'', ''minimum_compatibility_releases''] []
       (jget ''legacy_window'' b) ''capabilities.compatibility.legacy_window'') (\<lambda>w.
     bindr (fixed ''mode'' (JStr ''legacy-v1'') ''capabilities legacy window mode is incompatible'' w) (\<lambda>_.
     bindr (member_of (enumeration [''pre-fence'', ''active'', ''deprecated'', ''expired'']) ''state'' w ''capabilities.compatibility.legacy_window'') (\<lambda>_.
     bindr (member_of boolean ''read_only'' w ''capabilities.compatibility.legacy_window'') (\<lambda>_.
     bindr (member_of boolean ''deprecation_started'' w ''capabilities.compatibility.legacy_window'') (\<lambda>_.
     bindr (member_of nonempty ''removal'' w ''capabilities.compatibility.legacy_window'') (\<lambda>_.
     bindr (member_of (integer 1 None) ''minimum_compatibility_releases'' w ''capabilities.compatibility.legacy_window'') (\<lambda>_.
     Inr ())))))))))))"

definition decode_selector_variant :: "json \<Rightarrow> string \<Rightarrow> json result" where
  "decode_selector_variant v l =
     bindr (exact [''target_type'', ''arguments''] [] v l) (\<lambda>b.
     bindr (member_of (enumeration [''staged'', ''base_ref'', ''workspace_overlay_base_ref'', ''workspace_overlay_base_tree'']) ''target_type'' b l) (\<lambda>_.
     bindr (member_of (stringArray 2 None False (\<lambda>_. True)) ''arguments'' b l) (\<lambda>_.
     Inr b)))"

definition decode_bootstrap :: "json \<Rightarrow> unit result" where
  "decode_bootstrap body = (if \<not>  has ''bootstrap'' body then Inr () else
     bindr (exact [''command'', ''target_selector_variants'', ''required_feature'', ''unsupported_outcome'', ''parent_only''] []
       (jget ''bootstrap'' body) ''capabilities.bootstrap'') (\<lambda>b.
     bindr (fixed ''command'' (JStr ''gentle-ai review status --cwd <repo> --contract gentle-ai.review-integration/v2 --next-transition'')
       ''capabilities.bootstrap.command is unsupported'' b) (\<lambda>_.
     bindr (member_of (decode_array 4 (Some 4) False decode_selector_variant) ''target_selector_variants'' b ''capabilities.bootstrap'') (\<lambda>_.
     bindr (fixed ''required_feature'' (JStr ''native_next_transition'') ''capabilities.bootstrap.required_feature is unsupported'' b) (\<lambda>_.
     bindr (fixed ''unsupported_outcome'' (JStr ''unsupported-capability'') ''capabilities.bootstrap.unsupported_outcome is unsupported'' b) (\<lambda>_.
     bindr (fixed ''parent_only'' (JBool True) ''capabilities.bootstrap.parent_only must be true'' b) (\<lambda>_.
     Inr ())))))))"

definition CAPABILITIES_KEYS :: "string list" where
  "CAPABILITIES_KEYS = [''schema'', ''contract'', ''protocol'', ''package'', ''build'', ''executable'', ''operations'', ''gates'', ''projections'',
     ''schemas'', ''features'', ''compatibility'']"

definition schema_text :: "json \<Rightarrow> string" where
  "schema_text body = (case jget ''schema'' body of JStr s \<Rightarrow> s | _ \<Rightarrow> [])"

definition decode_protocol :: "capabilities_identity \<Rightarrow> json \<Rightarrow> unit result" where
  "decode_protocol i body =
     bindr (exact [''major'', ''minor''] [] (jget ''protocol'' body) ''capabilities.protocol'') (\<lambda>b.
     require (jget ''major'' b = JInt 2 \<and> jget ''minor'' b = JInt (protocolMinor i)) (TypeError ''incompatible review integration protocol''))"

text \<open>A name that every object inherits is not an identity here; the code refuses it one check later, by its protocol.\<close>

definition decodeReviewCapabilitiesV2 :: "json \<Rightarrow> string \<Rightarrow> review_capabilities result" where
  "decodeReviewCapabilitiesV2 v verifiedExecutableDigest =
     bindr (exact CAPABILITIES_KEYS [''bootstrap''] v ''capabilities'') (\<lambda>body.
     bindr ((case map_of CAPABILITIES_SCHEMA_IDENTITIES (schema_text body) of
       None \<Rightarrow> Inl (TypeError (''schema must be one of '' @ join '', '' (map fst CAPABILITIES_SCHEMA_IDENTITIES)))
       | Some i \<Rightarrow> Inr i)) (\<lambda>i.
     bindr (requireIdentity body (schema_text body) None) (\<lambda>_.
     bindr (decode_protocol i body) (\<lambda>_.
     bindr (decode_package body) (\<lambda>version.
     bindr (decode_build body) (\<lambda>build.
     bindr (decode_executable body verifiedExecutableDigest) (\<lambda>digest.
     bindr (decode_surface (requiredSchemas i) body) (\<lambda>_.
     bindr (decode_features i body) (\<lambda>(mandatoryNames, optional).
     bindr (decode_compatibility body) (\<lambda>_.
     bindr (decode_bootstrap body) (\<lambda>_.
     Inr \<lparr>packageVersion = version, buildId = build, executableDigest = digest, operations = REQUIRED_OPERATIONS,
       gates = REQUIRED_GATES, projections = REQUIRED_PROJECTIONS, schemas = requiredSchemas i,
       mandatoryFeatures = mandatoryNames,
       optionalFeatures = map feature_name (filter (\<lambda>f. supported f \<and> feature_name f \<in> set FEATURE_NAMES) optional),
       capabilities_raw = body\<rparr>)))))))))))"

end
