(* ===== verification/TransitionDecoder.thy ===== *)
theory TransitionDecoder
  imports CapabilityDecoder
begin

text \<open>
  The next transition of a review as the native provider states it (\<open>lib/review-integration-v2.ts\<close>):
  its arguments, the inputs it wants collected and the form they are submitted in, the correction and
  validation requests, the continuation and the slots that cannot be achieved. \<open>JSON.parse\<close> is the argument
  \<open>parse\<close>: None where it throws. An optional member that is absent is None.
\<close>

section \<open>Subjects and paths\<close>

definition REVIEW_LENSES :: "string list" where
  "REVIEW_LENSES = [''review-risk'', ''review-resilience'', ''review-readability'', ''review-reliability'']"

record artifact_subject =
  subjectHash :: string
  subject_lineage :: string
  authorityRevision :: string
  subject_target :: string
  subject_base :: string
  subject_candidate :: string
  changedPathManifestSha256 :: string
  subject_lens :: string
  subject_order :: int
  correctionTargetIdentity :: "string option"

definition decodeArtifactSubject :: "json \<Rightarrow> string \<Rightarrow> artifact_subject result" where
  "decodeArtifactSubject v l =
     bindr (exact [''schema'', ''subject_hash'', ''lineage_id'', ''authority_revision'', ''target_identity'', ''base_tree'', ''candidate_tree'',
       ''changed_path_manifest_sha256'', ''lens'', ''selected_order''] [''correction_target_identity''] v l) (\<lambda>b.
     bindr (fixed ''schema'' (JStr ''gentle-ai.review-artifact-subject/v2'') (l @ ''.schema must be gentle-ai.review-artifact-subject/v2'') b) (\<lambda>_.
     bindr (member_of sha256 ''subject_hash'' b l) (\<lambda>h.
     bindr (member_of lineage ''lineage_id'' b l) (\<lambda>i.
     bindr (member_of sha256 ''authority_revision'' b l) (\<lambda>r.
     bindr (member_of sha256 ''target_identity'' b l) (\<lambda>t.
     bindr (member_of gitTree ''base_tree'' b l) (\<lambda>base.
     bindr (member_of gitTree ''candidate_tree'' b l) (\<lambda>c.
     bindr (member_of sha256 ''changed_path_manifest_sha256'' b l) (\<lambda>m.
     bindr (member_of (enumeration REVIEW_LENSES) ''lens'' b l) (\<lambda>lens.
     bindr (member_of (integer 0 (Some 3)) ''selected_order'' b l) (\<lambda>n.
     bindr (optional_member sha256 ''correction_target_identity'' b l) (\<lambda>k.
     Inr \<lparr>subjectHash = h, subject_lineage = i, authorityRevision = r, subject_target = t, subject_base = base,
       subject_candidate = c, changedPathManifestSha256 = m, subject_lens = lens, subject_order = n,
       correctionTargetIdentity = k\<rparr>))))))))))))"

record changed_path =
  changed_name :: string
  changed_status :: string
  oldMode :: string
  newMode :: string
  deleted :: bool
  typeChanged :: bool
  modeOnly :: bool
  intendedUntracked :: bool
  path_generated :: bool

definition file_mode :: "json \<Rightarrow> string \<Rightarrow> string result" where
  "file_mode = pattern_text FILE_MODE"

definition decodeChangedPathEntry :: "json \<Rightarrow> string \<Rightarrow> changed_path result" where
  "decodeChangedPathEntry v l =
     bindr (exact [''path'', ''status'', ''old_mode'', ''new_mode'', ''deleted'', ''type_changed'', ''mode_only'', ''intended_untracked''] [''generated''] v l) (\<lambda>b.
     bindr (require (\<not>  has ''generated'' b \<or> jget ''generated'' b = JBool True) (TypeError (l @ ''.generated must be true when present''))) (\<lambda>_.
     bindr (member_of nonempty ''path'' b l) (\<lambda>p.
     bindr (member_of (enumeration [''A'', ''D'', ''M'', ''T'']) ''status'' b l) (\<lambda>s.
     bindr (member_of file_mode ''old_mode'' b l) (\<lambda>old.
     bindr (member_of file_mode ''new_mode'' b l) (\<lambda>new.
     bindr (member_of boolean ''deleted'' b l) (\<lambda>d.
     bindr (member_of boolean ''type_changed'' b l) (\<lambda>t.
     bindr (member_of boolean ''mode_only'' b l) (\<lambda>m.
     bindr (member_of boolean ''intended_untracked'' b l) (\<lambda>u.
     Inr \<lparr>changed_name = p, changed_status = s, oldMode = old, newMode = new, deleted = d, typeChanged = t,
       modeOnly = m, intendedUntracked = u, path_generated = has ''generated'' b\<rparr>))))))))))"

abbreviation decode_manifest :: "json \<Rightarrow> string \<Rightarrow> changed_path list result" where
  "decode_manifest \<equiv> decode_array 0 None True decodeChangedPathEntry"

section \<open>Arguments and submissions\<close>

record argument =
  arg_name :: string
  arg_value :: string
  arg_token :: "string option"

definition decode_argument :: "json \<Rightarrow> string \<Rightarrow> argument result" where
  "decode_argument v l =
     bindr (exact [''name'', ''value''] [''token''] v l) (\<lambda>b.
     bindr (member_of (decode_text 1 None ARGUMENT_NAME) ''name'' b l) (\<lambda>n.
     bindr (member_of nonempty ''value'' b l) (\<lambda>w.
     bindr (optional_member nonempty ''token'' b l) (\<lambda>t.
     Inr \<lparr>arg_name = n, arg_value = w, arg_token = t\<rparr>))))"

definition decodeTransitionArguments :: "json \<Rightarrow> string \<Rightarrow> argument list result" where
  "decodeTransitionArguments = decode_array 0 None False decode_argument"

definition argument_text :: "string \<Rightarrow> string \<Rightarrow> string" where
  "argument_text name value = ''--'' @ name @ ''='' @ value"

record submission_value =
  slot :: string
  domain :: string
  substitutionLocation :: int
  value_schema :: "string option"
  minimum :: "int option"
  maximum :: "int option"

record capture_submission =
  operationToken :: string
  argumentTokens :: "string list"
  submission_values :: "submission_value list"

definition SELECTION_TOKENS :: "string list" where
  "SELECTION_TOKENS = [''--contract=gentle-ai.review-integration/v2'', ''--next-transition=true'', ''--agent=pi'',
     ''--projection=workspace'', ''--intended-untracked-selection={{value}}'']"

definition decode_selection_submission :: "json \<Rightarrow> string \<Rightarrow> capture_submission result" where
  "decode_selection_submission v l =
     bindr (exact [''operation_token'', ''argument_tokens'', ''value''] [] v l) (\<lambda>b.
     bindr (member_of (enumeration [''status'']) ''operation_token'' b l) (\<lambda>t.
     bindr (member_of (stringArray (length SELECTION_TOKENS) (Some (length SELECTION_TOKENS)) False (\<lambda>_. True)) ''argument_tokens'' b l) (\<lambda>ts.
     bindr (require (ts = SELECTION_TOKENS) (TypeError (l @ ''.argument_tokens substitution binding is invalid''))) (\<lambda>_.
     bindr (exact [''slot'', ''domain'', ''schema'', ''substitution_location''] [] (jget ''value'' b) (l @ ''.value'')) (\<lambda>row.
     bindr (member_of (enumeration [''intended_untracked_selection'']) ''slot'' row (l @ ''.value'')) (\<lambda>s.
     bindr (member_of (enumeration [''schema_bound_json'']) ''domain'' row (l @ ''.value'')) (\<lambda>d.
     bindr (member_of (enumeration [selection_schema]) ''schema'' row (l @ ''.value'')) (\<lambda>k.
     bindr (member_of (integer 4 (Some 4)) ''substitution_location'' row (l @ ''.value'')) (\<lambda>n.
     Inr \<lparr>operationToken = t, argumentTokens = ts, submission_values =
       [\<lparr>slot = s, domain = d, substitutionLocation = n, value_schema = Some k, minimum = None, maximum = None\<rparr>]\<rparr>)))))))))"

definition capture_slot :: "string \<Rightarrow> string" where
  "capture_slot token = (if token = ''capture-result'' then ''reviewer_result''
     else if token = ''capture-correction-plan'' then ''correction_lines''
     else if token = ''capture-refuter'' then ''provider_refuter'' else ''provider_targeted_validator'')"

definition decode_single_submission :: "json \<Rightarrow> string \<Rightarrow> capture_submission result" where
  "decode_single_submission v l =
     bindr (exact [''operation_token'', ''argument_tokens'', ''value''] [] v l) (\<lambda>b.
     bindr (member_of (enumeration [''capture-result'', ''capture-correction-plan'', ''capture-refuter'', ''capture-validation'']) ''operation_token'' b l) (\<lambda>t.
     bindr (member_of (stringArray 1 None False (\<lambda>_. True)) ''argument_tokens'' b l) (\<lambda>ts.
     bindr (exact (if t \<in> set [''capture-result'', ''capture-refuter'', ''capture-validation'']
       then [''slot'', ''domain'', ''schema'', ''substitution_location'']
       else [''slot'', ''domain'', ''minimum'', ''maximum'', ''substitution_location'']) [] (jget ''value'' b) (l @ ''.value'')) (\<lambda>row.
     bindr (member_of (enumeration [capture_slot t]) ''slot'' row (l @ ''.value'')) (\<lambda>s.
     bindr (member_of nonempty ''domain'' row (l @ ''.value'')) (\<lambda>d.
     bindr (optional_member nonempty ''schema'' row (l @ ''.value'')) (\<lambda>k.
     bindr (optional_member (integer 1 (Some 200)) ''minimum'' row (l @ ''.value'')) (\<lambda>mn.
     bindr (optional_member (integer 1 (Some 200)) ''maximum'' row (l @ ''.value'')) (\<lambda>mx.
     bindr (member_of (integer 0 (Some (int (length ts) - 1))) ''substitution_location'' row (l @ ''.value'')) (\<lambda>n.
     Inr \<lparr>operationToken = t, argumentTokens = ts, submission_values =
       [\<lparr>slot = s, domain = d, substitutionLocation = n, value_schema = k, minimum = mn, maximum = mx\<rparr>]\<rparr>))))))))))"

definition decode_submission_row :: "nat \<Rightarrow> json \<Rightarrow> string \<Rightarrow> submission_value result" where
  "decode_submission_row tokens v l =
     bindr (exact [''slot'', ''domain'', ''substitution_location''] [] v l) (\<lambda>row.
     bindr (member_of nonempty ''slot'' row l) (\<lambda>s.
     bindr (member_of nonempty ''domain'' row l) (\<lambda>d.
     bindr (member_of (integer 0 (Some (int tokens - 1))) ''substitution_location'' row l) (\<lambda>n.
     Inr \<lparr>slot = s, domain = d, substitutionLocation = n, value_schema = None, minimum = None, maximum = None\<rparr>))))"

definition decode_listed_submission :: "json \<Rightarrow> string \<Rightarrow> capture_submission result" where
  "decode_listed_submission v l =
     bindr (exact [''operation_token'', ''argument_tokens'', ''values''] [] v l) (\<lambda>b.
     bindr (member_of (decode_text 1 None OPERATION_TOKEN) ''operation_token'' b l) (\<lambda>t.
     bindr (member_of (stringArray 1 None False (\<lambda>_. True)) ''argument_tokens'' b l) (\<lambda>ts.
     bindr (member_of (decode_array 1 None False (decode_submission_row (length ts))) ''values'' b l) (\<lambda>vs.
     Inr \<lparr>operationToken = t, argumentTokens = ts, submission_values = vs\<rparr>))))"

definition decodeCaptureSubmission :: "json \<Rightarrow> string \<Rightarrow> bool \<Rightarrow> bool \<Rightarrow> string \<Rightarrow> capture_submission result" where
  "decodeCaptureSubmission v l v5 v6 captureOperation =
     (if v6 \<and> captureOperation = ''external.select_intended_untracked'' \<and> jget ''operation_token'' v = JStr ''status''
      then decode_selection_submission v l
      else if v5 \<and> ''value'' \<in> set (keys_of v) \<and> ''values'' \<notin> set (keys_of v) then decode_single_submission v l
      else decode_listed_submission v l)"

section \<open>Requests\<close>

record provider_task =
  task_agent :: string
  task_role :: string
  task_prompt :: string

definition decodeProviderTask :: "json \<Rightarrow> string \<Rightarrow> provider_task result" where
  "decodeProviderTask v l =
     bindr (exact [''agent'', ''role'', ''prompt''] [] v l) (\<lambda>b.
     bindr (member_of (enumeration [''review-refuter'', ''review-validator'']) ''agent'' b l) (\<lambda>a.
     bindr (member_of (enumeration [''refuter'', ''targeted-validator'']) ''role'' b l) (\<lambda>r.
     bindr (member_of nonempty ''prompt'' b l) (\<lambda>p.
     Inr \<lparr>task_agent = a, task_role = r, task_prompt = p\<rparr>))))"

definition LENSES :: "string list" where
  "LENSES = [''risk'', ''resilience'', ''readability'', ''reliability'']"

definition FIX_CLASSES :: "string list" where
  "FIX_CLASSES = [''deterministic'', ''inferential'']"

definition FIX_CAUSES :: "string list" where
  "FIX_CAUSES = [''introduced'', ''behavior-activated'', ''worsened'']"

text \<open>A finding of a correction plan request carries its evidence, one of a validation request does not.\<close>

record fix_finding =
  fix_id :: string
  fix_lens :: string
  fix_location :: string
  fix_severity :: string
  fix_claim :: string
  fix_proofs :: "string list"
  fix_evidence :: "string option"
  fix_class :: string
  fix_cause :: string

definition decode_fix_finding :: "bool \<Rightarrow> json \<Rightarrow> string \<Rightarrow> fix_finding result" where
  "decode_fix_finding with_evidence v l =
     bindr (exact ([''id'', ''lens'', ''location'', ''severity'', ''claim'', ''proof_refs''] @ (if with_evidence then [''evidence''] else []) @
       [''evidence_class'', ''causal_disposition'']) [] v l) (\<lambda>b.
     bindr (member_of nonempty ''id'' b l) (\<lambda>i.
     bindr (member_of (enumeration LENSES) ''lens'' b l) (\<lambda>lens.
     bindr (member_of nonempty ''location'' b l) (\<lambda>place.
     bindr (member_of (enumeration [''BLOCKER'', ''CRITICAL'']) ''severity'' b l) (\<lambda>s.
     bindr (member_of nonempty ''claim'' b l) (\<lambda>claim.
     bindr (member_of (stringArray 1 None False (\<lambda>_. True)) ''proof_refs'' b l) (\<lambda>ps.
     bindr ((if with_evidence then bindr (member_of nonempty ''evidence'' b l) (\<lambda>x. Inr (Some x)) else Inr None)) (\<lambda>e.
     bindr (member_of (enumeration FIX_CLASSES) ''evidence_class'' b l) (\<lambda>c.
     bindr (member_of (enumeration FIX_CAUSES) ''causal_disposition'' b l) (\<lambda>d.
     Inr \<lparr>fix_id = i, fix_lens = lens, fix_location = place, fix_severity = s, fix_claim = claim, fix_proofs = ps,
       fix_evidence = e, fix_class = c, fix_cause = d\<rparr>))))))))))"

record correction_plan_request =
  plan_hash :: string
  plan_lineage :: string
  plan_revision :: string
  plan_target :: string
  plan_budget :: int
  plan_ids :: "string list"
  plan_findings :: "fix_finding list"

definition decodeCorrectionPlanRequestV1 :: "json \<Rightarrow> string \<Rightarrow> correction_plan_request result" where
  "decodeCorrectionPlanRequestV1 v l =
     bindr (exact [''schema'', ''request_hash'', ''lineage_id'', ''expected_revision'', ''target_identity'', ''correction_budget'', ''fix_finding_ids'',
       ''findings''] [] v l) (\<lambda>b.
     bindr (fixed ''schema'' (JStr ''gentle-ai.review-correction-plan-request/v1'') (l @ ''.schema must be gentle-ai.review-correction-plan-request/v1'') b) (\<lambda>_.
     bindr (member_of sha256 ''request_hash'' b l) (\<lambda>h.
     bindr (member_of lineage ''lineage_id'' b l) (\<lambda>i.
     bindr (member_of sha256 ''expected_revision'' b l) (\<lambda>r.
     bindr (member_of sha256 ''target_identity'' b l) (\<lambda>t.
     bindr (member_of (integer 1 (Some 200)) ''correction_budget'' b l) (\<lambda>n.
     bindr (member_of (stringArray 1 None True (\<lambda>_. True)) ''fix_finding_ids'' b l) (\<lambda>is.
     bindr (member_of (decode_array 1 None False (decode_fix_finding True)) ''findings'' b l) (\<lambda>fs.
     Inr \<lparr>plan_hash = h, plan_lineage = i, plan_revision = r, plan_target = t, plan_budget = n, plan_ids = is,
       plan_findings = fs\<rparr>)))))))))"

record fix_classification =
  class_id :: string
  class_severity :: "string option"
  class_evidence :: string
  class_cause :: string
  class_proof :: string

definition decode_fix_classification :: "json \<Rightarrow> string \<Rightarrow> fix_classification result" where
  "decode_fix_classification v l =
     bindr (exact [''finding_id'', ''class'', ''causal_disposition'', ''proof''] [''severity''] v l) (\<lambda>b.
     bindr (optional_member nonempty ''severity'' b l) (\<lambda>s.
     bindr (member_of nonempty ''finding_id'' b l) (\<lambda>i.
     bindr (member_of (enumeration FIX_CLASSES) ''class'' b l) (\<lambda>c.
     bindr (member_of (enumeration FIX_CAUSES) ''causal_disposition'' b l) (\<lambda>d.
     bindr (member_of nonempty ''proof'' b l) (\<lambda>p.
     Inr \<lparr>class_id = i, class_severity = s, class_evidence = c, class_cause = d, class_proof = p\<rparr>))))))"

record targeted_validation_request =
  validation_hash :: string
  validation_lineage :: string
  validation_revision :: string
  validation_target :: string
  validation_ids :: "string list"
  policyContent :: string
  fixFindings :: "fix_finding list"
  fixClassifications :: "fix_classification list"
  validation_projection :: string
  correctionCandidateTree :: string
  validation_correction :: string
  correctionPaths :: "string list"
  correctionPathsDigest :: string

definition decodeReviewTargetedValidationRequestV1 :: "json \<Rightarrow> string \<Rightarrow> targeted_validation_request result" where
  "decodeReviewTargetedValidationRequestV1 v l =
     bindr (exact [''schema'', ''request_hash'', ''lineage_id'', ''expected_revision'', ''target_identity'', ''fix_finding_ids'', ''policy_content'',
       ''fix_findings'', ''fix_classifications'', ''projection'', ''correction_candidate_tree'', ''correction_target_identity'',
       ''correction_paths'', ''correction_paths_digest''] [] v l) (\<lambda>b.
     bindr (fixed ''schema'' (JStr ''gentle-ai.review-targeted-validation-request/v1'') (l @ ''.schema must be gentle-ai.review-targeted-validation-request/v1'') b) (\<lambda>_.
     bindr (member_of (stringArray 1 None True (\<lambda>_. True)) ''fix_finding_ids'' b l) (\<lambda>is.
     bindr (member_of (decode_array 1 None False (decode_fix_finding False)) ''fix_findings'' b l) (\<lambda>fs.
     bindr (member_of (decode_array 1 None False decode_fix_classification) ''fix_classifications'' b l) (\<lambda>cs.
     bindr (assertExactSet (map fix_id fs) is (l @ ''.fix_findings'')) (\<lambda>_.
     bindr (assertExactSet (map class_id cs) is (l @ ''.fix_classifications'')) (\<lambda>_.
     bindr (member_of sha256 ''request_hash'' b l) (\<lambda>h.
     bindr (member_of lineage ''lineage_id'' b l) (\<lambda>i.
     bindr (member_of sha256 ''expected_revision'' b l) (\<lambda>r.
     bindr (member_of sha256 ''target_identity'' b l) (\<lambda>t.
     bindr (member_of nonempty ''policy_content'' b l) (\<lambda>policy.
     bindr (member_of (enumeration REQUIRED_PROJECTIONS) ''projection'' b l) (\<lambda>p.
     bindr (member_of gitTree ''correction_candidate_tree'' b l) (\<lambda>tree.
     bindr (member_of sha256 ''correction_target_identity'' b l) (\<lambda>k.
     bindr (member_of (stringArray 1 None True (\<lambda>_. True)) ''correction_paths'' b l) (\<lambda>ps.
     bindr (member_of sha256 ''correction_paths_digest'' b l) (\<lambda>d.
     Inr \<lparr>validation_hash = h, validation_lineage = i, validation_revision = r, validation_target = t, validation_ids = is,
       policyContent = policy, fixFindings = fs, fixClassifications = cs, validation_projection = p,
       correctionCandidateTree = tree, validation_correction = k, correctionPaths = ps, correctionPathsDigest = d\<rparr>)))))))))))))))))"

end
