(* ===== verification/NextTransition.thy ===== *)
theory NextTransition
  imports TransitionDecoder
begin

text \<open>
  The collect inputs, the execute vector with its approved acknowledgement, the slots that were declared
  unachievable, and \<open>decodeReviewNextTransitionV3\<close> (\<open>lib/review-integration-v2.ts\<close>), which admits exactly one
  of them. The flags \<open>v5\<close>, \<open>v6\<close> and \<open>v9\<close> are the rungs of the status contract the code distinguishes.
\<close>

section \<open>Collect inputs\<close>

record collect_input =
  input_name :: string
  input_schema :: string
  captureOperation :: string
  input_arguments :: "argument list"
  artifactSubject :: "artifact_subject option"
  input_base :: "string option"
  input_candidate :: "string option"
  input_manifest :: "changed_path list option"
  submission :: "capture_submission option"
  providerTask :: "provider_task option"
  validationRequest :: "targeted_validation_request option"

definition REFUTER_SCHEMA :: string where
  "REFUTER_SCHEMA = ''https://gentle-ai.dev/schema/review/refuter/v1''"

definition VALIDATOR_SCHEMA :: string where
  "VALIDATOR_SCHEMA = ''https://gentle-ai.dev/schema/review/validator/v1''"

definition REVIEWER_SCHEMA :: string where
  "REVIEWER_SCHEMA = ''https://gentle-ai.dev/schema/review/reviewer/v1''"

definition PROVIDER_ROLE_CAPTURE_OPERATIONS :: "string list" where
  "PROVIDER_ROLE_CAPTURE_OPERATIONS = [''review.capture-refuter'', ''review.capture-validation'']"

definition SELECT_UNTRACKED :: string where
  "SELECT_UNTRACKED = ''external.select_intended_untracked''"

text \<open>A relative path with plain segments, no drive letter, no backslash and no zero byte.\<close>

definition ELIGIBLE_PATH :: "string \<Rightarrow> bool" where
  "ELIGIBLE_PATH s \<longleftrightarrow> s \<noteq> [] \<and> \<not>  starts_with ''/'' s \<and>
     \<not>  (3 \<le> length s \<and> is_alpha (s ! 0) \<and> s ! 1 = CHR '':'' \<and> s ! 2 = CHR ''/'') \<and> CHR 0x5C \<notin> set s \<and> CHR 0x00 \<notin> set s \<and>
     list_all (\<lambda>w. w \<noteq> [] \<and> w \<noteq> ''.'' \<and> w \<noteq> ''..'') (split_on (CHR ''/'') s)"

definition string_items :: "json list \<Rightarrow> string list" where
  "string_items vs = map (\<lambda>v. case v of JStr s \<Rightarrow> s | _ \<Rightarrow> []) vs"

definition stringify_strings :: "string list \<Rightarrow> string" where
  "stringify_strings ss = ''['' @ join '','' (map quote ss) @ '']''"

definition check_eligible_paths :: "(string \<Rightarrow> json option) \<Rightarrow> string \<Rightarrow> string \<Rightarrow> unit result" where
  "check_eligible_paths parse t l = (case parse t of
       None \<Rightarrow> Inl (TypeError (l @ ''.arguments[4].value must be canonical JSON''))
     | Some v \<Rightarrow> require (case v of
           JArr vs \<Rightarrow> vs \<noteq> [] \<and> list_all (\<lambda>v. case v of JStr s \<Rightarrow> ELIGIBLE_PATH s | _ \<Rightarrow> False) vs \<and> distinct vs \<and>
             stringify_strings (string_items vs) = t
         | _ \<Rightarrow> False) (TypeError (l @ ''.arguments[4].value must contain unique canonical repository-relative paths'')))"

definition SELECTION_ARGUMENTS :: "string list" where
  "SELECTION_ARGUMENTS = [''target_identity'', ''projection'', ''base_tree'', ''candidate_tree'', ''eligible_paths_json'', ''expected_untracked_inventory'']"

definition check_selection_binding :: "(string \<Rightarrow> json option) \<Rightarrow> argument list \<Rightarrow> string \<Rightarrow> unit result" where
  "check_selection_binding parse as l =
     bindr (require (map arg_name as = SELECTION_ARGUMENTS \<and> list_all (\<lambda>a. arg_token a = None) as)
       (TypeError (l @ ''.arguments must preserve the exact intended-untracked metadata binding''))) (\<lambda>_.
     bindr (sha256 (JStr (arg_value (as ! 0))) (l @ ''.arguments[0].value'')) (\<lambda>_.
     bindr (enumeration [''workspace''] (JStr (arg_value (as ! 1))) (l @ ''.arguments[1].value'')) (\<lambda>_.
     bindr (gitTree (JStr (arg_value (as ! 2))) (l @ ''.arguments[2].value'')) (\<lambda>_.
     bindr (gitTree (JStr (arg_value (as ! 3))) (l @ ''.arguments[3].value'')) (\<lambda>_.
     bindr (check_eligible_paths parse (arg_value (as ! 4)) l) (\<lambda>_.
     bindr (sha256 (JStr (arg_value (as ! 5))) (l @ ''.arguments[5].value'')) (\<lambda>_.
     Inr ())))))))"

definition arguments_named :: "string \<Rightarrow> argument list \<Rightarrow> argument list" where
  "arguments_named n as = filter (\<lambda>a. arg_name a = n) as"

definition check_provider_argument :: "argument list \<Rightarrow> string \<Rightarrow> string \<Rightarrow> string \<Rightarrow> string \<Rightarrow> unit result" where
  "check_provider_argument as l n expected what = (case arguments_named n as of
       [a] \<Rightarrow> require (arg_value a = expected) (TypeError (l @ ''.arguments '' @ n @ '' must bind validation_request.'' @ what))
     | _ \<Rightarrow> Inl (TypeError (l @ ''.arguments must carry exactly one '' @ n @ '' binding'')))"

definition check_validation_binding :: "argument list \<Rightarrow> targeted_validation_request \<Rightarrow> string \<Rightarrow> unit result" where
  "check_validation_binding as q l = checks
     [check_provider_argument as l ''lineage'' (validation_lineage q) ''lineage_id'',
      check_provider_argument as l ''expected-revision'' (validation_revision q) ''expected_revision'',
      check_provider_argument as l ''target'' (validation_correction q) ''correction_target_identity'',
      check_provider_argument as l ''request-hash'' (validation_hash q) ''request_hash'']"

definition argument_named :: "string \<Rightarrow> argument list \<Rightarrow> string option" where
  "argument_named n as = (case arguments_named n as of [a] \<Rightarrow> Some (arg_value a) | _ \<Rightarrow> None)"

definition check_role_submission :: "bool \<Rightarrow> argument list \<Rightarrow> string \<Rightarrow> string \<Rightarrow> unit result" where
  "check_role_submission v9 as operation l = checks
     [require v9 (TypeError (l @ ''.submission requires the v9 provider contract for the host-mediated '' @ operation @ '' form'')),
      require (argument_named ''materialize'' as = Some ''true'')
        (TypeError (l @ ''.submission requires --materialize=true on the host-mediated '' @ operation @ '' form'')),
      require (argument_named ''execute'' as = None)
        (TypeError (l @ '' must not carry --execute alongside a submission descriptor on '' @ operation))]"

text \<open>What status/v5 asks of a vector: the provider task, and the submission of a correction plan.\<close>

definition check_v5_vector :: "json \<Rightarrow> string \<Rightarrow> string \<Rightarrow> string \<Rightarrow> unit result" where
  "check_v5_vector b schema operation l = checks
     [if operation = ''external.run_provider_role''
      then require (has ''provider_task'' b) (TypeError (l @ ''.provider_task is required for external.run_provider_role''))
      else require (\<not>  has ''provider_task'' b) (TypeError (l @ ''.provider_task is only valid for external.run_provider_role'')),
      if operation = ''review.capture-correction-plan''
      then checks [require (has ''submission'' b) (TypeError (l @ ''.submission is required for '' @ operation)),
        require (schema = ''gentle-ai.review-correction-plan/v1'') (TypeError (l @ ''.schema must be gentle-ai.review-correction-plan/v1''))]
      else Inr ()]"

definition check_capture_result :: "json \<Rightarrow> string \<Rightarrow> string \<Rightarrow> string \<Rightarrow> unit result" where
  "check_capture_result b schema operation l =
     (if operation = ''review.capture-result''
      then checks [require (has ''artifact_subject'' b \<and> has ''base_tree'' b \<and> has ''candidate_tree'' b)
          (TypeError (l @ '' requires artifact_subject, base_tree, and candidate_tree'')),
        require (schema = REVIEWER_SCHEMA) (TypeError (l @ ''.schema must be https://gentle-ai.dev/schema/review/reviewer/v1''))]
      else require (\<not>  has ''artifact_subject'' b \<and> \<not>  has ''base_tree'' b \<and> \<not>  has ''candidate_tree'' b \<and> \<not>  has ''changed_path_manifest'' b)
        (TypeError (l @ '' carries capture-result fields without review.capture-result'')))"

definition submission_operations :: "bool \<Rightarrow> bool \<Rightarrow> string list" where
  "submission_operations v5 v6 = (if v5
     then [''review.capture-result'', ''review.capture-correction-plan''] @ (if v6 then [SELECT_UNTRACKED] else [])
     else [''review.capture-result''])"

definition decodeCollectInput :: "(string \<Rightarrow> json option) \<Rightarrow> bool \<Rightarrow> bool \<Rightarrow> bool \<Rightarrow> json \<Rightarrow> string \<Rightarrow> collect_input result" where
  "decodeCollectInput parse v5 v6 v9 v l =
     bindr (exact [''name'', ''schema'', ''capture_operation'', ''arguments''] ([''artifact_subject'', ''base_tree'', ''candidate_tree'',
       ''changed_path_manifest'', ''submission''] @ (if v5 then [''provider_task'', ''validation_request''] else [])) v l) (\<lambda>b.
     bindr (member_of (decode_text 1 None CODE) ''name'' b l) (\<lambda>name.
     bindr (member_of nonempty ''schema'' b l) (\<lambda>schema.
     bindr (member_of nonempty ''capture_operation'' b l) (\<lambda>operation.
     bindr (member_of decodeTransitionArguments ''arguments'' b l) (\<lambda>as.
     bindr (if v5 then check_v5_vector b schema operation l else Inr ()) (\<lambda>_.
     (let selects = (name = ''intended_untracked_selection'' \<and> schema = selection_schema); intended = (v6 \<and> selects \<and> operation = SELECT_UNTRACKED) in
     bindr (require (operation \<noteq> SELECT_UNTRACKED \<or> selects)
       (TypeError (l @ '' external.select_intended_untracked requires the intended_untracked_selection binding''))) (\<lambda>_.
     bindr (if intended then check_selection_binding parse as l else Inr ()) (\<lambda>_.
     (let role = (operation \<in> set PROVIDER_ROLE_CAPTURE_OPERATIONS) in
     bindr (require (operation \<noteq> ''review.capture-refuter'' \<or> schema = REFUTER_SCHEMA) (TypeError (l @ ''.schema must be '' @ REFUTER_SCHEMA))) (\<lambda>_.
     bindr (require (operation \<noteq> ''review.capture-validation'' \<or> schema = VALIDATOR_SCHEMA) (TypeError (l @ ''.schema must be '' @ VALIDATOR_SCHEMA))) (\<lambda>_.
     (let validator = (v5 \<and> name = ''provider_targeted_validator'' \<and> operation = ''review.capture-validation'' \<and> schema = VALIDATOR_SCHEMA) in
     bindr (require (\<not>  has ''validation_request'' b \<or> validator)
       (TypeError (l @ ''.validation_request is only valid for the v5 provider-targeted-validator capture input''))) (\<lambda>_.
     bindr (require (\<not>  validator \<or> has ''validation_request'' b)
       (TypeError (l @ ''.validation_request is required for the v5 provider-targeted-validator capture input''))) (\<lambda>_.
     bindr (optional_member decodeReviewTargetedValidationRequestV1 ''validation_request'' b l) (\<lambda>q.
     bindr (case q of None \<Rightarrow> Inr () | Some r \<Rightarrow> check_validation_binding as r l) (\<lambda>_.
     bindr (if role \<and> has ''submission'' b then check_role_submission v9 as operation l else Inr ()) (\<lambda>_.
     bindr (check_capture_result b schema operation l) (\<lambda>_.
     bindr (require (\<not>  has ''submission'' b \<or> role \<or> operation \<in> set (submission_operations v5 v6))
       (TypeError (l @ ''.submission is only valid for '' @ join '', '' (submission_operations v5 v6)))) (\<lambda>_.
     bindr (require (\<not>  intended \<or> has ''submission'' b) (TypeError (l @ ''.submission is required for external.select_intended_untracked''))) (\<lambda>_.
     bindr (optional_member (\<lambda>w k. decodeCaptureSubmission w k v5 v6 operation) ''submission'' b l) (\<lambda>s.
     bindr (optional_member decodeArtifactSubject ''artifact_subject'' b l) (\<lambda>subject.
     bindr (optional_member gitTree ''base_tree'' b l) (\<lambda>base.
     bindr (optional_member gitTree ''candidate_tree'' b l) (\<lambda>candidate.
     bindr (optional_member decode_manifest ''changed_path_manifest'' b l) (\<lambda>manifest.
     bindr ((if v5 then optional_member decodeProviderTask ''provider_task'' b l else Inr None)) (\<lambda>task.
     Inr \<lparr>input_name = name, input_schema = schema, captureOperation = operation, input_arguments = as,
       artifactSubject = subject, input_base = base, input_candidate = candidate, input_manifest = manifest,
       submission = s, providerTask = task, validationRequest = q\<rparr>)))))))))))))))))))))))))))"

section \<open>The execute vector\<close>

record transition_execute =
  execute_operation :: string
  execute_arguments :: "argument list"
  selectorArguments :: "argument list option"
  execute_preconditions :: "argument list"
  execute_target :: string
  execute_lineage :: "string option"
  execute_revision :: "string option"
  execute_command :: "string option"

definition NEXT_TRANSITION_OPERATIONS :: "string list" where
  "NEXT_TRANSITION_OPERATIONS = [''review.start'', ''review.status'', ''review.recover'', ''review.repair'', ''review.acknowledge-approved'']"

text \<open>
  The approved acknowledgement: the closed vector that burns the authority of an approved review. The members
  of the shape are values, since the closure decoder hands it what it has not looked at yet.
\<close>

definition ACKNOWLEDGEMENT_ARGUMENTS :: "string list" where
  "ACKNOWLEDGEMENT_ARGUMENTS = [''cwd'', ''lineage'', ''target'', ''expected-revision'', ''token'']"

record acknowledgement_shape =
  shape_tokens :: "string list"
  shape_values :: "string list"
  shape_lineage :: string
  shape_target :: string
  shape_revision :: string

definition some_text :: "string option \<Rightarrow> json" where
  "some_text v = (case v of None \<Rightarrow> JUndefined | Some s \<Rightarrow> JStr s)"

definition ACKNOWLEDGE_COMMAND :: "string \<Rightarrow> bool" where
  "ACKNOWLEDGE_COMMAND s \<longleftrightarrow> s = ''gentle-ai review acknowledge-approved'' \<or> starts_with ''gentle-ai review acknowledge-approved '' s"

definition check_acknowledgement_argument :: "nat \<Rightarrow> argument \<Rightarrow> string result" where
  "check_acknowledgement_argument i a = (let name = ACKNOWLEDGEMENT_ARGUMENTS ! i; l = item_label ''acknowledgement.execute.arguments'' i in
     bindr (require (arg_name a = name) (TypeError (l @ ''.name must be '' @ name))) (\<lambda>_.
     bindr (nonempty (JStr (arg_value a)) (l @ ''.value'')) (\<lambda>value.
     bindr (nonempty (some_text (arg_token a)) (l @ ''.token'')) (\<lambda>token.
     bindr (require (token = argument_text name value) (TypeError (l @ ''.token must exactly match '' @ name))) (\<lambda>_.
     Inr value)))))"

definition acknowledgement_execute_shape :: "json \<Rightarrow> json \<Rightarrow> argument list \<Rightarrow> argument list \<Rightarrow> json \<Rightarrow> json \<Rightarrow> json \<Rightarrow> acknowledgement_shape result" where
  "acknowledgement_execute_shape operation command as preconditions lineage_id target revision =
     bindr (require (operation = JStr ''review.acknowledge-approved'') (TypeError ''acknowledgement.execute.operation must be review.acknowledge-approved'')) (\<lambda>_.
     bindr (require (command \<noteq> JUndefined) (TypeError ''acknowledgement.execute.command is required'')) (\<lambda>_.
     bindr (decode_text 1 None ACKNOWLEDGE_COMMAND command ''acknowledgement.execute.command'') (\<lambda>_.
     bindr (require (length as = length ACKNOWLEDGEMENT_ARGUMENTS)
       (TypeError ''acknowledgement.execute.arguments must carry exactly 5 provider-issued arguments'')) (\<lambda>_.
     bindr (sequence (map (\<lambda>(i, a). check_acknowledgement_argument i a) (enumerate 0 as))) (\<lambda>values.
     bindr (require (case preconditions of [p] \<Rightarrow> arg_name p = ''state'' \<and> arg_value p = ''approved'' | _ \<Rightarrow> False)
       (TypeError ''acknowledgement.execute.preconditions must be the single approved state precondition'')) (\<lambda>_.
     bindr (lineage lineage_id ''acknowledgement.execute.binding.lineage_id'') (\<lambda>i.
     bindr (sha256 target ''acknowledgement.execute.binding.target_identity'') (\<lambda>t.
     bindr (sha256 revision ''acknowledgement.execute.binding.revision'') (\<lambda>r.
     Inr \<lparr>shape_tokens = map (\<lambda>a. case arg_token a of None \<Rightarrow> [] | Some s \<Rightarrow> s) as, shape_values = values,
       shape_lineage = i, shape_target = t, shape_revision = r\<rparr>)))))))))"

record acknowledgement_expectation =
  expected_cwd :: "string option"
  expected_lineage :: "string option"
  expected_target :: "string option"
  expected_revision :: "string option"

definition no_expectation :: acknowledgement_expectation where
  "no_expectation = \<lparr>expected_cwd = None, expected_lineage = None, expected_target = None, expected_revision = None\<rparr>"

definition agrees :: "string option \<Rightarrow> string \<Rightarrow> string \<Rightarrow> unit result" where
  "agrees expected actual message = (case expected of None \<Rightarrow> Inr () | Some s \<Rightarrow> require (actual = s) (TypeError message))"

definition assert_acknowledgement_binding :: "acknowledgement_shape \<Rightarrow> acknowledgement_expectation \<Rightarrow> string list result" where
  "assert_acknowledgement_binding s expected =
     bindr (checks
       [require (shape_values s ! 1 = shape_lineage s) (TypeError ''acknowledgement lineage argument does not match its binding''),
       require (shape_values s ! 2 = shape_target s) (TypeError ''acknowledgement target argument does not match its binding''),
       require (shape_values s ! 3 = shape_revision s) (TypeError ''acknowledgement revision argument does not match its binding''),
       agrees (expected_cwd expected) (shape_values s ! 0) ''acknowledgement.execute.cwd does not match the current target'',
       agrees (expected_lineage expected) (shape_lineage s) ''acknowledgement.execute.lineage does not match the current target'',
       agrees (expected_target expected) (shape_target s) ''acknowledgement.execute.target does not match the current target'',
       agrees (expected_revision expected) (shape_revision s) ''acknowledgement.execute.revision does not match the current target'']) (\<lambda>_.
     Inr (shape_tokens s))"

definition assertReviewApprovedAcknowledgementExecuteV1 :: "transition_execute \<Rightarrow> acknowledgement_expectation \<Rightarrow> string list result" where
  "assertReviewApprovedAcknowledgementExecuteV1 e expected =
     bindr (acknowledgement_execute_shape (JStr (execute_operation e)) (some_text (execute_command e)) (execute_arguments e)
       (execute_preconditions e) (some_text (execute_lineage e)) (JStr (execute_target e)) (some_text (execute_revision e))) (\<lambda>s.
     assert_acknowledgement_binding s expected)"

definition decode_execute :: "json \<Rightarrow> transition_execute result" where
  "decode_execute v = (let l = ''next_transition.execute'' in
     bindr (exact [''operation'', ''arguments'', ''preconditions'', ''binding''] [''command'', ''selector_arguments'', ''artifacts''] v l) (\<lambda>b.
     bindr (member_of (enumeration NEXT_TRANSITION_OPERATIONS) ''operation'' b l) (\<lambda>operation.
     bindr (member_of decodeTransitionArguments ''arguments'' b l) (\<lambda>as.
     bindr (optional_member decodeTransitionArguments ''selector_arguments'' b l) (\<lambda>ss.
     bindr (member_of decodeTransitionArguments ''preconditions'' b l) (\<lambda>ps.
     bindr (exactRecord [''target_identity''] [''lineage_id'', ''revision''] True (jget ''binding'' b) (l @ ''.binding'')) (\<lambda>k.
     bindr (member_of sha256 ''target_identity'' k (l @ ''.binding'')) (\<lambda>t.
     bindr (optional_member lineage ''lineage_id'' k (l @ ''.binding'')) (\<lambda>i.
     bindr (optional_member sha256 ''revision'' k (l @ ''.binding'')) (\<lambda>r.
     bindr (optional_member nonempty ''command'' b l) (\<lambda>c.
     (let e = \<lparr>execute_operation = operation, execute_arguments = as, selectorArguments = ss, execute_preconditions = ps,
       execute_target = t, execute_lineage = i, execute_revision = r, execute_command = c\<rparr> in
     bindr (if operation = ''review.acknowledge-approved''
       then bindr (assertReviewApprovedAcknowledgementExecuteV1 e no_expectation) (\<lambda>_. Inr ()) else Inr ()) (\<lambda>_.
     Inr e)))))))))))))"

section \<open>Stops\<close>

record managed_continuation =
  continuation_command :: string
  continuation_agent :: "string option"
  staleAssets :: "string list option"

definition decodeReviewManagedAssetsContinuationV1 :: "json \<Rightarrow> string \<Rightarrow> managed_continuation result" where
  "decodeReviewManagedAssetsContinuationV1 v l =
     bindr (exact [''operation'', ''command''] [''agent'', ''stale_assets''] v l) (\<lambda>b.
     bindr (member_of (enumeration [''sync'']) ''operation'' b l) (\<lambda>_.
     bindr (member_of nonempty ''command'' b l) (\<lambda>c.
     bindr (optional_member nonempty ''agent'' b l) (\<lambda>a.
     bindr (optional_member (stringArray 1 None False (\<lambda>_. True)) ''stale_assets'' b l) (\<lambda>s.
     Inr \<lparr>continuation_command = c, continuation_agent = a, staleAssets = s\<rparr>)))))"

record unachievable_slot =
  slot_lens :: string
  slot_order :: int
  slot_hash :: string
  slot_reason :: string
  slot_detail :: "string option"
  withdraw_command :: string
  withdraw_arguments :: "argument list"
  withdraw_target :: string
  withdraw_lineage :: "string option"
  withdraw_revision :: "string option"

definition UNACHIEVABLE_LENS_DETAIL_LIMIT :: nat where
  "UNACHIEVABLE_LENS_DETAIL_LIMIT = 512"

definition check_identity_argument :: "argument list \<Rightarrow> string \<Rightarrow> string option \<Rightarrow> string \<Rightarrow> string \<Rightarrow> unit result" where
  "check_identity_argument as n expected l what = (case arguments_named n as of
       [] \<Rightarrow> require (expected = None) (TypeError (l @ ''.withdraw.arguments '' @ n @ '' does not match the '' @ what))
     | [a] \<Rightarrow> require (Some (arg_value a) = expected) (TypeError (l @ ''.withdraw.arguments '' @ n @ '' does not match the '' @ what))
     | _ \<Rightarrow> Inl (TypeError (l @ ''.withdraw.arguments '' @ n @ '' must appear exactly once'')))"

definition check_withdraw_token :: "string \<Rightarrow> nat \<Rightarrow> argument \<Rightarrow> string result" where
  "check_withdraw_token l i a = (case arg_token a of
       None \<Rightarrow> Inl (TypeError (item_label (l @ ''.withdraw.arguments'') i @ ''.token is required''))
     | Some t \<Rightarrow> if t \<noteq> argument_text (arg_name a) (arg_value a)
         then Inl (TypeError (item_label (l @ ''.withdraw.arguments'') i @ ''.token must exactly render its name and value'')) else Inr t)"

definition UNACHIEVABLE_COMMAND :: string where
  "UNACHIEVABLE_COMMAND = ''gentle-ai review capture-unachievable ''"

definition decodeUnachievableLensSlot :: "json \<Rightarrow> string \<Rightarrow> unachievable_slot result" where
  "decodeUnachievableLensSlot v l =
     bindr (exact [''lens'', ''selected_order'', ''subject_hash'', ''reason'', ''withdraw''] [''detail''] v l) (\<lambda>b.
     bindr (member_of nonempty ''lens'' b l) (\<lambda>lens.
     bindr (member_of (integer 0 None) ''selected_order'' b l) (\<lambda>n.
     bindr (member_of sha256 ''subject_hash'' b l) (\<lambda>h.
     bindr (member_of nonempty ''reason'' b l) (\<lambda>reason.
     bindr (optional_member nonempty ''detail'' b l) (\<lambda>detail.
     bindr (require (case detail of None \<Rightarrow> True | Some d \<Rightarrow> utf8_length d \<le> UNACHIEVABLE_LENS_DETAIL_LIMIT)
       (TypeError (l @ ''.detail exceeds 512 bytes''))) (\<lambda>_.
     bindr (exact [''operation'', ''command'', ''arguments'', ''binding''] [] (jget ''withdraw'' b) (l @ ''.withdraw'')) (\<lambda>w.
     bindr (member_of (enumeration [''review.capture-unachievable'']) ''operation'' w (l @ ''.withdraw'')) (\<lambda>_.
     bindr (member_of nonempty ''command'' w (l @ ''.withdraw'')) (\<lambda>command.
     bindr (member_of decodeTransitionArguments ''arguments'' w (l @ ''.withdraw'')) (\<lambda>as.
     bindr (require (length (arguments_named ''withdraw'' as) = 1) (TypeError (l @ ''.withdraw.arguments withdraw must appear exactly once''))) (\<lambda>_.
     bindr (require (list_all (\<lambda>a. arg_value a = ''true'') (arguments_named ''withdraw'' as)) (TypeError (l @ ''.withdraw.arguments withdraw must be true''))) (\<lambda>_.
     bindr (exactRecord [''target_identity''] [''lineage_id'', ''revision'', ''repository_context''] True (jget ''binding'' w) (l @ ''.withdraw.binding'')) (\<lambda>k.
     bindr (member_of sha256 ''target_identity'' k (l @ ''.withdraw.binding'')) (\<lambda>t.
     bindr (optional_member lineage ''lineage_id'' k (l @ ''.withdraw.binding'')) (\<lambda>i.
     bindr (optional_member sha256 ''revision'' k (l @ ''.withdraw.binding'')) (\<lambda>r.
     bindr (checks
       [check_identity_argument as ''request-hash'' (Some h) l ''slot subject_hash'',
       check_identity_argument as ''target'' (Some t) l ''withdraw binding target_identity'',
       check_identity_argument as ''lineage'' i l ''withdraw binding lineage_id'',
       check_identity_argument as ''expected-revision'' r l ''withdraw binding revision'']) (\<lambda>_.
     bindr (sequence (map (\<lambda>(j, a). check_withdraw_token l j a) (enumerate 0 as))) (\<lambda>tokens.
     bindr (require (command = UNACHIEVABLE_COMMAND @ join '' '' tokens)
       (TypeError (l @ ''.withdraw.command must exactly render the canonical operation and withdraw arguments''))) (\<lambda>_.
     Inr \<lparr>slot_lens = lens, slot_order = n, slot_hash = h, slot_reason = reason, slot_detail = detail, withdraw_command = command,
       withdraw_arguments = as, withdraw_target = t, withdraw_lineage = i, withdraw_revision = r\<rparr>))))))))))))))))))))"

section \<open>The transition\<close>

record next_transition =
  transition_kind :: string
  reasonCode :: string
  execute :: "transition_execute option"
  collect :: "collect_input list option"
  correctionRequest :: "correction_plan_request option"
  continuation :: "managed_continuation option"
  unachievableLensSlots :: "unachievable_slot list option"

definition CORRECTION_REQUEST_REASON_CODES :: "string list" where
  "CORRECTION_REQUEST_REASON_CODES = [''correction_plan_required'', ''corrected_candidate_unavailable'']"

definition decode_correction_request :: "bool \<Rightarrow> string \<Rightarrow> json \<Rightarrow> correction_plan_request option result" where
  "decode_correction_request v5 reason b = (if \<not>  v5 then Inr None else
     (let required = (reason \<in> set CORRECTION_REQUEST_REASON_CODES) in
     bindr (require (\<not>  required \<or> has ''correction_request'' b) (TypeError (''next_transition.correction_request is required for '' @ reason))) (\<lambda>_.
     bindr (require (required \<or> \<not>  has ''correction_request'' b)
       (TypeError ''next_transition.correction_request is only valid for correction_plan_required, corrected_candidate_unavailable'')) (\<lambda>_.
     optional_member decodeCorrectionPlanRequestV1 ''correction_request'' b ''next_transition''))))"

text \<open>The code's options: a later rung includes the earlier ones.\<close>

definition decodeReviewNextTransitionV3 :: "(string \<Rightarrow> json option) \<Rightarrow> bool \<Rightarrow> bool \<Rightarrow> bool \<Rightarrow> json \<Rightarrow> next_transition result" where
  "decodeReviewNextTransitionV3 parse opt5 opt6 opt9 v = (let v9 = opt9; v6 = (opt6 \<or> v9); v5 = (opt5 \<or> v6); l = ''next_transition'' in
     bindr (exact [''kind'', ''reason_code''] ([''execute'', ''collect''] @ (if v5 then [''correction_request''] else []) @
       [''continuation'', ''unachievable_lens_slots'']) v l) (\<lambda>b.
     bindr (member_of (enumeration [''execute'', ''collect'', ''stop'']) ''kind'' b l) (\<lambda>kind.
     bindr (member_of (decode_text 1 None CODE) ''reason_code'' b l) (\<lambda>reason.
     bindr (optional_member decodeReviewManagedAssetsContinuationV1 ''continuation'' b l) (\<lambda>c.
     bindr (require (c = None \<or> (kind = ''stop'' \<and> reason = ''managed_assets_outdated''))
       (TypeError ''next_transition.continuation is only valid for a stop transition with reason_code managed_assets_outdated'')) (\<lambda>_.
     bindr (require (\<not>  has ''unachievable_lens_slots'' b \<or> (kind = ''stop'' \<and> reason = ''unachievable_lens_slot''))
       (TypeError ''next_transition.unachievable_lens_slots is only valid for a stop transition with reason_code unachievable_lens_slot'')) (\<lambda>_.
     bindr (optional_member (decode_array 1 None False decodeUnachievableLensSlot) ''unachievable_lens_slots'' b l) (\<lambda>slots.
     bindr (decode_correction_request v5 reason b) (\<lambda>q.
     (let t = \<lparr>transition_kind = kind, reasonCode = reason, execute = None, collect = None, correctionRequest = q,
       continuation = None, unachievableLensSlots = None\<rparr> in
     (if kind = ''execute'' then
       bindr (decode_execute (jget ''execute'' b)) (\<lambda>e.
       bindr (require (\<not>  has ''collect'' b) (TypeError ''next_transition.collect is incompatible with execute'')) (\<lambda>_.
       Inr (t\<lparr>execute := Some e\<rparr>)))
       else if kind = ''collect'' then
       bindr (exact [''inputs''] [] (jget ''collect'' b) ''next_transition.collect'') (\<lambda>k.
       bindr (member_of (decode_array 1 None False (decodeCollectInput parse v5 v6 v9)) ''inputs'' k ''next_transition.collect'') (\<lambda>inputs.
       bindr (require (\<not>  has ''execute'' b) (TypeError ''next_transition.execute is incompatible with collect'')) (\<lambda>_.
       Inr (t\<lparr>collect := Some inputs\<rparr>))))
       else
       bindr (require (\<not>  has ''execute'' b \<and> \<not>  has ''collect'' b) (TypeError ''next_transition stop cannot carry a transition'')) (\<lambda>_.
       Inr (t\<lparr>continuation := c, unachievableLensSlots := slots\<rparr>)))))))))))))"

end
