(* ===== verification/StartDecoder.thy ===== *)
theory StartDecoder
  imports NextTransition
begin

text \<open>
  The answers of a start (\<open>decodeReviewStartV3\<close>, \<open>decodeReviewStartV4\<close>, \<open>lib/review-integration-v2.ts\<close>): the
  frozen candidate, its subjects and risk reasons, and for a reviewing START/v4 the status command the host will
  run next, which must be bound to that candidate.
\<close>

definition REVIEW_START_STATES :: "string list" where
  "REVIEW_START_STATES = [''unreviewed'', ''reviewing'', ''judges_confirmed'', ''findings_frozen'', ''evidence_classified'', ''fix_required'',
     ''fixing'', ''fix_validating'', ''correction_required'', ''validating'', ''ready_final_verification'', ''final_verifying'', ''approved'',
     ''escalated'', ''invalidated'']"

definition START_ACTIONS :: "string list" where
  "START_ACTIONS = [''created'', ''resumed'', ''closed'', ''blocked-scope-action'']"

definition RISK_LEVELS :: "string list" where
  "RISK_LEVELS = [''low'', ''medium'', ''high'']"

definition RISK_REASON_CODES :: "string list" where
  "RISK_REASON_CODES = [''configuration_change'', ''empty_content'', ''executable_change'', ''executable_mode'', ''hot_path'',
     ''large_change'', ''non_executable_only'', ''process_boundary'', ''process_scan_limit'', ''service_token'',
     ''shell_source'']"

definition RISK_SIGNALS :: "string list" where
  "RISK_SIGNALS = [''auth'', ''update'', ''security'', ''payments'', ''permissions'', ''shell_process'']"

definition REPOSITORY_CONTEXT_OUTCOMES :: "string list" where
  "REPOSITORY_CONTEXT_OUTCOMES = [''applied'', ''pending'', ''blocked_conflict'', ''durability_limited'']"

record repository_context =
  handle :: string
  context_revision :: string
  context_target :: string
  eventId :: "string option"
  context_outcome :: "string option"

definition decode_repository_context :: "json \<Rightarrow> string \<Rightarrow> repository_context result" where
  "decode_repository_context v l =
     bindr (exact [''capability'', ''handle'', ''revision'', ''target_identity''] [''event_id'', ''outcome''] v l) (\<lambda>b.
     bindr (fixed ''capability'' (JStr ''review.opaque_repository_context'') (l @ ''.capability is unsupported'') b) (\<lambda>_.
     bindr (member_of (pattern_text CONTEXT_HANDLE) ''handle'' b l) (\<lambda>h.
     bindr (member_of sha256 ''revision'' b l) (\<lambda>r.
     bindr (member_of sha256 ''target_identity'' b l) (\<lambda>t.
     bindr (optional_member sha256 ''event_id'' b l) (\<lambda>e.
     bindr (optional_member (enumeration REPOSITORY_CONTEXT_OUTCOMES) ''outcome'' b l) (\<lambda>q.
     Inr \<lparr>handle = h, context_revision = r, context_target = t, eventId = e, context_outcome = q\<rparr>)))))))"

record risk_reason =
  risk_code :: string
  risk_signal :: "string option"
  risk_path :: "string option"
  risk_old_mode :: "string option"
  risk_new_mode :: "string option"

definition decode_risk_reason :: "json \<Rightarrow> string \<Rightarrow> risk_reason result" where
  "decode_risk_reason v l =
     bindr (exact [''code''] [''signal'', ''path'', ''old_mode'', ''new_mode''] v l) (\<lambda>b.
     bindr (member_of (enumeration RISK_REASON_CODES) ''code'' b l) (\<lambda>c.
     bindr (optional_member (enumeration RISK_SIGNALS) ''signal'' b l) (\<lambda>s.
     bindr (optional_member nonempty ''path'' b l) (\<lambda>p.
     bindr (optional_member file_mode ''old_mode'' b l) (\<lambda>old.
     bindr (optional_member file_mode ''new_mode'' b l) (\<lambda>new.
     Inr \<lparr>risk_code = c, risk_signal = s, risk_path = p, risk_old_mode = old, risk_new_mode = new\<rparr>))))))"

section \<open>START/v3\<close>

record review_start =
  start_action :: string
  lensesRequired :: bool
  start_lineage :: string
  start_status :: string
  start_risk :: string
  selectedLenses :: "string list"
  start_projection :: string
  changedFiles :: int
  changedLines :: int
  correctionBudget :: int
  riskReasons :: "risk_reason list"
  artifactSubjects :: "artifact_subject list"
  targetMode :: "string option"
  start_target :: "string option"
  start_base :: "string option"
  start_candidate :: "string option"
  start_manifest :: "changed_path list option"
  repositoryContext :: "repository_context option"
  start_raw :: json

definition START_KEYS :: "string list" where
  "START_KEYS = [''schema'', ''contract'', ''operation'', ''action'', ''lenses_required'', ''lineage_id'', ''state'', ''risk_level'', ''selected_lenses'',
     ''projection'', ''changed_files'', ''changed_lines'', ''correction_budget'', ''risk_reasons'', ''artifact_subjects'']"

definition START_OPTIONAL_KEYS :: "string list" where
  "START_OPTIONAL_KEYS = [''target_mode'', ''target_identity'', ''base_tree'', ''candidate_tree'', ''changed_path_manifest'', ''repository_context'',
     ''acknowledgement'']"

record start_frame =
  frame_base :: "string option"
  frame_candidate :: "string option"
  frame_mode :: "string option"
  frame_target :: "string option"

definition decode_start_frame :: "json \<Rightarrow> start_frame result" where
  "decode_start_frame b =
     bindr (require (has ''base_tree'' b = has ''candidate_tree'' b) (TypeError ''start.base_tree and start.candidate_tree must appear together'')) (\<lambda>_.
     bindr (optional_member gitTree ''base_tree'' b ''start'') (\<lambda>base.
     bindr (optional_member gitTree ''candidate_tree'' b ''start'') (\<lambda>candidate.
     bindr (require (has ''target_mode'' b = has ''target_identity'' b) (TypeError ''start.target_mode and start.target_identity must appear together'')) (\<lambda>_.
     bindr (require (\<not>  has ''target_mode'' b \<or> (base \<noteq> None \<and> candidate \<noteq> None))
       (TypeError ''start.target_mode and start.target_identity require base_tree and candidate_tree'')) (\<lambda>_.
     bindr (optional_member (enumeration [''base-workspace-overlay'']) ''target_mode'' b ''start'') (\<lambda>mode.
     bindr (optional_member sha256 ''target_identity'' b ''start'') (\<lambda>target.
     bindr (require (\<not>  has ''changed_path_manifest'' b \<or> (base \<noteq> None \<and> candidate \<noteq> None))
       (TypeError ''start.changed_path_manifest requires base_tree and candidate_tree'')) (\<lambda>_.
     Inr \<lparr>frame_base = base, frame_candidate = candidate, frame_mode = mode, frame_target = target\<rparr>))))))))"

definition decodeReviewStartV3 :: "json \<Rightarrow> bool \<Rightarrow> review_start result" where
  "decodeReviewStartV3 v overlayIdentitySatisfiesRepositoryContext =
     bindr (exact START_KEYS START_OPTIONAL_KEYS v ''start'') (\<lambda>b.
     bindr (requireIdentity b ''gentle-ai.review-integration.start/v3'' (Some ''review.start'')) (\<lambda>_.
     bindr (decode_start_frame b) (\<lambda>f.
     bindr (member_of (enumeration START_ACTIONS) ''action'' b ''start'') (\<lambda>action.
     bindr (member_of (enumeration REVIEW_START_STATES) ''state'' b ''start'') (\<lambda>st.
     bindr (member_of (enumArray REVIEW_LENSES 0 (Some 4) True) ''selected_lenses'' b ''start'') (\<lambda>lenses.
     bindr (require (lenses = [] \<or> (has ''base_tree'' b \<and> has ''candidate_tree'' b \<and> has ''changed_path_manifest'' b))
       (TypeError ''start with selected_lenses requires base_tree, candidate_tree, and changed_path_manifest'')) (\<lambda>_.
     (let reviewing = ((action = ''created'' \<or> action = ''resumed'') \<and> st = ''reviewing'') in
     bindr (require (\<not>  (reviewing \<and> \<not>  (overlayIdentitySatisfiesRepositoryContext \<and> frame_target f \<noteq> None)) \<or> has ''repository_context'' b)
       (TypeError ''start.repository_context is required when action is created/resumed and state is reviewing'')) (\<lambda>_.
     bindr (require (reviewing \<or> \<not>  has ''repository_context'' b)
       (TypeError ''start.repository_context is only valid when action is created/resumed and state is reviewing'')) (\<lambda>_.
     bindr (optional_member decode_repository_context ''repository_context'' b ''start'') (\<lambda>context.
     bindr (member_of (decode_array 1 None True decode_risk_reason) ''risk_reasons'' b ''start'') (\<lambda>reasons.
     bindr (member_of (decode_array 0 (Some 4) False decodeArtifactSubject) ''artifact_subjects'' b ''start'') (\<lambda>subjects.
     bindr (member_of boolean ''lenses_required'' b ''start'') (\<lambda>required.
     bindr (member_of nonempty ''lineage_id'' b ''start'') (\<lambda>i.
     bindr (member_of (enumeration RISK_LEVELS) ''risk_level'' b ''start'') (\<lambda>risk.
     bindr (member_of (enumeration REQUIRED_PROJECTIONS) ''projection'' b ''start'') (\<lambda>p.
     bindr (member_of (integer 0 None) ''changed_files'' b ''start'') (\<lambda>files.
     bindr (member_of (integer 0 None) ''changed_lines'' b ''start'') (\<lambda>ls.
     bindr (member_of (integer 0 (Some 200)) ''correction_budget'' b ''start'') (\<lambda>n.
     bindr (optional_member decode_manifest ''changed_path_manifest'' b ''start'') (\<lambda>manifest.
     Inr \<lparr>start_action = action, lensesRequired = required, start_lineage = i, start_status = st, start_risk = risk,
       selectedLenses = lenses, start_projection = p, changedFiles = files, changedLines = ls, correctionBudget = n,
       riskReasons = reasons, artifactSubjects = subjects, targetMode = frame_mode f, start_target = frame_target f,
       start_base = frame_base f, start_candidate = frame_candidate f, start_manifest = manifest,
       repositoryContext = context, start_raw = b\<rparr>)))))))))))))))))))))"

section \<open>START/v4\<close>

definition find_argument :: "string \<Rightarrow> argument list \<Rightarrow> argument option" where
  "find_argument n as = find (\<lambda>a. arg_name a = n) as"

definition exact_argument :: "string \<Rightarrow> string \<Rightarrow> argument list \<Rightarrow> bool" where
  "exact_argument n w as \<longleftrightarrow> (case find_argument n as of None \<Rightarrow> False
     | Some a \<Rightarrow> arg_value a = w \<and> arg_token a = Some (argument_text n w))"

definition conflict :: "string \<Rightarrow> exn" where
  "conflict what = TypeError (''START/v4 status '' @ what)"

definition expected_start_target :: "review_start \<Rightarrow> string option" where
  "expected_start_target s = (case repositoryContext s of Some c \<Rightarrow> Some (context_target c) | None \<Rightarrow> start_target s)"

text \<open>The selectors the frozen start fixes: None for a name it says nothing about.\<close>

definition optional_selectors :: "review_start \<Rightarrow> string \<Rightarrow> string option option" where
  "optional_selectors s n = (if n = ''base-ref'' \<or> n = ''base-tree'' then Some (start_base s)
     else if n = ''projection'' then Some (Some (start_projection s))
     else if n = ''target'' then Some (expected_start_target s) else None)"

fun check_status_arguments :: "review_start \<Rightarrow> string list \<Rightarrow> argument list \<Rightarrow> unit result" where
  "check_status_arguments s seen [] = Inr ()"
| "check_status_arguments s seen (a # as) =
     (if arg_name a \<in> set seen then Inl (conflict (''arguments duplicate '' @ arg_name a @ '' binding''))
      else if (case optional_selectors s (arg_name a) of None \<Rightarrow> False | Some e \<Rightarrow> Some (arg_value a) \<noteq> e)
      then Inl (conflict (arg_name a @ '' binding conflicts with frozen START''))
      else check_status_arguments s (arg_name a # seen) as)"

fun check_selectors :: "argument list \<Rightarrow> string list \<Rightarrow> argument list \<Rightarrow> unit result" where
  "check_selectors as seen [] = Inr ()"
| "check_selectors as seen (x # xs) =
     (if arg_name x \<in> set seen \<or> (case find_argument (arg_name x) as of None \<Rightarrow> True
          | Some full \<Rightarrow> arg_value full \<noteq> arg_value x \<or> arg_token full \<noteq> arg_token x)
      then Inl (conflict (''selector '' @ arg_name x @ '' binding conflicts with full arguments''))
      else check_selectors as (arg_name x # seen) xs)"

definition check_selector :: "argument list \<Rightarrow> argument list \<Rightarrow> string \<Rightarrow> string option \<Rightarrow> unit result" where
  "check_selector as ss n expected = require (case expected of None \<Rightarrow> False | Some w \<Rightarrow>
       exact_argument n w ss \<and> map_option arg_token (find_argument n as) = Some (Some (argument_text n w)))
     (conflict (''selector '' @ n @ '' binding conflicts with frozen START''))"

definition argument_value :: "string \<Rightarrow> argument list \<Rightarrow> string option" where
  "argument_value n as = map_option arg_value (find_argument n as)"

definition assertReviewStartV4StatusBinding :: "transition_execute \<Rightarrow> review_start \<Rightarrow> unit result" where
  "assertReviewStartV4StatusBinding e s = (let as = execute_arguments e; expected = expected_start_target s in
     bindr (require (expected = Some (execute_target e) \<and> (start_target s = None \<or> start_target s = expected) \<and>
       list_all (\<lambda>x. Some (subject_target x) = expected) (artifactSubjects s))
       (conflict ''target identity binding conflicts with frozen START'')) (\<lambda>_.
     bindr (require (execute_lineage e = None \<or> execute_lineage e = Some (start_lineage s)) (conflict ''lineage binding conflicts with frozen START'')) (\<lambda>_.
     bindr (check_status_arguments s [] as) (\<lambda>_.
     bindr (require (argument_value ''lineage'' as = Some (start_lineage s)) (conflict ''requires exactly one lineage binding for the frozen START'')) (\<lambda>_.
     bindr (require (exact_argument ''lineage'' (start_lineage s) as) (conflict ''lineage binding conflicts with frozen START'')) (\<lambda>_.
     bindr (for_each (\<lambda>(n, w). require (exact_argument n w as) (conflict (n @ '' binding conflicts with frozen START'')))
       [(''contract'', REVIEW_INTEGRATION_CONTRACT), (''next-transition'', ''true''), (''agent'', ''pi'')]) (\<lambda>_.
     bindr ((case selectorArguments e of None \<Rightarrow> Inl (conflict ''selector arguments are required'')
       | Some xs \<Rightarrow> if xs = [] then Inl (conflict ''selector arguments are required'') else Inr xs)) (\<lambda>ss.
     bindr (check_selectors as [] ss) (\<lambda>_.
     (let baseRef = argument_value ''base-ref'' as; committed = argument_value ''committed-only'' as; overlay = argument_value ''workspace-overlay'' as in
     (if targetMode s = Some ''base-workspace-overlay'' then
       checks [require (baseRef = start_base s \<and> committed = None) (conflict ''workspace overlay binding conflicts with frozen START''),
       check_selector as ss ''base-ref'' (start_base s), check_selector as ss ''workspace-overlay'' (Some ''true'')]
       else if baseRef \<noteq> None then
       checks [require (baseRef = start_base s \<and> overlay = None) (conflict ''committed range binding conflicts with frozen START''),
       check_selector as ss ''base-ref'' (start_base s), check_selector as ss ''committed-only'' (Some ''true'')]
       else
       checks [require (committed = None \<and> overlay = None) (conflict ''current projection binding conflicts with frozen START''),
       check_selector as ss ''projection'' (Some (start_projection s))])))))))))))"

record review_start4 =
  frozen_start :: review_start
  start_next :: "next_transition option"

definition drop_member :: "string \<Rightarrow> json \<Rightarrow> json" where
  "drop_member k v = (case v of JObj kvs \<Rightarrow> JObj (filter (\<lambda>(a, x). a \<noteq> k) kvs) | _ \<Rightarrow> v)"

text \<open>\<open>{ ...v, k: w }\<close> for a member that is there.\<close>

definition set_member :: "string \<Rightarrow> json \<Rightarrow> json \<Rightarrow> json" where
  "set_member k w v = (case v of JObj kvs \<Rightarrow> JObj (map (\<lambda>(a, x). (a, if a = k then w else x)) kvs) | _ \<Rightarrow> v)"

definition decodeReviewStartV4 :: "(string \<Rightarrow> json option) \<Rightarrow> json \<Rightarrow> review_start4 result" where
  "decodeReviewStartV4 parse v =
     bindr (exact START_KEYS (START_OPTIONAL_KEYS @ [''next_transition'']) v ''start'') (\<lambda>b.
     bindr (requireIdentity b ''gentle-ai.review-integration.start/v4'' (Some ''review.start'')) (\<lambda>_.
     bindr (member_of (enumeration [''created'', ''replayed'', ''closed'', ''blocked-scope-action'']) ''action'' b ''start'') (\<lambda>action.
     bindr ((if \<not>  has ''next_transition'' b then Inr None
       else bindr (decodeReviewNextTransitionV3 parse False False False (jget ''next_transition'' b)) (\<lambda>t. Inr (Some t)))) (\<lambda>next.
     (let reviewing = ((action = ''created'' \<or> action = ''replayed'') \<and> jget ''state'' b = JStr ''reviewing'') in
     bindr (require (\<not>  reviewing \<or> map_option transition_kind next = Some ''execute'')
       (TypeError ''reviewing created/replayed START requires next_transition.execute'')) (\<lambda>_.
     (let e = Option.bind next execute in
     bindr (require (\<not>  reviewing \<or> map_option execute_operation e = Some ''review.status'')
       (TypeError ''reviewing created/replayed START next_transition.execute.operation must be review.status'')) (\<lambda>_.
     bindr (require (\<not>  (action = ''closed'' \<and> jget ''state'' b = JStr ''approved'' \<and> jget ''selected_lenses'' b = JArr []) \<or> next = None)
       (TypeError ''closed approved zero-lens START cannot carry next_transition'')) (\<lambda>_.
     bindr (decodeReviewStartV3 (set_member ''action'' (JStr (if action = ''replayed'' then ''resumed'' else action))
       (set_member ''schema'' (JStr ''gentle-ai.review-integration.start/v3'') (drop_member ''next_transition'' b))) True) (\<lambda>s.
     bindr ((case e of Some x \<Rightarrow> if reviewing then assertReviewStartV4StatusBinding x s else Inr () | None \<Rightarrow> Inr ())) (\<lambda>_.
     Inr \<lparr>frozen_start = s\<lparr>start_action := action, start_raw := b\<rparr>, start_next = next\<rparr>)))))))))))"

end
