(* ===== verification/StatusDecoder.thy ===== *)
theory StatusDecoder
  imports StartDecoder
begin

text \<open>
  The status of a review (\<open>decodeReviewStatusV3\<close>, \<open>lib/review-integration-v2.ts\<close>): one decoder for the contract
  versions v3 and v5 to v9, with the projection, the repair assessment, the forecast and the eligibility it carries.
\<close>

section \<open>Projection and repair assessment\<close>

definition REVIEW_PROJECTION_KINDS :: "string list" where
  "REVIEW_PROJECTION_KINDS = [''current-changes'', ''base-diff'', ''base-workspace-overlay'', ''exact-revision'', ''fix-diff'']"

record projection_descriptor =
  descriptor_kind :: string
  descriptor_projection :: string
  descriptor_base :: string
  initialReviewTree :: string
  currentCandidateTree :: string
  pathsDigest :: string
  descriptor_paths :: "string list"
  descriptor_untracked :: "string list"
  intendedUntrackedProof :: string
  initialSnapshotIdentity :: string
  currentSnapshotIdentity :: string

definition decodeReviewProjectionV1 :: "json \<Rightarrow> projection_descriptor result" where
  "decodeReviewProjectionV1 v = (let l = ''status.projection'' in
     bindr (exact [''schema'', ''kind'', ''projection'', ''base_tree'', ''initial_review_tree'', ''current_candidate_tree'', ''paths_digest'', ''paths'',
       ''intended_untracked'', ''intended_untracked_proof'', ''initial_snapshot_identity'', ''current_snapshot_identity''] [] v l) (\<lambda>b.
     bindr (fixed ''schema'' (JStr ''gentle-ai.review-integration.projection/v1'') ''status.projection schema is incompatible'' b) (\<lambda>_.
     bindr (member_of (enumeration REVIEW_PROJECTION_KINDS) ''kind'' b l) (\<lambda>k.
     bindr (member_of (enumeration REQUIRED_PROJECTIONS) ''projection'' b l) (\<lambda>p.
     bindr (member_of gitTree ''base_tree'' b l) (\<lambda>base.
     bindr (member_of gitTree ''initial_review_tree'' b l) (\<lambda>i.
     bindr (member_of gitTree ''current_candidate_tree'' b l) (\<lambda>c.
     bindr (member_of sha256 ''paths_digest'' b l) (\<lambda>d.
     bindr (member_of (decode_array 0 None True safePath) ''paths'' b l) (\<lambda>ps.
     bindr (member_of (decode_array 0 None True safePath) ''intended_untracked'' b l) (\<lambda>us.
     bindr (member_of sha256 ''intended_untracked_proof'' b l) (\<lambda>u.
     bindr (member_of sha256 ''initial_snapshot_identity'' b l) (\<lambda>s0.
     bindr (member_of sha256 ''current_snapshot_identity'' b l) (\<lambda>s1.
     Inr \<lparr>descriptor_kind = k, descriptor_projection = p, descriptor_base = base, initialReviewTree = i, currentCandidateTree = c,
       pathsDigest = d, descriptor_paths = ps, descriptor_untracked = us, intendedUntrackedProof = u,
       initialSnapshotIdentity = s0, currentSnapshotIdentity = s1\<rparr>))))))))))))))"

record repair_counts =
  count_lineages :: int
  compactLineages :: int
  legacyLineages :: int
  count_events :: int
  count_bytes :: int
  eligibleCandidates :: int
  unsupportedLineages :: int
  count_conflicts :: int

definition decodeAuthorityRepairAssessmentCounts :: "json \<Rightarrow> string \<Rightarrow> repair_counts result" where
  "decodeAuthorityRepairAssessmentCounts v l =
     bindr (exact [''lineages'', ''compact_lineages'', ''legacy_lineages'', ''events'', ''bytes'', ''eligible_candidates'', ''unsupported_lineages'',
       ''conflicts''] [] v l) (\<lambda>b.
     bindr (member_of (integer 0 (Some 256)) ''lineages'' b l) (\<lambda>a.
     bindr (member_of (integer 0 (Some 256)) ''compact_lineages'' b l) (\<lambda>c.
     bindr (member_of (integer 0 (Some 256)) ''legacy_lineages'' b l) (\<lambda>g.
     bindr (member_of (integer 0 (Some 1024)) ''events'' b l) (\<lambda>e.
     bindr (member_of (integer 0 (Some 8388608)) ''bytes'' b l) (\<lambda>n.
     bindr (member_of (integer 0 (Some 256)) ''eligible_candidates'' b l) (\<lambda>k.
     bindr (member_of (integer 0 (Some 1024)) ''unsupported_lineages'' b l) (\<lambda>u.
     bindr (member_of (integer 0 (Some 1024)) ''conflicts'' b l) (\<lambda>x.
     Inr \<lparr>count_lineages = a, compactLineages = c, legacyLineages = g, count_events = e, count_bytes = n, eligibleCandidates = k,
       unsupportedLineages = u, count_conflicts = x\<rparr>)))))))))"

record repair_candidate =
  candidate_lineage :: string
  candidate_revision :: string
  chainIdentity :: string
  eventCount :: int
  aliasEventCount :: int
  candidate_operations :: "string list"

definition REPAIR_OPERATIONS :: "string list" where
  "REPAIR_OPERATIONS = [''review/complete-fix'', ''review/validate-fix'']"

definition HISTORICAL_ALIAS :: string where
  "HISTORICAL_ALIAS = ''legacy_v1_historical_alias''"

definition ALIAS_CAUSE :: string where
  "ALIAS_CAUSE = ''unsupported_historical_v1_operation_alias''"

definition ALIAS_DISPOSITION :: string where
  "ALIAS_DISPOSITION = ''quarantine-approved-historical-alias''"

definition REPAIR_AUTHORIZATION :: string where
  "REPAIR_AUTHORIZATION = ''gentle-ai.review-repair-authorization/v1''"

definition decode_repair_candidate :: "json \<Rightarrow> string \<Rightarrow> repair_candidate result" where
  "decode_repair_candidate v l =
     bindr (exact [''lineage_id'', ''revision'', ''chain_identity'', ''event_count'', ''alias_event_count'', ''operations''] [] v l) (\<lambda>b.
     bindr (member_of lineage ''lineage_id'' b l) (\<lambda>i.
     bindr (member_of sha256 ''revision'' b l) (\<lambda>r.
     bindr (member_of sha256 ''chain_identity'' b l) (\<lambda>c.
     bindr (member_of (integer 2 (Some 1024)) ''event_count'' b l) (\<lambda>n.
     bindr (member_of (integer 1 (Some 1024)) ''alias_event_count'' b l) (\<lambda>a.
     bindr (member_of (enumArray REPAIR_OPERATIONS 1 (Some 2) True) ''operations'' b l) (\<lambda>os.
     Inr \<lparr>candidate_lineage = i, candidate_revision = r, chainIdentity = c, eventCount = n, aliasEventCount = a,
       candidate_operations = os\<rparr>)))))))"

text \<open>The members of fixed value (class, cause, disposition) are there exactly when the assessment is eligible.\<close>

record repair_assessment =
  repair_status :: string
  repositoryBinding :: "string option"
  repair_candidate_of :: "repair_candidate option"
  repair_counts_of :: repair_counts
  supportedOperations :: "string list"

definition ELIGIBLE_FIELDS :: "string list" where
  "ELIGIBLE_FIELDS = [''class'', ''cause'', ''disposition'', ''repository_binding'', ''candidate'']"

definition absent_or :: "string \<Rightarrow> string \<Rightarrow> string \<Rightarrow> json \<Rightarrow> unit result" where
  "absent_or k w message b = require (\<not>  has k b \<or> jget k b = JStr w) (TypeError message)"

definition decodeAuthorityRepairAssessmentV1 :: "json \<Rightarrow> repair_assessment result" where
  "decodeAuthorityRepairAssessmentV1 v = (let l = ''assessment'' in
     bindr (exact [''schema'', ''status'', ''counts'', ''supported_operations'', ''authorization_schema''] ELIGIBLE_FIELDS v l) (\<lambda>b.
     bindr (fixed ''schema'' (JStr ''gentle-ai.review-authority-repair-assessment/v1'')
       ''assessment.schema must be gentle-ai.review-authority-repair-assessment/v1'' b) (\<lambda>_.
     bindr (member_of (enumeration [''eligible'', ''unsupported'', ''ambiguous'', ''conflicting'', ''truncated'']) ''status'' b l) (\<lambda>st.
     bindr (require (st \<noteq> ''eligible'' \<or> list_all (\<lambda>k. has k b) ELIGIBLE_FIELDS)
       (TypeError ''assessment eligible status requires class, cause, disposition, repository_binding, and candidate'')) (\<lambda>_.
     bindr (require (st = ''eligible'' \<or> list_all (\<lambda>k. \<not>  has k b) ELIGIBLE_FIELDS)
       (TypeError ''assessment non-eligible status cannot expose class, cause, disposition, repository_binding, or candidate'')) (\<lambda>_.
     bindr (absent_or ''class'' HISTORICAL_ALIAS ''assessment.class is unsupported'' b) (\<lambda>_.
     bindr (absent_or ''cause'' ALIAS_CAUSE ''assessment.cause is unsupported'' b) (\<lambda>_.
     bindr (absent_or ''disposition'' ALIAS_DISPOSITION ''assessment.disposition is unsupported'' b) (\<lambda>_.
     bindr (optional_member decode_repair_candidate ''candidate'' b l) (\<lambda>c.
     bindr (member_of decodeAuthorityRepairAssessmentCounts ''counts'' b l) (\<lambda>counts.
     bindr (require (st \<noteq> ''eligible'' \<or> (eligibleCandidates counts = 1 \<and> unsupportedLineages counts = 0 \<and> count_conflicts counts = 0))
       (TypeError ''assessment.counts is incompatible with eligible status'')) (\<lambda>_.
     bindr (member_of (enumArray REPAIR_OPERATIONS 2 (Some 2) False) ''supported_operations'' b l) (\<lambda>os.
     bindr (require (os ! 0 = ''review/complete-fix'' \<and> os ! 1 = ''review/validate-fix'') (TypeError ''assessment.supported_operations is out of order'')) (\<lambda>_.
     bindr (fixed ''authorization_schema'' (JStr REPAIR_AUTHORIZATION)
       ''assessment.authorization_schema must be gentle-ai.review-repair-authorization/v1'' b) (\<lambda>_.
     bindr (optional_member sha256 ''repository_binding'' b l) (\<lambda>r.
     Inr \<lparr>repair_status = st, repositoryBinding = r, repair_candidate_of = c, repair_counts_of = counts, supportedOperations = os\<rparr>))))))))))))))))"

section \<open>Forecast, eligibility, escalation\<close>

record forecast_step =
  step_kind :: string
  step_reason :: string
  step_description :: string

record review_forecast =
  horizon :: string
  forecast_steps :: "forecast_step list"

definition decode_forecast_step :: "json \<Rightarrow> string \<Rightarrow> forecast_step result" where
  "decode_forecast_step v l =
     bindr (exact [''step'', ''kind'', ''reason_code'', ''description''] [] v l) (\<lambda>b.
     bindr (fixed ''step'' (JInt 1) (l @ ''.step must be 1'') b) (\<lambda>_.
     bindr (member_of (enumeration [''execute'', ''collect'', ''stop'']) ''kind'' b l) (\<lambda>k.
     bindr (member_of (decode_text 1 None CODE) ''reason_code'' b l) (\<lambda>r.
     bindr (member_of nonempty ''description'' b l) (\<lambda>d.
     Inr \<lparr>step_kind = k, step_reason = r, step_description = d\<rparr>)))))"

definition decodeReviewForecastV1 :: "json \<Rightarrow> string \<Rightarrow> review_forecast result" where
  "decodeReviewForecastV1 v l =
     bindr (exact [''horizon'', ''steps''] [] v l) (\<lambda>b.
     bindr (member_of (enumeration [''partial'', ''terminal'']) ''horizon'' b l) (\<lambda>h.
     bindr (member_of (decode_array 1 (Some 1) False decode_forecast_step) ''steps'' b l) (\<lambda>ss.
     bindr (require ((h = ''terminal'') = (step_kind (ss ! 0) = ''stop'')) (TypeError (l @ ''.horizon does not match its step kind''))) (\<lambda>_.
     Inr \<lparr>horizon = h, forecast_steps = ss\<rparr>))))"

definition ELIGIBLE_ACTIONS :: "string list" where
  "ELIGIBLE_ACTIONS = [''stop'', ''review.start'', ''review.recover'', ''review.repair'']"

definition FORBIDDEN_ACTIONS :: "string list" where
  "FORBIDDEN_ACTIONS = [''review.abandon'', ''review.invalidate'', ''review.quarantine-legacy'', ''review.reclaim'',
     ''review.reconcile-authority'', ''review.reconcile-authority-batch'', ''review.recover'', ''review.repair'',
     ''review.start'']"

definition STATUS_ACTION_DISPOSITIONS :: "string list" where
  "STATUS_ACTION_DISPOSITIONS = [''scope_changed'', ''invalidated'', ''escalated'']"

definition decode_allowed_action :: "json \<Rightarrow> string \<Rightarrow> json result" where
  "decode_allowed_action v l =
     bindr (exact [''action'', ''reason_code'', ''required_inputs''] [''disposition'', ''binding''] v l) (\<lambda>b.
     bindr (member_of (enumeration ELIGIBLE_ACTIONS) ''action'' b l) (\<lambda>selected.
     bindr (member_of (decode_text 1 None CODE) ''reason_code'' b l) (\<lambda>_.
     bindr (member_of (decode_array 0 None True (decode_text 1 None CODE)) ''required_inputs'' b l) (\<lambda>_.
     (if selected = ''review.recover'' then
       bindr (exact [''lineage_id'', ''revision'', ''target_identity''] [] (jget ''binding'' b) (l @ ''.binding'')) (\<lambda>k.
       bindr (member_of (enumeration STATUS_ACTION_DISPOSITIONS) ''disposition'' b l) (\<lambda>_.
       bindr (member_of lineage ''lineage_id'' k (l @ ''.binding'')) (\<lambda>_.
       bindr (member_of sha256 ''revision'' k (l @ ''.binding'')) (\<lambda>_.
       bindr (member_of sha256 ''target_identity'' k (l @ ''.binding'')) (\<lambda>_. Inr b)))))
       else bindr (require (\<not>  has ''disposition'' b \<and> \<not>  has ''binding'' b) (TypeError (l @ '' recovery fields require review.recover''))) (\<lambda>_. Inr b))))))"

definition decode_forbidden_action :: "json \<Rightarrow> string \<Rightarrow> json result" where
  "decode_forbidden_action v l =
     bindr (exact [''action'', ''reason_code''] [] v l) (\<lambda>b.
     bindr (member_of (enumeration FORBIDDEN_ACTIONS) ''action'' b l) (\<lambda>_.
     bindr (member_of (decode_text 1 None CODE) ''reason_code'' b l) (\<lambda>_.
     Inr b)))"

definition decodeEligibility :: "json \<Rightarrow> string \<Rightarrow> unit result" where
  "decodeEligibility v l =
     bindr (exact [''allowed_actions'', ''forbidden_actions''] [] v l) (\<lambda>b.
     bindr (member_of (decode_array 1 (Some 1) False decode_allowed_action) ''allowed_actions'' b l) (\<lambda>_.
     bindr (member_of (decode_array 0 None False decode_forbidden_action) ''forbidden_actions'' b l) (\<lambda>_.
     Inr ())))"

definition ESCALATION_CAUSES :: "string list" where
  "ESCALATION_CAUSES = [''unknown_causality'', ''insufficient_evidence'', ''missing_refuter_outcome'', ''targeted_validator_rejected'',
     ''correction_budget_exceeded'', ''unresolved_severe_findings'']"

definition ESCALATION_REFUTER_OUTCOMES :: "string list" where
  "ESCALATION_REFUTER_OUTCOMES = [''corroborated'', ''refuted'', ''inconclusive'']"

record refuter_outcome =
  refuted_id :: string
  refuter_answer :: string
  refuter_proof :: string

record review_escalation =
  escalation_cause :: string
  escalation_ids :: "string list"
  refuterOutcomes :: "refuter_outcome list option"

definition decode_refuter_outcome :: "json \<Rightarrow> string \<Rightarrow> refuter_outcome result" where
  "decode_refuter_outcome v l =
     bindr (exact [''finding_id'', ''outcome'', ''proof''] [] v l) (\<lambda>b.
     bindr (member_of nonempty ''finding_id'' b l) (\<lambda>i.
     bindr (member_of (enumeration ESCALATION_REFUTER_OUTCOMES) ''outcome'' b l) (\<lambda>a.
     bindr (member_of nonempty ''proof'' b l) (\<lambda>p.
     Inr \<lparr>refuted_id = i, refuter_answer = a, refuter_proof = p\<rparr>))))"

text \<open>Two members are looked up with \<open>Object.hasOwn\<close>: present is decoded, whatever its value.\<close>

definition own_member :: "(json \<Rightarrow> string \<Rightarrow> 'a result) \<Rightarrow> string \<Rightarrow> json \<Rightarrow> string \<Rightarrow> 'a option result" where
  "own_member f k b l = (if k \<notin> set (keys_of b) then Inr None else bindr (member_of f k b l) (\<lambda>x. Inr (Some x)))"

definition decode_escalation :: "json \<Rightarrow> string \<Rightarrow> review_escalation result" where
  "decode_escalation v l =
     bindr (exact [''cause'', ''finding_ids''] [''refuter_outcomes''] v l) (\<lambda>b.
     bindr (member_of (enumeration ESCALATION_CAUSES) ''cause'' b l) (\<lambda>c.
     bindr (member_of (stringArray 0 None False (\<lambda>_. True)) ''finding_ids'' b l) (\<lambda>is.
     bindr (own_member (decode_array 0 None False decode_refuter_outcome) ''refuter_outcomes'' b l) (\<lambda>os.
     Inr \<lparr>escalation_cause = c, escalation_ids = is, refuterOutcomes = os\<rparr>))))"

section \<open>The status\<close>

definition STATUS_ACTIONS :: "string list" where
  "STATUS_ACTIONS = [''start'', ''recover'', ''maintainer_action'', ''select_lineage'', ''repair_authority'', ''stop'', ''collect'',
     ''execute'']"

definition RECEIPT_STATUSES :: "string list" where
  "RECEIPT_STATUSES = [''expected_missing'', ''present'', ''publication_pending'', ''not_applicable'']"

definition REVIEW_REPLAYABILITIES :: "string list" where
  "REVIEW_REPLAYABILITIES = [''not_replayable'', ''exact_replay_safe'', ''status_required'', ''manual_action_required'']"

record status_receipt =
  receipt_state :: string
  receipt_identity :: "string option"

record status_authority =
  authority_version :: string
  authority_lineage :: string
  authority_state :: string
  authority_generation :: int
  authority_revision :: string

record status_frozen =
  frozen_tier :: string
  originalChangedLines :: int
  frozen_budget :: int
  frozen_manifest :: "string option"

record review_status =
  applicability :: string
  status_authority_of :: "status_authority option"
  status_receipt_of :: "status_receipt option"
  status_action :: string
  actionDisposition :: "string option"
  replayability :: string
  frozen :: "status_frozen option"
  status_target :: string
  authorityTargetIdentity :: "string option"
  status_projection :: projection_descriptor
  status_repair :: repair_assessment
  status_candidates :: "string list"
  nextTransition :: "next_transition option"
  forecast :: "review_forecast option"
  status_context :: "repository_context option"
  status_validation :: "targeted_validation_request option"
  escalation :: "review_escalation option"
  eligibleUntrackedInventory :: "string option"
  status_raw :: json

definition decode_status_receipt :: "json \<Rightarrow> string \<Rightarrow> status_receipt result" where
  "decode_status_receipt v l =
     bindr (exact [''status''] [''identity''] v l) (\<lambda>b.
     bindr (member_of (enumeration RECEIPT_STATUSES) ''status'' b l) (\<lambda>s.
     bindr (optional_member sha256 ''identity'' b l) (\<lambda>i.
     Inr \<lparr>receipt_state = s, receipt_identity = i\<rparr>)))"

definition decode_status_authority :: "json \<Rightarrow> string \<Rightarrow> status_authority result" where
  "decode_status_authority v l =
     bindr (exact [''version'', ''lineage_id'', ''state'', ''generation'', ''revision''] [] v l) (\<lambda>b.
     bindr (member_of (enumeration AUTHORITY_VERSIONS) ''version'' b l) (\<lambda>n.
     bindr (member_of lineage ''lineage_id'' b l) (\<lambda>i.
     bindr (member_of nonempty ''state'' b l) (\<lambda>s.
     bindr (member_of (integer 1 None) ''generation'' b l) (\<lambda>g.
     bindr (member_of sha256 ''revision'' b l) (\<lambda>r.
     Inr \<lparr>authority_version = n, authority_lineage = i, authority_state = s, authority_generation = g, authority_revision = r\<rparr>))))))"

definition decode_status_frozen :: "json \<Rightarrow> string \<Rightarrow> status_frozen result" where
  "decode_status_frozen v l =
     bindr (exact [''tier'', ''original_changed_lines'', ''correction_budget''] [''changed_path_manifest_sha256''] v l) (\<lambda>b.
     bindr (member_of (enumeration RISK_LEVELS) ''tier'' b l) (\<lambda>t.
     bindr (member_of (integer 0 None) ''original_changed_lines'' b l) (\<lambda>n.
     bindr (member_of (integer 0 (Some 200)) ''correction_budget'' b l) (\<lambda>c.
     bindr (optional_member sha256 ''changed_path_manifest_sha256'' b l) (\<lambda>m.
     Inr \<lparr>frozen_tier = t, originalChangedLines = n, frozen_budget = c, frozen_manifest = m\<rparr>)))))"

text \<open>The contract versions, from the newest: every rung includes the earlier ones; v3 is the floor.\<close>

definition status_schema :: "string \<Rightarrow> string" where
  "status_schema version = ''gentle-ai.review-integration.status/'' @ version"

definition status_rung :: "json \<Rightarrow> nat" where
  "status_rung v = (let s = jget ''schema'' v in
     if s = JStr (status_schema ''v9'') then 9 else if s = JStr (status_schema ''v8'') then 8
     else if s = JStr (status_schema ''v7'') then 7 else if s = JStr (status_schema ''v6'') then 6
     else if s = JStr (status_schema ''v5'') then 5 else 3)"

definition rung_version :: "nat \<Rightarrow> string" where
  "rung_version n = (if n = 9 then ''v9'' else if n = 8 then ''v8'' else if n = 7 then ''v7'' else if n = 6 then ''v6''
     else if n = 5 then ''v5'' else ''v3'')"

definition STATUS_KEYS :: "string list" where
  "STATUS_KEYS = [''schema'', ''contract'', ''operation'', ''applicability'', ''action'', ''replayability'', ''target_identity'', ''projection'',
     ''repair'', ''candidates'']"

definition status_optional_keys :: "nat \<Rightarrow> string list" where
  "status_optional_keys n = [''authority'', ''frozen'', ''action_disposition'', ''eligibility'', ''next_transition'', ''authority_target_identity''] @
     (if 5 \<le> n then [''receipt'', ''forecast'', ''repository_context'', ''validation_request''] else []) @
     (if 7 \<le> n then [''eligible_untracked_inventory'', ''escalation''] else [])"

record status_head =
  head_applicability :: string
  head_receipt :: "status_receipt option"
  head_authority :: "status_authority option"
  head_frozen :: "status_frozen option"

definition decode_status_head :: "json \<Rightarrow> status_head result" where
  "decode_status_head b =
     bindr (member_of (enumeration [''current_target'', ''unrelated'', ''ambiguous'', ''corrupted'']) ''applicability'' b ''status'') (\<lambda>a.
     bindr (optional_member decode_status_receipt ''receipt'' b ''status'') (\<lambda>r.
     bindr (optional_member decode_status_authority ''authority'' b ''status'') (\<lambda>h.
     bindr (require (a \<noteq> ''current_target'' \<or> h \<noteq> None) (TypeError ''current_target status requires authority'')) (\<lambda>_.
     bindr (require (a = ''current_target'' \<or> (h = None \<and> \<not>  has ''frozen'' b \<and> \<not>  has ''authority_target_identity'' b))
       (TypeError ''non-current status cannot expose authority, frozen, or authority_target_identity'')) (\<lambda>_.
     bindr (optional_member decode_status_frozen ''frozen'' b ''status'') (\<lambda>f.
     (let version = map_option authority_version h in
     bindr (require (version \<noteq> Some ''compact-v2'' \<or> f \<noteq> None) (TypeError ''compact-v2 status requires frozen metadata'')) (\<lambda>_.
     bindr (require (version \<noteq> Some ''legacy-v1'' \<or> (f = None \<and> \<not>  has ''authority_target_identity'' b))
       (TypeError ''legacy status cannot expose frozen metadata or authority_target_identity'')) (\<lambda>_.
     bindr (require (version \<noteq> Some ''legacy-v1'' \<or> (case r of None \<Rightarrow> True | Some x \<Rightarrow> receipt_state x \<in> set [''expected_missing'', ''present'']))
       (TypeError ''legacy status receipt is incompatible'')) (\<lambda>_.
     Inr \<lparr>head_applicability = a, head_receipt = r, head_authority = h, head_frozen = f\<rparr>))))))))))"

text \<open>The validation request of the envelope is the one its collect input carries, compared by canonical JSON.\<close>

definition matching_validation :: "next_transition option \<Rightarrow> targeted_validation_request \<Rightarrow> bool" where
  "matching_validation t q \<longleftrightarrow> (case t of None \<Rightarrow> False | Some n \<Rightarrow>
     (if transition_kind n = ''collect'' then
       (case filter (\<lambda>q. q \<noteq> None) (map validationRequest (case collect n of None \<Rightarrow> [] | Some is \<Rightarrow> is)) of
          [Some r] \<Rightarrow> r = q | _ \<Rightarrow> False)
      else False))"

definition decodeReviewStatusV3 :: "(string \<Rightarrow> json option) \<Rightarrow> json \<Rightarrow> review_status result" where
  "decodeReviewStatusV3 parse v = (let n = status_rung v; v5 = (5 \<le> n); v6 = (6 \<le> n); v7 = (7 \<le> n); v9 = (9 \<le> n) in
     bindr (exact STATUS_KEYS (status_optional_keys n) v ''status'') (\<lambda>b.
     bindr (requireIdentity b (status_schema (rung_version n)) (Some ''review.status'')) (\<lambda>_.
     bindr (decode_status_head b) (\<lambda>h.
     bindr (member_of (enumeration STATUS_ACTIONS) ''action'' b ''status'') (\<lambda>action.
     bindr (optional_member (enumeration STATUS_ACTION_DISPOSITIONS) ''action_disposition'' b ''status'') (\<lambda>d.
     bindr (require (action \<noteq> ''recover'' \<or> d \<noteq> None) (TypeError ''recover status requires action_disposition'')) (\<lambda>_.
     bindr (require (action = ''recover'' \<or> d = None) (TypeError ''status.action_disposition is only valid for the recover action'')) (\<lambda>_.
     bindr (optional_member decodeEligibility ''eligibility'' b ''status'') (\<lambda>_.
     bindr ((if \<not>  has ''next_transition'' b then Inr None
       else bindr (decodeReviewNextTransitionV3 parse v5 v6 v9 (jget ''next_transition'' b)) (\<lambda>t. Inr (Some t)))) (\<lambda>t.
     bindr ((if v5 then optional_member decodeReviewTargetedValidationRequestV1 ''validation_request'' b ''status'' else Inr None)) (\<lambda>q.
     bindr (require (case q of None \<Rightarrow> True | Some r \<Rightarrow> matching_validation t r)
       (TypeError ''status.validation_request must exactly match the provider-targeted-validator collect input'')) (\<lambda>_.
     bindr ((if v5 then optional_member decodeReviewForecastV1 ''forecast'' b ''status'' else Inr None)) (\<lambda>f.
     bindr (require (f = None \<or> t \<noteq> None) (TypeError ''status.forecast requires status.next_transition'')) (\<lambda>_.
     bindr (member_of (enumeration REVIEW_REPLAYABILITIES) ''replayability'' b ''status'') (\<lambda>r.
     bindr (optional_member decode_repository_context ''repository_context'' b ''status'') (\<lambda>c.
     bindr (own_member decode_escalation ''escalation'' b ''status'') (\<lambda>e.
     bindr ((if v7 then optional_member sha256 ''eligible_untracked_inventory'' b ''status'' else Inr None)) (\<lambda>u.
     bindr (member_of sha256 ''target_identity'' b ''status'') (\<lambda>target.
     bindr (optional_member sha256 ''authority_target_identity'' b ''status'') (\<lambda>authority.
     bindr (decodeReviewProjectionV1 (jget ''projection'' b)) (\<lambda>p.
     bindr (decodeAuthorityRepairAssessmentV1 (jget ''repair'' b)) (\<lambda>repair.
     bindr (member_of (stringArray 0 None True (slug (CHR ''-''))) ''candidates'' b ''status'') (\<lambda>cs.
     Inr \<lparr>applicability = head_applicability h, status_authority_of = head_authority h, status_receipt_of = head_receipt h,
       status_action = action, actionDisposition = d, replayability = r, frozen = head_frozen h, status_target = target,
       authorityTargetIdentity = authority, status_projection = p, status_repair = repair, status_candidates = cs,
       nextTransition = t, forecast = f, status_context = c, status_validation = q, escalation = e,
       eligibleUntrackedInventory = u, status_raw = b\<rparr>)))))))))))))))))))))))"

end
