(* ===== verification/AnswerDecoder.thy ===== *)
theory AnswerDecoder
  imports StatusDecoder
begin

text \<open>
  The other answers of the native provider (\<open>lib/review-integration-v2.ts\<close>): the consent question, typed failures,
  repairs, result artifacts, the answer of a burn, and the closure of the last event of a review, with the
  assertions that bind an answer to what the host asked for.
\<close>

section \<open>Consent\<close>

record consent_choice =
  choice_answer :: string
  choice_label :: string
  choice_effect :: string
  choice_invocation :: string

text \<open>\<open>^gentle-ai review start --contract gentle-ai\.review-integration/v2 .* --consent answer$\<close>\<close>

definition consent_invocation :: "string \<Rightarrow> string \<Rightarrow> bool" where
  "consent_invocation answer s = (let p = ''gentle-ai review start --contract gentle-ai.review-integration/v2 ''; q = '' --consent '' @ answer in
     SINGLE_LINE s \<and> starts_with p s \<and> ends_with q s \<and> length p + length q \<le> length s)"

definition decodeConsentChoice :: "json \<Rightarrow> string \<Rightarrow> string \<Rightarrow> consent_choice result" where
  "decodeConsentChoice v l answer =
     bindr (exact [''answer'', ''label'', ''effect'', ''invocation''] [] v l) (\<lambda>b.
     bindr (fixed ''answer'' (JStr answer) (l @ ''.answer must be '' @ answer) b) (\<lambda>_.
     bindr (member_of nonempty ''label'' b l) (\<lambda>n.
     bindr (member_of nonempty ''effect'' b l) (\<lambda>e.
     bindr (member_of (pattern_text (consent_invocation answer)) ''invocation'' b l) (\<lambda>i.
     Inr \<lparr>choice_answer = answer, choice_label = n, choice_effect = e, choice_invocation = i\<rparr>)))))"

record review_consent =
  consent_target :: string
  consent_projection :: string
  consent_risk :: string
  consent_files :: int
  consent_lines :: int
  headline :: string
  consent_reason :: string
  consent_value :: string
  riskEvidence :: "string list"
  choice_granted :: consent_choice
  choice_declined :: consent_choice
  offPath_note :: string
  consent_agent :: "string option"
  consent_raw :: json

definition decodeConsentSemantics :: "string option \<Rightarrow> json \<Rightarrow> review_consent result" where
  "decodeConsentSemantics agent b =
     bindr (fixed ''action'' (JStr ''consent_required'') ''consent.action must be consent_required'' b) (\<lambda>_.
     bindr (fixed ''blocking'' (JBool True) ''consent.blocking must be true'' b) (\<lambda>_.
     bindr (member_of sha256 ''target_identity'' b ''consent'') (\<lambda>t.
     bindr ((case jget ''choices'' b of JArr [x, y] \<Rightarrow> Inr (x, y) | _ \<Rightarrow> Inl (TypeError ''consent.choices must have exactly 2 items''))) (\<lambda>(x, y).
     bindr (decodeConsentChoice x ''consent.choices[0]'' ''granted'') (\<lambda>granted.
     bindr (decodeConsentChoice y ''consent.choices[1]'' ''declined'') (\<lambda>declined.
     bindr (for_each (\<lambda>c. require (js_includes ('' --target '' @ t @ '' '') (choice_invocation c))
       (TypeError (''consent choice '' @ choice_answer c @ '' invocation must bind consent.target_identity''))) [granted, declined]) (\<lambda>_.
     bindr (exact [''note'', ''command''] [] (jget ''off_path'' b) ''consent.off_path'') (\<lambda>off.
     bindr (fixed ''command'' (JStr ''gentle-ai review mode disable'') ''consent.off_path.command is unsupported'' off) (\<lambda>_.
     bindr (member_of (enumeration REQUIRED_PROJECTIONS) ''projection'' b ''consent'') (\<lambda>p.
     bindr (member_of (enumeration [''medium'', ''high'']) ''risk_level'' b ''consent'') (\<lambda>risk.
     bindr (member_of (integer 0 None) ''changed_files'' b ''consent'') (\<lambda>files.
     bindr (member_of (integer 0 None) ''changed_lines'' b ''consent'') (\<lambda>ls.
     bindr (member_of nonempty ''headline'' b ''consent'') (\<lambda>h.
     bindr (member_of nonempty ''reason'' b ''consent'') (\<lambda>r.
     bindr (member_of nonempty ''value'' b ''consent'') (\<lambda>w.
     bindr (member_of (stringArray 0 None False (\<lambda>_. True)) ''risk_evidence'' b ''consent'') (\<lambda>es.
     bindr (member_of nonempty ''note'' off ''consent.off_path'') (\<lambda>note.
     Inr \<lparr>consent_target = t, consent_projection = p, consent_risk = risk, consent_files = files, consent_lines = ls,
       headline = h, consent_reason = r, consent_value = w, riskEvidence = es, choice_granted = granted,
       choice_declined = declined, offPath_note = note, consent_agent = agent, consent_raw = b\<rparr>))))))))))))))))))"

definition CONSENT_KEYS_V2 :: "string list" where
  "CONSENT_KEYS_V2 = [''schema'', ''contract'', ''operation'', ''action'', ''blocking'', ''target_identity'', ''projection'', ''risk_level'', ''changed_files'',
     ''changed_lines'', ''headline'', ''reason'', ''value'', ''risk_evidence'', ''choices'', ''off_path'']"

definition CONSENT_AGENTS :: "string list" where
  "CONSENT_AGENTS = [''claude-code'', ''opencode'', ''codex'', ''pi'']"

definition decodeReviewConsentV2 :: "json \<Rightarrow> review_consent result" where
  "decodeReviewConsentV2 v =
     bindr (exact CONSENT_KEYS_V2 [] v ''consent'') (\<lambda>b.
     bindr (requireIdentity b ''gentle-ai.review-integration.consent/v2'' (Some ''review.start'')) (\<lambda>_.
     decodeConsentSemantics None b))"

definition decodeReviewConsentV3 :: "json \<Rightarrow> string option \<Rightarrow> review_consent result" where
  "decodeReviewConsentV3 v expectedAgent =
     bindr (exact (CONSENT_KEYS_V2 @ [''agent'']) [] v ''consent'') (\<lambda>b.
     bindr (requireIdentity b ''gentle-ai.review-integration.consent/v3'' (Some ''review.start'')) (\<lambda>_.
     bindr (member_of (enumeration CONSENT_AGENTS) ''agent'' b ''consent'') (\<lambda>agent.
     bindr (require (expectedAgent = None \<or> expectedAgent = Some agent) (TypeError ''consent.agent does not match the expected runtime binding'')) (\<lambda>_.
     decodeConsentSemantics (Some agent) b))))"

section \<open>Failures\<close>

definition FAILURE_OPERATIONS :: "string list" where
  "FAILURE_OPERATIONS = REQUIRED_OPERATIONS @ [''review.capture-result'', ''review.capture-correction-plan'', ''review.capture-refuter'',
     ''review.capture-validation'']"

definition FAILURE_REQUIRED_INPUTS :: "string list" where
  "FAILURE_REQUIRED_INPUTS = [''lineage_id'', ''change'', ''expected_binding_revision'', ''predecessor_lineage_id'',
     ''expected_predecessor_revision'', ''successor_lineage_id'', ''disposition'', ''reason'', ''actor'',
     ''maintainer_authorization'', ''base_ref'']"

definition FAILURE_NEXT_ACTIONS :: "string list" where
  "FAILURE_NEXT_ACTIONS = [''correct_request'', ''retry'', ''retry_with_bounded_backoff'', ''review.status'', ''review.repair'',
     ''explicit-maintainer-action'', ''stop'']"

definition MUTATION_OUTCOMES :: "string list" where
  "MUTATION_OUTCOMES = [''not_started'', ''unknown'', ''committed'']"

definition AUTHORITY_APPLICABILITIES :: "string list" where
  "AUTHORITY_APPLICABILITIES = [''current_target'', ''unrelated'', ''ambiguous'', ''corrupted'', ''not_evaluated'']"

definition decodeOptionalSha256 :: "json \<Rightarrow> string \<Rightarrow> string result" where
  "decodeOptionalSha256 v l = (if v = JStr [] then Inr [] else sha256 v l)"

record binding_revision =
  binding_expected :: string
  binding_current :: string

definition decodeFailureBindingRevision :: "json \<Rightarrow> string \<Rightarrow> binding_revision result" where
  "decodeFailureBindingRevision v l =
     bindr (exact [''expected'', ''current''] [] v l) (\<lambda>b.
     bindr (member_of decodeOptionalSha256 ''expected'' b l) (\<lambda>e.
     bindr (member_of decodeOptionalSha256 ''current'' b l) (\<lambda>c.
     Inr \<lparr>binding_expected = e, binding_current = c\<rparr>)))"

record target_evidence =
  evidence_tree :: string
  evidence_paths :: string

definition decodeFailureTargetEvidence :: "json \<Rightarrow> string \<Rightarrow> target_evidence result" where
  "decodeFailureTargetEvidence v l =
     bindr (exact [''candidate_tree'', ''paths_digest''] [] v l) (\<lambda>b.
     bindr (member_of gitTree ''candidate_tree'' b l) (\<lambda>t.
     bindr (member_of sha256 ''paths_digest'' b l) (\<lambda>d.
     Inr \<lparr>evidence_tree = t, evidence_paths = d\<rparr>)))"

record scope_change =
  scope_expected :: target_evidence
  scope_actual :: target_evidence
  differingPathCount :: int
  differingPathsDigest :: string
  predecessorLineageId :: string
  predecessorRevision :: string

definition RECOVERY_INPUTS :: "string list" where
  "RECOVERY_INPUTS = [''predecessor_lineage_id'', ''expected_predecessor_revision'', ''successor_lineage_id'', ''disposition'', ''reason'', ''actor'']"

definition decodeFailureScopeChange :: "json \<Rightarrow> string \<Rightarrow> scope_change result" where
  "decodeFailureScopeChange v l =
     bindr (exact [''expected'', ''actual'', ''differing_path_count'', ''differing_paths_digest'', ''predecessor_lineage_id'', ''predecessor_revision'',
       ''recovery_operation'', ''recovery_required_inputs''] [] v l) (\<lambda>b.
     bindr (fixed ''recovery_operation'' (JStr ''review.recover'') (l @ ''.recovery_operation is unsupported'') b) (\<lambda>_.
     bindr (member_of (stringArray 6 (Some 6) False (\<lambda>_. True)) ''recovery_required_inputs'' b l) (\<lambda>is.
     bindr (require (is = RECOVERY_INPUTS) (TypeError (l @ ''.recovery_required_inputs is unsupported''))) (\<lambda>_.
     bindr (member_of decodeFailureTargetEvidence ''expected'' b l) (\<lambda>e.
     bindr (member_of decodeFailureTargetEvidence ''actual'' b l) (\<lambda>a.
     bindr (member_of (integer 0 (Some 1000000)) ''differing_path_count'' b l) (\<lambda>n.
     bindr (member_of sha256 ''differing_paths_digest'' b l) (\<lambda>d.
     bindr (member_of lineage ''predecessor_lineage_id'' b l) (\<lambda>i.
     bindr (member_of sha256 ''predecessor_revision'' b l) (\<lambda>r.
     Inr \<lparr>scope_expected = e, scope_actual = a, differingPathCount = n, differingPathsDigest = d, predecessorLineageId = i,
       predecessorRevision = r\<rparr>))))))))))"

record failure_context =
  scopeChange :: "scope_change option"
  bindingRevision :: "binding_revision option"

definition decodeFailureContext :: "json \<Rightarrow> string \<Rightarrow> failure_context result" where
  "decodeFailureContext v l =
     bindr (exact [] [''scope_change'', ''binding_revision''] v l) (\<lambda>b.
     bindr (require (has ''scope_change'' b \<noteq> has ''binding_revision'' b)
       (TypeError (l @ '' requires exactly one of scope_change or binding_revision''))) (\<lambda>_.
     bindr (optional_member decodeFailureScopeChange ''scope_change'' b l) (\<lambda>s.
     bindr (optional_member decodeFailureBindingRevision ''binding_revision'' b l) (\<lambda>r.
     Inr \<lparr>scopeChange = s, bindingRevision = r\<rparr>))))"

record review_failure =
  failure_operation :: string
  failure_phase :: string
  failure_code :: string
  failure_message :: string
  mutationOutcome :: string
  failure_applicability :: string
  retrySafe :: bool
  failure_replayability :: string
  failure_lineage :: "string option"
  requestDigest :: "string option"
  progressIdentity :: "string option"
  requiredInputs :: "string list"
  nextAction :: string
  causeCategory :: "string option"
  failure_cause :: "string option"
  failure_context_of :: "failure_context option"
  failure_continuation :: "managed_continuation option"
  failure_raw :: json

definition decodeReviewFailureV2 :: "json \<Rightarrow> review_failure result" where
  "decodeReviewFailureV2 v = (let l = ''failure'' in
     bindr (exact [''schema'', ''contract'', ''operation'', ''phase'', ''code'', ''message'', ''mutation_outcome'', ''authority_applicability'', ''retry_safe'',
       ''replayability'', ''required_inputs'', ''next_action'']
       [''lineage_id'', ''request_digest'', ''progress_identity'', ''cause_category'', ''cause'', ''context'', ''continuation''] v l) (\<lambda>b.
     bindr (requireIdentity b ''gentle-ai.review-integration.failure/v2'' None) (\<lambda>_.
     bindr (member_of (enumeration FAILURE_OPERATIONS) ''operation'' b l) (\<lambda>operation.
     bindr (member_of (pattern_text (slug (CHR ''_''))) ''code'' b l) (\<lambda>code.
     bindr (require (\<not>  has ''progress_identity'' b \<or> (has ''lineage_id'' b \<and> has ''request_digest'' b))
       (TypeError ''failure.progress_identity requires lineage_id and request_digest'')) (\<lambda>_.
     bindr (require (\<not>  has ''progress_identity'' b \<or> operation = ''review.repair'') (TypeError ''failure.progress_identity requires operation review.repair'')) (\<lambda>_.
     bindr (require (\<not>  (has ''request_digest'' b \<and> operation = ''review.repair'') \<or> has ''progress_identity'' b)
       (TypeError ''failure.request_digest with review.repair requires progress_identity'')) (\<lambda>_.
     bindr (require (\<not>  has ''continuation'' b \<or> code = ''managed_assets_outdated'')
       (TypeError ''failure.continuation is only valid for code managed_assets_outdated'')) (\<lambda>_.
     bindr (member_of (enumeration [''preflight'', ''pre_native'', ''native_running'', ''native_committed'', ''reconciliation'']) ''phase'' b l) (\<lambda>phase.
     bindr (member_of (decode_text 1 (Some 240) SINGLE_LINE) ''message'' b l) (\<lambda>message.
     bindr (member_of (enumeration MUTATION_OUTCOMES) ''mutation_outcome'' b l) (\<lambda>m.
     bindr (member_of (enumeration AUTHORITY_APPLICABILITIES) ''authority_applicability'' b l) (\<lambda>a.
     bindr (member_of boolean ''retry_safe'' b l) (\<lambda>safe.
     bindr (member_of (enumeration REVIEW_REPLAYABILITIES) ''replayability'' b l) (\<lambda>r.
     bindr (optional_member lineage ''lineage_id'' b l) (\<lambda>i.
     bindr (optional_member sha256 ''request_digest'' b l) (\<lambda>d.
     bindr (optional_member sha256 ''progress_identity'' b l) (\<lambda>p.
     bindr (member_of (enumArray FAILURE_REQUIRED_INPUTS 0 None True) ''required_inputs'' b l) (\<lambda>is.
     bindr (member_of (enumeration FAILURE_NEXT_ACTIONS) ''next_action'' b l) (\<lambda>n.
     bindr (optional_member (decode_text 1 None (slug (CHR ''_''))) ''cause_category'' b l) (\<lambda>k.
     bindr (optional_member (decode_text 1 (Some 4000) SINGLE_LINE) ''cause'' b l) (\<lambda>c.
     bindr (optional_member decodeFailureContext ''context'' b l) (\<lambda>x.
     bindr (optional_member decodeReviewManagedAssetsContinuationV1 ''continuation'' b l) (\<lambda>s.
     Inr \<lparr>failure_operation = operation, failure_phase = phase, failure_code = code, failure_message = message, mutationOutcome = m,
       failure_applicability = a, retrySafe = safe, failure_replayability = r, failure_lineage = i, requestDigest = d,
       progressIdentity = p, requiredInputs = is, nextAction = n, causeCategory = k, failure_cause = c, failure_context_of = x,
       failure_continuation = s, failure_raw = b\<rparr>))))))))))))))))))))))))"

section \<open>Repairs\<close>

record advisory_finding =
  advisory_id :: string
  advisory_lens :: "string option"
  advisory_location :: "string option"
  advisory_severity :: string
  advisory_disposition :: string

record advisory_findings =
  advisory_statement :: string
  advisory_rows :: "advisory_finding list"

definition REVIEW_LAST_EVENT_FINDING_SEVERITIES :: "string list" where
  "REVIEW_LAST_EVENT_FINDING_SEVERITIES = [''BLOCKER'', ''CRITICAL'', ''WARNING'', ''SUGGESTION'']"

definition decode_advisory_finding :: "json \<Rightarrow> string \<Rightarrow> advisory_finding result" where
  "decode_advisory_finding v l =
     bindr (exact [''id'', ''severity'', ''disposition''] [''lens'', ''location''] v l) (\<lambda>b.
     bindr (member_of nonempty ''id'' b l) (\<lambda>i.
     bindr (optional_member nonempty ''lens'' b l) (\<lambda>n.
     bindr (optional_member nonempty ''location'' b l) (\<lambda>p.
     bindr (member_of (enumeration REVIEW_LAST_EVENT_FINDING_SEVERITIES) ''severity'' b l) (\<lambda>s.
     bindr (member_of (enumeration [''informational'', ''follow_up'', ''refuted'']) ''disposition'' b l) (\<lambda>d.
     Inr \<lparr>advisory_id = i, advisory_lens = n, advisory_location = p, advisory_severity = s, advisory_disposition = d\<rparr>))))))"

definition decodeReviewAdvisoryFindingsV1 :: "json \<Rightarrow> string \<Rightarrow> advisory_findings result" where
  "decodeReviewAdvisoryFindingsV1 v l =
     bindr (exact [''statement'', ''findings''] [] v l) (\<lambda>b.
     bindr (member_of nonempty ''statement'' b l) (\<lambda>s.
     bindr (member_of (decode_array 1 None False decode_advisory_finding) ''findings'' b l) (\<lambda>fs.
     Inr \<lparr>advisory_statement = s, advisory_rows = fs\<rparr>)))"

record repair_inputs =
  inputs_lineage :: string
  inputs_revision :: string
  inputs_binding :: string

record repair_execution =
  execution_lineage :: string
  execution_revision :: string
  execution_chain :: string
  assessmentDigest :: string
  execution_request :: string
  recordIdentity :: string

record review_repair =
  repair_mode :: string
  assessment :: repair_assessment
  providerInputs :: "repair_inputs option"
  repair_required :: "string list"
  repair_execution_of :: "repair_execution option"
  repair_raw :: json

definition REPAIR_INPUTS :: "string list" where
  "REPAIR_INPUTS = [''actor'', ''reason'', ''maintainer_authorization'']"

definition alias_members :: "string \<Rightarrow> json \<Rightarrow> (string \<times> string) list \<Rightarrow> unit result" where
  "alias_members l b ms = for_each (\<lambda>(k, w). fixed k (JStr w) (l @ ''.'' @ k @ '' is unsupported'') b) ms"

definition decode_repair_inputs :: "json \<Rightarrow> string \<Rightarrow> repair_inputs result" where
  "decode_repair_inputs v l =
     bindr (exact [''class'', ''lineage_id'', ''expected_revision'', ''cause'', ''disposition'', ''repository_binding'', ''authorization_schema''] [] v l) (\<lambda>b.
     bindr (alias_members l b [(''class'', HISTORICAL_ALIAS), (''cause'', ALIAS_CAUSE), (''disposition'', ALIAS_DISPOSITION),
       (''authorization_schema'', REPAIR_AUTHORIZATION)]) (\<lambda>_.
     bindr (member_of lineage ''lineage_id'' b l) (\<lambda>i.
     bindr (member_of sha256 ''expected_revision'' b l) (\<lambda>r.
     bindr (member_of sha256 ''repository_binding'' b l) (\<lambda>k.
     Inr \<lparr>inputs_lineage = i, inputs_revision = r, inputs_binding = k\<rparr>)))))"

definition decode_repair_execution :: "json \<Rightarrow> string \<Rightarrow> repair_execution result" where
  "decode_repair_execution v l =
     bindr (exact [''status'', ''class'', ''lineage_id'', ''revision'', ''chain_identity'', ''cause'', ''disposition'', ''assessment_digest'', ''request_digest'',
       ''record_identity''] [] v l) (\<lambda>b.
     bindr (fixed ''status'' (JStr ''committed'') (l @ ''.status must be committed'') b) (\<lambda>_.
     bindr (alias_members l b [(''class'', HISTORICAL_ALIAS), (''cause'', ALIAS_CAUSE), (''disposition'', ALIAS_DISPOSITION)]) (\<lambda>_.
     bindr (member_of lineage ''lineage_id'' b l) (\<lambda>i.
     bindr (member_of sha256 ''revision'' b l) (\<lambda>r.
     bindr (member_of sha256 ''chain_identity'' b l) (\<lambda>c.
     bindr (member_of sha256 ''assessment_digest'' b l) (\<lambda>a.
     bindr (member_of sha256 ''request_digest'' b l) (\<lambda>q.
     bindr (member_of sha256 ''record_identity'' b l) (\<lambda>k.
     Inr \<lparr>execution_lineage = i, execution_revision = r, execution_chain = c, assessmentDigest = a, execution_request = q,
       recordIdentity = k\<rparr>)))))))))"

definition decodeReviewRepairV2 :: "json \<Rightarrow> review_repair result" where
  "decodeReviewRepairV2 v =
     bindr (exact [''schema'', ''contract'', ''operation'', ''mode'', ''assessment'', ''required_inputs''] [''provider_inputs'', ''execution''] v ''repair'') (\<lambda>b.
     bindr (requireIdentity b ''gentle-ai.review-integration.repair/v2'' (Some ''review.repair'')) (\<lambda>_.
     bindr (member_of (enumeration [''preflight'', ''execute'']) ''mode'' b ''repair'') (\<lambda>mode.
     bindr (decodeAuthorityRepairAssessmentV1 (jget ''assessment'' b)) (\<lambda>a.
     bindr (member_of (enumArray REPAIR_INPUTS 0 (Some 3) True) ''required_inputs'' b ''repair'') (\<lambda>is.
     bindr ((if mode = ''execute'' then checks
       [require (has ''execution'' b) (TypeError ''repair execute mode requires execution''),
       require (\<not>  has ''provider_inputs'' b) (TypeError ''repair execute mode cannot expose provider_inputs''),
       require (is = []) (TypeError ''repair execute mode requires an empty required_inputs'')]
       else require (\<not>  has ''execution'' b) (TypeError ''repair.execution is only valid for execute mode''))) (\<lambda>_.
     bindr ((if mode = ''preflight'' \<and> repair_status a = ''eligible'' then
       bindr (checks [require (has ''provider_inputs'' b) (TypeError ''eligible preflight repair requires provider_inputs''),
       require (is = REPAIR_INPUTS)
       (TypeError ''eligible preflight repair requires required_inputs exactly [actor, reason, maintainer_authorization] in order'')]) (\<lambda>_.
       bindr (member_of decode_repair_inputs ''provider_inputs'' b ''repair'') (\<lambda>p. Inr (Some p)))
       else if mode = ''preflight'' then
       bindr (checks [require (\<not>  has ''provider_inputs'' b) (TypeError ''repair.provider_inputs is only valid for an eligible preflight assessment''),
       require (is = []) (TypeError ''non-eligible preflight repair requires an empty required_inputs'')]) (\<lambda>_. Inr None)
       else Inr None)) (\<lambda>p.
     bindr (optional_member decode_repair_execution ''execution'' b ''repair'') (\<lambda>e.
     Inr \<lparr>repair_mode = mode, assessment = a, providerInputs = p, repair_required = is, repair_execution_of = e, repair_raw = b\<rparr>))))))))"

section \<open>Artifacts and acknowledgements\<close>

record result_artifact =
  artifact_sha256 :: string
  artifact_lineage :: string
  artifact_target :: string
  artifact_lens :: string
  artifact_order :: int
  artifact_subject_hash :: string
  artifact_path :: "string option"
  artifact_reference :: "string option"
  artifact_raw :: json

definition artifact_constants :: "string \<Rightarrow> json \<Rightarrow> unit result" where
  "artifact_constants l b = checks
     [fixed ''schema'' (JStr ''gentle-ai.review-result-artifact/v2'') (l @ ''.schema must be gentle-ai.review-result-artifact/v2'') b,
      fixed ''capability'' (JStr ''review.native_result_artifact'') (l @ ''.capability must be review.native_result_artifact'') b,
      fixed ''admission_decision'' (JStr ''completed'') (l @ ''.admission_decision must be completed'') b]"

definition ARTIFACT_KEYS :: "string list" where
  "ARTIFACT_KEYS = [''schema'', ''capability'', ''sha256'', ''lineage_id'', ''target_identity'', ''lens'', ''selected_order'', ''subject_hash'',
     ''admission_decision'']"

definition decodeReviewResultArtifactV2 :: "json \<Rightarrow> result_artifact result" where
  "decodeReviewResultArtifactV2 v = (let l = ''result_artifact'' in
     bindr (exact ARTIFACT_KEYS [''path'', ''reference''] v l) (\<lambda>b.
     bindr (artifact_constants l b) (\<lambda>_.
     bindr (require (has ''path'' b \<noteq> has ''reference'' b) (TypeError ''result_artifact must carry exactly one of path or reference'')) (\<lambda>_.
     bindr (member_of sha256 ''sha256'' b l) (\<lambda>h.
     bindr (member_of lineage ''lineage_id'' b l) (\<lambda>i.
     bindr (member_of sha256 ''target_identity'' b l) (\<lambda>t.
     bindr (member_of (enumeration REVIEW_LENSES) ''lens'' b l) (\<lambda>n.
     bindr (member_of (integer 0 (Some 3)) ''selected_order'' b l) (\<lambda>o1.
     bindr (member_of sha256 ''subject_hash'' b l) (\<lambda>s.
     bindr (optional_member nonempty ''path'' b l) (\<lambda>p.
     bindr (optional_member (pattern_text (prefixed_hex ''rart1_'')) ''reference'' b l) (\<lambda>r.
     Inr \<lparr>artifact_sha256 = h, artifact_lineage = i, artifact_target = t, artifact_lens = n, artifact_order = o1,
       artifact_subject_hash = s, artifact_path = p, artifact_reference = r, artifact_raw = b\<rparr>))))))))))))"

record review_acknowledged =
  acknowledged_lineage :: string
  acknowledged_target :: string
  consumedRevision :: string
  acknowledged_raw :: json

definition decodeReviewAcknowledgedV1 :: "json \<Rightarrow> acknowledgement_expectation \<Rightarrow> review_acknowledged result" where
  "decodeReviewAcknowledgedV1 v expected = (let l = ''acknowledged'' in
     bindr (decode_record v l) (\<lambda>r0.
     bindr (fixed ''schema'' (JStr ''gentle-ai.review-acknowledged/v1'') ''schema must be gentle-ai.review-acknowledged/v1'' r0) (\<lambda>_.
     bindr (exact [''schema'', ''operation'', ''action'', ''lineage_id'', ''target_identity'', ''consumed_revision'', ''authority''] [] v l) (\<lambda>b.
     bindr (fixed ''operation'' (JStr ''review/acknowledge-approved'') ''acknowledged.operation must be review/acknowledge-approved'' b) (\<lambda>_.
     bindr (fixed ''action'' (JStr ''acknowledged'') ''acknowledged.action must be acknowledged'' b) (\<lambda>_.
     bindr (fixed ''authority'' (JStr ''burned'') ''acknowledged.authority must be burned'' b) (\<lambda>_.
     bindr (member_of lineage ''lineage_id'' b l) (\<lambda>i.
     bindr (member_of sha256 ''target_identity'' b l) (\<lambda>t.
     bindr (member_of sha256 ''consumed_revision'' b l) (\<lambda>r.
     bindr (agrees (expected_lineage expected) i ''acknowledged.lineage_id does not name the acknowledged lineage'') (\<lambda>_.
     bindr (agrees (expected_target expected) t ''acknowledged.target_identity does not name the acknowledged target'') (\<lambda>_.
     bindr (agrees (expected_revision expected) r ''acknowledged.consumed_revision does not name the consumed revision'') (\<lambda>_.
     Inr \<lparr>acknowledged_lineage = i, acknowledged_target = t, consumedRevision = r, acknowledged_raw = b\<rparr>)))))))))))))"

end
