(* ===== verification/ClosureDecoder.thy ===== *)
theory ClosureDecoder
  imports AnswerDecoder
begin

text \<open>
  The closure of the last event of a review (\<open>decodeReviewLastEventClosureV1\<close> and
  \<open>assertReviewLastEventClosureBinding\<close>, \<open>lib/review-integration-v2.ts\<close>): how a capture ended, with the status command
  that continues a correction, or the acknowledgement that burns the authority of an approval. An acknowledgement that
  cannot be read becomes a flag, so that the approval itself still arrives.
\<close>

section \<open>The status continuation\<close>

record continuation_artifact =
  piece_sha256 :: string
  piece_lineage :: string
  piece_target :: string
  piece_lens :: string
  piece_order :: int
  piece_subject :: string

definition decodeReviewStatusContinuationArtifactV1 :: "json \<Rightarrow> string \<Rightarrow> continuation_artifact result" where
  "decodeReviewStatusContinuationArtifactV1 v l =
     bindr (exact ARTIFACT_KEYS [] v l) (\<lambda>b.
     bindr (artifact_constants l b) (\<lambda>_.
     bindr (member_of sha256 ''sha256'' b l) (\<lambda>h.
     bindr (member_of lineage ''lineage_id'' b l) (\<lambda>i.
     bindr (member_of sha256 ''target_identity'' b l) (\<lambda>t.
     bindr (member_of nonempty ''lens'' b l) (\<lambda>n.
     bindr (member_of (integer 0 None) ''selected_order'' b l) (\<lambda>k.
     bindr (member_of sha256 ''subject_hash'' b l) (\<lambda>s.
     Inr \<lparr>piece_sha256 = h, piece_lineage = i, piece_target = t, piece_lens = n, piece_order = k, piece_subject = s\<rparr>))))))))"

record status_continuation =
  next_arguments :: "argument list"
  next_selectors :: "argument list option"
  next_preconditions :: "argument list"
  next_target :: string
  next_lineage :: "string option"
  next_revision :: "string option"
  next_context :: "string option"
  next_artifacts :: "continuation_artifact list option"
  next_command :: "string option"
  next_raw :: json

text \<open>\<open>/^gentle-ai review [a-z][a-z-]*/\<close>\<close>

definition REVIEW_COMMAND :: "string \<Rightarrow> bool" where
  "REVIEW_COMMAND s \<longleftrightarrow> starts_with ''gentle-ai review '' s \<and>
     (case drop (length ''gentle-ai review '') s of [] \<Rightarrow> False | c # cs \<Rightarrow> CHR ''a'' \<le> c \<and> c \<le> CHR ''z'')"

definition decodeReviewStatusContinuationV1 :: "json \<Rightarrow> string \<Rightarrow> status_continuation result" where
  "decodeReviewStatusContinuationV1 v l =
     bindr (exact [''operation'', ''arguments'', ''preconditions'', ''binding''] [''command'', ''selector_arguments'', ''artifacts''] v l) (\<lambda>b.
     bindr (fixed ''operation'' (JStr ''review.status'') (l @ ''.operation must be review.status'') b) (\<lambda>_.
     bindr (member_of decodeTransitionArguments ''arguments'' b l) (\<lambda>as.
     bindr (require (list_all (\<lambda>a. arg_token a \<noteq> None) as) (TypeError (l @ ''.arguments require exact tokens''))) (\<lambda>_.
     bindr (member_of decodeTransitionArguments ''preconditions'' b l) (\<lambda>ps.
     bindr (require (ps \<noteq> []) (TypeError (l @ ''.preconditions requires at least one entry''))) (\<lambda>_.
     bindr (exact [''target_identity''] [''lineage_id'', ''revision'', ''repository_context''] (jget ''binding'' b) (l @ ''.binding'')) (\<lambda>k.
     bindr (optional_member lineage ''lineage_id'' k (l @ ''.binding'')) (\<lambda>i.
     bindr (optional_member sha256 ''revision'' k (l @ ''.binding'')) (\<lambda>r.
     bindr (optional_member (pattern_text CONTEXT_HANDLE) ''repository_context'' k (l @ ''.binding'')) (\<lambda>x.
     bindr (optional_member decodeTransitionArguments ''selector_arguments'' b l) (\<lambda>ss.
     bindr (optional_member (decode_array 0 None False decodeReviewStatusContinuationArtifactV1) ''artifacts'' b l) (\<lambda>fs.
     bindr (optional_member (decode_text 1 None REVIEW_COMMAND) ''command'' b l) (\<lambda>c.
     bindr (member_of sha256 ''target_identity'' k (l @ ''.binding'')) (\<lambda>t.
     Inr \<lparr>next_arguments = as, next_selectors = ss, next_preconditions = ps, next_target = t, next_lineage = i,
       next_revision = r, next_context = x, next_artifacts = fs, next_command = c, next_raw = b\<rparr>))))))))))))))"

section \<open>The approved acknowledgement\<close>

record approved_acknowledgement =
  burn_command :: string
  burn_arguments :: "argument list"
  burn_preconditions :: "argument list"
  burn_lineage :: string
  burn_revision :: string
  burn_target :: string
  burn_context :: "string option"
  burn_raw :: json

definition decodeReviewApprovedAcknowledgementV1 :: "json \<Rightarrow> string \<Rightarrow> approved_acknowledgement result" where
  "decodeReviewApprovedAcknowledgementV1 v l =
     bindr (exact [''operation'', ''command'', ''arguments'', ''preconditions'', ''binding''] [] v l) (\<lambda>b.
     bindr (member_of decodeTransitionArguments ''arguments'' b l) (\<lambda>as.
     bindr (member_of decodeTransitionArguments ''preconditions'' b l) (\<lambda>ps.
     bindr (exact [''lineage_id'', ''revision'', ''target_identity''] [''repository_context''] (jget ''binding'' b) (l @ ''.binding'')) (\<lambda>k.
     bindr (optional_member (pattern_text CONTEXT_HANDLE) ''repository_context'' k (l @ ''.binding'')) (\<lambda>x.
     bindr (acknowledgement_execute_shape (jget ''operation'' b) (jget ''command'' b) as ps (jget ''lineage_id'' k) (jget ''target_identity'' k)
       (jget ''revision'' k)) (\<lambda>s.
     Inr \<lparr>burn_command = (case jget ''command'' b of JStr c \<Rightarrow> c | _ \<Rightarrow> []), burn_arguments = as, burn_preconditions = ps,
       burn_lineage = shape_lineage s, burn_revision = shape_revision s, burn_target = shape_target s, burn_context = x,
       burn_raw = b\<rparr>))))))"

definition assert_burn :: "approved_acknowledgement \<Rightarrow> acknowledgement_expectation \<Rightarrow> string list result" where
  "assert_burn a expected =
     bindr (acknowledgement_execute_shape (JStr ''review.acknowledge-approved'') (JStr (burn_command a)) (burn_arguments a)
       (burn_preconditions a) (JStr (burn_lineage a)) (JStr (burn_target a)) (JStr (burn_revision a))) (\<lambda>s.
     assert_acknowledgement_binding s expected)"

section \<open>Reviewer results\<close>

definition REVIEW_LAST_EVENT_EVIDENCE_CLASSES :: "string list" where
  "REVIEW_LAST_EVENT_EVIDENCE_CLASSES = [''deterministic'', ''inferential'', ''insufficient'']"

definition REVIEW_LAST_EVENT_CAUSAL_DISPOSITIONS :: "string list" where
  "REVIEW_LAST_EVENT_CAUSAL_DISPOSITIONS = [''introduced'', ''behavior-activated'', ''worsened'', ''pre-existing'', ''base-only'', ''unknown'']"

definition REVIEW_LAST_EVENT_TERMINAL_STATES :: "string list" where
  "REVIEW_LAST_EVENT_TERMINAL_STATES = [''approved'', ''correction_required'', ''escalated'']"

record reviewer_finding =
  reviewer_id :: string
  reviewer_lens :: string
  reviewer_location :: string
  reviewer_severity :: string
  reviewer_claim :: string
  reviewer_proofs :: "string list"
  reviewer_class :: "string option"
  reviewer_cause :: "string option"

definition decodeReviewLastEventReviewerFindingV1 :: "json \<Rightarrow> string \<Rightarrow> reviewer_finding result" where
  "decodeReviewLastEventReviewerFindingV1 v l =
     bindr (exact [''id'', ''lens'', ''location'', ''severity'', ''claim'', ''proof_refs''] [''evidence_class'', ''causal_disposition''] v l) (\<lambda>b.
     bindr (optional_member (enumeration REVIEW_LAST_EVENT_EVIDENCE_CLASSES) ''evidence_class'' b l) (\<lambda>c.
     bindr (optional_member (enumeration REVIEW_LAST_EVENT_CAUSAL_DISPOSITIONS) ''causal_disposition'' b l) (\<lambda>d.
     bindr (member_of nonempty ''id'' b l) (\<lambda>i.
     bindr (member_of nonempty ''lens'' b l) (\<lambda>n.
     bindr (member_of nonempty ''location'' b l) (\<lambda>p.
     bindr (member_of (enumeration REVIEW_LAST_EVENT_FINDING_SEVERITIES) ''severity'' b l) (\<lambda>s.
     bindr (member_of nonempty ''claim'' b l) (\<lambda>w.
     bindr (member_of (stringArray 1 None False (\<lambda>_. True)) ''proof_refs'' b l) (\<lambda>rs.
     Inr \<lparr>reviewer_id = i, reviewer_lens = n, reviewer_location = p, reviewer_severity = s, reviewer_claim = w,
       reviewer_proofs = rs, reviewer_class = c, reviewer_cause = d\<rparr>)))))))))"

record reviewer_result =
  result_lens :: string
  result_findings :: "reviewer_finding list"
  result_evidence :: "string list"
  resultHash :: string

definition decodeReviewLastEventReviewerResultV1 :: "json \<Rightarrow> string \<Rightarrow> reviewer_result result" where
  "decodeReviewLastEventReviewerResultV1 v l =
     bindr (exact [''lens'', ''findings'', ''evidence'', ''result_hash''] [] v l) (\<lambda>b.
     bindr (member_of nonempty ''lens'' b l) (\<lambda>n.
     bindr (member_of (decode_array 0 None False decodeReviewLastEventReviewerFindingV1) ''findings'' b l) (\<lambda>fs.
     bindr (member_of (stringArray 0 None False (\<lambda>_. True)) ''evidence'' b l) (\<lambda>es.
     bindr (member_of sha256 ''result_hash'' b l) (\<lambda>h.
     Inr \<lparr>result_lens = n, result_findings = fs, result_evidence = es, resultHash = h\<rparr>)))))"

section \<open>The closure\<close>

definition CLOSURE_OPERATIONS :: "string list" where
  "CLOSURE_OPERATIONS = [''review/capture-result'', ''review.capture-correction-plan'', ''review.capture-refuter'', ''review/capture-validation'']"

record event_closure =
  closure_operation :: string
  closure_lineage :: string
  closure_state :: string
  storeRevision :: string
  closure_action :: "string option"
  closure_target :: "string option"
  requestHash :: "string option"
  correctionLines :: "int option"
  advisoryFindings :: "advisory_findings option"
  reviewerResults :: "reviewer_result list option"
  statusContinuation :: "status_continuation option"
  acknowledgement :: "approved_acknowledgement option"
  acknowledgementUndecodable :: bool

text \<open>A correction plan was captured: nothing but the plan is there.\<close>

definition decode_plan_closure :: "json \<Rightarrow> event_closure \<Rightarrow> event_closure result" where
  "decode_plan_closure b shared = (let l = ''last_event_closure'' in
     bindr (require (\<not>  has ''reviewer_results'' b) (TypeError ''last_event_closure reviewer_results requires approved state'')) (\<lambda>_.
     bindr (require (\<not>  has ''action'' b \<and> \<not>  has ''advisory_findings'' b \<and> \<not>  has ''status_continuation'' b)
       (TypeError ''last_event_closure correction-plan cannot carry action, advisory_findings, or status_continuation'')) (\<lambda>_.
     bindr (require (closure_state shared = ''correction_required'') (TypeError ''last_event_closure correction-plan requires correction_required state'')) (\<lambda>_.
     bindr (member_of sha256 ''target_identity'' b l) (\<lambda>t.
     bindr (member_of sha256 ''request_hash'' b l) (\<lambda>q.
     bindr (member_of (integer 1 (Some 200)) ''correction_lines'' b l) (\<lambda>n.
     Inr (shared\<lparr>closure_target := Some t, requestHash := Some q, correctionLines := Some n\<rparr>))))))))"

definition check_continuation :: "status_continuation \<Rightarrow> event_closure \<Rightarrow> unit result" where
  "check_continuation c shared = checks
     [require (next_lineage c = Some (closure_lineage shared))
        (TypeError ''last_event_closure status continuation lineage does not match its enclosing closure''),
      require (next_revision c = Some (storeRevision shared))
        (TypeError ''last_event_closure status continuation revision does not match its enclosing closure''),
      require (case arguments_named ''lineage'' (next_arguments c) of
          [a] \<Rightarrow> arg_value a = closure_lineage shared \<and> arg_token a = Some (argument_text ''lineage'' (closure_lineage shared))
        | _ \<Rightarrow> False)
        (TypeError ''last_event_closure status continuation lineage argument does not match its enclosing closure'')]"

text \<open>The acknowledgement, and whether one is there that could not be read: the code catches what its decoder throws.\<close>

definition read_acknowledgement :: "json \<Rightarrow> approved_acknowledgement option \<times> bool" where
  "read_acknowledgement b = (if \<not>  has ''acknowledgement'' b then (None, False)
     else (case member_of decodeReviewApprovedAcknowledgementV1 ''acknowledgement'' b ''last_event_closure'' of
         Inl e \<Rightarrow> (None, True) | Inr a \<Rightarrow> (Some a, False)))"

definition check_acknowledgement :: "approved_acknowledgement option \<Rightarrow> bool \<Rightarrow> event_closure \<Rightarrow> unit result" where
  "check_acknowledgement a undecodable shared = checks
     [require (\<not>  undecodable \<or> closure_state shared = ''approved'') (TypeError ''last_event_closure acknowledgement requires approved state''),
      (case a of None \<Rightarrow> Inr () | Some x \<Rightarrow>
         bindr (require (closure_state shared = ''approved'') (TypeError ''last_event_closure acknowledgement requires approved state'')) (\<lambda>_.
         bindr (assert_burn x (no_expectation\<lparr>expected_lineage := Some (closure_lineage shared), expected_revision := Some (storeRevision shared)\<rparr>))
           (\<lambda>_. Inr ())))]"

definition decode_capture_closure :: "json \<Rightarrow> event_closure \<Rightarrow> event_closure result" where
  "decode_capture_closure b shared = (let l = ''last_event_closure'' in
     bindr (require (\<not>  has ''target_identity'' b \<and> \<not>  has ''request_hash'' b \<and> \<not>  has ''correction_lines'' b)
       (TypeError ''last_event_closure terminal capture cannot carry correction-plan fields'')) (\<lambda>_.
     (let continues = (closure_state shared = ''correction_required'' \<and> closure_operation shared \<in> set [''review/capture-result'', ''review.capture-refuter'']) in
     bindr (require (\<not>  continues \<or> has ''status_continuation'' b)
       (TypeError ''last_event_closure requires status_continuation for correction-required result or refuter capture'')) (\<lambda>_.
     bindr (require (continues \<or> \<not>  has ''status_continuation'' b)
       (TypeError ''last_event_closure status_continuation is only valid for correction-required result or refuter capture'')) (\<lambda>_.
     bindr (optional_member decodeReviewStatusContinuationV1 ''status_continuation'' b l) (\<lambda>c.
     bindr ((case c of None \<Rightarrow> Inr () | Some x \<Rightarrow> check_continuation x shared)) (\<lambda>_.
     (let (a, undecodable) = read_acknowledgement b in
     bindr (check_acknowledgement a undecodable shared) (\<lambda>_.
     bindr (member_of nonempty ''action'' b l) (\<lambda>action.
     bindr (optional_member decodeReviewAdvisoryFindingsV1 ''advisory_findings'' b l) (\<lambda>fs.
     bindr (require (fs = None \<or> closure_state shared = ''approved'') (TypeError ''last_event_closure advisory_findings requires approved state'')) (\<lambda>_.
     bindr (optional_member (decode_array 0 None False decodeReviewLastEventReviewerResultV1) ''reviewer_results'' b l) (\<lambda>rs.
     bindr (require (rs = None \<or> closure_state shared = ''approved'') (TypeError ''last_event_closure reviewer_results requires approved state'')) (\<lambda>_.
     Inr (shared\<lparr>closure_action := Some action, advisoryFindings := fs, reviewerResults := rs, statusContinuation := c,
       acknowledgement := a, acknowledgementUndecodable := undecodable\<rparr>)))))))))))))))"

definition CLOSURE_KEYS :: "string list" where
  "CLOSURE_KEYS = [''schema'', ''operation'', ''lineage_id'', ''state'', ''store_revision'']"

definition CLOSURE_OPTIONAL_KEYS :: "string list" where
  "CLOSURE_OPTIONAL_KEYS = [''target_identity'', ''request_hash'', ''correction_lines'', ''action'', ''advisory_findings'', ''reviewer_results'',
     ''status_continuation'', ''acknowledgement'']"

definition decodeReviewLastEventClosureV1 :: "json \<Rightarrow> event_closure result" where
  "decodeReviewLastEventClosureV1 v = (let l = ''last_event_closure'' in
     bindr (exact CLOSURE_KEYS CLOSURE_OPTIONAL_KEYS v l) (\<lambda>b.
     bindr (fixed ''schema'' (JStr ''gentle-ai.review-last-event-closure/v1'') ''last_event_closure.schema must be gentle-ai.review-last-event-closure/v1'' b) (\<lambda>_.
     bindr (member_of (enumeration CLOSURE_OPERATIONS) ''operation'' b l) (\<lambda>operation.
     bindr (member_of (enumeration REVIEW_LAST_EVENT_TERMINAL_STATES) ''state'' b l) (\<lambda>st.
     bindr (member_of lineage ''lineage_id'' b l) (\<lambda>i.
     bindr (member_of sha256 ''store_revision'' b l) (\<lambda>r.
     (let shared = \<lparr>closure_operation = operation, closure_lineage = i, closure_state = st, storeRevision = r, closure_action = None,
       closure_target = None, requestHash = None, correctionLines = None, advisoryFindings = None, reviewerResults = None,
       statusContinuation = None, acknowledgement = None, acknowledgementUndecodable = False\<rparr> in
     (if operation = ''review.capture-correction-plan'' then decode_plan_closure b shared else decode_capture_closure b shared)))))))))"

record closure_binding =
  bound_lineage :: string
  bound_target :: "string option"
  bound_request :: "string option"

definition differs :: "string option \<Rightarrow> string option \<Rightarrow> bool" where
  "differs bound actual \<longleftrightarrow> bound \<noteq> None \<and> actual \<noteq> None \<and> actual \<noteq> bound"

definition assertReviewLastEventClosureBinding :: "event_closure \<Rightarrow> closure_binding \<Rightarrow> unit result" where
  "assertReviewLastEventClosureBinding c k = checks
     [require (closure_lineage c = bound_lineage k) (TypeError ''last_event_closure lineage does not match its provider binding''),
      require (\<not>  differs (bound_target k) (closure_target c)) (TypeError ''last_event_closure target does not match its provider binding''),
      require (\<not>  differs (bound_target k) (map_option next_target (statusContinuation c)))
        (TypeError ''last_event_closure status continuation target does not match its provider binding''),
      require (\<not>  differs (bound_request k) (requestHash c)) (TypeError ''last_event_closure request hash does not match its provider binding'')]"

end
