(* ===== verification/IntegrationClaims.thy ===== *)
theory IntegrationClaims
  imports ClosureDecoder "HOL-Library.Multiset"
begin

text \<open>
  What the acceptance of a provider and of a transition means: the surface a provider offers, the form a captured
  value is submitted in, the request a validator is bound to, and the command that takes a declaration back.
\<close>

section \<open>Objects\<close>

lemma map_of_set_member:
  "map_of (map (\<lambda>(b, x). (b, if b = a then w else x)) kvs) k = (if k = a \<and> a \<in> fst ` set kvs then Some w else map_of kvs k)"
proof (induction kvs)
  case (Cons p kvs)
  then show ?case by (cases p; cases "fst p = a"; cases "fst p = k") simp_all
qed simp

lemma jget_set_member: "jget k (set_member a w v) = (if k = a \<and> a \<in> set (keys_of v) then w else jget k v)"
  by (cases v) (simp_all add: jget_def set_member_def keys_of_def map_of_set_member)

lemma keys_of_set_member [simp]: "keys_of (set_member a w v) = keys_of v"
  by (cases v) (auto simp: keys_of_def set_member_def comp_def case_prod_unfold)

lemma is_object_set_member [simp]: "is_object (set_member a w v) = is_object v"
  by (cases v) (auto simp: is_object_def set_member_def)

lemma closed_set_member [simp]: "closed r q (set_member a w v) = closed r q v"
  by (simp add: closed_def)

lemma bindr_mono: "bindr m k = Inr y \<Longrightarrow> (\<And>x. k x = Inr y \<Longrightarrow> k' x = Inr y) \<Longrightarrow> bindr m k' = Inr y"
  by (cases m) simp_all

section \<open>The surface of a provider\<close>

lemma feature_ok: "decode_feature f v l = Inr x \<longleftrightarrow> closed [''name'', ''supported'', ''requires''] [] v \<and>
    (\<exists>k. f (jget ''name'' v) (l @ ''.name'') = Inr k \<and> feature_name x = k) \<and> jget ''supported'' v = JBool (supported x) \<and>
    jget ''requires'' v = JArr (map JStr (requires x)) \<and> (\<forall>r \<in> set (requires x). r \<noteq> []) \<and> distinct (requires x)"
  by (cases x) (auto simp: decode_feature_def result_simps decode_simps member_of_def)

definition required_features :: "capabilities_identity \<Rightarrow> string list" where
  "required_features i = (case requiredMandatoryFeatures i of None \<Rightarrow> REQUIRED_MANDATORY_FEATURES | Some fs \<Rightarrow> fs)"

definition offers :: "string \<Rightarrow> string list \<Rightarrow> json \<Rightarrow> bool" where
  "offers k required v \<longleftrightarrow> (\<exists>xs. jget k v = JArr (map JStr xs) \<and> length required \<le> length xs \<and> distinct xs \<and> [] \<notin> set xs \<and>
     set required \<subseteq> set xs)"

lemma surface_ok: "decode_surface required v = Inr () \<longleftrightarrow> offers ''operations'' REQUIRED_OPERATIONS v \<and> offers ''gates'' REQUIRED_GATES v \<and>
    offers ''projections'' REQUIRED_PROJECTIONS v \<and> offers ''schemas'' required v"
proof -
  have a: "advertised k n v = Inr xs \<longleftrightarrow> jget k v = JArr (map JStr xs) \<and> n \<le> length xs \<and> distinct xs \<and> [] \<notin> set xs" for k n xs
    by (auto simp: advertised_def member_of_def decode_simps)
  have e: "(\<exists>xs. jget k v = JArr (map JStr xs) \<and> n \<le> length xs \<and> distinct xs \<and> [] \<notin> set xs \<and> P xs \<and> Q) \<longleftrightarrow>
      (\<exists>xs. jget k v = JArr (map JStr xs) \<and> n \<le> length xs \<and> distinct xs \<and> [] \<notin> set xs \<and> P xs) \<and> Q" for k n P Q
    by blast
  show ?thesis
    unfolding decode_surface_def bindr_eq_Inr a offers_def checks_ok
    by (simp add: assertSupersetOf_ok e) blast
qed

text \<open>The names of the mandatory features are the required ones, each once; no optional name is among them.\<close>

lemma features_ok:
  assumes "decode_features i body = Inr (names, opts)"
  shows "length names = length (required_features i)" "set (required_features i) \<subseteq> set names" "distinct (map feature_name opts)"
    "set (map feature_name opts) \<inter> set names = {}"
  using assms unfolding decode_features_def required_features_def
  by (auto simp: result_simps decode_simps Let_def list_ex_iff)

lemma identities_distinct:
  assumes "map_of CAPABILITIES_SCHEMA_IDENTITIES k = Some i"
  shows "distinct (required_features i)"
proof -
  have d: "distinct REQUIRED_MANDATORY_FEATURES" "distinct REQUIRED_MANDATORY_FEATURES_V23" by code_simp+
  have "requiredMandatoryFeatures i \<in> {None, Some REQUIRED_MANDATORY_FEATURES_V23}"
    using map_of_SomeD[OF assms] by (auto simp: CAPABILITIES_SCHEMA_IDENTITIES_def)
  then show ?thesis using d by (auto simp: required_features_def)
qed

definition verified_digest :: "string \<Rightarrow> string" where
  "verified_digest d = (if starts_with ''sha256:'' d then d else ''sha256:'' @ d)"

lemma executable_ok:
  assumes "decode_executable v d = Inr h"
  shows "SHA256 h" "h = verified_digest d" "jget ''sha256'' (jget ''executable'' v) = JStr h"
  using assms unfolding decode_executable_def verified_digest_def
  by (auto simp: result_simps decode_simps member_of_def)

text \<open>What an accepted provider went through, one fact per section of the decoder.\<close>

lemma capabilities_parts:
  assumes "decodeReviewCapabilitiesV2 v d = Inr c"
  obtains i version build digest names opts where
    "closed CAPABILITIES_KEYS [''bootstrap''] v" "map_of CAPABILITIES_SCHEMA_IDENTITIES (schema_text v) = Some i"
    "requireIdentity v (schema_text v) None = Inr ()" "decode_protocol i v = Inr ()" "decode_package v = Inr version"
    "decode_build v = Inr build" "decode_executable v d = Inr digest" "decode_surface (requiredSchemas i) v = Inr ()"
    "decode_features i v = Inr (names, opts)" "decode_compatibility v = Inr ()" "decode_bootstrap v = Inr ()"
    "c = \<lparr>packageVersion = version, buildId = build, executableDigest = digest, operations = REQUIRED_OPERATIONS,
       gates = REQUIRED_GATES, projections = REQUIRED_PROJECTIONS, schemas = requiredSchemas i, mandatoryFeatures = names,
       optionalFeatures = map feature_name (filter (\<lambda>f. supported f \<and> feature_name f \<in> set FEATURE_NAMES) opts), capabilities_raw = v\<rparr>"
  using assms unfolding decodeReviewCapabilitiesV2_def
  by (auto simp: bindr_eq_Inr exact_ok split: option.splits)

text \<open>
  an accepted provider offers at least the required surface, and is the executable that was verified. Its schema is
  one of the known identities with that identity's protocol minor; every required operation, gate, projection and schema
  is advertised; the mandatory features are exactly the required ones, each once, although the code only compares
  lengths and inclusion; the optional features the host will use are known, and none of them is mandatory.
\<close>

theorem accepted_provider_offers_surface:
  assumes "decodeReviewCapabilitiesV2 v verified = Inr c"
  shows "\<exists>i. map_of CAPABILITIES_SCHEMA_IDENTITIES (schema_text v) = Some i \<and> schemas c = requiredSchemas i \<and>
     jget ''minor'' (jget ''protocol'' v) = JInt (protocolMinor i) \<and> offers ''operations'' REQUIRED_OPERATIONS v \<and>
     offers ''gates'' REQUIRED_GATES v \<and> offers ''projections'' REQUIRED_PROJECTIONS v \<and> offers ''schemas'' (schemas c) v \<and>
     mset (mandatoryFeatures c) = mset (required_features i) \<and> distinct (mandatoryFeatures c @ optionalFeatures c) \<and>
     set (optionalFeatures c) \<subseteq> set FEATURE_NAMES \<and>
     executableDigest c = verified_digest verified \<and> SHA256 (executableDigest c) \<and>
     jget ''sha256'' (jget ''executable'' v) = JStr (executableDigest c)"
proof -
  from assms obtain i version build digest names opts where p:
    "map_of CAPABILITIES_SCHEMA_IDENTITIES (schema_text v) = Some i" "decode_protocol i v = Inr ()" "decode_executable v verified = Inr digest"
    "decode_surface (requiredSchemas i) v = Inr ()" "decode_features i v = Inr (names, opts)"
    and c: "mandatoryFeatures c = names" "schemas c = requiredSchemas i" "executableDigest c = digest"
      "optionalFeatures c = map feature_name (filter (\<lambda>f. supported f \<and> feature_name f \<in> set FEATURE_NAMES) opts)"
    by (rule capabilities_parts) auto
  have names: "distinct names" "set names = set (required_features i)"
    using exact_set_perm[OF features_ok(1,2)[OF p(5)] identities_distinct[OF p(1)]] by simp_all
  then have "mset names = mset (required_features i)"
    using identities_distinct[OF p(1)] by (simp add: set_eq_iff_mset_eq_distinct)
  moreover have "distinct (optionalFeatures c)" using features_ok(3)[OF p(5)] c(4) by (simp add: distinct_map_filter)
  moreover have "jget ''minor'' (jget ''protocol'' v) = JInt (protocolMinor i)"
    using p(2) by (auto simp: decode_protocol_def result_simps decode_simps)
  ultimately show ?thesis
    using p(1,4) names c executable_ok[OF p(3)] features_ok(4)[OF p(5)] unfolding surface_ok
    by (intro exI[of _ i] conjI) auto
qed

text \<open>A provider that offers more: one more name in a list, or one more optional feature the host does not know.\<close>

definition feature_json :: "string \<Rightarrow> bool \<Rightarrow> string list \<Rightarrow> json" where
  "feature_json n b rs = JObj [(''name'', JStr n), (''supported'', JBool b), (''requires'', JArr (map JStr rs))]"

definition offers_name :: "json \<Rightarrow> json \<Rightarrow> bool" where
  "offers_name v w \<longleftrightarrow> (\<exists>k xs x. k \<in> set [''operations'', ''gates'', ''projections'', ''schemas''] \<and> jget k v = JArr (map JStr xs) \<and>
     x \<noteq> [] \<and> x \<notin> set xs \<and> w = set_member k (JArr (map JStr (xs @ [x]))) v)"

definition offers_feature :: "json \<Rightarrow> json \<Rightarrow> bool" where
  "offers_feature v w \<longleftrightarrow> (\<exists>fs n b rs. jget ''optional'' (jget ''features'' v) = JArr fs \<and> n \<noteq> [] \<and> n \<notin> set FEATURE_NAMES \<and>
     (\<forall>f \<in> set fs. jget ''name'' f \<noteq> JStr n) \<and> distinct rs \<and> [] \<notin> set rs \<and>
     w = set_member ''features'' (set_member ''optional'' (JArr (fs @ [feature_json n b rs])) (jget ''features'' v)) v)"

lemma array_snoc:
  assumes "decode_array mn None u f (JArr vs) l = Inr xs" and "f x (item_label l (length vs)) = Inr y" and "u \<longrightarrow> y \<notin> set xs"
  shows "decode_array mn None u f (JArr (vs @ [x])) l = Inr (xs @ [y])"
  using assms by (auto simp: array_ok nth_append less_Suc_eq)

lemma sections_cong:
  "jget ''protocol'' w = jget ''protocol'' v \<Longrightarrow> decode_protocol i w = decode_protocol i v"
  "jget ''package'' w = jget ''package'' v \<Longrightarrow> decode_package w = decode_package v"
  "jget ''build'' w = jget ''build'' v \<Longrightarrow> decode_build w = decode_build v"
  "jget ''executable'' w = jget ''executable'' v \<Longrightarrow> decode_executable w d = decode_executable v d"
  "jget ''features'' w = jget ''features'' v \<Longrightarrow> decode_features i w = decode_features i v"
  "jget ''compatibility'' w = jget ''compatibility'' v \<Longrightarrow> decode_compatibility w = decode_compatibility v"
  "jget ''bootstrap'' w = jget ''bootstrap'' v \<Longrightarrow> decode_bootstrap w = decode_bootstrap v"
  "jget ''schema'' w = jget ''schema'' v \<Longrightarrow> schema_text w = schema_text v"
  by (simp_all add: decode_protocol_def decode_package_def decode_build_def decode_executable_def decode_features_def
      decode_compatibility_def decode_bootstrap_def schema_text_def has_def)

lemma offers_snoc:
  assumes "offers k r v" and "jget k v = JArr (map JStr xs)" and "x \<noteq> []" and "x \<notin> set xs"
  shows "offers k r (set_member k (JArr (map JStr (xs @ [x]))) v)"
proof -
  from assms(1,2) have xs: "length r \<le> length xs" "distinct xs" "[] \<notin> set xs" "set r \<subseteq> set xs"
    by (auto simp: offers_def dest: map_injective[OF _ injI])
  have "k \<in> set (keys_of v)" using assms(2) by (intro has_key) (simp add: has_def)
  then show ?thesis unfolding offers_def
    using xs assms(3,4) by (intro exI[of _ "xs @ [x]"]) (auto simp: jget_set_member)
qed

lemma features_snoc:
  assumes "decode_features i v = Inr (names, opts)" and "jget ''optional'' (jget ''features'' v) = JArr fs"
    and "n \<noteq> []" and "n \<notin> set FEATURE_NAMES" and "\<forall>f \<in> set fs. jget ''name'' f \<noteq> JStr n" and "distinct rs" and "[] \<notin> set rs"
    and "jget ''features'' w = set_member ''optional'' (JArr (fs @ [feature_json n b rs])) (jget ''features'' v)"
  shows "decode_features i w = Inr (names, opts @ [\<lparr>feature_name = n, supported = b, requires = rs\<rparr>])"
proof -
  let ?y = "\<lparr>feature_name = n, supported = b, requires = rs\<rparr>" and ?l = "''capabilities.features.optional''"
  let ?m = "case optionalFeatureFloor i of None \<Rightarrow> 17 | Some n \<Rightarrow> n"
  from assms(1) obtain ms where f: "closed [''mandatory'', ''optional''] [] (jget ''features'' v)"
    "member_of (decode_array (length (required_features i)) None False decodeFeature) ''mandatory'' (jget ''features'' v) ''capabilities.features'' = Inr ms"
    "decode_array ?m None True decodeOptionalFeature (JArr fs) ?l = Inr opts" "names = map feature_name ms"
    "assertExactSet names (required_features i) ''mandatory capabilities'' = Inr ()"
    "distinct (map feature_name opts)" "\<not>  list_ex (\<lambda>n. n \<in> set names) (map feature_name opts)" "list_all supported ms"
    unfolding decode_features_def required_features_def[symmetric]
    by (auto simp: bindr_eq_Inr exact_ok Let_def require_ok member_of_def assms(2))
  have mn: "set names \<subseteq> set FEATURE_NAMES"
    using f(2,4) by (auto simp: member_of_def array_ok decodeFeature_def feature_ok enumeration_ok in_set_conv_nth)
  have new: "n \<notin> set (map feature_name opts)"
  proof
    assume "n \<in> set (map feature_name opts)"
    then obtain k where k: "k < length fs" "feature_name (opts ! k) = n" "decodeOptionalFeature (fs ! k) (item_label ?l k) = Inr (opts ! k)"
      using f(3) by (auto simp: array_ok in_set_conv_nth)
    then have "jget ''name'' (fs ! k) = JStr n" by (auto simp: decodeOptionalFeature_def feature_ok nonempty_ok)
    then show False using assms(5) k(1) nth_mem by blast
  qed
  have "decodeOptionalFeature (feature_json n b rs) (item_label ?l (length fs)) = Inr ?y"
    using assms(3,6,7) unfolding decodeOptionalFeature_def feature_ok
    by (auto simp: feature_json_def closed_def is_object_def keys_of_def jget_def nonempty_ok)
  then have "decode_array ?m None True decodeOptionalFeature (JArr (fs @ [feature_json n b rs])) ?l = Inr (opts @ [?y])"
    by (rule array_snoc[OF f(3)]) (use new in force)
  moreover have "''optional'' \<in> set (keys_of (jget ''features'' v))" using assms(2) by (intro has_key) (simp add: has_def)
  moreover have "n \<notin> set names" using mn assms(4) by blast
  ultimately show ?thesis
    using f new unfolding decode_features_def required_features_def[symmetric]
    by (auto simp: bindr_eq_Inr exact_ok Let_def require_ok member_of_def assms(8) jget_set_member)
qed

lemma offers_more:
  assumes "offers_name v w \<or> offers_feature v w" and "offers j r v" and "j \<noteq> ''features''"
  shows "offers j r w"
proof -
  have other: "offers j r (set_member k x v)" if "k \<noteq> j" for k x
    using assms(2) that by (auto simp: offers_def jget_set_member)
  from assms(1) show ?thesis
  proof
    assume "offers_name v w"
    then obtain k xs x where "jget k v = JArr (map JStr xs)" "x \<noteq> []" "x \<notin> set xs" "w = set_member k (JArr (map JStr (xs @ [x]))) v"
      unfolding offers_name_def by blast
    then show ?thesis using offers_snoc[OF assms(2)] other by (cases "k = j") blast+
  next
    assume "offers_feature v w"
    then show ?thesis using other assms(3) unfolding offers_feature_def by metis
  qed
qed

text \<open>
  A provider may offer more. When one more operation, gate, projection or schema is advertised, or one more optional
  feature the host does not know, a provider that was accepted still is, with the same capabilities.
\<close>

theorem provider_may_offer_more:
  assumes "decodeReviewCapabilitiesV2 v verified = Inr c" and "offers_name v w \<or> offers_feature v w"
  shows "decodeReviewCapabilitiesV2 w verified = Inr (c\<lparr>capabilities_raw := w\<rparr>)"
proof -
  from assms(1) obtain i version build digest names opts where p:
    "closed CAPABILITIES_KEYS [''bootstrap''] v" "map_of CAPABILITIES_SCHEMA_IDENTITIES (schema_text v) = Some i"
    "requireIdentity v (schema_text v) None = Inr ()" "decode_protocol i v = Inr ()" "decode_package v = Inr version"
    "decode_build v = Inr build" "decode_executable v verified = Inr digest" "decode_surface (requiredSchemas i) v = Inr ()"
    "decode_features i v = Inr (names, opts)" "decode_compatibility v = Inr ()" "decode_bootstrap v = Inr ()"
    "c = \<lparr>packageVersion = version, buildId = build, executableDigest = digest, operations = REQUIRED_OPERATIONS,
       gates = REQUIRED_GATES, projections = REQUIRED_PROJECTIONS, schemas = requiredSchemas i, mandatoryFeatures = names,
       optionalFeatures = map feature_name (filter (\<lambda>f. supported f \<and> feature_name f \<in> set FEATURE_NAMES) opts), capabilities_raw = v\<rparr>"
    by (rule capabilities_parts)
  obtain k x where w: "w = set_member k x v" "k \<in> set [''operations'', ''gates'', ''projections'', ''schemas'', ''features'']"
    using assms(2) unfolding offers_name_def offers_feature_def by fastforce
  have same: "jget j w = jget j v" if "j \<in> set [''schema'', ''contract'', ''protocol'', ''package'', ''build'', ''executable'', ''compatibility'', ''bootstrap'']" for j
    using w that by (auto simp: jget_set_member)
  have rest: "schema_text w = schema_text v" "requireIdentity w (schema_text w) None = Inr ()" "decode_protocol i w = Inr ()"
    "decode_package w = Inr version" "decode_build w = Inr build" "decode_executable w verified = Inr digest"
    "decode_compatibility w = Inr ()" "decode_bootstrap w = Inr ()" "closed CAPABILITIES_KEYS [''bootstrap''] w"
    using p sections_cong[of w v] same w(1) by (simp_all add: requireIdentity_ok)
  have surface: "decode_surface (requiredSchemas i) w = Inr ()"
    using p(8) offers_more[OF assms(2)] unfolding surface_ok by simp
  have "\<exists>opts'. decode_features i w = Inr (names, opts') \<and>
      filter (\<lambda>f. supported f \<and> feature_name f \<in> set FEATURE_NAMES) opts' = filter (\<lambda>f. supported f \<and> feature_name f \<in> set FEATURE_NAMES) opts"
    using assms(2)
  proof
    assume "offers_name v w"
    then have "jget ''features'' w = jget ''features'' v" by (auto simp: offers_name_def jget_set_member)
    then show ?thesis using p(9) sections_cong(5)[of w v i] by auto
  next
    assume "offers_feature v w"
    then obtain fs n b rs where f: "jget ''optional'' (jget ''features'' v) = JArr fs" "n \<noteq> []" "n \<notin> set FEATURE_NAMES"
      "\<forall>f \<in> set fs. jget ''name'' f \<noteq> JStr n" "distinct rs" "[] \<notin> set rs"
      "w = set_member ''features'' (set_member ''optional'' (JArr (fs @ [feature_json n b rs])) (jget ''features'' v)) v"
      unfolding offers_feature_def by blast
    have "''features'' \<in> set (keys_of v)" using p(1) by (auto simp: closed_def CAPABILITIES_KEYS_def)
    then have "jget ''features'' w = set_member ''optional'' (JArr (fs @ [feature_json n b rs])) (jget ''features'' v)"
      using f(7) by (simp add: jget_set_member)
    from features_snoc[OF p(9) f(1-6) this] f(3) show ?thesis by auto
  qed
  moreover have "exact CAPABILITIES_KEYS [''bootstrap''] w ''capabilities'' = Inr w" using rest by (simp add: exact_ok)
  ultimately show ?thesis
    using rest surface p(2,12) unfolding decodeReviewCapabilitiesV2_def by auto
qed

section \<open>A sample provider\<close>

definition sample_hash :: string where
  "sample_hash = ''sha256:'' @ replicate 64 (CHR ''0'')"

definition sample_features :: "string list \<Rightarrow> json" where
  "sample_features ns = JArr (map (\<lambda>n. feature_json n True []) ns)"

definition sample_capabilities :: json where
  "sample_capabilities = (let i = the (map_of CAPABILITIES_SCHEMA_IDENTITIES ''gentle-ai.review-integration.capabilities/v2.3'') in JObj
     [(''schema'', JStr ''gentle-ai.review-integration.capabilities/v2.3''), (''contract'', JStr REVIEW_INTEGRATION_CONTRACT),
      (''protocol'', JObj [(''major'', JInt 2), (''minor'', JInt 3)]),
      (''package'', JObj [(''name'', JStr ''gentle-ai''), (''version'', JStr ''2.5.0''), (''release_channel'', JStr ''stable'')]),
      (''build'', JObj [(''id'', JStr sample_hash), (''go_version'', JStr ''go1.24''), (''module_version'', JStr []), (''vcs'', JStr ''git''),
        (''vcs_revision'', JStr []), (''vcs_time'', JStr []), (''vcs_modified'', JStr ''false'')]),
      (''executable'', JObj [(''sha256'', JStr sample_hash), (''evidence'', JStr ''self-reported''),
        (''verification'', JStr ''compare-with-published-manifest'')]),
      (''operations'', JArr (map JStr REQUIRED_OPERATIONS)), (''gates'', JArr (map JStr REQUIRED_GATES)),
      (''projections'', JArr (map JStr REQUIRED_PROJECTIONS)), (''schemas'', JArr (map JStr (requiredSchemas i))),
      (''features'', JObj [(''mandatory'', sample_features (required_features i)), (''optional'', sample_features (take 14 OPTIONAL_FEATURE_NAMES))]),
      (''compatibility'', JObj [(''minimum_protocol_major'', JInt 2), (''maximum_protocol_major'', JInt 2),
        (''additive_minor_policy'', JStr ''optional-fields-only''), (''unknown_mandatory'', JStr ''reject''), (''unknown_optional'', JStr ''ignore''),
        (''modes'', JArr (map JStr AUTHORITY_VERSIONS)),
        (''legacy_window'', JObj [(''mode'', JStr ''legacy-v1''), (''state'', JStr ''active''), (''read_only'', JBool True),
          (''deprecation_started'', JBool False), (''removal'', JStr ''v3''), (''minimum_compatibility_releases'', JInt 1)])])])"

lemma sample_accepted: "\<exists>c. decodeReviewCapabilitiesV2 sample_capabilities sample_hash = Inr c"
proof -
  have "ok (decodeReviewCapabilitiesV2 sample_capabilities sample_hash)" by code_simp
  then show ?thesis by (simp add: ok_iff)
qed

theorem accepted_provider_offers_surface_witness:
  "\<exists>c i. decodeReviewCapabilitiesV2 sample_capabilities sample_hash = Inr c \<and>
     map_of CAPABILITIES_SCHEMA_IDENTITIES (schema_text sample_capabilities) = Some i \<and> mset (mandatoryFeatures c) = mset (required_features i)"
  using accepted_provider_offers_surface sample_accepted by metis

theorem provider_may_offer_more_witness:
  "\<exists>c w. decodeReviewCapabilitiesV2 sample_capabilities sample_hash = Inr c \<and>
     offers_feature sample_capabilities w \<and> decodeReviewCapabilitiesV2 w sample_hash = Inr (c\<lparr>capabilities_raw := w\<rparr>)"
proof -
  have names: "list_all (\<lambda>f. jget ''name'' f \<noteq> JStr ''later'') (map (\<lambda>n. feature_json n True []) (take 14 OPTIONAL_FEATURE_NAMES))" by code_simp
  have "jget ''optional'' (jget ''features'' sample_capabilities) = sample_features (take 14 OPTIONAL_FEATURE_NAMES)"
    by (simp add: sample_capabilities_def Let_def jget_def)
  then have "\<exists>w. offers_feature sample_capabilities w"
    using names unfolding offers_feature_def sample_features_def list_all_iff
    by (intro exI[of _ "''later''"] exI[of _ True] exI[of _ "[]"] exI conjI refl) (auto simp: FEATURE_NAMES_def)
  then show ?thesis using provider_may_offer_more sample_accepted by blast
qed

end
