(* ===== verification/TransitionClaims.thy ===== *)
theory TransitionClaims
  imports IntegrationClaims
begin

text \<open>
  What an accepted transition guarantees the host that runs it: the command that withdraws a declaration, the slot a
  captured value goes to, the vector of a provider role, the request a validator is bound to, and the acknowledgement
  that burns an authority.
\<close>

text \<open>A computation that returned, step by step.\<close>

lemma bindr_unitE: "bindr m k = Inr y \<Longrightarrow> (m = Inr () \<Longrightarrow> k () = Inr y \<Longrightarrow> P) \<Longrightarrow> P"
  by (cases m) simp_all

lemma bindr_InrE: "bindr m k = Inr y \<Longrightarrow> (\<And>x. m = Inr x \<Longrightarrow> k x = Inr y \<Longrightarrow> P) \<Longrightarrow> P"
  by (cases m) simp_all

lemma Inr_E: "Inr x = Inr y \<Longrightarrow> (y = x \<Longrightarrow> P) \<Longrightarrow> P"
  by simp

section \<open>Arguments\<close>

definition values_named :: "string \<Rightarrow> argument list \<Rightarrow> string list" where
  "values_named n as = map arg_value (arguments_named n as)"

definition the_value :: "string option \<Rightarrow> string list" where
  "the_value v = (case v of None \<Rightarrow> [] | Some s \<Rightarrow> [s])"

definition render :: "argument \<Rightarrow> string" where
  "render a = argument_text (arg_name a) (arg_value a)"

lemma identity_argument_ok:
  "check_identity_argument as n expected l what = Inr u \<longleftrightarrow> values_named n as = the_value expected"
  by (auto simp: check_identity_argument_def values_named_def the_value_def result_simps split: list.splits option.splits)

lemma provider_argument_ok: "check_provider_argument as l n expected what = Inr u \<longleftrightarrow> values_named n as = [expected]"
  by (auto simp: check_provider_argument_def values_named_def result_simps split: list.splits)

lemma map_index_ok:
  "sequence (map (\<lambda>(i, a). f i a) (enumerate 0 as)) = Inr xs \<longleftrightarrow> length xs = length as \<and> (\<forall>i < length as. f i (as ! i) = Inr (xs ! i))"
  by (auto simp: sequence_eq_Inr list_eq_iff_nth_eq nth_enumerate_eq)

lemma withdraw_token_ok: "check_withdraw_token l i a = Inr t \<longleftrightarrow> arg_token a = Some (render a) \<and> t = render a"
  by (auto simp: check_withdraw_token_def render_def split: option.splits)

lemma withdraw_tokens_ok:
  assumes "sequence (map (\<lambda>(i, a). check_withdraw_token l i a) (enumerate 0 as)) = Inr ts"
  shows "ts = map render as" "\<forall>a \<in> set as. arg_token a = Some (render a)"
  using assms unfolding map_index_ok withdraw_token_ok by (auto intro: nth_equalityI simp: all_set_conv_all_nth)

text \<open>
  the command that withdraws a declaration is rendered from its arguments, in order and nothing else, and its
  arguments name the slot: the hash of its subject, its target, and the lineage and revision of its binding exactly when
  the binding has them, each at most once; a detail fits the limit the provider imposes.
\<close>

theorem withdraw_command_is_exact:
  assumes "decodeUnachievableLensSlot v l = Inr s"
  shows "withdraw_command s = UNACHIEVABLE_COMMAND @ join '' '' (map render (withdraw_arguments s)) \<and>
     (\<forall>a \<in> set (withdraw_arguments s). arg_token a = Some (render a)) \<and>
     values_named ''withdraw'' (withdraw_arguments s) = [''true''] \<and> values_named ''request-hash'' (withdraw_arguments s) = [slot_hash s] \<and>
     values_named ''target'' (withdraw_arguments s) = [withdraw_target s] \<and>
     values_named ''lineage'' (withdraw_arguments s) = the_value (withdraw_lineage s) \<and>
     values_named ''expected-revision'' (withdraw_arguments s) = the_value (withdraw_revision s) \<and>
     (\<forall>d. slot_detail s = Some d \<longrightarrow> utf8_length d \<le> UNACHIEVABLE_LENS_DETAIL_LIMIT)"
proof -
  from assms obtain ts where t: "sequence (map (\<lambda>(i, a). check_withdraw_token l i a) (enumerate 0 (withdraw_arguments s))) = Inr ts"
    and c: "withdraw_command s = UNACHIEVABLE_COMMAND @ join '' '' ts"
    and w: "length (arguments_named ''withdraw'' (withdraw_arguments s)) = 1" "list_all (\<lambda>a. arg_value a = ''true'') (arguments_named ''withdraw'' (withdraw_arguments s))"
    and k: "check_identity_argument (withdraw_arguments s) ''request-hash'' (Some (slot_hash s)) l ''slot subject_hash'' = Inr ()"
      "check_identity_argument (withdraw_arguments s) ''target'' (Some (withdraw_target s)) l ''withdraw binding target_identity'' = Inr ()"
      "check_identity_argument (withdraw_arguments s) ''lineage'' (withdraw_lineage s) l ''withdraw binding lineage_id'' = Inr ()"
      "check_identity_argument (withdraw_arguments s) ''expected-revision'' (withdraw_revision s) l ''withdraw binding revision'' = Inr ()"
    and d: "case slot_detail s of None \<Rightarrow> True | Some d \<Rightarrow> utf8_length d \<le> UNACHIEVABLE_LENS_DETAIL_LIMIT"
    unfolding decodeUnachievableLensSlot_def bindr_eq_Inr by (elim exE conjE) (auto simp: result_simps)
  have "values_named ''withdraw'' (withdraw_arguments s) = [''true'']"
    using w by (cases "arguments_named ''withdraw'' (withdraw_arguments s)") (auto simp: values_named_def)
  then show ?thesis
    using c d withdraw_tokens_ok[OF t] k unfolding identity_argument_ok by (auto simp: the_value_def)
qed

section \<open>Submissions\<close>

text \<open>
  a captured value has a place to go. Every slot of an accepted submission lies within the argument tokens it is
  substituted into, and there is at least one; the numeric bounds of a slot are between one and two hundred.
\<close>

theorem submission_slot_in_range:
  assumes "decodeCaptureSubmission v l v5 v6 operation = Inr s"
  shows "submission_values s \<noteq> [] \<and> (\<forall>x \<in> set (submission_values s).
     0 \<le> substitutionLocation x \<and> nat (substitutionLocation x) < length (argumentTokens s) \<and>
     (\<forall>n. minimum x = Some n \<or> maximum x = Some n \<longrightarrow> 1 \<le> n \<and> n \<le> 200))"
proof -
  consider "decode_selection_submission v l = Inr s" | "decode_single_submission v l = Inr s" | "decode_listed_submission v l = Inr s"
    using assms unfolding decodeCaptureSubmission_def by (auto split: if_splits)
  then show ?thesis
  proof cases
    case 1
    then show ?thesis
      unfolding decode_selection_submission_def bindr_eq_Inr
      by (elim exE conjE) (auto simp: require_ok integer_ok member_of_def SELECTION_TOKENS_def)
  next
    case 2
    then obtain t ts x row mn mx where p: "s = \<lparr>operationToken = t, argumentTokens = ts, submission_values = [x]\<rparr>"
      "minimum x = mn" "maximum x = mx"
      "optional_member (integer 1 (Some 200)) ''minimum'' row (l @ ''.value'') = Inr mn"
      "optional_member (integer 1 (Some 200)) ''maximum'' row (l @ ''.value'') = Inr mx"
      "member_of (integer 0 (Some (int (length ts) - 1))) ''substitution_location'' row (l @ ''.value'') = Inr (substitutionLocation x)"
      unfolding decode_single_submission_def bindr_eq_Inr by (elim exE conjE) auto
    have "1 \<le> n \<and> n \<le> 200" if "optional_member (integer 1 (Some 200)) k row l' = Inr (Some n)" for n k l'
      using that by (simp add: optional_ok member_of_def integer_ok)
    then show ?thesis using p by (auto simp: member_of_def integer_ok)
  next
    case 3
    then obtain t ts vs where p: "s = \<lparr>operationToken = t, argumentTokens = ts, submission_values = vs\<rparr>"
      "decode_array 1 None False (decode_submission_row (length ts)) (jget ''values'' v) (l @ ''.values'') = Inr vs"
      unfolding decode_listed_submission_def bindr_eq_Inr by (elim exE conjE) (auto simp: exact_ok member_of_def)
    have "0 \<le> substitutionLocation x \<and> nat (substitutionLocation x) < length ts \<and> minimum x = None \<and> maximum x = None"
      if m: "x \<in> set vs" for x
    proof -
      obtain w k where "decode_submission_row (length ts) w k = Inr x" by (rule array_items[OF p(2) m])
      then show ?thesis by (auto simp: decode_submission_row_def bindr_eq_Inr decode_simps member_of_def)
    qed
    moreover have "vs \<noteq> []" using p(2) by (auto simp: array_ok)
    ultimately show ?thesis using p(1) by auto
  qed
qed

section \<open>Collect inputs\<close>

definition role_operation :: "string \<Rightarrow> bool" where
  "role_operation operation \<longleftrightarrow> operation \<in> set PROVIDER_ROLE_CAPTURE_OPERATIONS"

text \<open>The steps of the decoder, as it takes them.\<close>

lemma collect_steps:
  assumes "decodeCollectInput parse v5 v6 v9 v l = Inr x"
  obtains b name schema operation as q s subject base candidate manifest task where
    "exact [''name'', ''schema'', ''capture_operation'', ''arguments''] ([''artifact_subject'', ''base_tree'', ''candidate_tree'',
       ''changed_path_manifest'', ''submission''] @ (if v5 then [''provider_task'', ''validation_request''] else [])) v l = Inr b"
    "require (\<not>  has ''validation_request'' b \<or> (v5 \<and> name = ''provider_targeted_validator'' \<and> operation = ''review.capture-validation'' \<and> schema = VALIDATOR_SCHEMA))
      (TypeError (l @ ''.validation_request is only valid for the v5 provider-targeted-validator capture input'')) = Inr ()"
    "optional_member decodeReviewTargetedValidationRequestV1 ''validation_request'' b l = Inr q"
    "(case q of None \<Rightarrow> Inr () | Some r \<Rightarrow> check_validation_binding as r l) = Inr ()"
    "(if operation \<in> set PROVIDER_ROLE_CAPTURE_OPERATIONS \<and> has ''submission'' b then check_role_submission v9 as operation l else Inr ()) = Inr ()"
    "check_capture_result b schema operation l = Inr ()"
    "require (\<not>  has ''submission'' b \<or> operation \<in> set PROVIDER_ROLE_CAPTURE_OPERATIONS \<or> operation \<in> set (submission_operations v5 v6))
         (TypeError (l @ ''.submission is only valid for '' @ join '', '' (submission_operations v5 v6))) = Inr ()"
    "optional_member (\<lambda>w k. decodeCaptureSubmission w k v5 v6 operation) ''submission'' b l = Inr s"
    "x = \<lparr>input_name = name, input_schema = schema, captureOperation = operation, input_arguments = as,
         artifactSubject = subject, input_base = base, input_candidate = candidate, input_manifest = manifest,
         submission = s, providerTask = task, validationRequest = q\<rparr>"
  using assms unfolding decodeCollectInput_def Let_def
  by - ((erule bindr_unitE | erule bindr_InrE | erule Inr_E)+, rule that, assumption+)

lemma collect_parts:
  assumes "decodeCollectInput parse v5 v6 v9 v l = Inr x"
  shows "has ''submission'' v \<longleftrightarrow> submission x \<noteq> None"
    "role_operation (captureOperation x) \<and> has ''submission'' v \<longrightarrow> check_role_submission v9 (input_arguments x) (captureOperation x) l = Inr ()"
    "\<not>  has ''submission'' v \<or> role_operation (captureOperation x) \<or> captureOperation x \<in> set (submission_operations v5 v6)"
    "optional_member decodeReviewTargetedValidationRequestV1 ''validation_request'' v l = Inr (validationRequest x)"
    "case validationRequest x of None \<Rightarrow> True | Some q \<Rightarrow> check_validation_binding (input_arguments x) q l = Inr ()"
    "has ''validation_request'' v \<longrightarrow> v5 \<and> captureOperation x = ''review.capture-validation''"
    "check_capture_result v (input_schema x) (captureOperation x) l = Inr ()"
    "optional_member (\<lambda>w k. decodeCaptureSubmission w k v5 v6 (captureOperation x)) ''submission'' v l = Inr (submission x)"
  using assms by - (erule collect_steps, auto simp: role_operation_def exact_ok require_ok optional_ok split: option.splits if_splits)+

definition binds_request :: "argument list \<Rightarrow> targeted_validation_request \<Rightarrow> bool" where
  "binds_request as q \<longleftrightarrow> values_named ''lineage'' as = [validation_lineage q] \<and> values_named ''expected-revision'' as = [validation_revision q] \<and>
     values_named ''target'' as = [validation_correction q] \<and> values_named ''request-hash'' as = [validation_hash q]"

lemma validation_binding_ok: "check_validation_binding as q l = Inr u \<longleftrightarrow> binds_request as q"
  by (auto simp: check_validation_binding_def result_simps provider_argument_ok binds_request_def)

text \<open>Findings and classifications are one per id: the code compares lengths and inclusion.\<close>

definition one_per_id :: "targeted_validation_request \<Rightarrow> bool" where
  "one_per_id q \<longleftrightarrow> validation_ids q \<noteq> [] \<and> distinct (validation_ids q) \<and>
     mset (map fix_id (fixFindings q)) = mset (validation_ids q) \<and>
     mset (map class_id (fixClassifications q)) = mset (validation_ids q)"

lemma validation_request_ids:
  assumes "decodeReviewTargetedValidationRequestV1 v l = Inr q"
  shows "one_per_id q"
proof -
  have p: "distinct (validation_ids q)" "validation_ids q \<noteq> []"
    "assertExactSet (map fix_id (fixFindings q)) (validation_ids q) (l @ ''.fix_findings'') = Inr ()"
    "assertExactSet (map class_id (fixClassifications q)) (validation_ids q) (l @ ''.fix_classifications'') = Inr ()"
    using assms unfolding decodeReviewTargetedValidationRequestV1_def bindr_eq_Inr
    by (auto simp: member_of_def stringArray_ok)
  have "mset xs = mset (validation_ids q)" if "assertExactSet xs (validation_ids q) k = Inr ()" for xs k
  proof -
    have "length xs = length (validation_ids q)" "set (validation_ids q) \<subseteq> set xs" using that by (simp_all add: assertExactSet_ok)
    from exact_set_perm[OF this p(1)] show ?thesis using p(1) by (simp add: set_eq_iff_mset_eq_distinct)
  qed
  then show ?thesis using p unfolding one_per_id_def by blast
qed

text \<open>
  C22: a validator is bound to its request. When a collect input carries a validation request, it is the capture of a
  validation under status/v5 or later, its arguments name the lineage, the revision, the correction target and the hash of
  that request, each exactly once, and the request has one finding and one classification for every id it asks to validate.
\<close>

theorem validator_is_bound_to_request:
  assumes "decodeCollectInput parse v5 v6 v9 v l = Inr x" and "validationRequest x = Some q"
  shows "v5 \<and> captureOperation x = ''review.capture-validation'' \<and> binds_request (input_arguments x) q \<and> one_per_id q"
proof -
  note p = collect_parts[OF assms(1)]
  have "has ''validation_request'' v" "member_of decodeReviewTargetedValidationRequestV1 ''validation_request'' v l = Inr q"
    using p(4) assms(2) by (simp_all add: optional_ok)
  then show ?thesis
    using p(5,6) assms(2) validation_request_ids unfolding member_of_def by (auto simp: validation_binding_ok)
qed

text \<open>
  A provider role that is completed by the host. When the capture of a refuter or a validation carries a
  submission, the contract is v9, its vector says \<open>materialize\<close> exactly once and with \<open>true\<close>, and it does not say
  \<open>execute\<close> exactly once. The code reads an argument that is repeated as absent, so repeating \<open>execute\<close> gets past
  the check that no such vector may execute: \<open>duplicate_execute_admitted\<close>.
\<close>

theorem role_submission_form:
  assumes "decodeCollectInput parse v5 v6 v9 v l = Inr x" and "role_operation (captureOperation x)" and "submission x \<noteq> None"
  shows "v9 \<and> values_named ''materialize'' (input_arguments x) = [''true''] \<and> length (values_named ''execute'' (input_arguments x)) \<noteq> 1"
proof -
  note p = collect_parts[OF assms(1)]
  have "check_role_submission v9 (input_arguments x) (captureOperation x) l = Inr ()" using p(1,2) assms(2,3) by blast
  then show ?thesis
    by (auto simp: check_role_submission_def result_simps argument_named_def values_named_def split: list.splits)
qed

section \<open>Samples\<close>

definition argument_json :: "string \<Rightarrow> string \<Rightarrow> json" where
  "argument_json n w = JObj [(''name'', JStr n), (''value'', JStr w), (''token'', JStr (argument_text n w))]"

definition sample_role_input :: json where
  "sample_role_input = JObj [(''name'', JStr ''provider_refuter''), (''schema'', JStr REFUTER_SCHEMA),
     (''capture_operation'', JStr ''review.capture-refuter''),
     (''arguments'', JArr [argument_json ''materialize'' ''true'', argument_json ''execute'' ''true'', argument_json ''execute'' ''true'']),
     (''submission'', JObj [(''operation_token'', JStr ''capture-refuter''), (''argument_tokens'', JArr [JStr ''--result={{value}}'']),
       (''value'', JObj [(''slot'', JStr ''provider_refuter''), (''domain'', JStr ''artifact''), (''schema'', JStr REFUTER_SCHEMA),
         (''substitution_location'', JInt 0)])])]"

lemma duplicate_execute_admitted:
  "\<exists>x. decodeCollectInput (\<lambda>_. None) True True True sample_role_input ''input'' = Inr x \<and> role_operation (captureOperation x) \<and>
     submission x \<noteq> None \<and> values_named ''execute'' (input_arguments x) = [''true'', ''true'']"
proof -
  have "case decodeCollectInput (\<lambda>_. None) True True True sample_role_input ''input'' of Inl e \<Rightarrow> False
    | Inr x \<Rightarrow> role_operation (captureOperation x) \<and> \<not>  Option.is_none (submission x) \<and> values_named ''execute'' (input_arguments x) = [''true'', ''true'']"
    by code_simp
  then show ?thesis by (auto simp: Option.is_none_def split: sum.splits option.splits)
qed

theorem role_submission_form_witness:
  "\<exists>x. decodeCollectInput (\<lambda>_. None) True True True sample_role_input ''input'' = Inr x \<and> values_named ''materialize'' (input_arguments x) = [''true'']"
  using duplicate_execute_admitted role_submission_form by blast

definition sample_validation :: json where
  "sample_validation = JObj [(''schema'', JStr ''gentle-ai.review-targeted-validation-request/v1''), (''request_hash'', JStr sample_hash),
     (''lineage_id'', JStr ''lineage-1''), (''expected_revision'', JStr sample_hash), (''target_identity'', JStr sample_hash),
     (''fix_finding_ids'', JArr [JStr ''F1'']), (''policy_content'', JStr ''policy''),
     (''fix_findings'', JArr [JObj [(''id'', JStr ''F1''), (''lens'', JStr ''risk''), (''location'', JStr ''a.ts:1''), (''severity'', JStr ''BLOCKER''),
       (''claim'', JStr ''claim''), (''proof_refs'', JArr [JStr ''p'']), (''evidence_class'', JStr ''deterministic''),
       (''causal_disposition'', JStr ''introduced'')]]),
     (''fix_classifications'', JArr [JObj [(''finding_id'', JStr ''F1''), (''class'', JStr ''deterministic''), (''causal_disposition'', JStr ''introduced''),
       (''proof'', JStr ''p'')]]),
     (''projection'', JStr ''workspace''), (''correction_candidate_tree'', JStr (replicate 40 (CHR ''a''))),
     (''correction_target_identity'', JStr sample_hash), (''correction_paths'', JArr [JStr ''a.ts'']), (''correction_paths_digest'', JStr sample_hash)]"

definition sample_validator_input :: json where
  "sample_validator_input = JObj [(''name'', JStr ''provider_targeted_validator''), (''schema'', JStr VALIDATOR_SCHEMA),
     (''capture_operation'', JStr ''review.capture-validation''),
     (''arguments'', JArr [argument_json ''lineage'' ''lineage-1'', argument_json ''expected-revision'' sample_hash, argument_json ''target'' sample_hash,
       argument_json ''request-hash'' sample_hash]),
     (''validation_request'', sample_validation)]"

theorem validator_is_bound_to_request_witness:
  "\<exists>x q. decodeCollectInput (\<lambda>_. None) True True False sample_validator_input ''input'' = Inr x \<and> validationRequest x = Some q \<and>
     binds_request (input_arguments x) q \<and> one_per_id q"
proof -
  have "case decodeCollectInput (\<lambda>_. None) True True False sample_validator_input ''input'' of Inl e \<Rightarrow> False
    | Inr x \<Rightarrow> \<not>  Option.is_none (validationRequest x)" by code_simp
  then show ?thesis
    using validator_is_bound_to_request by (auto simp: Option.is_none_def split: sum.splits option.splits)
qed

definition sample_slot :: json where
  "sample_slot = JObj [(''lens'', JStr ''review-risk''), (''selected_order'', JInt 0), (''subject_hash'', JStr sample_hash), (''reason'', JStr ''timeout''),
     (''detail'', JStr ''no answer''),
     (''withdraw'', JObj [(''operation'', JStr ''review.capture-unachievable''),
       (''command'', JStr (UNACHIEVABLE_COMMAND @ ''--withdraw=true --request-hash='' @ sample_hash @ '' --target='' @ sample_hash @ '' --note=x; reboot'')),
       (''arguments'', JArr [argument_json ''withdraw'' ''true'', argument_json ''request-hash'' sample_hash, argument_json ''target'' sample_hash,
         argument_json ''note'' ''x; reboot'']),
       (''binding'', JObj [(''target_identity'', JStr sample_hash)])])]"

text \<open>A value may hold any characters, so the exact rendering does not keep shell syntax out of the command.\<close>

lemma withdraw_admits_shell_text:
  "\<exists>s. decodeUnachievableLensSlot sample_slot ''slot'' = Inr s \<and> js_includes ''; reboot'' (withdraw_command s)"
proof -
  have "case decodeUnachievableLensSlot sample_slot ''slot'' of Inl e \<Rightarrow> False | Inr s \<Rightarrow> js_includes ''; reboot'' (withdraw_command s)"
    by code_simp
  then show ?thesis by (auto split: sum.splits)
qed

theorem withdraw_command_is_exact_witness:
  "\<exists>s. decodeUnachievableLensSlot sample_slot ''slot'' = Inr s \<and> withdraw_command s = UNACHIEVABLE_COMMAND @ join '' '' (map render (withdraw_arguments s))"
  using withdraw_admits_shell_text withdraw_command_is_exact by blast

theorem submission_slot_in_range_witness:
  "\<exists>s x. decodeCaptureSubmission (jget ''submission'' sample_role_input) ''input'' True True ''review.capture-refuter'' = Inr s \<and>
     x \<in> set (submission_values s) \<and> nat (substitutionLocation x) < length (argumentTokens s)"
proof -
  have "ok (decodeCaptureSubmission (jget ''submission'' sample_role_input) ''input'' True True ''review.capture-refuter'')" by code_simp
  then obtain s where s: "decodeCaptureSubmission (jget ''submission'' sample_role_input) ''input'' True True ''review.capture-refuter'' = Inr s"
    by (auto simp: ok_iff)
  from submission_slot_in_range[OF this] obtain x where "x \<in> set (submission_values s)" "nat (substitutionLocation x) < length (argumentTokens s)"
    by (cases "submission_values s") auto
  with s show ?thesis by blast
qed

end
