(* ===== verification/StatusClaims.thy ===== *)
theory StatusClaims
  imports TransitionClaims
begin

text \<open>
  What a decoded status and a decoded start guarantee: later contract versions admit what earlier ones admit, a status is
  coherent, a start only runs the status it was frozen for, and an acknowledgement that cannot be read costs nothing else.
\<close>

section \<open>The versions of the status contract\<close>

definition as_rung :: "nat \<Rightarrow> json \<Rightarrow> json" where
  "as_rung n v = set_member ''schema'' (JStr (status_schema (rung_version n))) v"

lemma rung_of_set:
  assumes "n \<in> {3, 5, 6, 7, 8, 9}" and "''schema'' \<in> set (keys_of v)"
  shows "status_rung (as_rung n v) = n"
  using assms by (auto simp: status_rung_def as_rung_def jget_set_member status_schema_def rung_version_def Let_def)

lemma member_elsewhere [simp]: "k \<noteq> ''schema'' \<Longrightarrow> jget k (as_rung n v) = jget k v"
  by (simp add: as_rung_def jget_set_member)

lemma has_elsewhere [simp]: "k \<noteq> ''schema'' \<Longrightarrow> has k (as_rung n v) = has k v"
  by (simp add: has_def)

lemma keys_as_rung [simp]: "keys_of (as_rung n v) = keys_of v"
  by (simp add: as_rung_def)

lemma closed_as_rung [simp]: "closed r q (as_rung n v) = closed r q v"
  by (simp add: as_rung_def)

lemma members_elsewhere [simp]:
  "k \<noteq> ''schema'' \<Longrightarrow> member_of f k (as_rung n v) l = member_of f k v l"
  "k \<noteq> ''schema'' \<Longrightarrow> optional_member f k (as_rung n v) l = optional_member f k v l"
  "k \<noteq> ''schema'' \<Longrightarrow> own_member f k (as_rung n v) l = own_member f k v l"
  by (simp_all add: member_of_def optional_member_def own_member_def)

lemma head_elsewhere [simp]: "decode_status_head (as_rung n v) = decode_status_head v"
  by (simp add: decode_status_head_def)

lemma identity_as_rung:
  assumes "requireIdentity (as_rung m v) s op = Inr u" and "''schema'' \<in> set (keys_of v)"
  shows "requireIdentity (as_rung n v) (status_schema (rung_version n)) op = Inr u"
  using assms by (simp add: requireIdentity_ok as_rung_def jget_set_member)

lemma array_mono:
  assumes "decode_array mn mx u f v l = Inr xs" and "\<And>w k x. f w k = Inr x \<Longrightarrow> g w k = Inr x"
  shows "decode_array mn mx u g v l = Inr xs"
  using assms by (auto simp: array_ok)

lemma role_submission_mono:
  "(if c then check_role_submission False as op l else Inr ()) = Inr u \<Longrightarrow> (if c then check_role_submission True as op l else Inr ()) = Inr u"
  by (simp add: check_role_submission_def result_simps split: if_splits)

lemma bindr_mono_both:
  "bindr m k = Inr y \<Longrightarrow> (\<And>u. m = Inr u \<Longrightarrow> m' = Inr u) \<Longrightarrow> (\<And>x. k x = Inr y \<Longrightarrow> k' x = Inr y) \<Longrightarrow> bindr m' k' = Inr y"
  by (cases m) simp_all

lemma if_mono: "(if c then a else b) = Inr y \<Longrightarrow> (a = Inr y \<Longrightarrow> a' = Inr y) \<Longrightarrow> (b = Inr y \<Longrightarrow> b' = Inr y) \<Longrightarrow> (if c then a' else b') = Inr y"
  by (cases c) simp_all

text \<open>Version 9 only admits more: a submission on the inputs of the provider roles.\<close>

lemma collect_input_mono:
  assumes "decodeCollectInput parse True True False w l = Inr y"
  shows "decodeCollectInput parse True True True w l = Inr y"
  using assms unfolding decodeCollectInput_def Let_def
  by - ((erule bindr_mono)+, erule bindr_mono_both, erule role_submission_mono, (erule bindr_mono)+, assumption)

lemma next_transition_mono:
  assumes "decodeReviewNextTransitionV3 parse True True False w = Inr t"
  shows "decodeReviewNextTransitionV3 parse True True True w = Inr t"
proof -
  have inputs: "member_of (decode_array 1 None False (decodeCollectInput parse True True False)) k b l = Inr xs \<Longrightarrow>
      member_of (decode_array 1 None False (decodeCollectInput parse True True True)) k b l = Inr xs" for k b l xs
    unfolding member_of_def by (erule array_mono) (rule collect_input_mono)
  show ?thesis
    using assms unfolding decodeReviewNextTransitionV3_def Let_def simp_thms
    by - ((erule bindr_mono)+, erule if_mono, assumption, erule if_mono, erule bindr_mono, erule bindr_mono_both, erule inputs, assumption,
      assumption)
qed

text \<open>A computation step by step, for two bodies that differ by their schema.\<close>

lemma bindr_step:
  "bindr m k = Inr y \<Longrightarrow> (\<And>u. m = Inr u \<Longrightarrow> m' = Inr u) \<Longrightarrow> (\<And>x. k x = Inr y \<Longrightarrow> k' x = Inr z) \<Longrightarrow> bindr m' k' = Inr z"
  by (cases m) simp_all

lemma exact_bindr: "bindr (exact r q v l) k = Inr y \<longleftrightarrow> closed r q v \<and> k v = Inr y"
  by (simp add: bindr_eq_Inr exact_ok)

lemma next_step:
  assumes "(if \<not>  h then Inr None else bindr (decodeReviewNextTransitionV3 parse True True p w) (\<lambda>t. Inr (Some t))) = Inr u" and "p \<longrightarrow> q"
  shows "(if \<not>  h then Inr None else bindr (decodeReviewNextTransitionV3 parse True True q w) (\<lambda>t. Inr (Some t))) = Inr u"
  using assms next_transition_mono[of parse w] by (cases p; cases q) (auto simp: bindr_eq_Inr)

lemma inventory_step:
  assumes "(if p then optional_member f k b l else Inr None) = Inr u" and "p \<longrightarrow> q" and "p \<or> \<not>  has k b"
  shows "(if q then optional_member f k b l else Inr None) = Inr u"
  using assms by (cases p) (auto simp: optional_member_def)

text \<open>
  C21: the status contract is additive from version 6 on: what a decoder of one version admits, every later version admits
  with the same meaning, and versions 7 and 8 admit exactly the same. Only the recorded body differs, by its schema.
\<close>

theorem status_versions_additive:
  assumes "decodeReviewStatusV3 parse (as_rung m v) = Inr s" and "6 \<le> m" and "m \<le> n \<or> m = 8 \<and> n = 7" and "n \<le> 9"
  shows "decodeReviewStatusV3 parse (as_rung n v) = Inr (s\<lparr>status_raw := as_rung n v\<rparr>)"
proof -
  have rungs: "m \<in> {3, 5, 6, 7, 8, 9}" "n \<in> {3, 5, 6, 7, 8, 9}" "6 \<le> n"
    using assms(2-4) by (simp_all, presburger+)
  have more: "7 \<le> m \<longrightarrow> 7 \<le> n" "9 \<le> m \<longrightarrow> 9 \<le> n" using assms(2-4) by presburger+
  then have grows: "set (status_optional_keys m) \<subseteq> set (status_optional_keys n)"
    using rungs(3) unfolding status_optional_keys_def by (cases "7 \<le> m"; cases "5 \<le> m"; simp)
  have shape: "closed STATUS_KEYS (status_optional_keys (status_rung (as_rung m v))) v"
    using assms(1) unfolding decodeReviewStatusV3_def Let_def exact_bindr by simp
  then have schema: "''schema'' \<in> set (keys_of v)" by (auto simp: closed_def STATUS_KEYS_def)
  note rung = rung_of_set[OF rungs(1) schema] rung_of_set[OF rungs(2) schema]
  have absent: "7 \<le> m \<or> \<not>  has ''eligible_untracked_inventory'' v"
    using shape has_key[of "''eligible_untracked_inventory''" v]
    by (auto simp: rung closed_def STATUS_KEYS_def status_optional_keys_def split: if_splits)
  have wide: "closed STATUS_KEYS (status_optional_keys n) v"
    using shape grows by (auto simp: rung closed_def)
  have flags: "(5 \<le> m) = True" "(6 \<le> m) = True" "(5 \<le> n) = True" "(6 \<le> n) = True" using assms(2) rungs(3) by auto
  have e: "has ''next_transition'' (as_rung k v) = has ''next_transition'' v" "jget ''next_transition'' (as_rung k v) = jget ''next_transition'' v"
    "optional_member f ''eligible_untracked_inventory'' (as_rung k v) l = optional_member f ''eligible_untracked_inventory'' v l" for k f l
    by simp_all
  have transition: "(if \<not>  has ''next_transition'' (as_rung n v) then Inr None
      else bindr (decodeReviewNextTransitionV3 parse True True (9 \<le> n) (jget ''next_transition'' (as_rung n v))) (\<lambda>t. Inr (Some t))) = Inr u"
    if "(if \<not>  has ''next_transition'' (as_rung m v) then Inr None
      else bindr (decodeReviewNextTransitionV3 parse True True (9 \<le> m) (jget ''next_transition'' (as_rung m v))) (\<lambda>t. Inr (Some t))) = Inr u" for u
    using that unfolding e by (rule next_step[OF _ more(2)])
  have inventory: "(if 7 \<le> n then optional_member sha256 ''eligible_untracked_inventory'' (as_rung n v) l else Inr None) = Inr u"
    if "(if 7 \<le> m then optional_member sha256 ''eligible_untracked_inventory'' (as_rung m v) l else Inr None) = Inr u" for u l
    using that unfolding e by (rule inventory_step[OF _ more(1) absent])
  note [simp] = wide
  show ?thesis
    using assms(1) unfolding decodeReviewStatusV3_def Let_def exact_bindr rung flags
    by - (elim conjE, rule conjI, simp, erule bindr_step, erule identity_as_rung, rule schema,
      (erule bindr_step, (erule transition | erule inventory | (simp; fail)))+, erule Inr_E, simp)
qed

section \<open>The start of a review\<close>

lemma status_arguments_ok:
  "check_status_arguments s seen as = Inr u \<longleftrightarrow> distinct (map arg_name as) \<and> set (map arg_name as) \<inter> set seen = {} \<and>
     (\<forall>a \<in> set as. case optional_selectors s (arg_name a) of None \<Rightarrow> True | Some e \<Rightarrow> Some (arg_value a) = e)"
  by (induction as arbitrary: seen) (auto split: option.splits)

lemma selectors_ok:
  "check_selectors as seen xs = Inr u \<longleftrightarrow> distinct (map arg_name xs) \<and> set (map arg_name xs) \<inter> set seen = {} \<and>
     (\<forall>x \<in> set xs. \<exists>full. find_argument (arg_name x) as = Some full \<and> arg_value full = arg_value x \<and> arg_token full = arg_token x)"
  by (induction xs arbitrary: seen) (auto split: option.splits)

lemma find_argument_in: "find_argument n as = Some a \<Longrightarrow> a \<in> set as \<and> arg_name a = n"
  by (induction as) (auto simp: find_argument_def split: if_splits)

lemma exact_argument_in: "exact_argument n w as \<Longrightarrow> \<exists>a \<in> set as. arg_name a = n \<and> arg_value a = w \<and> arg_token a = Some (argument_text n w)"
  by (auto simp: exact_argument_def dest!: find_argument_in split: option.splits)

text \<open>The arguments of a status that names a review: the name, the value and its token, once.\<close>

definition carries :: "argument list \<Rightarrow> string \<Rightarrow> string \<Rightarrow> bool" where
  "carries as n w \<longleftrightarrow> arguments_named n as = [\<lparr>arg_name = n, arg_value = w, arg_token = Some (argument_text n w)\<rparr>]"

lemma carriesI:
  assumes "exact_argument n w as" and "distinct (map arg_name as)"
  shows "carries as n w"
proof -
  obtain a where a: "a \<in> set as" "a = \<lparr>arg_name = n, arg_value = w, arg_token = Some (argument_text n w)\<rparr>"
    using exact_argument_in[OF assms(1)] by (metis argument.surjective old.unit.exhaust)
  have "arguments_named n as = [a]" using a(1) assms(2)
  proof (induction as)
    case (Cons b as)
    have "arguments_named n as = []" if "arg_name b = n"
      using that Cons.prems(2) by (auto simp: arguments_named_def filter_empty_conv image_iff)
    then show ?case using Cons a(2) by (auto simp: arguments_named_def image_iff)
  qed simp
  then show ?thesis using a(2) by (simp add: carries_def)
qed

lemma status_binding_parts:
  assumes "assertReviewStartV4StatusBinding e s = Inr u"
  obtains ss where "expected_start_target s = Some (execute_target e)" "list_all (\<lambda>x. subject_target x = execute_target e) (artifactSubjects s)"
    "execute_lineage e = None \<or> execute_lineage e = Some (start_lineage s)"
    "distinct (map arg_name (execute_arguments e))"
    "\<forall>a \<in> set (execute_arguments e). case optional_selectors s (arg_name a) of None \<Rightarrow> True | Some w \<Rightarrow> Some (arg_value a) = w"
    "exact_argument ''lineage'' (start_lineage s) (execute_arguments e)"
    "exact_argument ''contract'' REVIEW_INTEGRATION_CONTRACT (execute_arguments e)"
    "exact_argument ''next-transition'' ''true'' (execute_arguments e)" "exact_argument ''agent'' ''pi'' (execute_arguments e)"
    "selectorArguments e = Some ss" "ss \<noteq> []" "check_selectors (execute_arguments e) [] ss = Inr ()"
    "argument_value ''committed-only'' (execute_arguments e) = None \<or> argument_value ''workspace-overlay'' (execute_arguments e) = None"
  using assms unfolding assertReviewStartV4StatusBinding_def Let_def
  by - ((erule bindr_unitE | erule bindr_InrE)+, rule that,
    simp_all add: result_simps status_arguments_ok for_each_ok list_all_iff split: option.splits if_splits, blast?)

lemma start_v4_parts:
  assumes "decodeReviewStartV4 parse v = Inr x" and "jget ''state'' v = JStr ''reviewing''"
    and "start_action (frozen_start x) \<in> {''created'', ''replayed''}"
  shows "\<exists>t e s. start_next x = Some t \<and> execute t = Some e \<and> execute_operation e = ''review.status'' \<and>
    assertReviewStartV4StatusBinding e s = Inr () \<and> frozen_start x = s\<lparr>start_action := start_action (frozen_start x), start_raw := v\<rparr>"
  using assms unfolding decodeReviewStartV4_def Let_def exact_bindr
  by - (erule conjE, (erule bindr_unitE | erule bindr_InrE)+, erule Inr_E,
    auto simp: result_simps split: option.splits if_splits)

text \<open>
  C17: a start of version 4 that opens or replays a review may only run the status of that review: its arguments have
  distinct names, name the lineage of the start, the contract, the next transition and the agent, each with the token that
  renders it; the target is the frozen one, for the vector and for every subject of the start; the selectors are some of
  the arguments; a range is never committed-only and an overlay at once.
\<close>

theorem start_v4_runs_only_its_status:
  assumes "decodeReviewStartV4 parse v = Inr x" and "jget ''state'' v = JStr ''reviewing''"
    and "start_action (frozen_start x) \<in> {''created'', ''replayed''}"
  shows "\<exists>t e ss. start_next x = Some t \<and> execute t = Some e \<and> execute_operation e = ''review.status'' \<and>
     distinct (map arg_name (execute_arguments e)) \<and>
     (\<forall>(n, w) \<in> {(''lineage'', start_lineage (frozen_start x)), (''contract'', REVIEW_INTEGRATION_CONTRACT), (''next-transition'', ''true''),
        (''agent'', ''pi'')}. carries (execute_arguments e) n w) \<and>
     expected_start_target (frozen_start x) = Some (execute_target e) \<and>
     (\<forall>y \<in> set (artifactSubjects (frozen_start x)). subject_target y = execute_target e) \<and>
     selectorArguments e = Some ss \<and> ss \<noteq> [] \<and>
     (\<forall>a \<in> set ss. \<exists>b \<in> set (execute_arguments e). arg_name b = arg_name a \<and> arg_value b = arg_value a \<and> arg_token b = arg_token a) \<and>
     (arguments_named ''committed-only'' (execute_arguments e) = [] \<or> arguments_named ''workspace-overlay'' (execute_arguments e) = [])"
proof -
  obtain t e s where x: "start_next x = Some t" "execute t = Some e" "execute_operation e = ''review.status''"
    "assertReviewStartV4StatusBinding e s = Inr ()" "frozen_start x = s\<lparr>start_action := start_action (frozen_start x), start_raw := v\<rparr>"
    using start_v4_parts[OF assms] by blast
  obtain ss where b: "expected_start_target s = Some (execute_target e)" "list_all (\<lambda>x. subject_target x = execute_target e) (artifactSubjects s)"
    "distinct (map arg_name (execute_arguments e))"
    "exact_argument ''lineage'' (start_lineage s) (execute_arguments e)"
    "exact_argument ''contract'' REVIEW_INTEGRATION_CONTRACT (execute_arguments e)"
    "exact_argument ''next-transition'' ''true'' (execute_arguments e)" "exact_argument ''agent'' ''pi'' (execute_arguments e)"
    "selectorArguments e = Some ss" "ss \<noteq> []" "check_selectors (execute_arguments e) [] ss = Inr ()"
    "argument_value ''committed-only'' (execute_arguments e) = None \<or> argument_value ''workspace-overlay'' (execute_arguments e) = None"
    using x(4) by (rule status_binding_parts)
  have c: "carries (execute_arguments e) n w" if "exact_argument n w (execute_arguments e)" for n w
    using carriesI[OF that b(3)] .
  have s: "start_lineage (frozen_start x) = start_lineage s" "artifactSubjects (frozen_start x) = artifactSubjects s"
    "expected_start_target (frozen_start x) = expected_start_target s"
    using arg_cong[OF x(5), of start_lineage] arg_cong[OF x(5), of artifactSubjects] arg_cong[OF x(5), of expected_start_target]
    by (simp_all add: expected_start_target_def cong: option.case_cong)
  have sel: "\<forall>a \<in> set ss. \<exists>b \<in> set (execute_arguments e). arg_name b = arg_name a \<and> arg_value b = arg_value a \<and> arg_token b = arg_token a"
    using b(10) unfolding selectors_ok by (metis find_argument_in)
  have none: "argument_value n (execute_arguments e) = None \<Longrightarrow> arguments_named n (execute_arguments e) = []" for n
    by (simp add: argument_value_def find_argument_def arguments_named_def find_None_iff filter_empty_conv)
  show ?thesis
    using x(1-3) b(1,2,3,8,9) sel b(11) none c[OF b(4)] c[OF b(5)] c[OF b(6)] c[OF b(7)] unfolding s
    by (intro exI[of _ t] exI[of _ e] exI[of _ ss]) (auto simp: list_all_iff)
qed

section \<open>The closure of a review\<close>

definition opened :: "string \<Rightarrow> string \<Rightarrow> string \<Rightarrow> string \<Rightarrow> event_closure" where
  "opened operation i st r = \<lparr>closure_operation = operation, closure_lineage = i, closure_state = st, storeRevision = r, closure_action = None,
     closure_target = None, requestHash = None, correctionLines = None, advisoryFindings = None, reviewerResults = None,
     statusContinuation = None, acknowledgement = None, acknowledgementUndecodable = False\<rparr>"

lemma opened_simps [simp]:
  "closure_operation (opened op i st r) = op" "closure_lineage (opened op i st r) = i" "closure_state (opened op i st r) = st"
  "storeRevision (opened op i st r) = r" "acknowledgement (opened op i st r) = None"
  by (simp_all add: opened_def)

lemma closure_iff:
  "decodeReviewLastEventClosureV1 v = Inr c \<longleftrightarrow> closed CLOSURE_KEYS CLOSURE_OPTIONAL_KEYS v \<and>
     jget ''schema'' v = JStr ''gentle-ai.review-last-event-closure/v1'' \<and>
     (\<exists>op st i r. jget ''operation'' v = JStr op \<and> op \<in> set CLOSURE_OPERATIONS \<and> jget ''state'' v = JStr st \<and>
        st \<in> set REVIEW_LAST_EVENT_TERMINAL_STATES \<and> jget ''lineage_id'' v = JStr i \<and> slug (CHR ''-'') i \<and> jget ''store_revision'' v = JStr r \<and> SHA256 r \<and>
        (if op = ''review.capture-correction-plan'' then decode_plan_closure v (opened op i st r)
         else decode_capture_closure v (opened op i st r)) = Inr c)"
  unfolding decodeReviewLastEventClosureV1_def Let_def exact_bindr bindr_eq_Inr fixed_ok member_of_def enumeration_ok shapes_ok
    opened_def[symmetric] exact_ok
  by blast

lemma plan_closure_silent:
  assumes "decode_plan_closure v shared = Inr c"
  shows "acknowledgement c = acknowledgement shared" "closure_state c = ''correction_required''"
  using assms unfolding decode_plan_closure_def Let_def by (auto simp: bindr_eq_Inr result_simps)

lemma capture_closure_parts:
  assumes "decode_capture_closure v shared = Inr c"
  shows "check_acknowledgement (acknowledgement c) (acknowledgementUndecodable c) shared = Inr ()"
    "read_acknowledgement v = (acknowledgement c, acknowledgementUndecodable c)"
    "closure_lineage c = closure_lineage shared" "closure_state c = closure_state shared" "storeRevision c = storeRevision shared"
  using assms unfolding decode_capture_closure_def Let_def
  by - ((erule bindr_unitE | erule bindr_InrE | (simp only: split: prod.splits))+, erule Inr_E, simp)+

lemma acknowledgement_argument_ok:
  "check_acknowledgement_argument i a = Inr w \<Longrightarrow> arg_name a = ACKNOWLEDGEMENT_ARGUMENTS ! i \<and> w = arg_value a \<and> arg_token a = Some (render a)"
  by (auto simp: check_acknowledgement_argument_def Let_def bindr_eq_Inr result_simps nonempty_ok render_def some_text_def split: option.splits)

lemma acknowledgement_arguments_ok:
  assumes "sequence (map (\<lambda>(i, a). check_acknowledgement_argument i a) (enumerate 0 as)) = Inr ws" and "length as = length ACKNOWLEDGEMENT_ARGUMENTS"
  shows "map arg_name as = ACKNOWLEDGEMENT_ARGUMENTS" "ws = map arg_value as" "\<forall>a \<in> set as. arg_token a = Some (render a)"
proof -
  have each: "arg_name (as ! i) = ACKNOWLEDGEMENT_ARGUMENTS ! i \<and> ws ! i = arg_value (as ! i) \<and> arg_token (as ! i) = Some (render (as ! i))"
    if "i < length as" for i
    using assms(1) that acknowledgement_argument_ok unfolding map_index_ok by blast
  have "length ws = length as" using assms(1) unfolding map_index_ok by blast
  then show "map arg_name as = ACKNOWLEDGEMENT_ARGUMENTS" "ws = map arg_value as" "\<forall>a \<in> set as. arg_token a = Some (render a)"
    using each assms(2) by (auto intro!: nth_equalityI simp: all_set_conv_all_nth)
qed

lemma shape_ok:
  assumes "acknowledgement_execute_shape operation command as ps (JStr i) (JStr t) (JStr r) = Inr s"
  shows "map arg_name as = ACKNOWLEDGEMENT_ARGUMENTS" "\<forall>a \<in> set as. arg_token a = Some (render a)"
    "shape_values s = map arg_value as" "shape_lineage s = i" "shape_target s = t" "shape_revision s = r"
proof -
  have "length as = length ACKNOWLEDGEMENT_ARGUMENTS \<and> shape_lineage s = i \<and> shape_target s = t \<and> shape_revision s = r \<and>
      sequence (map (\<lambda>(i, a). check_acknowledgement_argument i a) (enumerate 0 as)) = Inr (shape_values s)"
    using assms unfolding acknowledgement_execute_shape_def
    by - ((erule bindr_unitE | erule bindr_InrE)+, erule Inr_E, simp add: result_simps shapes_ok)
  then show "map arg_name as = ACKNOWLEDGEMENT_ARGUMENTS" "\<forall>a \<in> set as. arg_token a = Some (render a)"
    "shape_values s = map arg_value as" "shape_lineage s = i" "shape_target s = t" "shape_revision s = r"
    using acknowledgement_arguments_ok[of as "shape_values s"] by simp_all
qed

lemma burn_ok:
  assumes "assert_burn a expected = Inr ts"
  shows "map arg_name (burn_arguments a) = ACKNOWLEDGEMENT_ARGUMENTS" "\<forall>x \<in> set (burn_arguments a). arg_token x = Some (render x)"
    "map arg_value (take 3 (tl (burn_arguments a))) = [burn_lineage a, burn_target a, burn_revision a]"
    "agrees (expected_lineage expected) (burn_lineage a) ''acknowledgement.execute.lineage does not match the current target'' = Inr ()"
    "agrees (expected_revision expected) (burn_revision a) ''acknowledgement.execute.revision does not match the current target'' = Inr ()"
proof -
  obtain s where s: "acknowledgement_execute_shape (JStr ''review.acknowledge-approved'') (JStr (burn_command a)) (burn_arguments a)
      (burn_preconditions a) (JStr (burn_lineage a)) (JStr (burn_target a)) (JStr (burn_revision a)) = Inr s"
    and b: "assert_acknowledgement_binding s expected = Inr ts"
    using assms unfolding assert_burn_def by (rule bindr_InrE)
  note shape = shape_ok[OF s]
  have n: "length (burn_arguments a) = 5" using arg_cong[OF shape(1), of length] by (simp add: ACKNOWLEDGEMENT_ARGUMENTS_def)
  then obtain a0 a1 a2 a3 a4 where as: "burn_arguments a = [a0, a1, a2, a3, a4]"
    by (auto simp: numeral_eq_Suc length_Suc_conv)
  have c: "arg_value a1 = burn_lineage a" "arg_value a2 = burn_target a" "arg_value a3 = burn_revision a"
    "agrees (expected_lineage expected) (burn_lineage a) ''acknowledgement.execute.lineage does not match the current target'' = Inr ()"
    "agrees (expected_revision expected) (burn_revision a) ''acknowledgement.execute.revision does not match the current target'' = Inr ()"
    using b unfolding assert_acknowledgement_binding_def by (auto simp: bindr_eq_Inr result_simps shape as nth_Cons_numeral)
  show "map arg_name (burn_arguments a) = ACKNOWLEDGEMENT_ARGUMENTS" "\<forall>x \<in> set (burn_arguments a). arg_token x = Some (render x)"
    "map arg_value (take 3 (tl (burn_arguments a))) = [burn_lineage a, burn_target a, burn_revision a]"
    "agrees (expected_lineage expected) (burn_lineage a) ''acknowledgement.execute.lineage does not match the current target'' = Inr ()"
    "agrees (expected_revision expected) (burn_revision a) ''acknowledgement.execute.revision does not match the current target'' = Inr ()"
    using shape(1,2) c by (simp_all add: as numeral_eq_Suc)
qed

text \<open>
  C18: the acknowledgement that a closure hands to the host burns exactly the review it closes: the closure is approved, the
  arguments are the five of the contract in their order, each with the token that renders it, and they name the lineage and
  the revision of the closure.
\<close>

theorem acknowledgement_burns_only_its_review:
  assumes "decodeReviewLastEventClosureV1 v = Inr c" and "acknowledgement c = Some a"
  shows "closure_state c = ''approved'' \<and> burn_lineage a = closure_lineage c \<and> burn_revision a = storeRevision c \<and>
     map arg_name (burn_arguments a) = [''cwd'', ''lineage'', ''target'', ''expected-revision'', ''token''] \<and>
     (\<forall>x \<in> set (burn_arguments a). arg_token x = Some (render x)) \<and>
     map arg_value (take 3 (tl (burn_arguments a))) = [closure_lineage c, burn_target a, storeRevision c]"
proof -
  obtain op st i r where c: "decode_capture_closure v (opened op i st r) = Inr c"
    using assms plan_closure_silent(1)[of v _ c] unfolding closure_iff by (force split: if_splits)
  note parts = capture_closure_parts[OF c]
  obtain ts where "closure_state c = ''approved''" and b: "assert_burn a (no_expectation\<lparr>expected_lineage := Some i, expected_revision := Some r\<rparr>) = Inr ts"
    using parts(1,4) unfolding check_acknowledgement_def assms(2) by (auto simp: result_simps bindr_eq_Inr)
  then show ?thesis
    using burn_ok[OF b] parts(3,5) by (simp add: agrees_def result_simps ACKNOWLEDGEMENT_ARGUMENTS_def)
qed

lemma set_member_elsewhere:
  "k \<noteq> a \<Longrightarrow> jget k (set_member a w v) = jget k v" "k \<noteq> a \<Longrightarrow> has k (set_member a w v) = has k v"
  "k \<noteq> a \<Longrightarrow> member_of f k (set_member a w v) l = member_of f k v l"
  "k \<noteq> a \<Longrightarrow> optional_member f k (set_member a w v) l = optional_member f k v l"
  by (simp_all add: jget_set_member has_def member_of_def optional_member_def)

text \<open>
  C19: an acknowledgement that cannot be read costs nothing but itself: with any value in its place that its decoder
  refuses, an approved closure is decoded to the same closure, without the acknowledgement and with the mark that there
  is one.
\<close>

theorem unreadable_acknowledgement_keeps_approval:
  assumes "decodeReviewLastEventClosureV1 v = Inr c" and "closure_state c = ''approved''" and "has ''acknowledgement'' v"
    and "decodeReviewApprovedAcknowledgementV1 w ''last_event_closure.acknowledgement'' = Inl e" and "w \<noteq> JUndefined"
  shows "decodeReviewLastEventClosureV1 (set_member ''acknowledgement'' w v) =
     Inr (c\<lparr>acknowledgement := None, acknowledgementUndecodable := True\<rparr>)"
proof -
  let ?v = "set_member ''acknowledgement'' w v"
  obtain op i st r where h: "closed CLOSURE_KEYS CLOSURE_OPTIONAL_KEYS v" "jget ''schema'' v = JStr ''gentle-ai.review-last-event-closure/v1''"
    "jget ''operation'' v = JStr op" "op \<in> set CLOSURE_OPERATIONS" "jget ''state'' v = JStr st" "st \<in> set REVIEW_LAST_EVENT_TERMINAL_STATES"
    "jget ''lineage_id'' v = JStr i" "slug (CHR ''-'') i" "jget ''store_revision'' v = JStr r" "SHA256 r" "op \<noteq> ''review.capture-correction-plan''"
    and c: "decode_capture_closure v (opened op i st r) = Inr c"
    using assms(1,2) plan_closure_silent(2)[of v _ c] unfolding closure_iff by (force split: if_splits)
  have st: "st = ''approved''" using capture_closure_parts(4)[OF c] assms(2) by simp
  note e = set_member_elsewhere
  have "jget ''acknowledgement'' ?v = w" using has_key[OF assms(3)] by (simp add: jget_set_member)
  then have read: "read_acknowledgement ?v = (None, True)"
    using assms(4,5) by (simp add: read_acknowledgement_def has_def member_of_def)
  have check: "check_acknowledgement None True (opened op i st r) = Inr ()"
    by (simp add: check_acknowledgement_def result_simps st)
  have "decode_capture_closure ?v (opened op i st r) = Inr (c\<lparr>acknowledgement := None, acknowledgementUndecodable := True\<rparr>)"
    using c unfolding decode_capture_closure_def Let_def read prod.case
    by - ((erule bindr_step, (simp add: e; fail))+, simp only: split: prod.splits, erule bindr_step, (simp add: check; fail),
      (erule bindr_step, (simp add: e; fail))+, erule Inr_E, simp)
  then show ?thesis
    unfolding closure_iff closed_set_member using h by (simp add: jget_set_member)
qed

section \<open>A status is coherent\<close>

definition coherent_status :: "review_status \<Rightarrow> bool" where
  "coherent_status s \<longleftrightarrow> (applicability s = ''current_target'') = (status_authority_of s \<noteq> None) \<and>
     (case status_authority_of s of None \<Rightarrow> frozen s = None \<and> authorityTargetIdentity s = None
      | Some a \<Rightarrow> (if authority_version a = ''compact-v2'' then frozen s \<noteq> None
         else authority_version a = ''legacy-v1'' \<and> frozen s = None \<and> authorityTargetIdentity s = None)) \<and>
     (status_action s = ''recover'') = (actionDisposition s \<noteq> None) \<and> (forecast s \<noteq> None \<longrightarrow> nextTransition s \<noteq> None) \<and>
     (case status_validation s of None \<Rightarrow> True | Some q \<Rightarrow> matching_validation (nextTransition s) q) \<and>
     (case frozen s of None \<Rightarrow> True | Some f \<Rightarrow> 0 \<le> frozen_budget f \<and> frozen_budget f \<le> 200) \<and> SHA256 (status_target s)"

lemma optional_Some: "optional_member f k b l = Inr (Some x) \<Longrightarrow> has k b \<and> f (jget k b) (l @ ''.'' @ k) = Inr x"
  by (auto simp: optional_member_def member_of_def bindr_eq_Inr split: if_splits)

lemma optional_absent: "optional_member f k b l = Inr x \<Longrightarrow> \<not>  has k b \<Longrightarrow> x = None"
  by (simp add: optional_member_def)

lemma head_parts:
  assumes "decode_status_head b = Inr h"
  shows "(head_applicability h = ''current_target'') = (head_authority h \<noteq> None)"
    "case head_authority h of None \<Rightarrow> head_frozen h = None \<and> \<not>  has ''authority_target_identity'' b
     | Some a \<Rightarrow> (if authority_version a = ''compact-v2'' then head_frozen h \<noteq> None
         else authority_version a = ''legacy-v1'' \<and> head_frozen h = None \<and> \<not>  has ''authority_target_identity'' b)"
    "case head_frozen h of None \<Rightarrow> True | Some f \<Rightarrow> 0 \<le> frozen_budget f \<and> frozen_budget f \<le> 200"
proof -
  obtain r where f: "optional_member decode_status_frozen ''frozen'' b ''status'' = Inr (head_frozen h)"
    and a: "optional_member decode_status_authority ''authority'' b ''status'' = Inr (head_authority h)"
    and q: "head_applicability h \<noteq> ''current_target'' \<or> head_authority h \<noteq> None"
      "head_applicability h = ''current_target'' \<or> (head_authority h = None \<and> \<not>  has ''frozen'' b \<and> \<not>  has ''authority_target_identity'' b)"
      "map_option authority_version (head_authority h) \<noteq> Some ''compact-v2'' \<or> head_frozen h \<noteq> None"
      "map_option authority_version (head_authority h) \<noteq> Some ''legacy-v1'' \<or> (head_frozen h = None \<and> \<not>  has ''authority_target_identity'' b)"
    using assms unfolding decode_status_head_def Let_def
    by - ((erule bindr_unitE | erule bindr_InrE)+, erule Inr_E, rule that, simp_all only: result_simps status_head.simps)
  have v: "authority_version x \<in> set AUTHORITY_VERSIONS" if "head_authority h = Some x" for x
    using optional_Some[OF a[unfolded that]] unfolding decode_status_authority_def
    by (auto simp: bindr_eq_Inr exact_ok member_of_def enumeration_ok)
  show "(head_applicability h = ''current_target'') = (head_authority h \<noteq> None)" using q(1,2) by auto
  then show "case head_authority h of None \<Rightarrow> head_frozen h = None \<and> \<not>  has ''authority_target_identity'' b
     | Some a \<Rightarrow> (if authority_version a = ''compact-v2'' then head_frozen h \<noteq> None
         else authority_version a = ''legacy-v1'' \<and> head_frozen h = None \<and> \<not>  has ''authority_target_identity'' b)"
    using q v optional_absent[OF f] by (auto simp: AUTHORITY_VERSIONS_def split: option.splits)
  show "case head_frozen h of None \<Rightarrow> True | Some f \<Rightarrow> 0 \<le> frozen_budget f \<and> frozen_budget f \<le> 200"
  proof (cases "head_frozen h")
    case (Some x)
    show ?thesis using optional_Some[OF f[unfolded Some]] unfolding decode_status_frozen_def Some
      by (auto simp: bindr_eq_Inr exact_ok member_of_def integer_ok)
  qed simp
qed

text \<open>
  C20: a decoded status is coherent: it has an authority exactly for the current target, a compact authority comes with the
  frozen facts and a legacy one without, a disposition is there exactly for a recovery, a forecast only with a transition,
  a validation request only when the transition collects exactly that request, and the budget stays within its bound.
\<close>

theorem decoded_status_is_coherent:
  assumes "decodeReviewStatusV3 parse v = Inr s"
  shows "coherent_status s"
proof -
  obtain h u where h: "decode_status_head v = Inr h" "applicability s = head_applicability h" "status_authority_of s = head_authority h"
      "frozen s = head_frozen h"
    and t: "optional_member sha256 ''authority_target_identity'' v ''status'' = Inr (authorityTargetIdentity s)"
    and q: "status_action s \<noteq> ''recover'' \<or> actionDisposition s \<noteq> None" "status_action s = ''recover'' \<or> actionDisposition s = None"
      "case status_validation s of None \<Rightarrow> True | Some r \<Rightarrow> matching_validation (nextTransition s) r"
      "forecast s = None \<or> nextTransition s \<noteq> None" "member_of sha256 ''target_identity'' v ''status'' = Inr (status_target s)"
    using assms unfolding decodeReviewStatusV3_def Let_def exact_bindr
    by - (erule conjE, (erule bindr_unitE | erule bindr_InrE)+, erule Inr_E, rule that, assumption,
      simp_all only: result_simps review_status.simps)
  have absent: "authorityTargetIdentity s = None" if "\<not>  has ''authority_target_identity'' v"
    using optional_absent[OF t that] .
  show ?thesis
    unfolding coherent_status_def h(2-4)
    using head_parts[OF h(1)] absent q by (auto simp: member_of_def shapes_ok split: option.splits if_splits)
qed

section \<open>Samples\<close>

definition sample_tree :: string where
  "sample_tree = replicate 40 (CHR ''a'')"

definition sample_projection :: json where
  "sample_projection = JObj [(''schema'', JStr ''gentle-ai.review-integration.projection/v1''), (''kind'', JStr ''current-changes''),
     (''projection'', JStr ''workspace''), (''base_tree'', JStr sample_tree), (''initial_review_tree'', JStr sample_tree),
     (''current_candidate_tree'', JStr sample_tree), (''paths_digest'', JStr sample_hash), (''paths'', JArr [JStr ''a.ts'']),
     (''intended_untracked'', JArr []), (''intended_untracked_proof'', JStr sample_hash), (''initial_snapshot_identity'', JStr sample_hash),
     (''current_snapshot_identity'', JStr sample_hash)]"

definition sample_counts :: json where
  "sample_counts = JObj (map (\<lambda>k. (k, JInt 0)) [''lineages'', ''compact_lineages'', ''legacy_lineages'', ''events'', ''bytes'', ''eligible_candidates'',
     ''unsupported_lineages'', ''conflicts''])"

definition sample_repair :: json where
  "sample_repair = JObj [(''schema'', JStr ''gentle-ai.review-authority-repair-assessment/v1''), (''status'', JStr ''unsupported''),
     (''counts'', sample_counts), (''supported_operations'', JArr (map JStr REPAIR_OPERATIONS)), (''authorization_schema'', JStr REPAIR_AUTHORIZATION)]"

text \<open>A status of the current target, at a given version.\<close>

definition sample_status :: "string \<Rightarrow> json" where
  "sample_status schema = JObj [(''schema'', JStr schema), (''contract'', JStr REVIEW_INTEGRATION_CONTRACT), (''operation'', JStr ''review.status''),
     (''applicability'', JStr ''current_target''), (''action'', JStr ''stop''), (''replayability'', JStr ''status_required''),
     (''target_identity'', JStr sample_hash), (''projection'', sample_projection), (''repair'', sample_repair), (''candidates'', JArr []),
     (''authority'', JObj [(''version'', JStr ''compact-v2''), (''lineage_id'', JStr ''lineage-1''), (''state'', JStr ''correcting''), (''generation'', JInt 1),
       (''revision'', JStr sample_hash)]),
     (''frozen'', JObj [(''tier'', JStr ''low''), (''original_changed_lines'', JInt 3), (''correction_budget'', JInt 2)]),
     (''next_transition'', JObj [(''kind'', JStr ''stop''), (''reason_code'', JStr ''done'')]),
     (''forecast'', JObj [(''horizon'', JStr ''terminal''), (''steps'', JArr [JObj [(''step'', JInt 1), (''kind'', JStr ''stop''),
       (''reason_code'', JStr ''done''), (''description'', JStr ''done'')]])])]"

lemma sample_decoded: "\<exists>s. decodeReviewStatusV3 (\<lambda>_. None) (sample_status (status_schema ''v8'')) = Inr s"
proof -
  have "case decodeReviewStatusV3 (\<lambda>_. None) (sample_status (status_schema ''v8'')) of Inl e \<Rightarrow> False | Inr s \<Rightarrow> True" by code_simp
  then show ?thesis by (auto split: sum.splits)
qed

lemma as_rung_sample: "as_rung n (sample_status schema) = sample_status (status_schema (rung_version n))"
  by (simp add: as_rung_def sample_status_def set_member_def)

theorem status_versions_additive_witness:
  "\<exists>s. decodeReviewStatusV3 (\<lambda>_. None) (as_rung 8 (sample_status [])) = Inr s \<and>
     decodeReviewStatusV3 (\<lambda>_. None) (as_rung 9 (sample_status [])) = Inr (s\<lparr>status_raw := as_rung 9 (sample_status [])\<rparr>)"
proof -
  obtain s where s: "decodeReviewStatusV3 (\<lambda>_. None) (as_rung 8 (sample_status [])) = Inr s"
    using sample_decoded by (auto simp: as_rung_sample rung_version_def)
  show ?thesis using s status_versions_additive[OF s, of 9] by simp
qed

theorem decoded_status_is_coherent_witness:
  "\<exists>s. decodeReviewStatusV3 (\<lambda>_. None) (sample_status (status_schema ''v8'')) = Inr s \<and> coherent_status s"
  using sample_decoded decoded_status_is_coherent by blast

definition sample_arguments :: json where
  "sample_arguments = JArr [argument_json ''lineage'' ''lineage-1'', argument_json ''contract'' REVIEW_INTEGRATION_CONTRACT,
     argument_json ''next-transition'' ''true'', argument_json ''agent'' ''pi'', argument_json ''projection'' ''workspace'']"

definition sample_start :: json where
  "sample_start = JObj [(''schema'', JStr ''gentle-ai.review-integration.start/v4''), (''contract'', JStr REVIEW_INTEGRATION_CONTRACT),
     (''operation'', JStr ''review.start''), (''action'', JStr ''created''), (''lenses_required'', JBool False), (''lineage_id'', JStr ''lineage-1''),
     (''state'', JStr ''reviewing''), (''risk_level'', JStr ''low''), (''selected_lenses'', JArr []), (''projection'', JStr ''workspace''),
     (''changed_files'', JInt 1), (''changed_lines'', JInt 3), (''correction_budget'', JInt 2),
     (''risk_reasons'', JArr [JObj [(''code'', JStr ''executable_change'')]]), (''artifact_subjects'', JArr []),
     (''repository_context'', JObj [(''capability'', JStr ''review.opaque_repository_context''), (''handle'', JStr (''rctx1_'' @ replicate 64 (CHR ''0''))),
       (''revision'', JStr sample_hash), (''target_identity'', JStr sample_hash)]),
     (''next_transition'', JObj [(''kind'', JStr ''execute''), (''reason_code'', JStr ''status_required''),
       (''execute'', JObj [(''operation'', JStr ''review.status''), (''arguments'', sample_arguments),
         (''selector_arguments'', JArr [argument_json ''projection'' ''workspace'']), (''preconditions'', JArr []),
         (''binding'', JObj [(''target_identity'', JStr sample_hash), (''lineage_id'', JStr ''lineage-1'')])])])]"

theorem start_v4_runs_only_its_status_witness:
  "\<exists>x t e. decodeReviewStartV4 (\<lambda>_. None) sample_start = Inr x \<and> start_next x = Some t \<and> execute t = Some e \<and> execute_operation e = ''review.status'' \<and>
     carries (execute_arguments e) ''lineage'' ''lineage-1''"
proof -
  have "case decodeReviewStartV4 (\<lambda>_. None) sample_start of Inl e \<Rightarrow> False
    | Inr x \<Rightarrow> start_action (frozen_start x) = ''created'' \<and> start_lineage (frozen_start x) = ''lineage-1''" by code_simp
  then obtain x where x: "decodeReviewStartV4 (\<lambda>_. None) sample_start = Inr x" "start_action (frozen_start x) = ''created''"
    "start_lineage (frozen_start x) = ''lineage-1''" by (auto split: sum.splits)
  have "jget ''state'' sample_start = JStr ''reviewing''" by (simp add: sample_start_def jget_def)
  then show ?thesis using x start_v4_runs_only_its_status[OF x(1)] by auto
qed

definition sample_acknowledgement :: json where
  "sample_acknowledgement = JObj [(''operation'', JStr ''review.acknowledge-approved''), (''command'', JStr ''gentle-ai review acknowledge-approved''),
     (''arguments'', JArr [argument_json ''cwd'' ''/repo'', argument_json ''lineage'' ''lineage-1'', argument_json ''target'' sample_hash,
       argument_json ''expected-revision'' sample_hash, argument_json ''token'' ''abc'']),
     (''preconditions'', JArr [argument_json ''state'' ''approved'']),
     (''binding'', JObj [(''lineage_id'', JStr ''lineage-1''), (''revision'', JStr sample_hash), (''target_identity'', JStr sample_hash)])]"

definition sample_closure :: json where
  "sample_closure = JObj [(''schema'', JStr ''gentle-ai.review-last-event-closure/v1''), (''operation'', JStr ''review/capture-result''),
     (''lineage_id'', JStr ''lineage-1''), (''state'', JStr ''approved''), (''store_revision'', JStr sample_hash), (''action'', JStr ''stop''),
     (''acknowledgement'', sample_acknowledgement)]"

lemma closure_decoded:
  "\<exists>c a. decodeReviewLastEventClosureV1 sample_closure = Inr c \<and> closure_state c = ''approved'' \<and> acknowledgement c = Some a"
proof -
  have "case decodeReviewLastEventClosureV1 sample_closure of Inl e \<Rightarrow> False
    | Inr c \<Rightarrow> closure_state c = ''approved'' \<and> \<not>  Option.is_none (acknowledgement c)" by code_simp
  then show ?thesis by (auto simp: Option.is_none_def split: sum.splits option.splits)
qed

theorem acknowledgement_burns_only_its_review_witness:
  "\<exists>c a. decodeReviewLastEventClosureV1 sample_closure = Inr c \<and> acknowledgement c = Some a \<and> burn_lineage a = closure_lineage c"
  using closure_decoded acknowledgement_burns_only_its_review by blast

theorem unreadable_acknowledgement_keeps_approval_witness:
  "\<exists>c. decodeReviewLastEventClosureV1 sample_closure = Inr c \<and> acknowledgement c \<noteq> None \<and>
     decodeReviewLastEventClosureV1 (set_member ''acknowledgement'' JNull sample_closure) =
       Inr (c\<lparr>acknowledgement := None, acknowledgementUndecodable := True\<rparr>)"
proof -
  obtain c a where c: "decodeReviewLastEventClosureV1 sample_closure = Inr c" "closure_state c = ''approved''" "acknowledgement c = Some a"
    using closure_decoded by blast
  obtain e where "decodeReviewApprovedAcknowledgementV1 JNull ''last_event_closure.acknowledgement'' = Inl e"
    by (simp add: decodeReviewApprovedAcknowledgementV1_def exactRecord_def decode_record_def)
  moreover have "has ''acknowledgement'' sample_closure"
    by (simp add: has_def jget_def sample_closure_def sample_acknowledgement_def)
  ultimately show ?thesis using unreadable_acknowledgement_keeps_approval[OF c(1,2)] c by auto
qed

end
