(* ===== verification/ConsentReplay.thy ===== *)
theory ConsentReplay
  imports AnswerDecoder
begin

text \<open>
  The replay of a consent answer (\<open>lib/native-review-cli.ts\<close>): the provider's question carries, for every answer, the
  command line that answers it. The host splits that line itself, checks that it is bound to the candidate, the
  repository and the answer, runs it, and checks what comes back. A backslash only joins a word before white space
  outside quotes, so that Windows paths stay as they are.
\<close>

section \<open>Splitting the invocation\<close>

datatype consent_error =
    ConsentBindingError string
  | ConsentTypeError string
  | ConsentSchemaIncompatible exn
  | ConsentIdentityMismatch string

type_synonym 'a consent_result = "consent_error + 'a "

abbreviation single_quote :: char where "single_quote \<equiv> CHR 0x27"
abbreviation double_quote :: char where "double_quote \<equiv> CHR 0x22"
abbreviation backslash :: char where "backslash \<equiv> CHR 0x5C"

text \<open>The state of the scan: the words so far, the current one, the open quote, a pending escape, whether a word has started.\<close>

fun scan_invocation :: "string list \<Rightarrow> string \<Rightarrow> char option \<Rightarrow> bool \<Rightarrow> bool \<Rightarrow> string \<Rightarrow> string list consent_result" where
  "scan_invocation ws cur q esc st [] =
     (if q \<noteq> None \<or> esc then Inl (ConsentTypeError ''Native consent invocation has invalid quoting'')
      else Inr (if st then ws @ [cur] else ws))"
| "scan_invocation ws cur q esc st (c # cs) =
     (if esc then scan_invocation ws (cur @ [c]) q False True cs
      else if c = backslash \<and> q = None \<and> cs \<noteq> [] \<and> js_space (hd cs) then scan_invocation ws cur q True True cs
      else if q \<noteq> None then
        (if q = Some c then scan_invocation ws cur None False True cs else scan_invocation ws (cur @ [c]) q False True cs)
      else if c = single_quote \<or> c = double_quote then scan_invocation ws cur (Some c) False True cs
      else if js_space c then
        (if st then scan_invocation (ws @ [cur]) [] None False False cs else scan_invocation ws cur None False st cs)
      else scan_invocation ws (cur @ [c]) None False True cs)"

definition splitNativeConsentInvocation :: "string \<Rightarrow> string list consent_result" where
  "splitNativeConsentInvocation invocation = scan_invocation [] [] None False False (trim invocation)"

section \<open>Options\<close>

definition option_error :: "string \<Rightarrow> consent_error" where
  "option_error name = ConsentBindingError ''consent-invocation-option-invalid''"

text \<open>The values an option has: the word after its name, or what follows \<open>name=\<close>; a missing value is thrown at once.\<close>

fun option_values :: "(string \<Rightarrow> bool) \<Rightarrow> string \<Rightarrow> string list \<Rightarrow> string list consent_result" where
  "option_values bad name [] = Inr []"
| "option_values bad name [t] =
     (if t = name then Inl (option_error name)
      else Inr (if starts_with (name @ ''='') t then [drop (length name + 1) t] else []))"
| "option_values bad name (t # v # ts) =
     (if t = name then
        (if bad v then Inl (option_error name) else bindr (option_values bad name ts) (\<lambda>vs. Inr (v # vs)))
      else bindr (option_values bad name (v # ts)) (\<lambda>vs.
        Inr (if starts_with (name @ ''='') t then drop (length name + 1) t # vs else vs)))"

definition exactConsentOption :: "string list \<Rightarrow> string \<Rightarrow> string consent_result" where
  "exactConsentOption args name = bindr (option_values (\<lambda>_. False) name args) (\<lambda>vs.
     (case vs of [v] \<Rightarrow> Inr v | _ \<Rightarrow> Inl (option_error name)))"

definition optionalConsentLineageOption :: "string list \<Rightarrow> string option consent_result" where
  "optionalConsentLineageOption args = bindr (option_values (starts_with ''--'') ''--lineage'' args) (\<lambda>vs.
     (case vs of [] \<Rightarrow> Inr None
      | [v] \<Rightarrow> if LINEAGE_ID v then Inr (Some v) else Inl (option_error ''--lineage'')
      | _ \<Rightarrow> Inl (option_error ''--lineage'')))"

section \<open>The binding of an answer\<close>

record consent_answer_request =
  answer_cwd :: string
  answer_consent :: review_consent
  the_answer :: string

definition consent_choices :: "review_consent \<Rightarrow> consent_choice list" where
  "consent_choices c = [choice_granted c, choice_declined c]"

definition validatePiConsentChoiceAgentBindings :: "review_consent \<Rightarrow> unit consent_result" where
  "validatePiConsentChoiceAgentBindings c =
     (if consent_agent c \<noteq> Some ''pi'' then Inr ()
      else for_each (\<lambda>x. bindr (splitNativeConsentInvocation (choice_invocation x)) (\<lambda>ws.
        bindr (exactConsentOption (tl ws) ''--agent'') (\<lambda>a.
        require (a = ''pi'') (ConsentBindingError ''consent-invocation-agent-changed'')))) (consent_choices c))"

text \<open>
  \<open>normalizeNativeReviewCwd\<close>: on Windows a Git Bash path becomes a drive path and Node's \<open>win32.normalize\<close> (an argument)
  cleans it; elsewhere the path is left alone.
\<close>

definition isWindowsRepositoryPath :: "string \<Rightarrow> bool" where
  "isWindowsRepositoryPath s \<longleftrightarrow>
     (3 \<le> length s \<and> is_alpha (s ! 0) \<and> s ! 1 = CHR 0x3A \<and> (s ! 2 = backslash \<or> s ! 2 = CHR ''/''))
     \<or> starts_with [backslash, backslash] s"

definition upper :: "char \<Rightarrow> char" where
  "upper c = (if CHR ''a'' \<le> c \<and> c \<le> CHR ''z'' then char_of (of_char c - 32 :: nat) else c)"

text \<open>\<open>/^\/([A-Za-z])(?:\/(.*))?$/\<close>: the rest of the path is one line.\<close>

definition gitBashDrive :: "string \<Rightarrow> (char \<times> string) option" where
  "gitBashDrive s = (case s of
       a # d # rest \<Rightarrow> if a = CHR ''/'' \<and> is_alpha d then
           (case rest of [] \<Rightarrow> Some (d, []) | b # r \<Rightarrow> if b = CHR ''/'' \<and> list_all (\<lambda>c. \<not>  line_end c) r then Some (d, r) else None)
         else None
     | _ \<Rightarrow> None)"

definition normalizeNativeReviewCwd :: "bool \<Rightarrow> (string \<Rightarrow> string) \<Rightarrow> string \<Rightarrow> string" where
  "normalizeNativeReviewCwd win32 win32_normalize s =
     (if \<not>  win32 then s
      else let p = (case gitBashDrive s of None \<Rightarrow> s | Some (d, r) \<Rightarrow> upper d # '':/'' @ r) in
        if \<not>  isWindowsRepositoryPath p then p
        else let n = win32_normalize p in
          (case n of d # c # r \<Rightarrow> if c = CHR 0x3A then upper d # c # r else n | _ \<Rightarrow> n))"

record consent_invocation_arguments =
  replay_arguments :: "string list"
  replay_lineage :: "string option"

definition bound_option :: "string list \<Rightarrow> string \<Rightarrow> string \<Rightarrow> string \<Rightarrow> unit consent_result" where
  "bound_option args name v reason = bindr (exactConsentOption args name) (\<lambda>w. require (w = v) (ConsentBindingError reason))"

definition consentInvocationArguments :: "(string \<Rightarrow> string) \<Rightarrow> consent_answer_request \<Rightarrow> consent_invocation_arguments consent_result" where
  "consentInvocationArguments host_cwd r = (let c = answer_consent r in
     bindr (validatePiConsentChoiceAgentBindings c) (\<lambda>_.
     bindr ((case find (\<lambda>x. choice_answer x = the_answer r) (consent_choices c) of
       None \<Rightarrow> Inl (ConsentBindingError ''consent-answer-unknown'') | Some x \<Rightarrow> Inr x)) (\<lambda>choice.
     bindr (splitNativeConsentInvocation (choice_invocation choice)) (\<lambda>ws.
     bindr (require (take 3 ws = [''gentle-ai'', ''review'', ''start'']) (ConsentBindingError ''consent-invocation-not-start'')) (\<lambda>_.
     (let args = tl ws in
     bindr (bound_option args ''--contract'' REVIEW_INTEGRATION_CONTRACT ''consent-invocation-contract-changed'') (\<lambda>_.
     bindr (exactConsentOption args ''--cwd'') (\<lambda>providerCwd.
     bindr (require (host_cwd providerCwd = host_cwd (answer_cwd r)) (ConsentBindingError ''consent-invocation-cwd-changed'')) (\<lambda>_.
     bindr (bound_option args ''--target'' (consent_target c) ''consent-invocation-target-changed'') (\<lambda>_.
     bindr (bound_option args ''--projection'' (consent_projection c) ''consent-invocation-projection-changed'') (\<lambda>_.
     bindr (optionalConsentLineageOption args) (\<lambda>lineage.
     bindr (exactConsentOption args ''--consent'') (\<lambda>consent.
     bindr (require (consent = the_answer r \<and> last args = the_answer r) (ConsentBindingError ''consent-invocation-answer-changed'')) (\<lambda>_.
     Inr \<lparr>replay_arguments = args, replay_lineage = lineage\<rparr>))))))))))))))"

section \<open>The answer of the provider\<close>

definition js_record :: "json \<Rightarrow> bool" where
  "js_record v = (case v of JObj _ \<Rightarrow> True | _ \<Rightarrow> False)"

record declined_result =
  declined_target :: string
  declined_projection :: string
  declined_risk :: string
  declined_files :: int
  declined_lines :: int
  declined_raw :: json

definition js_count :: "json \<Rightarrow> int option" where
  "js_count v = (case v of JInt n \<Rightarrow> if safe_integer n \<and> 0 \<le> n then Some n else None | _ \<Rightarrow> None)"

definition decodeDeclinedConsentStart :: "json \<Rightarrow> consent_answer_request \<Rightarrow> declined_result result" where
  "decodeDeclinedConsentStart b r = (let c = answer_consent r in
     bindr (require (js_record b) (TypeError ''Native declined consent result must be an object'')) (\<lambda>_.
     bindr (require (jget ''operation'' b = JStr ''review/start'' \<and> jget ''action'' b = JStr ''declined'' \<and>
       jget ''consent'' b = JStr ''declined_this_candidate'') (TypeError ''Native declined consent result has an invalid identity'')) (\<lambda>_.
     bindr (require (jget ''target_identity'' b = JStr (consent_target c) \<and> jget ''projection'' b = JStr (consent_projection c) \<and>
       jget ''risk_level'' b = JStr (consent_risk c)) (TypeError ''Native declined consent result target binding changed'')) (\<lambda>_.
     bindr (require (jget ''lenses_required'' b = JBool False \<and> jget ''selected_lenses'' b = JArr [] \<and> jget ''lens_bindings'' b = JArr [])
       (TypeError ''Native declined consent result must create no review authority'')) (\<lambda>_.
     bindr ((case (js_count (jget ''changed_files'' b), js_count (jget ''changed_lines'' b)) of (Some f, Some l) \<Rightarrow> Inr (f, l)
       | _ \<Rightarrow> Inl (TypeError ''Native declined consent result has invalid change counts''))) (\<lambda>counts.
     bindr (require (jget ''lineage_id'' b = JStr '''' \<and> jget ''state'' b = JStr '''' \<and> jget ''correction_budget'' b = JInt 0)
       (TypeError ''Native declined consent result cannot carry review authority'')) (\<lambda>_.
     Inr \<lparr>declined_target = consent_target c, declined_projection = consent_projection c, declined_risk = consent_risk c,
       declined_files = fst counts, declined_lines = snd counts, declined_raw = b\<rparr>)))))))"

definition decodeReviewStartResponse :: "(string \<Rightarrow> json option) \<Rightarrow> json \<Rightarrow> review_start result" where
  "decodeReviewStartResponse parse v =
     bindr (require (js_record v) (Error ''expected object'')) (\<lambda>_.
     if jget ''schema'' v = JStr ''gentle-ai.review-integration.start/v4''
     then bindr (decodeReviewStartV4 parse v) (\<lambda>s. Inr (frozen_start s))
     else decodeReviewStartV3 v False)"

datatype consent_answered = Declined declined_result | Started review_start

definition schema_checked :: "'a result \<Rightarrow> 'a consent_result" where
  "schema_checked m = (case m of Inl e \<Rightarrow> Inl (ConsentSchemaIncompatible e) | Inr x \<Rightarrow> Inr x)"

text \<open>
  \<open>answerConsent\<close>: \<open>negotiated\<close> runs the provider on an argument vector in a directory; \<open>parse\<close> is the JSON parser the start
  decoder uses for nested texts.
\<close>

definition answerConsent :: "(string \<Rightarrow> string) \<Rightarrow> (string \<Rightarrow> json option) \<Rightarrow> (string \<Rightarrow> string list \<Rightarrow> json consent_result)
    \<Rightarrow> consent_answer_request \<Rightarrow> consent_answered consent_result" where
  "answerConsent host_cwd parse negotiated r =
     bindr (consentInvocationArguments host_cwd r) (\<lambda>iv.
     bindr (negotiated (answer_cwd r) (replay_arguments iv)) (\<lambda>body.
     (if the_answer r = ''declined'' then bindr (schema_checked (decodeDeclinedConsentStart body r)) (\<lambda>d. Inr (Declined d))
       else bindr (schema_checked (decodeReviewStartResponse parse body)) (\<lambda>s.
       if (case start_target s of Some t \<Rightarrow> Some t | None \<Rightarrow> map_option context_target (repositoryContext s)) \<noteq> Some (consent_target (answer_consent r))
       then Inl (ConsentIdentityMismatch ''native consent answer target mismatch'')
       else if replay_lineage iv \<noteq> None \<and> Some (start_lineage s) \<noteq> replay_lineage iv
       then Inl (ConsentIdentityMismatch ''native consent answer lineage mismatch'')
       else Inr (Started s)))))"

section \<open>Quoting is undone by splitting\<close>

text \<open>
  How a command line can spell its words. A word is a sequence of pieces: bare text without quotes and white space,
  text in single or in double quotes without that quote, and white space escaped by a backslash. Between quotes
  and in bare text a backslash is itself. A word ends neither in white space nor in a bare backslash, and one space
  stands between two words.
\<close>

datatype piece = Bare string | SingleQuoted string | DoubleQuoted string | EscapedSpace char

fun piece_text :: "piece \<Rightarrow> string" where
  "piece_text (Bare s) = s"
| "piece_text (SingleQuoted s) = single_quote # s @ [single_quote]"
| "piece_text (DoubleQuoted s) = double_quote # s @ [double_quote]"
| "piece_text (EscapedSpace c) = [backslash, c]"

fun piece_value :: "piece \<Rightarrow> string" where
  "piece_value (Bare s) = s"
| "piece_value (SingleQuoted s) = s"
| "piece_value (DoubleQuoted s) = s"
| "piece_value (EscapedSpace c) = [c]"

fun piece_ok :: "piece \<Rightarrow> bool" where
  "piece_ok (Bare s) = (s \<noteq> [] \<and> list_all (\<lambda>c. c \<noteq> single_quote \<and> c \<noteq> double_quote \<and> \<not> js_space c) s)"
| "piece_ok (SingleQuoted s) = (single_quote \<notin> set s)"
| "piece_ok (DoubleQuoted s) = (double_quote \<notin> set s)"
| "piece_ok (EscapedSpace c) = js_space c"

definition spelled :: "piece list \<Rightarrow> string" where
  "spelled ps = concat (map piece_text ps)"

definition spelling_ok :: "piece list \<Rightarrow> bool" where
  "spelling_ok ps \<longleftrightarrow> ps \<noteq> [] \<and> list_all piece_ok ps \<and> last (spelled ps) \<noteq> backslash \<and> \<not> js_space (last (spelled ps))"

definition word_of :: "piece list \<Rightarrow> string" where
  "word_of ps = concat (map piece_value ps)"

definition spells :: "string \<Rightarrow> string list \<Rightarrow> bool" where
  "spells line ws \<longleftrightarrow> (\<exists>pss. list_all spelling_ok pss \<and> line = join '' '' (map spelled pss) \<and> map word_of pss = ws)"

lemma js_space_quotes [simp]:
  "\<not>  js_space single_quote" "\<not>  js_space double_quote" "\<not>  js_space backslash" "js_space CHR 0x20"
  by (simp_all add: js_space_def)

lemma scan_bare:
  assumes "s \<noteq> []" and "list_all (\<lambda>c. c \<noteq> single_quote \<and> c \<noteq> double_quote \<and> \<not> js_space c) s"
    and "last s = backslash \<Longrightarrow> cs = [] \<or> \<not> js_space (hd cs)"
  shows "scan_invocation ws cur None False st (s @ cs) = scan_invocation ws (cur @ s) None False True cs"
  using assms
proof (induction s arbitrary: cur st)
  case (Cons c s)
  show ?case
  proof (cases s)
    case Nil
    then show ?thesis using Cons.prems by auto
  next
    case (Cons d t)
    then show ?thesis using Cons.IH[of "cur @ [c]" True] Cons.prems by auto
  qed
qed simp

lemma scan_in_quotes:
  "q \<notin> set s \<Longrightarrow> scan_invocation ws cur (Some q) False st (s @ q # cs) = scan_invocation ws (cur @ s) None False True cs"
proof (induction s arbitrary: cur st)
  case (Cons c s)
  then show ?case using Cons.IH[of "cur @ [c]" True] by auto
qed simp

lemma scan_piece:
  assumes "piece_ok p" and "last (piece_text p) = backslash \<Longrightarrow> cs = [] \<or> \<not> js_space (hd cs)"
  shows "scan_invocation ws cur None False st (piece_text p @ cs) = scan_invocation ws (cur @ piece_value p) None False True cs"
  using assms by (cases p) (simp_all add: scan_bare scan_in_quotes)

lemma piece_text_hd: "piece_ok p \<Longrightarrow> piece_text p \<noteq> [] \<and> \<not> js_space (hd (piece_text p))"
  by (cases p) (auto simp: list_all_iff)

lemma spelled_hd: "list_all piece_ok ps \<Longrightarrow> ps \<noteq> [] \<Longrightarrow> spelled ps \<noteq> [] \<and> \<not> js_space (hd (spelled ps))"
  using piece_text_hd by (cases ps) (auto simp: spelled_def)

lemma scan_pieces:
  assumes "list_all piece_ok ps" and "ps \<noteq> []" and "last (spelled ps) = backslash \<Longrightarrow> cs = [] \<or> \<not> js_space (hd cs)"
  shows "scan_invocation ws cur None False st (spelled ps @ cs) = scan_invocation ws (cur @ word_of ps) None False True cs"
  using assms
proof (induction ps arbitrary: cur st)
  case (Cons p ps)
  show ?case
  proof (cases "ps = []")
    case True
    then show ?thesis using Cons.prems scan_piece[of p cs] by (simp add: spelled_def word_of_def)
  next
    case False
    have s: "spelled (p # ps) = piece_text p @ spelled ps" "word_of (p # ps) = piece_value p @ word_of ps"
      by (simp_all add: spelled_def word_of_def)
    have h: "spelled ps \<noteq> [] \<and> \<not> js_space (hd (spelled ps))"
      using Cons.prems(1) False spelled_hd by simp
    then have "scan_invocation ws cur None False st (piece_text p @ spelled ps @ cs) =
        scan_invocation ws (cur @ piece_value p) None False True (spelled ps @ cs)"
      using Cons.prems(1) by (intro scan_piece) simp_all
    also have "\<dots> = scan_invocation ws ((cur @ piece_value p) @ word_of ps) None False True cs"
      using Cons.prems h by (intro Cons.IH False) (simp_all add: s)
    finally show ?thesis by (simp add: s)
  qed
qed simp

lemma scan_word:
  "spelling_ok ps \<Longrightarrow> scan_invocation ws [] None False False (spelled ps @ cs) = scan_invocation ws (word_of ps) None False True cs"
  using scan_pieces[of ps cs ws "[]" False] by (simp add: spelling_ok_def)

lemma scan_spelled:
  "list_all spelling_ok pss \<Longrightarrow>
    scan_invocation ws [] None False False (join '' '' (map spelled pss)) = Inr (ws @ map word_of pss)"
proof (induction pss arbitrary: ws)
  case (Cons ps pss)
  show ?case
  proof (cases pss)
    case Nil
    then show ?thesis using Cons.prems scan_word[of ps ws "[]"] by simp
  next
    case (Cons qs qss)
    have "join '' '' (map spelled (ps # pss)) = spelled ps @ CHR 0x20 # join '' '' (map spelled pss)"
      by (simp add: Cons)
    then show ?thesis using Cons.IH[of "ws @ [word_of ps]"] Cons.prems by (simp add: scan_word)
  qed
qed simp

lemma spelling_ends:
  "spelling_ok ps \<Longrightarrow> spelled ps \<noteq> [] \<and> \<not>  js_space (hd (spelled ps)) \<and> \<not>  js_space (last (spelled ps))"
  using spelled_hd by (simp add: spelling_ok_def)

lemma dropWhile_tight: "s \<noteq> [] \<Longrightarrow> \<not>  P (hd s) \<Longrightarrow> dropWhile P s = s"
  by (cases s) simp_all

lemma trim_tight: "s \<noteq> [] \<Longrightarrow> \<not>  js_space (hd s) \<Longrightarrow> \<not>  js_space (last s) \<Longrightarrow> trim s = s"
  by (simp add: trim_def trim_end_def dropWhile_tight hd_rev)

lemma join_ends:
  assumes "\<forall>w \<in> set ws. w \<noteq> [] \<and> \<not>  js_space (hd w) \<and> \<not>  js_space (last w)" and "ws \<noteq> []"
  shows "join sep ws \<noteq> [] \<and> \<not>  js_space (hd (join sep ws)) \<and> \<not>  js_space (last (join sep ws))"
  using assms by (induction sep ws rule: join.induct) auto

lemma trim_spelled: "list_all spelling_ok pss \<Longrightarrow> trim (join '' '' (map spelled pss)) = join '' '' (map spelled pss)"
  using join_ends[of "map spelled pss" "'' ''"] spelling_ends
  by (cases "pss = []") (auto simp: list_all_iff intro: trim_tight)

lemma split_spelled: "spells line ws \<Longrightarrow> splitNativeConsentInvocation line = Inr ws"
  using scan_spelled[where ws = "[]"] by (auto simp: spells_def splitNativeConsentInvocation_def trim_spelled)

text \<open>The spelling a shell user would choose: a word with white space in single quotes, any other one bare.\<close>

definition usual_word :: "string \<Rightarrow> piece list" where
  "usual_word w = (if w = [] \<or> list_ex js_space w then [SingleQuoted w] else [Bare w])"

definition usual_line :: "string list \<Rightarrow> string" where
  "usual_line ws = join '' '' (map (\<lambda>w. spelled (usual_word w)) ws)"

lemma usual_spells:
  assumes "list_all (\<lambda>w. single_quote \<notin> set w \<and> double_quote \<notin> set w \<and> (w = [] \<or> last w \<noteq> backslash)) ws"
  shows "spells (usual_line ws) ws"
proof -
  have "spelling_ok (usual_word w) \<and> word_of (usual_word w) = w" if "w \<in> set ws" for w
    using assms that by (auto simp: usual_word_def spelling_ok_def word_of_def spelled_def list_all_iff list_ex_iff)
  then show ?thesis
    unfolding spells_def usual_line_def
    by (intro exI[of _ "map usual_word ws"]) (simp add: list_all_iff comp_def map_idI)
qed

section \<open>What the option readers find\<close>

lemma option_values_skip:
  "t \<noteq> name \<Longrightarrow> \<not>  starts_with (name @ ''='') t \<Longrightarrow> option_values bad name (t # ts) = option_values bad name ts"
  by (cases ts; cases "option_values bad name ts") simp_all

definition option_name :: "string \<Rightarrow> bool" where
  "option_name n \<longleftrightarrow> starts_with ''--'' n \<and> CHR 0x3D \<notin> set n"

definition option_pairs :: "(string \<times> string) list \<Rightarrow> bool" where
  "option_pairs ps \<longleftrightarrow> (\<forall>(n, v) \<in> set ps. option_name n \<and> \<not>  starts_with ''--'' v)"

definition pair_words :: "(string \<times> string) list \<Rightarrow> string list" where
  "pair_words ps = concat (map (\<lambda>(n, v). [n, v]) ps)"

definition values_of :: "string \<Rightarrow> (string \<times> string) list \<Rightarrow> string list" where
  "values_of name ps = map snd (filter (\<lambda>p. fst p = name) ps)"

lemma starts_with_trans: "starts_with p s \<Longrightarrow> starts_with q p \<Longrightarrow> starts_with q s"
  by (metis append.assoc starts_with_iff)

lemma not_prefix_by_equals: "CHR 0x3D \<notin> set t \<Longrightarrow> \<not>  starts_with (name @ ''='') t"
  by (auto simp: starts_with_iff)

lemma option_values_pairs:
  assumes "option_pairs ps" and "option_name name" and "\<And>v. bad v \<Longrightarrow> starts_with ''--'' v"
  shows "option_values bad name (pair_words ps) = Inr (values_of name ps)"
  using assms(1)
proof (induction ps)
  case (Cons p ps)
  obtain n v where p: "p = (n, v)" by (cases p)
  have n: "option_name n" and v: "\<not>  starts_with ''--'' v" and ps: "option_pairs ps"
    using Cons.prems by (auto simp: option_pairs_def p)
  have "v \<noteq> name" and "\<not>  starts_with (name @ ''='') v" and "\<not>  bad v"
    using v assms(2) assms(3)[of v] starts_with_trans[of "name @ ''=''" v "''--''"]
    by (auto simp: option_name_def starts_with_iff)
  moreover have "\<not>  starts_with (name @ ''='') n"
    using n by (simp add: option_name_def not_prefix_by_equals)
  ultimately show ?case using Cons.IH[OF ps] option_values_skip[of n name bad "v # pair_words ps"]
      option_values_skip[of v name bad "pair_words ps"]
    by (cases "n = name") (simp_all add: p pair_words_def values_of_def)
qed (simp add: pair_words_def values_of_def)

section \<open>What is replayed\<close>

lemma exactConsentOption_ok: "exactConsentOption args name = Inr v \<longleftrightarrow> option_values (\<lambda>_. False) name args = Inr [v]"
  by (cases "option_values (\<lambda>_. False) name args") (auto simp: exactConsentOption_def split: list.splits)

lemma bound_option_ok: "bound_option args name v reason = Inr u \<longleftrightarrow> option_values (\<lambda>_. False) name args = Inr [v]"
  by (auto simp: bound_option_def result_simps exactConsentOption_ok)

definition start_words :: "string list" where
  "start_words = [''gentle-ai'', ''review'', ''start'']"

lemma bindr_Inr_right [simp]: "bindr m Inr = m"
  by (cases m) simp_all

lemma start_words_values:
  assumes "option_pairs ps" and "option_name name" and "\<And>v. bad v \<Longrightarrow> starts_with ''--'' v"
  shows "option_values bad name (tl (start_words @ pair_words ps)) = Inr (values_of name ps)"
proof -
  have n: "''review'' \<noteq> name \<and> ''start'' \<noteq> name"
    using assms(2) by (auto simp: option_name_def)
  have "\<not>  starts_with (name @ ''='') ''review''" "\<not>  starts_with (name @ ''='') ''start''"
    by (auto intro!: not_prefix_by_equals)
  then show ?thesis using n option_values_pairs[OF assms]
    by (simp add: start_words_def option_values_skip)
qed

definition OPTION_NAMES :: "string list" where
  "OPTION_NAMES = [''--contract'', ''--cwd'', ''--target'', ''--projection'', ''--consent'', ''--agent'', ''--lineage'']"

lemma OPTION_NAMES_ok: "n \<in> set OPTION_NAMES \<Longrightarrow> option_name n"
  by (auto simp: OPTION_NAMES_def option_name_def)

lemma exact_on_pairs:
  assumes "option_pairs ps" and "n \<in> set OPTION_NAMES"
  shows "exactConsentOption (tl (start_words @ pair_words ps)) n = Inr v \<longleftrightarrow> values_of n ps = [v]"
  using start_words_values[OF assms(1) OPTION_NAMES_ok[OF assms(2)], of "\<lambda>_. False"] by (simp add: exactConsentOption_ok)

lemma lineage_on_pairs:
  assumes "option_pairs ps"
  shows "optionalConsentLineageOption (tl (start_words @ pair_words ps)) = Inr l \<longleftrightarrow>
    list_all LINEAGE_ID (values_of ''--lineage'' ps) \<and> values_of ''--lineage'' ps = (case l of None \<Rightarrow> [] | Some x \<Rightarrow> [x])"
proof -
  have "option_values (starts_with ''--'') ''--lineage'' (tl (start_words @ pair_words ps)) = Inr (values_of ''--lineage'' ps)"
    by (rule start_words_values[OF assms]) (auto simp: OPTION_NAMES_ok OPTION_NAMES_def)
  then show ?thesis by (auto simp: optionalConsentLineageOption_def split: list.splits option.splits if_splits)
qed

lemma last_pair_words: "ps \<noteq> [] \<Longrightarrow> last (pair_words ps) = snd (last ps)"
  by (cases ps rule: rev_cases) (auto simp: pair_words_def split: prod.splits)

lemma pair_words_Nil [simp]: "pair_words ps = [] \<longleftrightarrow> ps = []"
  by (cases ps) (auto simp: pair_words_def)

lemma values_of_Nil [simp]: "values_of n [] = []"
  by (simp add: values_of_def)

definition replay_bound :: "(string \<Rightarrow> string) \<Rightarrow> consent_answer_request \<Rightarrow> (string \<times> string) list \<Rightarrow> bool" where
  "replay_bound host_cwd r ps \<longleftrightarrow>
     values_of ''--contract'' ps = [REVIEW_INTEGRATION_CONTRACT]
     \<and> (\<exists>w. values_of ''--cwd'' ps = [w] \<and> host_cwd w = host_cwd (answer_cwd r))
     \<and> values_of ''--target'' ps = [consent_target (answer_consent r)]
     \<and> values_of ''--projection'' ps = [consent_projection (answer_consent r)]
     \<and> list_all LINEAGE_ID (values_of ''--lineage'' ps) \<and> length (values_of ''--lineage'' ps) \<le> 1
     \<and> values_of ''--consent'' ps = [the_answer r] \<and> snd (last ps) = the_answer r"

definition written_as :: "review_consent \<Rightarrow> (string \<times> string) list \<Rightarrow> (string \<times> string) list \<Rightarrow> bool" where
  "written_as c gs ds \<longleftrightarrow> option_pairs gs \<and> option_pairs ds
     \<and> choice_answer (choice_granted c) = ''granted'' \<and> spells (choice_invocation (choice_granted c)) (start_words @ pair_words gs)
     \<and> choice_answer (choice_declined c) = ''declined'' \<and> spells (choice_invocation (choice_declined c)) (start_words @ pair_words ds)"

lemma agents_on_pairs:
  assumes "written_as c gs ds"
  shows "validatePiConsentChoiceAgentBindings c = Inr () \<longleftrightarrow>
    (consent_agent c = Some ''pi'' \<longrightarrow> values_of ''--agent'' gs = [''pi''] \<and> values_of ''--agent'' ds = [''pi''])"
proof -
  have "''--agent'' \<in> set OPTION_NAMES" by (simp add: OPTION_NAMES_def)
  with assms show ?thesis
    by (auto simp: validatePiConsentChoiceAgentBindings_def written_as_def consent_choices_def result_simps exact_on_pairs split_spelled)
qed

lemma answer_choice:
  assumes "written_as c gs ds" and "the_answer r \<in> {''granted'', ''declined''}"
  obtains x where "find (\<lambda>x. choice_answer x = the_answer r) (consent_choices c) = Some x"
    and "spells (choice_invocation x) (start_words @ pair_words (if the_answer r = ''granted'' then gs else ds))"
    and "option_pairs (if the_answer r = ''granted'' then gs else ds)"
  using assms that by (auto simp: written_as_def consent_choices_def)

lemma replay_steps:
  assumes "find (\<lambda>x. choice_answer x = the_answer r) (consent_choices (answer_consent r)) = Some x"
    and "spells (choice_invocation x) (start_words @ pair_words ps)" and "option_pairs ps"
  shows "consentInvocationArguments host_cwd r = Inr iv \<longleftrightarrow>
    validatePiConsentChoiceAgentBindings (answer_consent r) = Inr () \<and> replay_bound host_cwd r ps
      \<and> replay_arguments iv = tl (start_words @ pair_words ps)
      \<and> values_of ''--lineage'' ps = (case replay_lineage iv of None \<Rightarrow> [] | Some l \<Rightarrow> [l])"
proof -
  define args where "args = tl (start_words @ pair_words ps)"
  have t: "take 3 (start_words @ pair_words ps) = [''gentle-ai'', ''review'', ''start'']"
    by (simp add: start_words_def)
  have e: "exactConsentOption args n = Inr v \<longleftrightarrow> values_of n ps = [v]" if "n \<in> set OPTION_NAMES" for n v
    unfolding args_def by (rule exact_on_pairs[OF assms(3) that])
  have es: "exactConsentOption args ''--cwd'' = Inr v \<longleftrightarrow> values_of ''--cwd'' ps = [v]"
      "exactConsentOption args ''--consent'' = Inr v \<longleftrightarrow> values_of ''--consent'' ps = [v]"
      "bound_option args ''--contract'' v m = Inr u \<longleftrightarrow> values_of ''--contract'' ps = [v]"
      "bound_option args ''--target'' v m = Inr u \<longleftrightarrow> values_of ''--target'' ps = [v]"
      "bound_option args ''--projection'' v m = Inr u \<longleftrightarrow> values_of ''--projection'' ps = [v]"
      "optionalConsentLineageOption args = Inr l \<longleftrightarrow> list_all LINEAGE_ID (values_of ''--lineage'' ps)
         \<and> values_of ''--lineage'' ps = (case l of None \<Rightarrow> [] | Some x \<Rightarrow> [x])" for v m u l
    unfolding bound_option_ok exactConsentOption_ok[symmetric]
    by (rule e, simp add: OPTION_NAMES_def)+ (simp only: args_def lineage_on_pairs[OF assms(3)])
  have last: "last args = snd (last ps)" if "values_of ''--consent'' ps = [v]" for v
    using that last_pair_words[of ps] by (cases "ps = []") (simp_all add: start_words_def args_def)
  have i: "Inr \<lparr>replay_arguments = a, replay_lineage = b\<rparr> = (Inr iv :: consent_invocation_arguments consent_result) \<longleftrightarrow>
      replay_arguments iv = a \<and> replay_lineage iv = b" for a b
    by (cases iv) auto
  show ?thesis
    unfolding consentInvocationArguments_def Let_def assms(1) option.case split_spelled[OF assms(2)] bindr_simps t replay_bound_def
      args_def[symmetric] bindr_eq_Inr es require_ok i
  proof (rule iffI, goal_cases)
    case 1
    then show ?case using last by (elim exE conjE) (simp split: option.splits)
  next
    case 2
    then show ?case using last by (elim exE conjE) simp
  qed
qed

text \<open>
  C13: the host replays exactly what was asked. When both answers of a consent question are written as options, name by
  name, with no value that itself looks like an option, and every word is spelled in pieces, bare, in single or double
  quotes or as escaped white space, consentInvocationArguments accepts an answer if and only if its
  options name exactly one contract, target, projection and repository, those of the request, at most one well-formed
  lineage, exactly one consent that is the answer, the last word is the answer, and, for a Pi question, both answers
  name the agent Pi exactly once. What it returns are those words in order, without the program's name, whatever
  characters they hold: quotes and escapes are undone by the host's own splitting, and a backslash between quotes or
  before anything but white space is kept.
\<close>

theorem consent_replay_exact:
  assumes "written_as (answer_consent r) gs ds" and "the_answer r \<in> {''granted'', ''declined''}"
  shows "consentInvocationArguments host_cwd r = Inr iv \<longleftrightarrow>
    (let ps = (if the_answer r = ''granted'' then gs else ds) in
      (consent_agent (answer_consent r) = Some ''pi'' \<longrightarrow> values_of ''--agent'' gs = [''pi''] \<and> values_of ''--agent'' ds = [''pi''])
      \<and> replay_bound host_cwd r ps
      \<and> replay_arguments iv = ''review'' # ''start'' # pair_words ps
      \<and> values_of ''--lineage'' ps = (case replay_lineage iv of None \<Rightarrow> [] | Some l \<Rightarrow> [l]))"
proof -
  obtain x where x: "find (\<lambda>x. choice_answer x = the_answer r) (consent_choices (answer_consent r)) = Some x"
      "spells (choice_invocation x) (start_words @ pair_words (if the_answer r = ''granted'' then gs else ds))"
      "option_pairs (if the_answer r = ''granted'' then gs else ds)"
    using answer_choice[OF assms] .
  show ?thesis
    unfolding replay_steps[OF x] agents_on_pairs[OF assms(1)] Let_def by (simp add: start_words_def)
qed

definition sample_options :: "string \<Rightarrow> (string \<times> string) list" where
  "sample_options answer = [(''--contract'', REVIEW_INTEGRATION_CONTRACT), (''--agent'', ''pi''), (''--cwd'', ''/home/me/a repo''),
     (''--target'', ''sha256:1''), (''--projection'', ''workspace''), (''--consent'', answer)]"

definition sample_choice :: "string \<Rightarrow> consent_choice" where
  "sample_choice answer = \<lparr>choice_answer = answer, choice_label = ''l'', choice_effect = ''e'',
     choice_invocation = usual_line (start_words @ pair_words (sample_options answer))\<rparr>"

definition sample_consent :: review_consent where
  "sample_consent = \<lparr>consent_target = ''sha256:1'', consent_projection = ''workspace'', consent_risk = ''high'', consent_files = 1,
     consent_lines = 2, headline = ''h'', consent_reason = ''r'', consent_value = ''v'', riskEvidence = [],
     choice_granted = sample_choice ''granted'', choice_declined = sample_choice ''declined'', offPath_note = ''n'',
     consent_agent = Some ''pi'', consent_raw = JNull\<rparr>"

definition sample_answer :: "string \<Rightarrow> consent_answer_request" where
  "sample_answer answer = \<lparr>answer_cwd = ''/home/me/a repo'', answer_consent = sample_consent, the_answer = answer\<rparr>"

lemma sample_written: "written_as sample_consent (sample_options ''granted'') (sample_options ''declined'')"
proof -
  have "spells (choice_invocation (sample_choice answer)) (start_words @ pair_words (sample_options answer))"
    if "answer \<in> {''granted'', ''declined''}" for answer
    using that unfolding sample_choice_def consent_choice.simps
    by (intro usual_spells) (auto simp: start_words_def pair_words_def sample_options_def REVIEW_INTEGRATION_CONTRACT_def)
  then show ?thesis
    by (simp add: written_as_def sample_consent_def sample_choice_def option_pairs_def sample_options_def option_name_def
        REVIEW_INTEGRATION_CONTRACT_def)
qed

theorem consent_replay_exact_witness:
  "consentInvocationArguments id (sample_answer ''granted'') =
     Inr \<lparr>replay_arguments = ''review'' # ''start'' # pair_words (sample_options ''granted''), replay_lineage = None\<rparr>"
  by (rule consent_replay_exact[THEN iffD2, of _ "sample_options ''granted''" "sample_options ''declined''"])
    (simp_all add: sample_answer_def sample_written replay_bound_def, simp_all add: sample_consent_def sample_options_def values_of_def)

lemma first_choice: "find P xs = Some x \<Longrightarrow> x \<in> set xs \<and> P x"
  by (auto simp: find_Some_iff)

lemma agent_bound:
  assumes "validatePiConsentChoiceAgentBindings c = Inr u" and "consent_agent c = Some ''pi''" and "x \<in> set (consent_choices c)"
    and "splitNativeConsentInvocation (choice_invocation x) = Inr ws"
  shows "option_values (\<lambda>_. False) ''--agent'' (tl ws) = Inr [''pi'']"
  using assms by (auto simp: validatePiConsentChoiceAgentBindings_def result_simps exactConsentOption_ok)

definition replay_checked :: "(string \<Rightarrow> string) \<Rightarrow> consent_answer_request \<Rightarrow> string list \<Rightarrow> bool" where
  "replay_checked host_cwd r args \<longleftrightarrow> take 2 args = [''review'', ''start''] \<and> last args = the_answer r
     \<and> list_all (\<lambda>(n, v). option_values (\<lambda>_. False) n args = Inr [v])
         [(''--contract'', REVIEW_INTEGRATION_CONTRACT), (''--target'', consent_target (answer_consent r)),
          (''--projection'', consent_projection (answer_consent r)), (''--consent'', the_answer r)]
     \<and> (\<exists>w. option_values (\<lambda>_. False) ''--cwd'' args = Inr [w] \<and> host_cwd w = host_cwd (answer_cwd r))
     \<and> (consent_agent (answer_consent r) = Some ''pi'' \<longrightarrow> option_values (\<lambda>_. False) ''--agent'' args = Inr [''pi''])"

lemma replay_is_checked:
  assumes "consentInvocationArguments host_cwd r = Inr iv"
  shows "replay_checked host_cwd r (replay_arguments iv)
    \<and> optionalConsentLineageOption (replay_arguments iv) = Inr (replay_lineage iv)"
proof -
  obtain u x ws where v: "validatePiConsentChoiceAgentBindings (answer_consent r) = Inr u"
    and x: "find (\<lambda>x. choice_answer x = the_answer r) (consent_choices (answer_consent r)) = Some x"
    and ws: "splitNativeConsentInvocation (choice_invocation x) = Inr ws"
    and t: "take 3 ws = [''gentle-ai'', ''review'', ''start'']"
    and a: "replay_arguments iv = tl ws" "optionalConsentLineageOption (tl ws) = Inr (replay_lineage iv)" "last (tl ws) = the_answer r"
    and o: "option_values (\<lambda>_. False) ''--contract'' (tl ws) = Inr [REVIEW_INTEGRATION_CONTRACT]"
      "option_values (\<lambda>_. False) ''--target'' (tl ws) = Inr [consent_target (answer_consent r)]"
      "option_values (\<lambda>_. False) ''--projection'' (tl ws) = Inr [consent_projection (answer_consent r)]"
      "option_values (\<lambda>_. False) ''--consent'' (tl ws) = Inr [the_answer r]"
      "\<exists>w. option_values (\<lambda>_. False) ''--cwd'' (tl ws) = Inr [w] \<and> host_cwd w = host_cwd (answer_cwd r)"
    using assms unfolding consentInvocationArguments_def Let_def bindr_eq_Inr bound_option_ok exactConsentOption_ok require_ok
    by (elim exE conjE) (auto split: option.splits)
  have "take 2 (tl ws) = [''review'', ''start'']"
    using arg_cong[OF t, of tl] by (simp add: tl_take)
  then show ?thesis
    unfolding replay_checked_def a(1) using a(2,3) o agent_bound[OF v _ _ ws] first_choice[OF x] by simp
qed

text \<open>
  C12: an answered consent starts or declines what was asked and nothing else. When answerConsent returns, the provider was
  run in the directory of the request on words that begin with review start, end with the answer and name exactly one
  contract, target, projection, repository and consent, those of the request, and for a Pi question exactly one agent, Pi;
  a decline came back for that target without a lineage or a lens; a start came back for that target and, where the
  words named a lineage, for that lineage.
\<close>

theorem consent_answer_is_bound:
  assumes "answerConsent host_cwd parse negotiated r = Inr a"
  shows "\<exists>args body. replay_checked host_cwd r args \<and> negotiated (answer_cwd r) args = Inr body
    \<and> (case a of
         Declined d \<Rightarrow> the_answer r = ''declined'' \<and> declined_target d = consent_target (answer_consent r)
           \<and> jget ''target_identity'' body = JStr (declined_target d) \<and> jget ''lineage_id'' body = JStr '''' \<and> jget ''selected_lenses'' body = JArr []
       | Started s \<Rightarrow> the_answer r \<noteq> ''declined''
           \<and> (case start_target s of Some t \<Rightarrow> Some t | None \<Rightarrow> map_option context_target (repositoryContext s)) = Some (consent_target (answer_consent r))
           \<and> (\<forall>l. optionalConsentLineageOption args = Inr (Some l) \<longrightarrow> start_lineage s = l))"
proof -
  obtain iv body where iv: "consentInvocationArguments host_cwd r = Inr iv"
    and body: "negotiated (answer_cwd r) (replay_arguments iv) = Inr body"
    and rest: "(if the_answer r = ''declined'' then bindr (schema_checked (decodeDeclinedConsentStart body r)) (\<lambda>d. Inr (Declined d))
      else bindr (schema_checked (decodeReviewStartResponse parse body)) (\<lambda>s.
       if (case start_target s of Some t \<Rightarrow> Some t | None \<Rightarrow> map_option context_target (repositoryContext s)) \<noteq> Some (consent_target (answer_consent r))
       then Inl (ConsentIdentityMismatch ''native consent answer target mismatch'')
       else if replay_lineage iv \<noteq> None \<and> Some (start_lineage s) \<noteq> replay_lineage iv
       then Inl (ConsentIdentityMismatch ''native consent answer lineage mismatch'')
       else Inr (Started s))) = Inr a"
    using assms by (auto simp: answerConsent_def bindr_eq_Inr)
  show ?thesis
  proof (cases "the_answer r = ''declined''")
    case True
    then obtain d where a: "a = Declined d" and d: "decodeDeclinedConsentStart body r = Inr d"
      using rest by (auto simp: bindr_eq_Inr schema_checked_def split: sum.splits)
    have "jget ''target_identity'' body = JStr (declined_target d) \<and> declined_target d = consent_target (answer_consent r)
        \<and> jget ''lineage_id'' body = JStr '''' \<and> jget ''selected_lenses'' body = JArr []"
      using d unfolding decodeDeclinedConsentStart_def Let_def bindr_eq_Inr require_ok by (elim exE conjE) auto
    then show ?thesis using True a body replay_is_checked[OF iv] by auto
  next
    case False
    then obtain s where "a = Started s"
        "(case start_target s of Some t \<Rightarrow> Some t | None \<Rightarrow> map_option context_target (repositoryContext s)) = Some (consent_target (answer_consent r))"
        "replay_lineage iv = None \<or> Some (start_lineage s) = replay_lineage iv"
      using rest by (auto simp: bindr_eq_Inr split: if_splits)
    then show ?thesis using False body replay_is_checked[OF iv]
      by (intro exI[of _ "replay_arguments iv"] exI[of _ body]) auto
  qed
qed

definition sample_declined :: json where
  "sample_declined = JObj [(''operation'', JStr ''review/start''), (''action'', JStr ''declined''), (''consent'', JStr ''declined_this_candidate''),
     (''target_identity'', JStr ''sha256:1''), (''projection'', JStr ''workspace''), (''risk_level'', JStr ''high''), (''lenses_required'', JBool False),
     (''selected_lenses'', JArr []), (''lens_bindings'', JArr []), (''changed_files'', JInt 1), (''changed_lines'', JInt 2),
     (''lineage_id'', JStr ''''), (''state'', JStr ''''), (''correction_budget'', JInt 0)]"

lemma sample_answered:
  "answerConsent id (\<lambda>_. None) (\<lambda>_ _. Inr sample_declined) (sample_answer ''declined'') = Inr (Declined
     \<lparr>declined_target = ''sha256:1'', declined_projection = ''workspace'', declined_risk = ''high'', declined_files = 1,
      declined_lines = 2, declined_raw = sample_declined\<rparr>)"
  by code_simp

theorem consent_answer_is_bound_witness:
  "\<exists>args. replay_checked id (sample_answer ''declined'') args"
  using consent_answer_is_bound[OF sample_answered] by blast

end
