(* ===== verification/ConsentRegistry.thy ===== *)
theory ConsentRegistry
  imports AnswerDecoder "HOL-Library.AList"
begin

text \<open>
  The consents a user has not answered yet (\<open>PendingReviewConsentRegistry\<close> and the operations around it in
  \<open>extensions/gentle-ai.ts\<close>). A start that needs consent leaves a binding with a deadline and a timer; any session may
  answer it, once, from the repository it was opened in. JavaScript's \<open>Map\<close> is an association list in insertion order
  (\<open>AList.update\<close>, \<open>AList.delete\<close>). A pending consent is an object: \<open>pending_ref\<close> is its identity, which is
  what \<open>!==\<close> compares.
\<close>

section \<open>The registry\<close>

datatype session_key = SessionId string | FallbackKey nat

record pending_consent =
  pending_ref :: nat
  pending_id :: string
  repositoryCwd :: string
  authorityCwd :: string
  candidateToken :: string
  pending_question :: review_consent
  consentDigest :: string
  expiresAt :: int

datatype disposition = Expired | Consumed

record consent_registry =
  registry_sessions :: "(session_key \<times> (string \<times> pending_consent) list) list"
  byBinding :: "(string \<times> session_key) list"
  staleDispositions :: "(string \<times> disposition) list"

definition STALE_DISPOSITION_LIMIT :: nat where
  "STALE_DISPOSITION_LIMIT = 32"

definition registry_ensure :: "consent_registry \<Rightarrow> session_key \<Rightarrow> (string \<times> pending_consent) list" where
  "registry_ensure r s = (case map_of (registry_sessions r) s of None \<Rightarrow> [] | Some m \<Rightarrow> m)"

definition registry_add :: "consent_registry \<Rightarrow> session_key \<Rightarrow> pending_consent \<Rightarrow> consent_registry" where
  "registry_add r s p = r\<lparr>
     registry_sessions := AList.update s (AList.update (pending_id p) p (registry_ensure r s)) (registry_sessions r),
     byBinding := AList.update (pending_id p) s (byBinding r)\<rparr>"

definition registry_lookup :: "consent_registry \<Rightarrow> session_key \<Rightarrow> string \<Rightarrow> pending_consent option" where
  "registry_lookup r s b = (case map_of (registry_sessions r) s of None \<Rightarrow> None | Some m \<Rightarrow> map_of m b)"

definition registry_resolve :: "consent_registry \<Rightarrow> string \<Rightarrow> (session_key \<times> pending_consent) option" where
  "registry_resolve r b = (case map_of (byBinding r) b of None \<Rightarrow> None
     | Some s \<Rightarrow> map_option (Pair s) (registry_lookup r s b))"

definition registry_remove :: "consent_registry \<Rightarrow> session_key \<Rightarrow> pending_consent \<Rightarrow> bool \<times> consent_registry" where
  "registry_remove r s p =
     (if map_option pending_ref (registry_lookup r s (pending_id p)) \<noteq> Some (pending_ref p) then (False, r)
      else let m = AList.delete (pending_id p) (registry_ensure r s) in
        (True, r\<lparr>
          registry_sessions := (if m = [] then AList.delete s (registry_sessions r) else AList.update s m (registry_sessions r)),
          byBinding := (if map_of (byBinding r) (pending_id p) = Some s then AList.delete (pending_id p) (byBinding r) else byBinding r)\<rparr>))"

text \<open>The oldest dispositions go first: deleting the first key while there are more than the limit keeps the last ones.\<close>

definition rememberDisposition :: "consent_registry \<Rightarrow> pending_consent \<Rightarrow> disposition \<Rightarrow> consent_registry" where
  "rememberDisposition r p d = (let ds = AList.update (pending_id p) d (AList.delete (pending_id p) (staleDispositions r)) in
     r\<lparr>staleDispositions := drop (length ds - STALE_DISPOSITION_LIMIT) ds\<rparr>)"

definition registry_settle :: "disposition \<Rightarrow> consent_registry \<Rightarrow> session_key \<Rightarrow> pending_consent \<Rightarrow> bool \<times> consent_registry" where
  "registry_settle d r s p = (case registry_remove r s p of (False, r') \<Rightarrow> (False, r') | (True, r') \<Rightarrow> (True, rememberDisposition r' p d))"

abbreviation "registry_consume \<equiv> registry_settle Consumed"
abbreviation "registry_expire \<equiv> registry_settle Expired"

definition registry_discard :: "consent_registry \<Rightarrow> session_key \<Rightarrow> pending_consent \<Rightarrow> consent_registry" where
  "registry_discard r s p = snd (registry_remove r s p)"

definition staleDisposition :: "consent_registry \<Rightarrow> string \<Rightarrow> disposition option" where
  "staleDisposition r b = map_of (staleDispositions r) b"

definition registry_values :: "consent_registry \<Rightarrow> session_key \<Rightarrow> pending_consent list" where
  "registry_values r s = map snd (registry_ensure r s)"

definition registry_take :: "consent_registry \<Rightarrow> session_key \<Rightarrow> pending_consent list \<times> consent_registry" where
  "registry_take r s = (registry_values r s, r\<lparr>
     registry_sessions := AList.delete s (registry_sessions r),
     byBinding := fold (\<lambda>p bs. if map_of bs (pending_id p) = Some s then AList.delete (pending_id p) bs else bs)
       (registry_values r s) (byBinding r)\<rparr>)"

section \<open>The operations around it\<close>

text \<open>
  What the rest of the process sees: the armed timers, the answers that wait for the provider, and a log of what
  reached the provider and which candidate was cleaned up. \<open>opened\<close> is history: every consent with the session
  that opened it.
\<close>

datatype consent_event =
    Asked pending_consent string string int
  | Cleaned pending_consent

record answering =
  answered_consent :: pending_consent
  answered_session :: session_key
  answered_with :: string
  answered_from :: string
  answered_at :: int
  provider_asked :: bool

record consent_world =
  consents :: consent_registry
  armed :: "(pending_consent \<times> session_key) list"
  answers :: "answering list"
  consent_log :: "consent_event list"
  opened :: "(pending_consent \<times> session_key) list"

definition no_consents :: consent_world where
  "no_consents = \<lparr>consents = \<lparr>registry_sessions = [], byBinding = [], staleDispositions = []\<rparr>, armed = [], answers = [],
     consent_log = [], opened = []\<rparr>"

definition clear_timer :: "consent_world \<Rightarrow> pending_consent \<Rightarrow> consent_world" where
  "clear_timer w p = w\<lparr>armed := filter (\<lambda>(q, s). pending_ref q \<noteq> pending_ref p) (armed w)\<rparr>"

text \<open>
  \<open>cleanupCandidate\<close> does nothing the second time: the flag is the binding's own, so two bindings of different sessions
  that hold the same candidate view each clean it once.
\<close>

definition cleanupCandidate :: "consent_world \<Rightarrow> pending_consent \<Rightarrow> consent_world" where
  "cleanupCandidate w p = (if Cleaned p \<in> set (consent_log w) then w else w\<lparr>consent_log := consent_log w @ [Cleaned p]\<rparr>)"

definition consumePendingReviewConsent :: "consent_world \<Rightarrow> session_key \<Rightarrow> pending_consent \<Rightarrow> bool \<times> consent_world" where
  "consumePendingReviewConsent w s p = (case registry_consume (consents w) s p of
       (False, r) \<Rightarrow> (False, w)
     | (True, r) \<Rightarrow> (True, clear_timer (w\<lparr>consents := r\<rparr>) p))"

definition discardPendingReviewConsent :: "session_key \<Rightarrow> pending_consent \<Rightarrow> consent_world \<Rightarrow> consent_world" where
  "discardPendingReviewConsent s p w = (clear_timer w p)\<lparr>consents := registry_discard (consents w) s p\<rparr>"

definition expirePendingReviewConsent :: "session_key \<Rightarrow> pending_consent \<Rightarrow> consent_world \<Rightarrow> consent_world" where
  "expirePendingReviewConsent s p w = (let w1 = clear_timer w p in
     (case registry_expire (consents w) s p of
       (False, r) \<Rightarrow> w1
     | (True, r) \<Rightarrow> cleanupCandidate (w1\<lparr>consents := r\<rparr>) p))"

definition cleanupPendingReviewConsent :: "session_key \<Rightarrow> pending_consent \<Rightarrow> consent_world \<Rightarrow> consent_world" where
  "cleanupPendingReviewConsent s p w = cleanupCandidate (discardPendingReviewConsent s p w) p"

definition cleanupAllPendingReviewConsents :: "session_key \<Rightarrow> consent_world \<Rightarrow> consent_world" where
  "cleanupAllPendingReviewConsents s w = (case registry_take (consents w) s of (ps, r) \<Rightarrow>
     fold (cleanupPendingReviewConsent s) ps (w\<lparr>consents := r\<rparr>))"

text \<open>\<open>now\<close> is the reading of the clock when a binding is looked at.\<close>

definition pruneExpiredReviewConsents :: "session_key \<Rightarrow> (string \<Rightarrow> int) \<Rightarrow> consent_world \<Rightarrow> consent_world" where
  "pruneExpiredReviewConsents s now w =
     fold (\<lambda>p w. if expiresAt p \<le> now (pending_id p) then expirePendingReviewConsent s p w else w) (registry_values (consents w) s) w"

definition PENDING_REVIEW_CONSENT_TTL_MS :: int where
  "PENDING_REVIEW_CONSENT_TTL_MS = 10 * 60 * 1000"

text \<open>
  The provider asked for consent: a binding for the same repository, candidate and question that has not expired is given
  again, otherwise the session's bindings for the candidate are discarded and a new one, with a fresh \<open>uuid\<close>, is opened.
\<close>

record consent_start =
  start_session :: session_key
  start_repository :: string
  start_authority :: string
  start_token :: string
  start_question :: review_consent
  start_uuid :: string
  start_clock :: "string \<Rightarrow> int"
  start_now :: int

definition existing_consent :: "(review_consent \<Rightarrow> string) \<Rightarrow> consent_start \<Rightarrow> consent_world \<Rightarrow> pending_consent option" where
  "existing_consent digest c w = find (\<lambda>p. repositoryCwd p = start_repository c \<and> candidateToken p = start_token c
       \<and> consentDigest p = digest (start_question c) \<and> start_clock c (pending_id p) < expiresAt p)
     (registry_values (consents w) (start_session c))"

definition new_consent :: "(review_consent \<Rightarrow> string) \<Rightarrow> consent_start \<Rightarrow> consent_world \<Rightarrow> pending_consent" where
  "new_consent digest c w = \<lparr>pending_ref = length (opened w), pending_id = start_uuid c, repositoryCwd = start_repository c,
     authorityCwd = start_authority c, candidateToken = start_token c, pending_question = start_question c,
     consentDigest = digest (start_question c), expiresAt = start_now c + PENDING_REVIEW_CONSENT_TTL_MS\<rparr>"

definition open_consent :: "(review_consent \<Rightarrow> string) \<Rightarrow> consent_start \<Rightarrow> consent_world \<Rightarrow> string \<times> consent_world" where
  "open_consent digest c w = (case existing_consent digest c w of
       Some p \<Rightarrow> (pending_id p, w)
     | None \<Rightarrow>
         let s = start_session c; p = new_consent digest c w;
           w1 = fold (\<lambda>q w. if candidateToken q = start_token c then discardPendingReviewConsent s q w else w)
             (registry_values (consents w) s) w
         in (start_uuid c, w1\<lparr>consents := registry_add (consents w1) s p, armed := armed w1 @ [(p, s)], opened := opened w1 @ [(p, s)]\<rparr>))"

record consent_answer =
  answer_binding :: string
  answer_given :: string
  answer_directory :: string
  answer_clock :: int
  answer_verify :: "pending_consent \<Rightarrow> bool"
  answer_capable :: bool

datatype answer_outcome =
    InvalidAnswer
  | StaleBinding "disposition option"
  | RepositoryMismatch
  | EnvelopeChanged
  | CandidateDrift
  | FollowUpUnavailable
  | Proceeds

text \<open>
  The part of answer-consent before its first await: the binding is consumed here or never. The clock is read here;
  \<open>gate_answer\<close>, the part behind the awaited review mode, does not read it again.
\<close>

definition begin_answer :: "(review_consent \<Rightarrow> string) \<Rightarrow> consent_answer \<Rightarrow> consent_world \<Rightarrow> answer_outcome \<times> consent_world" where
  "begin_answer digest a w =
     (if answer_binding a = [] \<or> answer_given a \<notin> {''granted'', ''declined''} then (InvalidAnswer, w)
      else case registry_resolve (consents w) (answer_binding a) of
        None \<Rightarrow> (StaleBinding (staleDisposition (consents w) (answer_binding a)), w)
      | Some (s, p) \<Rightarrow>
          if expiresAt p \<le> answer_clock a then (StaleBinding (Some Expired), expirePendingReviewConsent s p w)
          else if answer_directory a \<noteq> repositoryCwd p then (RepositoryMismatch, w)
          else if digest (pending_question p) \<noteq> consentDigest p then (EnvelopeChanged, w)
          else if \<not>  answer_verify a p then (CandidateDrift, w)
          else if \<not>  answer_capable a then (FollowUpUnavailable, w)
          else (case consumePendingReviewConsent w s p of
              (False, w') \<Rightarrow> (StaleBinding (staleDisposition (consents w) (answer_binding a)), w')
            | (True, w') \<Rightarrow> (Proceeds, w'\<lparr>answers := answers w' @ [\<lparr>answered_consent = p, answered_session = s,
                answered_with = answer_given a, answered_from = answer_directory a, answered_at = answer_clock a,
                provider_asked = False\<rparr>]\<rparr>)))"

text \<open>The review mode has been read: the answer is refused, or the provider is asked.\<close>

definition gate_answer :: "nat \<Rightarrow> bool \<Rightarrow> consent_world \<Rightarrow> consent_world" where
  "gate_answer i gated w =
     (if i < length (answers w) \<and> \<not>  provider_asked (answers w ! i) then
        let x = answers w ! i in
        (if gated then cleanupPendingReviewConsent (answered_session x) (answered_consent x)
             (w\<lparr>answers := take i (answers w) @ drop (Suc i) (answers w)\<rparr>)
         else w\<lparr>answers := (answers w)[i := x\<lparr>provider_asked := True\<rparr>],
           consent_log := consent_log w @ [Asked (answered_consent x) (answered_with x) (answered_from x) (answered_at x)]\<rparr>)
      else w)"

datatype provider_end = ProviderStarted | ProviderDeclined | ProviderFailed bool

text \<open>The provider has answered or failed; \<open>ProviderFailed True\<close> is a failure that proves no mutation happened.\<close>

definition finish_answer :: "nat \<Rightarrow> provider_end \<Rightarrow> consent_world \<Rightarrow> consent_world" where
  "finish_answer i e w =
     (if i < length (answers w) \<and> provider_asked (answers w ! i) then
        let w1 = w\<lparr>answers := take i (answers w) @ drop (Suc i) (answers w)\<rparr> in
        (if e = ProviderDeclined \<or> e = ProviderFailed True then cleanupCandidate w1 (answered_consent (answers w ! i)) else w1)
      else w)"

text \<open>A timer fires while it is armed.\<close>

definition fire_timer :: "nat \<Rightarrow> consent_world \<Rightarrow> consent_world" where
  "fire_timer i w = (if i < length (armed w) then (case armed w ! i of (p, s) \<Rightarrow> expirePendingReviewConsent s p w) else w)"

end
