(* ===== verification/ConsentInvariant.thy ===== *)
theory ConsentInvariant
  imports ConsentRegistry
begin

text \<open>
  What every history of the pending consents keeps: the two indexes of the registry agree, a binding that is gone never
  comes back, its dispositions are bounded, and each binding is live, being answered, or done.
\<close>

section \<open>What the registry holds\<close>

lemma lookup_iff: "registry_lookup r s b = Some p \<longleftrightarrow> (\<exists>m. map_of (registry_sessions r) s = Some m \<and> map_of m b = Some p)"
  by (simp add: registry_lookup_def split: option.splits)

lemma lookup_ensure: "registry_lookup r s b = map_of (registry_ensure r s) b"
  by (simp add: registry_lookup_def registry_ensure_def split: option.splits)

lemma lookup_add:
  "registry_lookup (registry_add r s p) t b = (if t = s \<and> b = pending_id p then Some p else registry_lookup r t b)"
  by (auto simp: registry_lookup_def registry_add_def registry_ensure_def AList.update_conv' split: option.splits)

definition removed_sessions :: "consent_registry \<Rightarrow> session_key \<Rightarrow> string \<Rightarrow> (session_key \<times> (string \<times> pending_consent) list) list" where
  "removed_sessions r s b = (let m = AList.delete b (registry_ensure r s) in
     if m = [] then AList.delete s (registry_sessions r) else AList.update s m (registry_sessions r))"

lemma lookup_removed_sessions:
  "registry_lookup (r\<lparr>registry_sessions := removed_sessions r s b, byBinding := x\<rparr>) t c =
    (if t = s \<and> c = b then None else registry_lookup r t c)"
proof (cases "AList.delete b (registry_ensure r s) = []")
  case True
  then have "map_of (registry_ensure r s) c = None" if "c \<noteq> b" for c
    using that map_of_delete[of c b "registry_ensure r s"] by simp
  then show ?thesis using True
    by (auto simp: removed_sessions_def registry_lookup_def registry_ensure_def AList.delete_conv' split: option.splits)
next
  case False
  then show ?thesis
    by (auto simp: removed_sessions_def registry_lookup_def registry_ensure_def AList.delete_conv' AList.update_conv' split: option.splits)
qed

definition well_keyed :: "consent_registry \<Rightarrow> bool" where
  "well_keyed r \<longleftrightarrow> distinct (map fst (registry_sessions r)) \<and> (\<forall>(s, m) \<in> set (registry_sessions r). distinct (map fst m))"

lemma well_keyed_session: "well_keyed r \<Longrightarrow> distinct (map fst (registry_ensure r s))"
  by (auto simp: well_keyed_def registry_ensure_def split: option.splits dest: map_of_SomeD)

lemma set_update_subset: "set (AList.update k v xs) \<subseteq> insert (k, v) (set xs)"
  by (induction xs) auto

lemma set_delete_subset: "set (AList.delete k xs) \<subseteq> set xs"
  by (auto simp: AList.delete_eq)

lemma well_keyed_update:
  assumes "well_keyed r" and "distinct (map fst m)" and "registry_sessions r' = AList.update s m (registry_sessions r)"
  shows "well_keyed r'"
  using assms set_update_subset[of s m "registry_sessions r"] by (auto simp: well_keyed_def intro!: AList.distinct_update)

lemma well_keyed_delete:
  assumes "well_keyed r" and "registry_sessions r' = AList.delete s (registry_sessions r)"
  shows "well_keyed r'"
  using assms set_delete_subset[of s "registry_sessions r"] by (auto simp: well_keyed_def intro!: AList.distinct_delete)

lemma well_keyed_add: "well_keyed r \<Longrightarrow> well_keyed (registry_add r s p)"
  by (rule well_keyed_update[of r _ _ s]) (auto simp: registry_add_def intro!: AList.distinct_update well_keyed_session)

lemma well_keyed_removed:
  "well_keyed r \<Longrightarrow> well_keyed (r\<lparr>registry_sessions := removed_sessions r s b, byBinding := x\<rparr>)"
  by (cases "AList.delete b (registry_ensure r s) = []")
    (simp add: removed_sessions_def well_keyed_delete[of r _ s],
     rule well_keyed_update[of r "AList.delete b (registry_ensure r s)" _ s],
     simp_all add: removed_sessions_def AList.distinct_delete well_keyed_session)

lemma values_lookup:
  assumes "well_keyed r" and "p \<in> set (registry_values r s)"
  obtains b where "registry_lookup r s b = Some p"
proof -
  obtain b where "(b, p) \<in> set (registry_ensure r s)" using assms(2) by (auto simp: registry_values_def)
  then have "registry_lookup r s b = Some p"
    using well_keyed_session[OF assms(1)] by (simp add: lookup_ensure)
  then show thesis by (rule that)
qed

lemma lookup_values: "registry_lookup r s b = Some p \<Longrightarrow> p \<in> set (registry_values r s)"
  by (force simp: lookup_ensure registry_values_def dest: map_of_SomeD)

section \<open>The registry is coherent\<close>

type_synonym consent_opening = "pending_consent \<times> session_key"

definition ids_apart :: "consent_opening set \<Rightarrow> bool" where
  "ids_apart H \<longleftrightarrow> (\<forall>x \<in> H. \<forall>y \<in> H. pending_id (fst x) = pending_id (fst y) \<longrightarrow> x = y)"

definition registry_ok :: "consent_opening set \<Rightarrow> consent_registry \<Rightarrow> bool" where
  "registry_ok H r \<longleftrightarrow> well_keyed r
     \<and> (\<forall>s b p. registry_lookup r s b = Some p \<longrightarrow> pending_id p = b \<and> (p, s) \<in> H)
     \<and> (\<forall>s b. map_of (byBinding r) b = Some s \<longleftrightarrow> registry_lookup r s b \<noteq> None)
     \<and> length (staleDispositions r) \<le> STALE_DISPOSITION_LIMIT \<and> distinct (map fst (staleDispositions r))
     \<and> (\<forall>b \<in> fst ` set (staleDispositions r). (\<exists>x \<in> H. pending_id (fst x) = b) \<and> (\<forall>s. registry_lookup r s b = None))"

lemma registry_okD:
  assumes "registry_ok H r"
  shows "well_keyed r"
    and "registry_lookup r s b = Some p \<Longrightarrow> pending_id p = b \<and> (p, s) \<in> H"
    and "map_of (byBinding r) b = Some s \<longleftrightarrow> registry_lookup r s b \<noteq> None"
    and "(b, d) \<in> set (staleDispositions r) \<Longrightarrow> registry_lookup r s b = None"
    and "(b, d) \<in> set (staleDispositions r) \<Longrightarrow> \<exists>x \<in> H. pending_id (fst x) = b"
  using assms unfolding registry_ok_def by (blast, blast, blast, force, force)

lemma registry_ok_bounds:
  assumes "registry_ok H r"
  shows "length (staleDispositions r) \<le> STALE_DISPOSITION_LIMIT" and "distinct (map fst (staleDispositions r))"
  using assms unfolding registry_ok_def by (blast, blast)

lemma registry_okI:
  assumes "well_keyed r" and "\<And>s b p. registry_lookup r s b = Some p \<Longrightarrow> pending_id p = b \<and> (p, s) \<in> H"
    and "\<And>s b. map_of (byBinding r) b = Some s \<longleftrightarrow> registry_lookup r s b \<noteq> None"
    and "length (staleDispositions r) \<le> STALE_DISPOSITION_LIMIT" and "distinct (map fst (staleDispositions r))"
    and "\<forall>b \<in> fst ` set (staleDispositions r). (\<exists>x \<in> H. pending_id (fst x) = b) \<and> (\<forall>s. registry_lookup r s b = None)"
  shows "registry_ok H r"
  unfolding registry_ok_def by (intro conjI allI impI) (fact assms(1), blast dest: assms(2), blast dest: assms(2), fact assms(3), fact assms(4), fact assms(5), fact assms(6))

lemma held_once:
  assumes "registry_ok H r" and "ids_apart H" and "(p, s) \<in> H"
  shows "registry_lookup r t (pending_id p) = Some q \<longleftrightarrow> registry_lookup r s (pending_id p) = Some p \<and> t = s \<and> q = p"
proof
  assume "registry_lookup r t (pending_id p) = Some q"
  moreover from this have "(q, t) \<in> H" "pending_id q = pending_id p" using registry_okD(2)[OF assms(1)] by blast+
  ultimately show "registry_lookup r s (pending_id p) = Some p \<and> t = s \<and> q = p"
    using assms(2,3) by (force simp: ids_apart_def)
qed auto

lemma remove_held:
  assumes "registry_ok H r" and "ids_apart H" and "(p, s) \<in> H"
  shows "registry_remove r s p = (if registry_lookup r s (pending_id p) = Some p
    then (True, r\<lparr>registry_sessions := removed_sessions r s (pending_id p), byBinding := AList.delete (pending_id p) (byBinding r)\<rparr>)
    else (False, r))"
proof (cases "registry_lookup r s (pending_id p)")
  case None
  then show ?thesis by (simp add: registry_remove_def)
next
  case (Some q)
  then have "q = p" using held_once[OF assms, of s q] by simp
  moreover have "map_of (byBinding r) (pending_id p) = Some s" using registry_okD(3)[OF assms(1)] Some by blast
  ultimately show ?thesis using Some by (simp add: registry_remove_def removed_sessions_def Let_def)
qed

lemma lookup_remove:
  assumes "registry_ok H r" and "ids_apart H" and "(p, s) \<in> H"
  shows "registry_lookup (snd (registry_remove r s p)) t b = (if b = pending_id p then None else registry_lookup r t b)"
proof -
  have "registry_lookup r t (pending_id p) = None" if "t \<noteq> s \<or> registry_lookup r s (pending_id p) \<noteq> Some p"
    using held_once[OF assms, of t] that by (cases "registry_lookup r t (pending_id p)") auto
  then show ?thesis by (auto simp: remove_held[OF assms] lookup_removed_sessions)
qed

lemma remove_keeps_stale: "staleDispositions (snd (registry_remove r s p)) = staleDispositions r"
  by (simp add: registry_remove_def Let_def)

lemma registry_ok_remove:
  assumes "registry_ok H r" and "ids_apart H" and "(p, s) \<in> H"
  shows "registry_ok H (snd (registry_remove r s p))"
proof -
  have "well_keyed (snd (registry_remove r s p))"
    using registry_okD(1)[OF assms(1)] by (simp add: remove_held[OF assms] well_keyed_removed)
  moreover have "map_of (byBinding (snd (registry_remove r s p))) b = Some t \<longleftrightarrow> registry_lookup (snd (registry_remove r s p)) t b \<noteq> None" for b t
  proof (cases "registry_lookup r s (pending_id p) = Some p")
    case True
    then show ?thesis using registry_okD(3)[OF assms(1)]
      by (simp add: lookup_remove[OF assms]) (simp add: remove_held[OF assms] AList.delete_conv')
  next
    case False
    then have "registry_lookup r t (pending_id p) = None" for t
      using held_once[OF assms, of t] by (cases "registry_lookup r t (pending_id p)") auto
    then show ?thesis using registry_okD(3)[OF assms(1)] False
      by (simp add: remove_held[OF assms])
  qed
  ultimately show ?thesis
    using assms(1) unfolding registry_ok_def lookup_remove[OF assms] remove_keeps_stale by simp
qed

lemma lookup_remember [simp]: "registry_lookup (rememberDisposition r p d) = registry_lookup r"
  by (simp add: fun_eq_iff registry_lookup_def rememberDisposition_def Let_def)

lemma registry_ok_remember:
  assumes "registry_ok H r" and "(p, s) \<in> H" and "\<forall>t. registry_lookup r t (pending_id p) = None"
  shows "registry_ok H (rememberDisposition r p d)"
proof -
  let ?ds = "AList.update (pending_id p) d (AList.delete (pending_id p) (staleDispositions r))"
  have r: "staleDispositions (rememberDisposition r p d) = drop (length ?ds - STALE_DISPOSITION_LIMIT) ?ds"
    by (simp add: rememberDisposition_def Let_def)
  have "distinct (map fst ?ds)"
    using assms(1) by (simp add: registry_ok_def AList.distinct_update AList.distinct_delete)
  then have d: "distinct (map fst (staleDispositions (rememberDisposition r p d)))"
    unfolding r drop_map[symmetric] by (rule distinct_drop)
  have "fst ` set (drop n ?ds) \<subseteq> insert (pending_id p) (fst ` set (staleDispositions r))" for n
    using image_mono[OF set_drop_subset[of n ?ds], of fst] AList.dom_delete_subset[of "pending_id p" "staleDispositions r"]
    by (auto simp: AList.dom_update)
  then have keys: "b = pending_id p \<or> b \<in> fst ` set (staleDispositions r)" if "b \<in> fst ` set (drop n ?ds)" for b n
    using that by blast
  have old: "\<forall>b \<in> fst ` set (staleDispositions r). (\<exists>x \<in> H. pending_id (fst x) = b) \<and> (\<forall>s. registry_lookup r s b = None)"
    using assms(1) unfolding registry_ok_def by (elim conjE)
  have new: "\<exists>x \<in> H. pending_id (fst x) = pending_id p" using assms(2) by force
  have k: "\<forall>b \<in> fst ` set (staleDispositions (rememberDisposition r p d)).
      (\<exists>x \<in> H. pending_id (fst x) = b) \<and> (\<forall>t. registry_lookup r t b = None)"
    unfolding r
  proof
    fix b assume "b \<in> fst ` set (drop (length ?ds - STALE_DISPOSITION_LIMIT) ?ds)"
    from keys[OF this] show "(\<exists>x \<in> H. pending_id (fst x) = b) \<and> (\<forall>t. registry_lookup r t b = None)"
    proof
      assume "b \<in> fst ` set (staleDispositions r)"
      then show ?thesis by (rule bspec[OF old])
    qed (use new assms(3) in simp)
  qed
  have b: "byBinding (rememberDisposition r p d) = byBinding r" "well_keyed (rememberDisposition r p d) = well_keyed r"
    by (simp_all add: rememberDisposition_def well_keyed_def Let_def)
  show ?thesis
    by (rule registry_okI, unfold b lookup_remember)
      (fact registry_okD(1)[OF assms(1)], fact registry_okD(2)[OF assms(1)], fact registry_okD(3)[OF assms(1)],
       simp add: r, fact d, fact k)
qed

lemma settle_held:
  assumes "registry_ok H r" and "ids_apart H" and "(p, s) \<in> H"
  shows "fst (registry_settle d r s p) \<longleftrightarrow> registry_lookup r s (pending_id p) = Some p"
    and "registry_lookup (snd (registry_settle d r s p)) t b = (if b = pending_id p then None else registry_lookup r t b)"
    and "registry_ok H (snd (registry_settle d r s p))"
proof -
  have l: "registry_lookup (snd (registry_remove r s p)) t (pending_id p) = None" for t
    by (simp add: lookup_remove[OF assms])
  have c: "registry_settle d r s p = (fst (registry_remove r s p), if fst (registry_remove r s p)
      then rememberDisposition (snd (registry_remove r s p)) p d else snd (registry_remove r s p))"
    by (simp add: registry_settle_def split: prod.splits bool.splits)
  show "fst (registry_settle d r s p) \<longleftrightarrow> registry_lookup r s (pending_id p) = Some p"
    unfolding c by (simp add: remove_held[OF assms])
  show "registry_lookup (snd (registry_settle d r s p)) t b = (if b = pending_id p then None else registry_lookup r t b)"
    unfolding c by (simp add: lookup_remove[OF assms])
  show "registry_ok H (snd (registry_settle d r s p))"
    unfolding c using registry_ok_remove[OF assms] registry_ok_remember[OF registry_ok_remove[OF assms] assms(3)] l by simp
qed

lemma registry_ok_add:
  assumes "registry_ok H r" and "\<forall>x \<in> H. pending_id (fst x) \<noteq> pending_id p"
  shows "registry_ok (insert (p, s) H) (registry_add r s p)"
proof -
  have fresh: "registry_lookup r t (pending_id p) = None" for t
    using registry_okD(2)[OF assms(1), of t] assms(2) by (cases "registry_lookup r t (pending_id p)") force+
  have b: "byBinding (registry_add r s p) = AList.update (pending_id p) s (byBinding r)"
    and d: "staleDispositions (registry_add r s p) = staleDispositions r"
    by (simp_all add: registry_add_def)
  have "map_of (byBinding (registry_add r s p)) c = Some t \<longleftrightarrow> registry_lookup (registry_add r s p) t c \<noteq> None" for c t
    using registry_okD(3)[OF assms(1)] fresh by (auto simp: b lookup_add AList.update_conv')
  moreover have "\<forall>c \<in> fst ` set (staleDispositions r). c \<noteq> pending_id p"
    using registry_okD(5)[OF assms(1)] assms(2) by force
  ultimately show ?thesis
    using assms(1) unfolding registry_ok_def d lookup_add by (auto simp: well_keyed_add)
qed

end
