(* ===== verification/ConsentSafety.thy ===== *)
theory ConsentSafety
  imports ConsentInvariant
begin

text \<open>
  Every history of the pending consents: starts, answers, timers, expiries and shutdowns in any order.
  The invariant follows a binding from live over being answered to done; from it, the provider is asked once per
  binding, in time, from the right repository, and before the candidate is cleaned up.
\<close>

section \<open>Histories\<close>

datatype consent_action =
    StartNeedsConsent consent_start
  | Prune session_key "string \<Rightarrow> int"
  | TimerFires nat
  | AnswerBegins consent_answer
  | AnswerGated nat bool
  | AnswerEnds nat provider_end
  | SessionEnds session_key

definition consent_do :: "(review_consent \<Rightarrow> string) \<Rightarrow> consent_action \<Rightarrow> consent_world \<Rightarrow> consent_world" where
  "consent_do digest a w = (case a of
       StartNeedsConsent c \<Rightarrow> snd (open_consent digest c w)
     | Prune s now \<Rightarrow> pruneExpiredReviewConsents s now w
     | TimerFires i \<Rightarrow> fire_timer i w
     | AnswerBegins b \<Rightarrow> snd (begin_answer digest b w)
     | AnswerGated i g \<Rightarrow> gate_answer i g w
     | AnswerEnds i e \<Rightarrow> finish_answer i e w
     | SessionEnds s \<Rightarrow> cleanupAllPendingReviewConsents s w)"

text \<open>\<open>randomUUID\<close> never returns the same binding id twice.\<close>

definition fresh_action :: "consent_action \<Rightarrow> consent_world \<Rightarrow> bool" where
  "fresh_action a w = (case a of StartNeedsConsent c \<Rightarrow> start_uuid c \<notin> (pending_id \<circ> fst) ` set (opened w) | _ \<Rightarrow> True)"

inductive consent_history :: "(review_consent \<Rightarrow> string) \<Rightarrow> consent_world \<Rightarrow> bool" for digest where
  Begin: "consent_history digest no_consents"
| Act: "consent_history digest w \<Longrightarrow> fresh_action a w \<Longrightarrow> consent_history digest (consent_do digest a w)"

section \<open>The invariant\<close>

fun event_consent :: "consent_event \<Rightarrow> pending_consent" where
  "event_consent (Asked p a c t) = p"
| "event_consent (Cleaned p) = p"

fun asked_ids :: "consent_event list \<Rightarrow> string list" where
  "asked_ids [] = []"
| "asked_ids (Asked p a c t # es) = pending_id p # asked_ids es"
| "asked_ids (Cleaned p # es) = asked_ids es"

fun cleaned_ids :: "consent_event list \<Rightarrow> string list" where
  "cleaned_ids [] = []"
| "cleaned_ids (Asked p a c t # es) = cleaned_ids es"
| "cleaned_ids (Cleaned p # es) = pending_id p # cleaned_ids es"

lemma ids_append [simp]:
  "asked_ids (xs @ ys) = asked_ids xs @ asked_ids ys" "cleaned_ids (xs @ ys) = cleaned_ids xs @ cleaned_ids ys"
  by (induction xs rule: asked_ids.induct) simp_all

lemma in_asked_ids: "b \<in> set (asked_ids es) \<longleftrightarrow> (\<exists>p a c t. Asked p a c t \<in> set es \<and> pending_id p = b)"
  by (induction es rule: asked_ids.induct) auto

lemma in_cleaned_ids: "b \<in> set (cleaned_ids es) \<longleftrightarrow> (\<exists>p. Cleaned p \<in> set es \<and> pending_id p = b)"
  by (induction es rule: asked_ids.induct) auto

definition answer_sound :: "(review_consent \<Rightarrow> string) \<Rightarrow> pending_consent \<Rightarrow> string \<Rightarrow> string \<Rightarrow> int \<Rightarrow> bool" where
  "answer_sound digest p a c t \<longleftrightarrow> a \<in> {''granted'', ''declined''} \<and> t < expiresAt p \<and> c = repositoryCwd p
     \<and> digest (pending_question p) = consentDigest p"

text \<open>In the log, no binding is asked after its candidate was cleaned up.\<close>

definition in_order :: "consent_event \<Rightarrow> consent_event \<Rightarrow> bool" where
  "in_order e f = (case (e, f) of (Cleaned p, Asked q a c t) \<Rightarrow> pending_id p \<noteq> pending_id q | _ \<Rightarrow> True)"

definition live :: "consent_world \<Rightarrow> string \<Rightarrow> bool" where
  "live w b \<longleftrightarrow> (\<exists>s. registry_lookup (consents w) s b \<noteq> None)"

definition answered_id :: "answering \<Rightarrow> string" where
  "answered_id x = pending_id (answered_consent x)"

definition history_ok :: "consent_world \<Rightarrow> bool" where
  "history_ok w \<longleftrightarrow> ids_apart (set (opened w)) \<and> (\<forall>x \<in> set (opened w). pending_ref (fst x) < length (opened w))
     \<and> (\<forall>x \<in> set (opened w). \<forall>y \<in> set (opened w). pending_ref (fst x) = pending_ref (fst y) \<longrightarrow> x = y)"

definition timers_ok :: "consent_world \<Rightarrow> bool" where
  "timers_ok w \<longleftrightarrow> set (armed w) \<subseteq> set (opened w) \<and> (\<forall>s b p. registry_lookup (consents w) s b = Some p \<longrightarrow> (p, s) \<in> set (armed w))"

definition answer_ok :: "(review_consent \<Rightarrow> string) \<Rightarrow> consent_world \<Rightarrow> answering \<Rightarrow> bool" where
  "answer_ok digest w x \<longleftrightarrow> (answered_consent x, answered_session x) \<in> set (opened w) \<and> \<not>  live w (answered_id x)
     \<and> answered_id x \<notin> set (cleaned_ids (consent_log w)) \<and> (provider_asked x \<longleftrightarrow> answered_id x \<in> set (asked_ids (consent_log w)))
     \<and> answer_sound digest (answered_consent x) (answered_with x) (answered_from x) (answered_at x)"

definition answers_ok :: "(review_consent \<Rightarrow> string) \<Rightarrow> consent_world \<Rightarrow> bool" where
  "answers_ok digest w \<longleftrightarrow> distinct (map answered_id (answers w)) \<and> (\<forall>x \<in> set (answers w). answer_ok digest w x)"

definition event_ok :: "(review_consent \<Rightarrow> string) \<Rightarrow> consent_world \<Rightarrow> consent_event \<Rightarrow> bool" where
  "event_ok digest w e \<longleftrightarrow> event_consent e \<in> fst ` set (opened w) \<and> \<not>  live w (pending_id (event_consent e))
     \<and> (case e of Asked p a c t \<Rightarrow> answer_sound digest p a c t | _ \<Rightarrow> True)"

definition log_ok :: "(review_consent \<Rightarrow> string) \<Rightarrow> consent_world \<Rightarrow> bool" where
  "log_ok digest w \<longleftrightarrow> distinct (asked_ids (consent_log w)) \<and> distinct (cleaned_ids (consent_log w))
     \<and> sorted_wrt in_order (consent_log w) \<and> (\<forall>e \<in> set (consent_log w). event_ok digest w e)"

definition consent_inv :: "(review_consent \<Rightarrow> string) \<Rightarrow> consent_world \<Rightarrow> bool" where
  "consent_inv digest w \<longleftrightarrow> history_ok w \<and> registry_ok (set (opened w)) (consents w) \<and> timers_ok w \<and> answers_ok digest w \<and> log_ok digest w"

lemma consent_invD:
  assumes "consent_inv digest w"
  shows "history_ok w" and "registry_ok (set (opened w)) (consents w)" and "timers_ok w" and "answers_ok digest w" and "log_ok digest w"
    and "ids_apart (set (opened w))"
  using assms unfolding consent_inv_def history_ok_def by blast+

lemma no_consents_inv: "consent_inv digest no_consents"
  by (simp add: consent_inv_def no_consents_def history_ok_def registry_ok_def ids_apart_def timers_ok_def answers_ok_def log_ok_def
      well_keyed_def registry_lookup_def STALE_DISPOSITION_LIMIT_def)

section \<open>The primitive moves keep it\<close>

lemma move_drop:
  assumes "consent_inv digest w" and "registry_ok (set (opened w)) r" and "set ts \<subseteq> set (armed w)"
    and "\<And>t b q. registry_lookup r t b = Some q \<Longrightarrow> registry_lookup (consents w) t b = Some q \<and> (q, t) \<in> set ts"
  shows "consent_inv digest (w\<lparr>consents := r, armed := ts\<rparr>)"
proof -
  let ?w = "w\<lparr>consents := r, armed := ts\<rparr>"
  have l: "live w b" if "live ?w b" for b
    using that assms(4) by (force simp: live_def)
  have "timers_ok ?w" using consent_invD(3)[OF assms(1)] assms(3,4) by (auto simp: timers_ok_def)
  moreover have "answers_ok digest ?w" using consent_invD(4)[OF assms(1)] l
    by (auto simp: answers_ok_def answer_ok_def)
  moreover have "log_ok digest ?w" using consent_invD(5)[OF assms(1)] l
    by (auto simp: log_ok_def event_ok_def)
  ultimately show ?thesis using consent_invD(1)[OF assms(1)] assms(2) by (simp add: consent_inv_def history_ok_def)
qed

lemma move_cleanup:
  assumes "consent_inv digest w" and "(p, s) \<in> set (opened w)" and "\<not>  live w (pending_id p)"
    and "pending_id p \<notin> set (map answered_id (answers w))"
  shows "consent_inv digest (cleanupCandidate w p)"
proof (cases "Cleaned p \<in> set (consent_log w)")
  case False
  let ?w = "w\<lparr>consent_log := consent_log w @ [Cleaned p]\<rparr>"
  have "pending_id p \<notin> set (cleaned_ids (consent_log w))"
  proof
    assume "pending_id p \<in> set (cleaned_ids (consent_log w))"
    then obtain q where q: "Cleaned q \<in> set (consent_log w)" "pending_id q = pending_id p" by (auto simp: in_cleaned_ids)
    then have "q \<in> fst ` set (opened w)" using consent_invD(5)[OF assms(1)] by (force simp: log_ok_def event_ok_def)
    then have "q = p" using consent_invD(6)[OF assms(1)] assms(2) q(2) by (force simp: ids_apart_def)
    then show False using q(1) False by simp
  qed
  moreover have "live ?w = live w" by (simp add: live_def fun_eq_iff)
  moreover have "p \<in> fst ` set (opened w)" using assms(2) by force
  ultimately have "log_ok digest ?w" using consent_invD(5)[OF assms(1)] assms(3)
    by (auto simp: log_ok_def event_ok_def sorted_wrt_append in_order_def image_iff split: consent_event.splits)
  moreover have "\<forall>x \<in> set (answers w). pending_id p \<noteq> answered_id x" using assms(4) by auto
  then have "answers_ok digest ?w" using consent_invD(4)[OF assms(1)] \<open>live ?w = live w\<close>
    by (auto simp: answers_ok_def answer_ok_def)
  ultimately show ?thesis using consent_invD(1-3)[OF assms(1)] False
    by (simp add: cleanupCandidate_def consent_inv_def history_ok_def timers_ok_def)
qed (use assms(1) in \<open>simp add: cleanupCandidate_def\<close>)

lemma move_answer:
  assumes "consent_inv digest w" and "(answered_consent x, answered_session x) \<in> set (opened w)" and "\<not>  live w (answered_id x)"
    and "answered_id x \<notin> set (map answered_id (answers w))" and "answered_id x \<notin> pending_id ` event_consent ` set (consent_log w)"
    and "answer_sound digest (answered_consent x) (answered_with x) (answered_from x) (answered_at x)" and "\<not>  provider_asked x"
  shows "consent_inv digest (w\<lparr>answers := answers w @ [x]\<rparr>)"
proof -
  let ?w = "w\<lparr>answers := answers w @ [x]\<rparr>"
  have l: "live ?w = live w" by (simp add: live_def fun_eq_iff)
  have "answered_id x \<notin> set (asked_ids (consent_log w))" "answered_id x \<notin> set (cleaned_ids (consent_log w))"
    using assms(5) by (force simp: in_asked_ids in_cleaned_ids)+
  then have "answers_ok digest ?w" using consent_invD(4)[OF assms(1)] assms(2,3,4,6,7) l
    by (auto simp: answers_ok_def answer_ok_def)
  moreover have "log_ok digest ?w" using consent_invD(5)[OF assms(1)] l by (auto simp: log_ok_def event_ok_def)
  ultimately show ?thesis using consent_invD(1-3)[OF assms(1)] by (simp add: consent_inv_def history_ok_def timers_ok_def)
qed

lemma set_without: "set (take i xs @ drop (Suc i) xs) \<subseteq> set xs"
  using set_take_subset[of i xs] set_drop_subset[of "Suc i" xs] by auto

lemma distinct_without:
  assumes "distinct (map f xs)" and "i < length xs"
  shows "distinct (map f (take i xs @ drop (Suc i) xs)) \<and> f (xs ! i) \<notin> set (map f (take i xs @ drop (Suc i) xs))"
proof -
  have "distinct (map f (take i xs @ xs ! i # drop (Suc i) xs))"
    using assms(1) unfolding id_take_nth_drop[OF assms(2), symmetric] .
  then show ?thesis by auto
qed

lemma move_remove:
  assumes "consent_inv digest w" and "i < length (answers w)"
  shows "consent_inv digest (w\<lparr>answers := take i (answers w) @ drop (Suc i) (answers w)\<rparr>)"
proof -
  let ?w = "w\<lparr>answers := take i (answers w) @ drop (Suc i) (answers w)\<rparr>"
  have l: "live ?w = live w" by (simp add: live_def fun_eq_iff)
  have d: "distinct (map answered_id (answers w))" using consent_invD(4)[OF assms(1)] by (simp add: answers_ok_def)
  have "\<forall>x \<in> set (answers ?w). x \<in> set (answers w)" using set_without[of i "answers w"] by auto
  then have "answers_ok digest ?w" using consent_invD(4)[OF assms(1)] distinct_without[OF d assms(2)] l
    by (simp add: answers_ok_def answer_ok_def)
  moreover have "log_ok digest ?w" using consent_invD(5)[OF assms(1)] l by (simp add: log_ok_def event_ok_def)
  ultimately show ?thesis using consent_invD(1-3)[OF assms(1)] by (simp add: consent_inv_def history_ok_def timers_ok_def)
qed

lemma move_ask:
  assumes "consent_inv digest w" and "i < length (answers w)" and "\<not>  provider_asked (answers w ! i)"
  shows "consent_inv digest (w\<lparr>answers := (answers w)[i := (answers w ! i)\<lparr>provider_asked := True\<rparr>],
    consent_log := consent_log w @ [Asked (answered_consent (answers w ! i)) (answered_with (answers w ! i))
      (answered_from (answers w ! i)) (answered_at (answers w ! i))]\<rparr>)" (is "consent_inv digest ?w")
proof -
  let ?x = "answers w ! i"
  have l: "live ?w = live w" by (simp add: live_def fun_eq_iff)
  have d: "distinct (map answered_id (answers w))" and x: "answer_ok digest w ?x"
    and all: "\<forall>x \<in> set (answers w). answer_ok digest w x"
    using consent_invD(4)[OF assms(1)] assms(2) by (simp_all add: answers_ok_def)
  have ids: "map answered_id ((answers w)[i := ?x\<lparr>provider_asked := True\<rparr>]) = map answered_id (answers w)"
    using assms(2) by (simp add: map_update answered_id_def list_eq_iff_nth_eq nth_list_update)
  have "answer_ok digest ?w y" if "y \<in> set (answers ?w)" for y
  proof -
    have "y \<in> set ((answers w)[i := ?x\<lparr>provider_asked := True\<rparr>])" using that by simp
    then obtain j where "j < length ((answers w)[i := ?x\<lparr>provider_asked := True\<rparr>])" "(answers w)[i := ?x\<lparr>provider_asked := True\<rparr>] ! j = y"
      unfolding in_set_conv_nth by blast
    then have j: "j < length (answers w)" "y = (answers w)[i := ?x\<lparr>provider_asked := True\<rparr>] ! j" by simp_all
    show ?thesis
    proof (cases "j = i")
      case True
      then have "y = ?x\<lparr>provider_asked := True\<rparr>" using j assms(2) by simp
      then show ?thesis using x l by (simp add: answer_ok_def answered_id_def)
    next
      case False
      then have y: "y = answers w ! j" using j by simp
      have "answered_id y \<noteq> answered_id ?x"
        using d False j(1) assms(2) y by (simp add: distinct_conv_nth)
      moreover have "answer_ok digest w y" using all y j(1) by simp
      ultimately show ?thesis using l by (simp add: answer_ok_def answered_id_def)
    qed
  qed
  then have "answers_ok digest ?w" using d ids by (simp add: answers_ok_def)
  moreover have "answered_consent ?x \<in> fst ` set (opened w)" using x by (force simp: answer_ok_def)
  then have "log_ok digest ?w" using consent_invD(5)[OF assms(1)] x assms(3) l
    by (auto simp: log_ok_def event_ok_def answer_ok_def answered_id_def sorted_wrt_append in_order_def in_cleaned_ids image_iff
        split: consent_event.splits)
  ultimately show ?thesis using consent_invD(1-3)[OF assms(1)] by (simp add: consent_inv_def history_ok_def timers_ok_def)
qed

lemma move_open:
  assumes "consent_inv digest w" and "pending_id p \<notin> (pending_id \<circ> fst) ` set (opened w)" and "pending_ref p = length (opened w)"
  shows "consent_inv digest (w\<lparr>consents := registry_add (consents w) s p, armed := armed w @ [(p, s)], opened := opened w @ [(p, s)]\<rparr>)"
    (is "consent_inv digest ?w")
proof -
  have l: "live ?w b \<longleftrightarrow> live w b \<or> b = pending_id p" for b
    by (auto simp: live_def lookup_add)
  have new: "pending_id p \<noteq> pending_id q" if "q \<in> fst ` set (opened w)" for q
    using that assms(2) by force
  have "ids_apart (set (opened ?w))"
    using consent_invD(6)[OF assms(1)] new by (fastforce simp: ids_apart_def)
  then have "history_ok ?w" using consent_invD(1)[OF assms(1)] assms(3) by (fastforce simp: history_ok_def)
  moreover have "registry_ok (set (opened ?w)) (consents ?w)"
    using registry_ok_add[OF consent_invD(2)[OF assms(1)], of p s] new by (force simp: insert_commute)
  moreover have "timers_ok ?w" using consent_invD(3)[OF assms(1)]
    by (auto simp: timers_ok_def lookup_add split: if_splits)
  moreover have "answers_ok digest ?w"
    using consent_invD(4)[OF assms(1)] new l by (force simp: answers_ok_def answer_ok_def answered_id_def)
  moreover have "log_ok digest ?w"
    using consent_invD(5)[OF assms(1)] new l by (force simp: log_ok_def event_ok_def)
  ultimately show ?thesis by (simp add: consent_inv_def)
qed

section \<open>Every operation keeps it\<close>

lemma refs_distinct: "consent_inv digest w \<Longrightarrow> (p, s) \<in> set (opened w) \<Longrightarrow> (q, t) \<in> set (opened w) \<Longrightarrow> pending_ref p = pending_ref q \<Longrightarrow> p = q"
  using consent_invD(1) by (force simp: history_ok_def)

lemma clear_timer_fields [simp]:
  "consents (clear_timer w p) = consents w" "answers (clear_timer w p) = answers w"
  "consent_log (clear_timer w p) = consent_log w" "opened (clear_timer w p) = opened w"
  by (simp_all add: clear_timer_def)

lemma leave_update: "(clear_timer w p)\<lparr>consents := r\<rparr> = w\<lparr>consents := r, armed := armed (clear_timer w p)\<rparr>"
  by (cases w) (simp add: clear_timer_def)

text \<open>A binding leaves the registry and its timer is cleared.\<close>

lemma move_leave:
  assumes "consent_inv digest w" and "(p, s) \<in> set (opened w)" and "registry_ok (set (opened w)) r"
    and "\<And>t b. registry_lookup r t b = (if b = pending_id p then None else registry_lookup (consents w) t b)"
  shows "consent_inv digest ((clear_timer w p)\<lparr>consents := r\<rparr>)" and "\<not>  live ((clear_timer w p)\<lparr>consents := r\<rparr>) (pending_id p)"
proof -
  have "consent_inv digest (w\<lparr>consents := r, armed := armed (clear_timer w p)\<rparr>)"
  proof (rule move_drop[OF assms(1,3)])
    show "set (armed (clear_timer w p)) \<subseteq> set (armed w)" by (auto simp: clear_timer_def)
    fix t b q assume "registry_lookup r t b = Some q"
    then have q: "registry_lookup (consents w) t b = Some q" "b \<noteq> pending_id p" by (auto simp: assms(4) split: if_splits)
    then have "(q, t) \<in> set (armed w)" "pending_id q = b" "(q, t) \<in> set (opened w)"
      using consent_invD(3)[OF assms(1)] registry_okD(2)[OF consent_invD(2)[OF assms(1)]] by (auto simp: timers_ok_def)
    moreover have "pending_ref q \<noteq> pending_ref p"
      using refs_distinct[OF assms(1) assms(2), of q t] calculation q(2) by auto
    ultimately show "registry_lookup (consents w) t b = Some q \<and> (q, t) \<in> set (armed (clear_timer w p))"
      using q by (simp add: clear_timer_def)
  qed
  then show "consent_inv digest ((clear_timer w p)\<lparr>consents := r\<rparr>)" unfolding leave_update .
  show "\<not>  live ((clear_timer w p)\<lparr>consents := r\<rparr>) (pending_id p)" by (simp add: live_def assms(4))
qed

lemma discard_keeps:
  assumes "consent_inv digest w" and "(p, s) \<in> set (opened w)"
  shows "consent_inv digest (discardPendingReviewConsent s p w)" and "\<not>  live (discardPendingReviewConsent s p w) (pending_id p)"
  unfolding discardPendingReviewConsent_def registry_discard_def
  by (rule move_leave[OF assms registry_ok_remove[OF consent_invD(2,6)[OF assms(1)] assms(2)] lookup_remove[OF consent_invD(2,6)[OF assms(1)] assms(2)]])+

lemma cleanup_fields [simp]:
  "consents (cleanupCandidate w p) = consents w" "answers (cleanupCandidate w p) = answers w" "opened (cleanupCandidate w p) = opened w"
  by (simp_all add: cleanupCandidate_def)

lemma discard_fields [simp]:
  "answers (discardPendingReviewConsent s p w) = answers w" "opened (discardPendingReviewConsent s p w) = opened w"
  by (simp_all add: discardPendingReviewConsent_def)

lemma cleanupPending_keeps:
  assumes "consent_inv digest w" and "(p, s) \<in> set (opened w)" and "pending_id p \<notin> set (map answered_id (answers w))"
  shows "consent_inv digest (cleanupPendingReviewConsent s p w)"
  unfolding cleanupPendingReviewConsent_def
  by (rule move_cleanup[OF discard_keeps(1)[OF assms(1,2)] _ discard_keeps(2)[OF assms(1,2)]]) (use assms(2,3) in simp_all)

lemma live_not_answered:
  assumes "consent_inv digest w" and "live w b"
  shows "b \<notin> set (map answered_id (answers w))" and "b \<notin> pending_id ` event_consent ` set (consent_log w)"
  using consent_invD(4,5)[OF assms(1)] assms(2) by (auto simp: answers_ok_def answer_ok_def log_ok_def event_ok_def)

lemma expire_keeps:
  assumes "consent_inv digest w" and "(p, s) \<in> set (opened w)"
  shows "consent_inv digest (expirePendingReviewConsent s p w)"
proof -
  note h = settle_held[OF consent_invD(2,6)[OF assms(1)] assms(2), of Expired]
  show ?thesis
  proof (cases "registry_settle Expired (consents w) s p")
    case (Pair b r)
    have r: "registry_ok (set (opened w)) r"
      "\<And>t c. registry_lookup r t c = (if c = pending_id p then None else registry_lookup (consents w) t c)"
      using h(2,3) by (simp_all add: Pair)
    note m = move_leave[OF assms r]
    show ?thesis
    proof (cases b)
      case True
      then have "live w (pending_id p)" using h(1) by (auto simp: Pair live_def)
      then have "pending_id p \<notin> set (map answered_id (answers w))" using live_not_answered[OF assms(1)] by simp
      then show ?thesis using move_cleanup[OF m(1) _ m(2), of s] assms(2) True
        by (simp add: expirePendingReviewConsent_def Pair Let_def)
    next
      case False
      then have "registry_remove (consents w) s p = (False, consents w)"
        using h(1) by (simp add: Pair remove_held[OF consent_invD(2,6)[OF assms(1)] assms(2)])
      then have "r = consents w" using Pair False by (simp add: registry_settle_def)
      then show ?thesis using m(1) False by (simp add: expirePendingReviewConsent_def Pair Let_def clear_timer_def)
    qed
  qed
qed

lemma expire_fields [simp]:
  "answers (expirePendingReviewConsent s p w) = answers w" "opened (expirePendingReviewConsent s p w) = opened w"
  by (simp_all add: expirePendingReviewConsent_def Let_def split: prod.splits bool.splits)

lemma fold_keeps:
  assumes "I w" and "\<And>p w. p \<in> set ps \<Longrightarrow> I w \<Longrightarrow> I (f p w)"
  shows "I (fold f ps w)"
  using assms by (induction ps arbitrary: w) simp_all

lemma values_opened:
  assumes "consent_inv digest w" and "p \<in> set (registry_values (consents w) s)"
  shows "(p, s) \<in> set (opened w)" and "live w (pending_id p)"
proof -
  obtain b where "registry_lookup (consents w) s b = Some p"
    using values_lookup[OF registry_okD(1)[OF consent_invD(2)[OF assms(1)]] assms(2)] .
  then show "(p, s) \<in> set (opened w)" "live w (pending_id p)"
    using registry_okD(2)[OF consent_invD(2)[OF assms(1)]] by (force simp: live_def)+
qed

lemma prune_keeps:
  assumes "consent_inv digest w"
  shows "consent_inv digest (pruneExpiredReviewConsents s now w)"
proof -
  let ?ps = "registry_values (consents w) s"
  have "(\<lambda>v. consent_inv digest v \<and> opened v = opened w) (fold (\<lambda>p w. if expiresAt p \<le> now (pending_id p) then expirePendingReviewConsent s p w else w) ?ps w)"
    by (rule fold_keeps) (use assms values_opened(1)[OF assms] in \<open>auto intro: expire_keeps\<close>)
  then show ?thesis by (simp add: pruneExpiredReviewConsents_def)
qed

lemma map_of_fold_delete:
  "map_of (fold (\<lambda>p bs. if map_of bs (pending_id p) = Some s then AList.delete (pending_id p) bs else bs) ps bs) b =
     (if b \<in> pending_id ` set ps \<and> map_of bs b = Some s then None else map_of bs b)"
  by (induction ps arbitrary: bs) (auto simp: AList.delete_conv')

lemma lookup_take:
  "registry_lookup (snd (registry_take r s)) t b = (if t = s then None else registry_lookup r t b)"
  by (auto simp: registry_take_def registry_lookup_def AList.delete_conv')

lemma registry_ok_take:
  assumes "registry_ok H r"
  shows "registry_ok H (snd (registry_take r s))"
proof (rule registry_okI)
  show "well_keyed (snd (registry_take r s))"
    using well_keyed_delete[OF registry_okD(1)[OF assms], of _ s] by (simp add: registry_take_def)
  show "pending_id p = b \<and> (p, t) \<in> H" if "registry_lookup (snd (registry_take r s)) t b = Some p" for t b p
    using that registry_okD(2)[OF assms] by (simp add: lookup_take split: if_splits)
  show "map_of (byBinding (snd (registry_take r s))) b = Some t \<longleftrightarrow> registry_lookup (snd (registry_take r s)) t b \<noteq> None" for t b
  proof -
    have v: "b \<in> pending_id ` set (registry_values r s)" if "registry_lookup r s b \<noteq> None"
      using that lookup_values registry_okD(2)[OF assms] by force
    have m: "map_of (byBinding (snd (registry_take r s))) b =
        (if b \<in> pending_id ` set (registry_values r s) \<and> map_of (byBinding r) b = Some s then None else map_of (byBinding r) b)"
      by (simp add: registry_take_def map_of_fold_delete)
    show ?thesis unfolding m lookup_take
      using v registry_okD(3)[OF assms, of b s] registry_okD(3)[OF assms, of b t] by (cases "t = s") auto
  qed
  have st: "staleDispositions (snd (registry_take r s)) = staleDispositions r" by (simp add: registry_take_def)
  show "length (staleDispositions (snd (registry_take r s))) \<le> STALE_DISPOSITION_LIMIT"
    "distinct (map fst (staleDispositions (snd (registry_take r s))))"
    using registry_ok_bounds[OF assms] by (simp_all add: st)
  show "\<forall>b \<in> fst ` set (staleDispositions (snd (registry_take r s))). (\<exists>x \<in> H. pending_id (fst x) = b)
      \<and> (\<forall>t. registry_lookup (snd (registry_take r s)) t b = None)"
    unfolding st using registry_okD(4,5)[OF assms] by (auto simp: lookup_take)
qed

lemma cleanupAll_keeps:
  assumes "consent_inv digest w"
  shows "consent_inv digest (cleanupAllPendingReviewConsents s w)"
proof -
  let ?ps = "registry_values (consents w) s"
  let ?r = "snd (registry_take (consents w) s)"
  have "consent_inv digest (w\<lparr>consents := ?r, armed := armed w\<rparr>)"
    by (rule move_drop[OF assms registry_ok_take[OF consent_invD(2)[OF assms]]])
      (use consent_invD(3)[OF assms] in \<open>auto simp: lookup_take timers_ok_def split: if_splits\<close>)
  then have r: "consent_inv digest (w\<lparr>consents := ?r\<rparr>)" by (cases w) simp
  have "(\<lambda>v. consent_inv digest v \<and> opened v = opened w \<and> answers v = answers w)
      (fold (cleanupPendingReviewConsent s) ?ps (w\<lparr>consents := ?r\<rparr>))"
  proof (rule fold_keeps)
    fix p v assume p: "p \<in> set ?ps" and v: "consent_inv digest v \<and> opened v = opened w \<and> answers v = answers w"
    have "consent_inv digest (cleanupPendingReviewConsent s p v)"
      by (rule cleanupPending_keeps)
        (use v values_opened[OF assms p] live_not_answered(1)[OF assms] in simp_all)
    then show "consent_inv digest (cleanupPendingReviewConsent s p v) \<and> opened (cleanupPendingReviewConsent s p v) = opened w
        \<and> answers (cleanupPendingReviewConsent s p v) = answers w"
      using v by (simp add: cleanupPendingReviewConsent_def)
  qed (simp add: r)
  then show ?thesis by (simp add: cleanupAllPendingReviewConsents_def registry_take_def)
qed

lemma open_keeps:
  assumes "consent_inv digest w" and "start_uuid c \<notin> (pending_id \<circ> fst) ` set (opened w)"
  shows "consent_inv digest (snd (open_consent digest c w))"
proof (cases "existing_consent digest c w")
  case None
  let ?w = "fold (\<lambda>q w. if candidateToken q = start_token c then discardPendingReviewConsent (start_session c) q w else w)
    (registry_values (consents w) (start_session c)) w"
  have k: "(\<lambda>v. consent_inv digest v \<and> opened v = opened w) ?w"
    by (rule fold_keeps) (use assms(1) values_opened(1)[OF assms(1)] in \<open>auto intro: discard_keeps(1)\<close>)
  then have "consent_inv digest ?w" and o: "opened ?w = opened w" by simp_all
  from move_open[OF this(1), of "new_consent digest c w" "start_session c"] show ?thesis
    using assms(2) None by (simp add: open_consent_def Let_def o new_consent_def)
qed (use assms(1) in \<open>simp add: open_consent_def\<close>)

lemma resolve_opened:
  assumes "consent_inv digest w" and "registry_resolve (consents w) b = Some (s, p)"
  shows "registry_lookup (consents w) s b = Some p" and "pending_id p = b" and "(p, s) \<in> set (opened w)"
  using assms(2) registry_okD(2)[OF consent_invD(2)[OF assms(1)], of s b p]
  by (auto simp: registry_resolve_def split: option.splits)

lemma begin_keeps:
  assumes "consent_inv digest w"
  shows "consent_inv digest (snd (begin_answer digest a w))"
proof (cases "registry_resolve (consents w) (answer_binding a)")
  case (Some x)
  obtain s p where x: "x = (s, p)" by (cases x)
  note o = resolve_opened[OF assms Some[unfolded x]]
  note h = settle_held[OF consent_invD(2,6)[OF assms] o(3), of Consumed]
  obtain r where r: "registry_consume (consents w) s p = (True, r)"
    using h(1) o(1,2) by (cases "registry_consume (consents w) s p") simp
  have lr: "registry_ok (set (opened w)) r" "\<And>t c. registry_lookup r t c = (if c = pending_id p then None else registry_lookup (consents w) t c)"
    using h(2,3) by (simp_all add: r)
  note m = move_leave[OF assms o(3) lr]
  have lv: "live w (pending_id p)" using o(1,2) by (auto simp: live_def)
  have e: "clear_timer (w\<lparr>consents := r\<rparr>) p = (clear_timer w p)\<lparr>consents := r\<rparr>" by (simp add: clear_timer_def)
  let ?x = "\<lparr>answered_consent = p, answered_session = s, answered_with = answer_given a, answered_from = answer_directory a,
    answered_at = answer_clock a, provider_asked = False\<rparr>"
  have "consent_inv digest (((clear_timer w p)\<lparr>consents := r\<rparr>)\<lparr>answers := answers ((clear_timer w p)\<lparr>consents := r\<rparr>) @ [?x]\<rparr>)"
    if "answer_given a \<in> {''granted'', ''declined''}" "answer_clock a < expiresAt p" "answer_directory a = repositoryCwd p"
      "digest (pending_question p) = consentDigest p"
    by (rule move_answer[OF m(1)])
      (use o m(2) live_not_answered[OF assms lv] that in \<open>simp_all add: answered_id_def answer_sound_def\<close>)
  then show ?thesis using assms expire_keeps[OF assms o(3)]
    by (auto simp: begin_answer_def Some x consumePendingReviewConsent_def r e)
qed (use assms in \<open>simp add: begin_answer_def\<close>)

lemma gate_keeps:
  assumes "consent_inv digest w"
  shows "consent_inv digest (gate_answer i g w)"
proof (cases "i < length (answers w) \<and> \<not>  provider_asked (answers w ! i)")
  case True
  then have i: "i < length (answers w)" by simp
  have x: "answer_ok digest w (answers w ! i)" and d: "distinct (map answered_id (answers w))"
    using consent_invD(4)[OF assms] i by (simp_all add: answers_ok_def)
  have "consent_inv digest (cleanupPendingReviewConsent (answered_session (answers w ! i)) (answered_consent (answers w ! i))
      (w\<lparr>answers := take i (answers w) @ drop (Suc i) (answers w)\<rparr>))"
    by (rule cleanupPending_keeps[OF move_remove[OF assms i]])
      (use x distinct_without[OF d i] in \<open>simp_all add: answer_ok_def answered_id_def\<close>)
  then show ?thesis using True move_ask[OF assms i] by (simp add: gate_answer_def Let_def)
qed (use assms in \<open>auto simp: gate_answer_def\<close>)

lemma finish_keeps:
  assumes "consent_inv digest w"
  shows "consent_inv digest (finish_answer i e w)"
proof (cases "i < length (answers w) \<and> provider_asked (answers w ! i)")
  case True
  then have i: "i < length (answers w)" by simp
  let ?w = "w\<lparr>answers := take i (answers w) @ drop (Suc i) (answers w)\<rparr>"
  have x: "answer_ok digest w (answers w ! i)" and d: "distinct (map answered_id (answers w))"
    using consent_invD(4)[OF assms] i by (simp_all add: answers_ok_def)
  have "consent_inv digest (cleanupCandidate ?w (answered_consent (answers w ! i)))"
    by (rule move_cleanup[OF move_remove[OF assms i]])
      (use x distinct_without[OF d i] in \<open>auto simp: answer_ok_def answered_id_def live_def\<close>)
  then show ?thesis using True move_remove[OF assms i] by (simp add: finish_answer_def Let_def)
qed (use assms in \<open>auto simp: finish_answer_def\<close>)

lemma fire_keeps:
  assumes "consent_inv digest w"
  shows "consent_inv digest (fire_timer i w)"
proof (cases "i < length (armed w)")
  case True
  then have "armed w ! i \<in> set (opened w)" using consent_invD(3)[OF assms] by (auto simp: timers_ok_def)
  then show ?thesis using True expire_keeps[OF assms] by (auto simp: fire_timer_def split: prod.splits)
qed (use assms in \<open>simp add: fire_timer_def\<close>)

theorem consent_history_inv: "consent_history digest w \<Longrightarrow> consent_inv digest w"
proof (induction rule: consent_history.induct)
  case Begin
  show ?case by (rule no_consents_inv)
next
  case (Act w a)
  then show ?case
    by (cases a) (auto simp: consent_do_def fresh_action_def intro: open_keeps[unfolded comp_def] prune_keeps fire_keeps begin_keeps gate_keeps
      finish_keeps cleanupAll_keeps)
qed

section \<open>What every history guarantees\<close>

text \<open>
  C14: a consent is used once, in time and where it was asked for. In every history of starts, answers, expiries, timers and
  shutdowns, over any number of sessions and with several answers in flight, the provider is asked at most once for a
  binding; whenever it is asked, the answer is granted or declined, the answer began before the deadline of the
  binding (the deadline is not read again after the review mode has been awaited), it comes from the repository the
  binding was opened in, its question is the one that was opened, and the binding can no longer be resolved. Each
  binding runs its clean-up of the candidate at most once, and the provider is never asked for it afterwards; that two
  bindings of different sessions may hold the same candidate is outside this count.
\<close>

theorem consent_is_one_shot:
  assumes "consent_history digest w"
  shows "distinct (asked_ids (consent_log w)) \<and> distinct (cleaned_ids (consent_log w)) \<and> sorted_wrt in_order (consent_log w)
    \<and> (\<forall>p a c t. Asked p a c t \<in> set (consent_log w) \<longrightarrow>
         p \<in> fst ` set (opened w) \<and> a \<in> {''granted'', ''declined''} \<and> t < expiresAt p \<and> c = repositoryCwd p
         \<and> digest (pending_question p) = consentDigest p \<and> registry_resolve (consents w) (pending_id p) = None)"
proof -
  have i: "consent_inv digest w" by (rule consent_history_inv[OF assms])
  have res: "registry_resolve (consents w) b = None" if "\<not>  live w b" for b
    using that by (simp add: registry_resolve_def live_def split: option.splits)
  have "event_ok digest w e" if "e \<in> set (consent_log w)" for e
    using consent_invD(5)[OF i] that by (simp add: log_ok_def)
  then have "p \<in> fst ` set (opened w) \<and> \<not>  live w (pending_id p) \<and> answer_sound digest p a c t"
    if "Asked p a c t \<in> set (consent_log w)" for p a c t
    using that by (fastforce simp: event_ok_def)
  then have "\<forall>p a c t. Asked p a c t \<in> set (consent_log w) \<longrightarrow>
         p \<in> fst ` set (opened w) \<and> a \<in> {''granted'', ''declined''} \<and> t < expiresAt p \<and> c = repositoryCwd p
         \<and> digest (pending_question p) = consentDigest p \<and> registry_resolve (consents w) (pending_id p) = None"
    using res by (simp add: answer_sound_def)
  then show ?thesis using consent_invD(5)[OF i] by (simp add: log_ok_def)
qed

text \<open>
  C15: the registry of consents stays coherent. In every history the index by binding and the sessions agree: a binding
  resolves to a session exactly when that session holds it, under its own id; every consent that is held has its timer
  armed; at most 32 dispositions are remembered, each for a binding that is gone.
\<close>

theorem consent_registry_coherent:
  assumes "consent_history digest w"
  shows "(registry_resolve (consents w) b = Some (s, p) \<longleftrightarrow> registry_lookup (consents w) s b = Some p)
    \<and> (registry_lookup (consents w) s b = Some p \<longrightarrow> pending_id p = b \<and> (p, s) \<in> set (armed w))
    \<and> length (staleDispositions (consents w)) \<le> 32
    \<and> (staleDisposition (consents w) b \<noteq> None \<longrightarrow> registry_resolve (consents w) b = None)"
proof -
  have i: "consent_inv digest w" by (rule consent_history_inv[OF assms])
  note r = consent_invD(2)[OF i]
  have "registry_lookup (consents w) t b = None" if "staleDisposition (consents w) b \<noteq> None" for t
    using that registry_okD(4)[OF r] by (auto simp: staleDisposition_def dest: map_of_SomeD)
  then have "staleDisposition (consents w) b \<noteq> None \<longrightarrow> registry_resolve (consents w) b = None"
    by (simp add: registry_resolve_def split: option.splits)
  moreover have "registry_resolve (consents w) b = Some (s, p) \<longleftrightarrow> registry_lookup (consents w) s b = Some p"
    using registry_okD(3)[OF r, of b s] by (auto simp: registry_resolve_def split: option.splits)
  ultimately show ?thesis
    using registry_okD(2)[OF r] consent_invD(3)[OF i] registry_ok_bounds(1)[OF r] by (simp add: timers_ok_def STALE_DISPOSITION_LIMIT_def)
qed

lemma consumed_is_remembered:
  "registry_settle d r s p = (True, r') \<Longrightarrow> staleDisposition r' (pending_id p) = Some d"
proof (cases "registry_remove r s p")
  case (Pair x y)
  assume "registry_settle d r s p = (True, r')"
  then have "r' = rememberDisposition y p d" using Pair by (auto simp: registry_settle_def split: bool.splits)
  moreover have "AList.update k v (AList.delete k xs) = AList.delete k xs @ [(k, v)]" for k v and xs :: "(string \<times> disposition) list"
    by (induction xs) auto
  moreover have "pending_id p \<notin> fst ` set (drop n (AList.delete (pending_id p) ds))" for n and ds :: "(string \<times> disposition) list"
    using AList.delete_notin_dom[of "pending_id p" ds] by (auto dest: in_set_dropD)
  then have "map_of (drop n (AList.delete (pending_id p) ds)) (pending_id p) = None" for n and ds :: "(string \<times> disposition) list"
    by (simp add: map_of_eq_None_iff)
  ultimately show ?thesis
    by (simp add: staleDisposition_def rememberDisposition_def Let_def STALE_DISPOSITION_LIMIT_def map_add_Some_iff)
qed

section \<open>A consumed binding stays consumed\<close>

inductive consent_leads :: "(review_consent \<Rightarrow> string) \<Rightarrow> consent_world \<Rightarrow> consent_world \<Rightarrow> bool" for digest w where
  Here: "consent_leads digest w w"
| Further: "consent_leads digest w v \<Longrightarrow> fresh_action a v \<Longrightarrow> consent_leads digest w (consent_do digest a v)"

text \<open>The binding is held nowhere, and it is remembered as consumed unless as many others are remembered as there is room for.\<close>

definition remembered :: "string \<Rightarrow> (string \<times> disposition) list \<Rightarrow> bool" where
  "remembered b ds \<longleftrightarrow> distinct (map fst ds) \<and>
     (map_of ds b = Some Consumed \<or> map_of ds b = None \<and> length ds = STALE_DISPOSITION_LIMIT)"

definition spent_in :: "string \<Rightarrow> consent_registry \<Rightarrow> bool" where
  "spent_in b r \<longleftrightarrow> (\<forall>s. registry_lookup r s b = None) \<and> remembered b (staleDispositions r)"

definition spent :: "string \<Rightarrow> consent_world \<Rightarrow> bool" where
  "spent b w \<longleftrightarrow> b \<in> (pending_id \<circ> fst) ` set (opened w) \<and> spent_in b (consents w)"

lemma drop_lookup:
  assumes "distinct (map fst ds)"
  shows "map_of (drop n ds) b = map_of ds b \<or> map_of (drop n ds) b = None \<and> 0 < n"
proof (cases "b \<in> fst ` set (take n ds)")
  case True
  have "distinct (map fst (take n ds @ drop n ds))" using assms by simp
  then have "fst ` set (take n ds) \<inter> fst ` set (drop n ds) = {}" by (simp only: map_append distinct_append set_map)
  then have "b \<notin> fst ` set (drop n ds)" using True by blast
  moreover have "0 < n" using True by (cases n) simp_all
  ultimately show ?thesis by (simp add: map_of_eq_None_iff)
next
  case False
  then have "map_of (take n ds) b = None" by (simp add: map_of_eq_None_iff)
  then have "map_of (take n ds @ drop n ds) b = map_of (drop n ds) b"
    by (simp add: map_add_def del: append_take_drop_id split: option.split)
  then show ?thesis by simp
qed

lemma length_delete: "distinct (map fst ds) \<Longrightarrow> length ds \<le> Suc (length (AList.delete k ds))"
  by (induction ds) (auto simp: AList.delete_notin_dom image_iff)

lemma remembered_other:
  assumes "remembered b ds" and "k \<noteq> b" and "xs = AList.delete k ds @ [(k, d)]"
  shows "remembered b (drop (length xs - STALE_DISPOSITION_LIMIT) xs)"
proof -
  have ds: "distinct (map fst ds)" using assms(1) by (simp add: remembered_def)
  have dx: "distinct (map fst xs)"
    using AList.distinct_delete[OF ds, of k] AList.delete_notin_dom[of k ds] AList.dom_delete_subset[of k ds]
    by (auto simp: assms(3) AList.delete_eq)
  have mx: "map_of xs b = map_of ds b"
    using assms(2) by (simp add: assms(3) map_add_def AList.delete_conv' split: option.split)
  have lx: "length ds \<le> length xs" using length_delete[OF ds, of k] by (simp add: assms(3))
  let ?n = "length xs - STALE_DISPOSITION_LIMIT"
  have "distinct (map fst (drop ?n xs))" unfolding drop_map[symmetric] by (rule distinct_drop[OF dx])
  moreover have "map_of (drop ?n xs) b = map_of ds b \<or> map_of (drop ?n xs) b = None \<and> 0 < ?n"
    using drop_lookup[OF dx, of ?n b] by (simp add: mx)
  ultimately show ?thesis using assms(1) lx by (auto simp: remembered_def)
qed

lemma update_after_delete: "AList.update k v (AList.delete k xs) = AList.delete k xs @ [(k, v)]"
  by (induction xs) auto

lemma remember_spent: "spent_in b r \<Longrightarrow> pending_id p \<noteq> b \<Longrightarrow> spent_in b (rememberDisposition r p d)"
  using remembered_other[of b "staleDispositions r" "pending_id p"]
  by (simp add: spent_in_def) (simp add: rememberDisposition_def Let_def update_after_delete)

lemma remove_spent: "spent_in b r \<Longrightarrow> spent_in b (snd (registry_remove r s p))"
  using lookup_removed_sessions[where r = r and s = s and b = "pending_id p"]
  by (auto simp: spent_in_def registry_remove_def removed_sessions_def Let_def)

lemma settle_spent:
  assumes "spent_in b r"
  shows "spent_in b (snd (registry_settle d r s p))"
proof (cases "fst (registry_remove r s p)")
  case True
  then have "pending_id p \<noteq> b" using assms by (auto simp: registry_remove_def spent_in_def split: if_splits)
  then show ?thesis using remember_spent[OF remove_spent[OF assms, of s p], of p d] True
    by (auto simp: registry_settle_def split: prod.splits bool.splits)
next
  case False
  then show ?thesis using remove_spent[OF assms, of s p] by (auto simp: registry_settle_def split: prod.splits bool.splits)
qed

lemma add_spent: "spent_in b r \<Longrightarrow> pending_id p \<noteq> b \<Longrightarrow> spent_in b (registry_add r s p)"
  by (simp add: spent_in_def lookup_add) (simp add: registry_add_def)

lemma take_spent: "spent_in b r \<Longrightarrow> spent_in b (snd (registry_take r s))"
  by (auto simp: spent_in_def registry_take_def registry_lookup_def AList.delete_conv' split: option.splits)

text \<open>The primitive moves of the operations keep a spent binding spent.\<close>

lemma spent_moves:
  assumes "spent b w"
  shows "spent b (clear_timer w p)" and "spent b (cleanupCandidate w p)" and "spent b (w\<lparr>answers := xs\<rparr>)"
    and "spent b (w\<lparr>consent_log := es\<rparr>)" and "spent_in b r \<Longrightarrow> spent b (w\<lparr>consents := r\<rparr>)"
  using assms by (simp_all add: spent_def)

lemma discard_spent: "spent b w \<Longrightarrow> spent b (discardPendingReviewConsent s p w)"
  unfolding discardPendingReviewConsent_def registry_discard_def
  by (intro spent_moves(1,5) remove_spent) (simp_all add: spent_def)

lemma cleanupPending_spent: "spent b w \<Longrightarrow> spent b (cleanupPendingReviewConsent s p w)"
  unfolding cleanupPendingReviewConsent_def by (intro spent_moves(2) discard_spent)

lemma expire_spent:
  assumes "spent b w"
  shows "spent b (expirePendingReviewConsent s p w)"
proof -
  have "spent_in b (snd (registry_expire (consents w) s p))" using assms by (intro settle_spent) (simp add: spent_def)
  then show ?thesis using spent_moves(1)[OF assms, of p]
    by (auto simp: expirePendingReviewConsent_def Let_def spent_moves split: prod.splits bool.splits)
qed

lemma consume_spent:
  assumes "spent b w"
  shows "spent b (snd (consumePendingReviewConsent w s p))"
proof -
  have "spent_in b (snd (registry_consume (consents w) s p))" using assms by (intro settle_spent) (simp add: spent_def)
  then show ?thesis using assms
    by (auto simp: consumePendingReviewConsent_def spent_moves split: prod.splits bool.splits)
qed

lemma open_spent:
  assumes "spent b w" and "start_uuid c \<notin> (pending_id \<circ> fst) ` set (opened w)"
  shows "spent b (snd (open_consent digest c w))"
proof -
  let ?w = "fold (\<lambda>q w. if candidateToken q = start_token c then discardPendingReviewConsent (start_session c) q w else w)
    (registry_values (consents w) (start_session c)) w"
  have "spent b ?w" by (rule fold_keeps) (use assms(1) discard_spent in auto)
  moreover have "pending_id (new_consent digest c w) \<noteq> b"
    using assms by (auto simp: spent_def new_consent_def)
  ultimately have "spent_in b (registry_add (consents ?w) (start_session c) (new_consent digest c w))"
    by (intro add_spent) (simp_all add: spent_def)
  with \<open>spent b ?w\<close> show ?thesis
    using assms(1) by (auto simp: open_consent_def Let_def spent_def split: option.splits)
qed

lemma begin_spent:
  assumes "spent b w"
  shows "spent b (snd (begin_answer digest a w))"
proof (cases "registry_resolve (consents w) (answer_binding a)")
  case None
  then show ?thesis using assms by (simp add: begin_answer_def)
next
  case (Some x)
  obtain s p where x: "x = (s, p)" by (cases x)
  obtain g v where g: "consumePendingReviewConsent w s p = (g, v)" by (cases "consumePendingReviewConsent w s p")
  have v: "spent b v" using consume_spent[OF assms, of s p] by (simp add: g)
  then show ?thesis using assms expire_spent[OF assms] spent_moves(3)[OF v]
    by (cases g) (simp_all add: begin_answer_def Some x g)
qed

lemma act_spent:
  assumes "spent b w" and "fresh_action a w"
  shows "spent b (consent_do digest a w)"
proof (cases a)
  case (StartNeedsConsent c)
  then show ?thesis using assms by (simp add: consent_do_def fresh_action_def open_spent)
next
  case (Prune s now)
  have "spent b (pruneExpiredReviewConsents s now w)"
    unfolding pruneExpiredReviewConsents_def by (rule fold_keeps) (use assms(1) expire_spent in auto)
  then show ?thesis by (simp add: consent_do_def Prune)
next
  case (TimerFires i)
  then show ?thesis using assms(1) by (simp add: consent_do_def fire_timer_def expire_spent split: prod.split)
next
  case (AnswerBegins x)
  then show ?thesis using assms(1) by (simp add: consent_do_def begin_spent)
next
  case (AnswerGated i g)
  then show ?thesis using assms(1)
    by (auto simp: consent_do_def gate_answer_def Let_def intro!: cleanupPending_spent) (simp_all add: spent_def)
next
  case (AnswerEnds i e)
  then show ?thesis using assms(1)
    by (auto simp: consent_do_def finish_answer_def Let_def spent_moves)
next
  case (SessionEnds s)
  have "spent b (w\<lparr>consents := snd (registry_take (consents w) s)\<rparr>)"
    using assms(1) by (intro spent_moves(5) take_spent) (simp_all add: spent_def)
  then have "spent b (fold (cleanupPendingReviewConsent s) ps (w\<lparr>consents := snd (registry_take (consents w) s)\<rparr>))" for ps
    by (rule fold_keeps) (auto intro: cleanupPending_spent)
  then show ?thesis
    by (cases "registry_take (consents w) s") (simp add: consent_do_def SessionEnds cleanupAllPendingReviewConsents_def)
qed

lemma leads_spent: "consent_leads digest w v \<Longrightarrow> spent b w \<Longrightarrow> spent b v"
  by (induction rule: consent_leads.induct) (auto intro: act_spent)

lemma spent_answer:
  assumes "spent (answer_binding a) w" and "answer_given a \<in> {''granted'', ''declined''}" and "answer_binding a \<noteq> []"
  shows "begin_answer digest a w = (StaleBinding (staleDisposition (consents w) (answer_binding a)), w)"
proof -
  have "registry_resolve (consents w) (answer_binding a) = None"
    using assms(1) by (simp add: spent_def spent_in_def registry_resolve_def split: option.split)
  then show ?thesis using assms(2,3) by (auto simp: begin_answer_def)
qed

text \<open>
  C16: a binding can be answered once, and then never again. Where a binding is held, its deadline has not passed, the
  answer comes from its repository, its candidate still verifies and its question is unchanged, the answer proceeds;
  the binding is looked up by its id alone, so it plays no part which session gives the answer. Right after it the
  binding is remembered as consumed, and after every further history of starts, answers, timers, expiries and shutdowns
  it still resolves to nothing and every answer for it, whatever else the answer carries, changes nothing and is told
  that the binding was consumed or, once the 32 remembered dispositions are all those of other bindings, that it is
  unknown.
\<close>

theorem consent_answer_proceeds_once:
  assumes "consent_history digest w" and "registry_resolve (consents w) (answer_binding a) = Some (s, p)"
    and "answer_clock a < expiresAt p" and "answer_directory a = repositoryCwd p" and "answer_verify a p" and "answer_capable a"
    and "answer_given a \<in> {''granted'', ''declined''}" and "answer_binding a \<noteq> []" and "digest (pending_question p) = consentDigest p"
    and "w' = snd (begin_answer digest a w)" and "consent_leads digest w' v"
  shows "fst (begin_answer digest a w) = Proceeds
    \<and> staleDisposition (consents w') (answer_binding a) = Some Consumed
    \<and> registry_resolve (consents v) (answer_binding a) = None
    \<and> (\<forall>b. answer_binding b = answer_binding a \<longrightarrow> answer_given b \<in> {''granted'', ''declined''} \<longrightarrow>
         begin_answer digest b v = (StaleBinding (Some Consumed), v)
         \<or> begin_answer digest b v = (StaleBinding None, v) \<and> length (staleDispositions (consents v)) = 32)"
proof -
  have i: "consent_inv digest w" by (rule consent_history_inv[OF assms(1)])
  note o = resolve_opened[OF i assms(2)]
  note h = settle_held[OF consent_invD(2,6)[OF i] o(3), of Consumed]
  obtain r where r: "registry_consume (consents w) s p = (True, r)"
    using h(1) o(1,2) by (cases "registry_consume (consents w) s p") simp
  have b: "fst (begin_answer digest a w) = Proceeds \<and> consents w' = r \<and> opened w' = opened w"
    using assms(2-10) by (auto simp: begin_answer_def consumePendingReviewConsent_def r)
  have gone: "registry_lookup r t (answer_binding a) = None" for t using h(2)[of t "pending_id p"] o(2) by (simp add: r)
  have used: "staleDisposition r (answer_binding a) = Some Consumed" using consumed_is_remembered[OF r] o(2) by simp
  have "distinct (map fst (staleDispositions r))" using registry_ok_bounds(2)[OF h(3)] by (simp add: r)
  then have "spent (answer_binding a) w'"
    using gone used b o(2,3) by (force simp: spent_def spent_in_def remembered_def staleDisposition_def)
  then have v: "spent (answer_binding a) v" by (rule leads_spent[OF assms(11)])
  then have "registry_resolve (consents v) (answer_binding a) = None"
    by (simp add: spent_def spent_in_def registry_resolve_def split: option.split)
  moreover have "begin_answer digest x v = (StaleBinding (Some Consumed), v)
      \<or> begin_answer digest x v = (StaleBinding None, v) \<and> length (staleDispositions (consents v)) = 32"
    if "answer_binding x = answer_binding a" "answer_given x \<in> {''granted'', ''declined''}" for x
    using spent_answer[of x v digest] v that assms(8)
    by (auto simp: spent_def spent_in_def remembered_def staleDisposition_def STALE_DISPOSITION_LIMIT_def)
  ultimately show ?thesis using b used by blast
qed

section \<open>A history\<close>

definition sample_question :: review_consent where
  "sample_question = \<lparr>consent_target = ''t'', consent_projection = ''workspace'', consent_risk = ''high'', consent_files = 1,
     consent_lines = 2, headline = ''h'', consent_reason = ''r'', consent_value = ''v'', riskEvidence = [],
     choice_granted = \<lparr>choice_answer = ''granted'', choice_label = ''l'', choice_effect = ''e'', choice_invocation = ''i''\<rparr>,
     choice_declined = \<lparr>choice_answer = ''declined'', choice_label = ''l'', choice_effect = ''e'', choice_invocation = ''i''\<rparr>,
     offPath_note = ''n'', consent_agent = Some ''pi'', consent_raw = JNull\<rparr>"

definition sample_start :: consent_start where
  "sample_start = \<lparr>start_session = SessionId ''one'', start_repository = ''/r'', start_authority = ''/r'', start_token = ''view'',
     start_question = sample_question, start_uuid = ''u'', start_clock = (\<lambda>_. 0), start_now = 5\<rparr>"

definition sample_reply :: consent_answer where
  "sample_reply = \<lparr>answer_binding = ''u'', answer_given = ''granted'', answer_directory = ''/r'', answer_clock = 7,
     answer_verify = (\<lambda>_. True), answer_capable = True\<rparr>"

abbreviation "asked_world \<equiv> consent_do (\<lambda>_. ''d'') (StartNeedsConsent sample_start) no_consents"
abbreviation "answered_world \<equiv> consent_do (\<lambda>_. ''d'') (AnswerGated 0 False) (consent_do (\<lambda>_. ''d'') (AnswerBegins sample_reply) asked_world)"

lemma asked_world_reached: "consent_history (\<lambda>_. ''d'') asked_world"
  by (intro consent_history.intros) (simp add: fresh_action_def no_consents_def)

lemma answered_world_reached: "consent_history (\<lambda>_. ''d'') answered_world"
  by (intro consent_history.intros(2) asked_world_reached) (simp_all add: fresh_action_def)

theorem consent_is_one_shot_witness:
  "asked_ids (consent_log answered_world) = [''u''] \<and> distinct (asked_ids (consent_log answered_world))"
proof
  show "asked_ids (consent_log answered_world) = [''u'']" by code_simp
qed (use consent_is_one_shot[OF answered_world_reached] in blast)

theorem consent_registry_coherent_witness:
  "map_option fst (registry_resolve (consents asked_world) ''u'') = Some (SessionId ''one'')
    \<and> length (staleDispositions (consents asked_world)) \<le> 32"
proof
  show "map_option fst (registry_resolve (consents asked_world) ''u'') = Some (SessionId ''one'')" by code_simp
qed (use consent_registry_coherent[OF asked_world_reached] in blast)

theorem consent_answer_proceeds_once_witness:
  "fst (begin_answer (\<lambda>_. ''d'') sample_reply asked_world) = Proceeds
    \<and> registry_resolve (consents (consent_do (\<lambda>_. ''d'') (AnswerBegins sample_reply) asked_world)) ''u'' = None"
proof -
  have r: "registry_resolve (consents asked_world) (answer_binding sample_reply) = Some (SessionId ''one'', new_consent (\<lambda>_. ''d'') sample_start no_consents)"
    by code_simp
  have s: "answer_binding sample_reply = ''u''" by (simp add: sample_reply_def)
  have e: "consent_do (\<lambda>_. ''d'') (AnswerBegins sample_reply) asked_world = snd (begin_answer (\<lambda>_. ''d'') sample_reply asked_world)"
    by (simp add: consent_do_def)
  have "fst (begin_answer (\<lambda>_. ''d'') sample_reply asked_world) = Proceeds
    \<and> registry_resolve (consents (snd (begin_answer (\<lambda>_. ''d'') sample_reply asked_world))) (answer_binding sample_reply) = None"
    using consent_answer_proceeds_once[OF asked_world_reached r _ _ _ _ _ _ _ refl Here]
    by (simp add: sample_reply_def new_consent_def sample_start_def PENDING_REVIEW_CONSENT_TTL_MS_def)
  then show ?thesis unfolding s e .
qed

end
