(* ===== verification/CompletionQueue.thy ===== *)
theory CompletionQueue
  imports Prelude
begin

text \<open>
  The queue of finished subagent tasks (\<open>lib/agents-completion-delivery.ts\<close>): a completion is enqueued when its
  task settles, delivered at the next flush with a staleness decision, and dropped when the parent has already read the
  result. The code's sets are sets here; a task is anything with an id.
\<close>

definition STALE_COMPLETION_MS :: int where
  "STALE_COMPLETION_MS = 90000"

record 'a completion =
  completed_task :: 'a 
  completed_id :: string
  settledAt :: int

record 'a deliverable =
  delivered_task :: 'a 
  delivered_id :: string
  delivered_settledAt :: int
  stale :: bool

record 'a completion_queue =
  queue_pending :: "'a completion list"
  queue_consumed :: "string set"
  queue_delivered :: "string set"

definition createCompletionQueue :: "'a completion_queue" where
  "createCompletionQueue = \<lparr>queue_pending = [], queue_consumed = {}, queue_delivered = {}\<rparr>"

definition enqueue :: "'a completion \<Rightarrow> 'a completion_queue \<Rightarrow> 'a completion_queue" where
  "enqueue c q = (if completed_id c \<in> queue_consumed q \<or> completed_id c \<in> queue_delivered q
      \<or> completed_id c \<in> set (map completed_id (queue_pending q)) then q
    else q\<lparr>queue_pending := queue_pending q @ [c]\<rparr>)"

definition consume :: "string \<Rightarrow> 'a completion_queue \<Rightarrow> 'a completion_queue" where
  "consume b q = q\<lparr>queue_consumed := insert b (queue_consumed q)\<rparr>"

fun take_loop :: "int \<Rightarrow> string set \<Rightarrow> string set \<Rightarrow> 'a completion list \<Rightarrow> 'a deliverable list \<times> string set" where
  "take_loop now consumed delivered [] = ([], delivered)"
| "take_loop now consumed delivered (c # cs) =
     (if completed_id c \<in> consumed then take_loop now consumed delivered cs
      else case take_loop now consumed (insert (completed_id c) delivered) cs of (ds, s) \<Rightarrow>
        (\<lparr>delivered_task = completed_task c, delivered_id = completed_id c, delivered_settledAt = settledAt c,
          stale = (STALE_COMPLETION_MS \<le> now - settledAt c)\<rparr> # ds, s))"

definition takeDeliverable :: "int \<Rightarrow> 'a completion_queue \<Rightarrow> 'a deliverable list \<times> 'a completion_queue" where
  "takeDeliverable now q = (case take_loop now (queue_consumed q) (queue_delivered q) (queue_pending q) of (ds, s) \<Rightarrow>
     (ds, q\<lparr>queue_pending := [], queue_delivered := s\<rparr>))"

definition dropAll :: "'a completion_queue \<Rightarrow> 'a completion_queue" where
  "dropAll q = \<lparr>queue_pending = [], queue_consumed = {}, queue_delivered = {}\<rparr>"

section \<open>Histories\<close>

text \<open>What can happen between two \<open>dropAll\<close>: dropping everything is creating the queue anew.\<close>

datatype 'a queue_action = Enqueue "'a completion" | Consume string | Take int

lemma dropAll_restarts: "dropAll q = createCompletionQueue"
  by (simp add: dropAll_def createCompletionQueue_def)

fun queue_step :: "'a queue_action \<Rightarrow> 'a completion_queue \<Rightarrow> 'a deliverable list \<times> 'a completion_queue" where
  "queue_step (Enqueue c) q = ([], enqueue c q)"
| "queue_step (Consume b) q = ([], consume b q)"
| "queue_step (Take now) q = takeDeliverable now q"

fun queue_run :: "'a queue_action list \<Rightarrow> 'a completion_queue \<Rightarrow> 'a deliverable list \<times> 'a completion_queue" where
  "queue_run [] q = ([], q)"
| "queue_run (a # as) q = (case queue_step a q of (ds, q1) \<Rightarrow> (case queue_run as q1 of (es, q2) \<Rightarrow> (ds @ es, q2)))"

abbreviation "deliveries as q \<equiv> fst (queue_run as q)"
abbreviation "queue_after as q \<equiv> snd (queue_run as q)"

lemma queue_run_Cons [simp]:
  "deliveries (a # as) q = fst (queue_step a q) @ deliveries as (snd (queue_step a q))"
  "queue_after (a # as) q = queue_after as (snd (queue_step a q))"
  by (simp_all split: prod.splits)

declare queue_run.simps(2) [simp del]

lemma queue_run_append [simp]:
  "deliveries (as @ bs) q = deliveries as q @ deliveries bs (queue_after as q)"
  "queue_after (as @ bs) q = queue_after bs (queue_after as q)"
  by (induction as arbitrary: q) simp_all

text \<open>The loop is a filter.\<close>

lemma take_loop_eq:
  "take_loop now consumed delivered cs = (let live = filter (\<lambda>c. completed_id c \<notin> consumed) cs in
     (map (\<lambda>c. \<lparr>delivered_task = completed_task c, delivered_id = completed_id c, delivered_settledAt = settledAt c,
        stale = (STALE_COMPLETION_MS \<le> now - settledAt c)\<rparr>) live, delivered \<union> completed_id ` set live))"
  by (induction cs arbitrary: delivered) (auto simp: Let_def)

abbreviation "unread q \<equiv> filter (\<lambda>c. completed_id c \<notin> queue_consumed q) (queue_pending q)"

lemma take_parts:
  "map delivered_id (fst (takeDeliverable now q)) = map completed_id (unread q)"
  "queue_pending (snd (takeDeliverable now q)) = []"
  "queue_consumed (snd (takeDeliverable now q)) = queue_consumed q"
  "queue_delivered (snd (takeDeliverable now q)) = queue_delivered q \<union> completed_id ` set (unread q)"
  by (simp_all add: takeDeliverable_def take_loop_eq Let_def comp_def)

text \<open>Pending ids are distinct, and none was delivered before.\<close>

definition queue_ok :: "'a completion_queue \<Rightarrow> bool" where
  "queue_ok q \<longleftrightarrow> distinct (map completed_id (queue_pending q)) \<and> completed_id ` set (queue_pending q) \<inter> queue_delivered q = {}"

lemma step_ok: "queue_ok q \<Longrightarrow> queue_ok (snd (queue_step a q))"
  by (cases a) (auto simp: queue_ok_def enqueue_def consume_def take_parts)

lemma queue_run_ok: "queue_ok q \<Longrightarrow> queue_ok (queue_after as q)"
  by (induction as arbitrary: q) (simp_all add: step_ok)

lemma step_delivers:
  assumes "queue_ok q"
  shows "distinct (map delivered_id (fst (queue_step a q)))"
    and "queue_delivered (snd (queue_step a q)) = queue_delivered q \<union> delivered_id ` set (fst (queue_step a q))"
    and "delivered_id ` set (fst (queue_step a q)) \<inter> (queue_delivered q \<union> queue_consumed q) = {}"
    and "queue_consumed q \<subseteq> queue_consumed (snd (queue_step a q))"
proof -
  have i: "delivered_id ` set (fst (takeDeliverable now q)) = completed_id ` set (unread q)" for now
    using arg_cong[OF take_parts(1)[of now q], of set] by simp
  show "distinct (map delivered_id (fst (queue_step a q)))"
    using assms by (cases a) (simp_all add: take_parts(1) queue_ok_def distinct_map_filter)
  show "queue_delivered (snd (queue_step a q)) = queue_delivered q \<union> delivered_id ` set (fst (queue_step a q))"
    by (cases a) (simp_all add: enqueue_def consume_def take_parts i)
  show "delivered_id ` set (fst (queue_step a q)) \<inter> (queue_delivered q \<union> queue_consumed q) = {}"
    using assms by (cases a) (auto simp: i queue_ok_def)
  show "queue_consumed q \<subseteq> queue_consumed (snd (queue_step a q))"
    by (cases a) (auto simp: enqueue_def consume_def take_parts)
qed

lemma run_delivers:
  assumes "queue_ok q"
  shows "distinct (map delivered_id (deliveries as q))
    \<and> queue_delivered (queue_after as q) = queue_delivered q \<union> delivered_id ` set (deliveries as q)
    \<and> delivered_id ` set (deliveries as q) \<inter> (queue_delivered q \<union> queue_consumed q) = {}"
  using assms
proof (induction as arbitrary: q)
  case (Cons a as)
  note s = step_delivers[OF Cons.prems, of a]
  have "queue_ok (snd (queue_step a q))" by (rule step_ok[OF Cons.prems])
  from Cons.IH[OF this] s show ?case by auto
qed simp

text \<open>Nothing that was enqueued is lost: it is pending, delivered or consumed.\<close>

fun enqueued_ids :: "'a queue_action list \<Rightarrow> string list" where
  "enqueued_ids [] = []"
| "enqueued_ids (Enqueue c # as) = completed_id c # enqueued_ids as"
| "enqueued_ids (a # as) = enqueued_ids as"

definition accounted :: "'a completion_queue \<Rightarrow> string set" where
  "accounted q = completed_id ` set (queue_pending q) \<union> queue_delivered q \<union> queue_consumed q"

lemma accounted_step: "accounted q \<subseteq> accounted (snd (queue_step a q)) \<and> set (enqueued_ids [a]) \<subseteq> accounted (snd (queue_step a q))"
  by (cases a) (auto simp: accounted_def enqueue_def consume_def take_parts)

lemma accounted_run: "accounted q \<union> set (enqueued_ids as) \<subseteq> accounted (queue_after as q)"
proof (induction as arbitrary: q)
  case (Cons a as)
  have "set (enqueued_ids (a # as)) = set (enqueued_ids [a]) \<union> set (enqueued_ids as)" by (cases a) auto
  then show ?case using accounted_step[of q a] Cons.IH[of "snd (queue_step a q)"] by auto
qed simp

lemma new_queue: "queue_ok createCompletionQueue" "queue_delivered createCompletionQueue = {}" "queue_consumed createCompletionQueue = {}"
  by (simp_all add: queue_ok_def createCompletionQueue_def)

text \<open>
  C38: a completion is delivered once, or read by the parent instead. In every history of enqueues, reads and flushes since the
  queue was created or dropped, no id is delivered twice, an id that was consumed is never delivered afterwards, and
  once a history ends in a flush every id that was enqueued has been delivered or consumed; what is flushed is exactly
  what is pending and unread, in the order of settling, and stale exactly when 90 seconds have passed.
\<close>

theorem completion_delivered_once:
  "distinct (map delivered_id (deliveries as createCompletionQueue))
    \<and> b \<notin> delivered_id ` set (deliveries bs (queue_after (as @ [Consume b]) createCompletionQueue))
    \<and> set (enqueued_ids as) \<subseteq> delivered_id ` set (deliveries (as @ [Take now]) createCompletionQueue)
        \<union> queue_consumed (queue_after as createCompletionQueue)
    \<and> fst (takeDeliverable now q) = map (\<lambda>c. \<lparr>delivered_task = completed_task c, delivered_id = completed_id c,
        delivered_settledAt = settledAt c, stale = (90000 \<le> now - settledAt c)\<rparr>) (unread q)"
proof -
  let ?q = "queue_after as createCompletionQueue"
  let ?c = "queue_after (as @ [Consume b]) createCompletionQueue"
  have "b \<in> queue_consumed ?c" by (simp add: consume_def)
  moreover have "queue_ok ?c" by (rule queue_run_ok[OF new_queue(1)])
  ultimately have "b \<notin> delivered_id ` set (deliveries bs ?c)" using run_delivers by blast
  moreover have "set (enqueued_ids as) \<subseteq> delivered_id ` set (deliveries (as @ [Take now]) createCompletionQueue) \<union> queue_consumed ?q"
  proof -
    have t: "delivered_id ` set (fst (takeDeliverable now ?q)) = completed_id ` set (unread ?q)"
      using arg_cong[OF take_parts(1)[of now ?q], of set] by simp
    have d: "queue_delivered ?q = delivered_id ` set (deliveries as createCompletionQueue)"
      using run_delivers[OF new_queue(1), of as] by (simp add: new_queue(2))
    show ?thesis
    proof
      fix x assume "x \<in> set (enqueued_ids as)"
      then have "x \<in> accounted ?q" using accounted_run[of createCompletionQueue as] by blast
      then have "x \<in> completed_id ` set (unread ?q) \<or> x \<in> queue_delivered ?q \<or> x \<in> queue_consumed ?q"
        by (auto simp: accounted_def)
      then show "x \<in> delivered_id ` set (deliveries (as @ [Take now]) createCompletionQueue) \<union> queue_consumed ?q"
        unfolding t[symmetric] d by (auto simp: image_Un)
    qed
  qed
  ultimately show ?thesis
    using run_delivers[OF new_queue(1), of as]
    by (simp add: takeDeliverable_def take_loop_eq Let_def STALE_COMPLETION_MS_def)
qed

end
