(* ===== verification/SessionPermission.thy ===== *)
theory SessionPermission
  imports Prelude "HOL-Library.AList"
begin

text \<open>
  The standing review permission of a session (\<open>lib/review-session-standing-permission.ts\<close>): who may have one, and the
  process-wide registry of permissions with its revocation epochs. A session manager is an object and is
  compared by identity, a number here. A \<open>WeakMap\<close> and a \<open>Map\<close> are association lists, a \<open>Set\<close> of repositories a list.
  Running git and resolving symbolic links are arguments.
\<close>

section \<open>The identity of a session\<close>

record session_identity =
  sessionManager :: nat
  sessionId :: string
  worktreeRoot :: string
  repositoryIdentity :: string

text \<open>What the code reads of its context; \<open>None\<close> stands for a call that throws, and for a member that is absent.\<close>

record session_context =
  context_cwd :: string
  context_mode :: "string option"
  hasUI :: bool
  context_themes :: "nat option"
  context_manager :: "nat option"
  context_session :: "string option"

definition exactSessionId :: "session_context \<Rightarrow> string option" where
  "exactSessionId c = (case context_session c of Some s \<Rightarrow> if s \<noteq> [] then Some s else None | None \<Rightarrow> None)"

definition one_line :: "string \<Rightarrow> bool" where
  "one_line s \<longleftrightarrow> CHR 0x0A \<notin> set s \<and> CHR 0x0D \<notin> set s"

definition is_absolute :: "string \<Rightarrow> bool" where
  "is_absolute s \<longleftrightarrow> starts_with ''/'' s"

definition validAbsoluteGitPath :: "string \<Rightarrow> bool" where
  "validAbsoluteGitPath s \<longleftrightarrow> is_absolute s \<and> 0 < length s \<and> one_line s"

type_synonym git = "string \<Rightarrow> string list \<Rightarrow> string option"

definition resolveCanonicalGitWorktreeRoot :: "git \<Rightarrow> (string \<Rightarrow> string option) \<Rightarrow> string \<Rightarrow> string option" where
  "resolveCanonicalGitWorktreeRoot run realpath cwd =
     Option.bind (run ''git'' [''-C'', cwd, ''rev-parse'', ''--show-toplevel'']) (\<lambda>out.
       if validAbsoluteGitPath (trim out) then realpath (trim out) else None)"

definition canonicalRepositoryIdentity :: "host \<Rightarrow> string \<Rightarrow> string" where
  "canonicalRepositoryIdentity E s = ''sha256:'' @ sha256_hex E s"

text \<open>\<open>resolve(cwd, output)\<close> and \<open>realpath\<close>: an absolute output stands for itself.\<close>

definition resolveCanonicalGitRepositoryIdentity :: "host \<Rightarrow> git \<Rightarrow> (string \<Rightarrow> string \<Rightarrow> string) \<Rightarrow> (string \<Rightarrow> string option) \<Rightarrow> string \<Rightarrow> string option" where
  "resolveCanonicalGitRepositoryIdentity E run resolve realpath cwd =
     Option.bind (run ''git'' [''-C'', cwd, ''rev-parse'', ''--git-common-dir'']) (\<lambda>out. let s = trim out in
       if s = [] \<or> \<not>  one_line s then None else map_option (canonicalRepositoryIdentity E) (realpath (resolve cwd s)))"

definition hasInteractiveTui :: "session_context \<Rightarrow> bool" where
  "hasInteractiveTui c = (case context_mode c of Some m \<Rightarrow> m = ''tui''
     | None \<Rightarrow> (case context_themes c of Some n \<Rightarrow> 0 < n | None \<Rightarrow> False))"

definition captureReviewSessionIdentity :: "string option \<Rightarrow> (string \<Rightarrow> string option) \<Rightarrow> (string \<Rightarrow> string option) \<Rightarrow> session_context \<Rightarrow> session_identity option" where
  "captureReviewSessionIdentity child root repository c =
     (if child = Some ''1'' \<or> \<not>  hasUI c \<or> \<not>  hasInteractiveTui c then None
      else Option.bind (context_manager c) (\<lambda>m. Option.bind (exactSessionId c) (\<lambda>i.
        Option.bind (root (context_cwd c)) (\<lambda>w. Option.bind (repository (context_cwd c)) (\<lambda>r.
          Some \<lparr>sessionManager = m, sessionId = i, worktreeRoot = w, repositoryIdentity = r\<rparr>)))))"

definition sameReviewSessionIdentity :: "session_identity \<Rightarrow> session_identity \<Rightarrow> bool" where
  "sameReviewSessionIdentity a b \<longleftrightarrow> sessionManager a = sessionManager b \<and> sessionId a = sessionId b \<and> repositoryIdentity a = repositoryIdentity b"

section \<open>The registry\<close>

record permission_registry =
  permissions :: "(nat \<times> (string \<times> string list) list) list"
  revocationEpochs :: "(nat \<times> (string \<times> nat) list) list"

text \<open>The slot of the global object: empty, held by something else, or the registry.\<close>

datatype registry_slot = NoRegistry | ForeignRegistry | Registry permission_registry

definition registry :: "registry_slot \<Rightarrow> permission_registry option" where
  "registry g = (case g of NoRegistry \<Rightarrow> Some \<lparr>permissions = [], revocationEpochs = []\<rparr> | ForeignRegistry \<Rightarrow> None | Registry r \<Rightarrow> Some r)"

definition nested :: "(nat \<times> (string \<times> 'a ) list) list \<Rightarrow> nat \<Rightarrow> string \<Rightarrow> 'a option" where
  "nested xs k l = (case map_of xs k of None \<Rightarrow> None | Some ys \<Rightarrow> map_of ys l)"

definition epochFor :: "permission_registry \<Rightarrow> nat \<Rightarrow> string \<Rightarrow> nat" where
  "epochFor r m i = (case nested (revocationEpochs r) m i of None \<Rightarrow> 0 | Some n \<Rightarrow> n)"

definition inner :: "(nat \<times> (string \<times> 'a ) list) list \<Rightarrow> nat \<Rightarrow> (string \<times> 'a ) list" where
  "inner xs k = (case map_of xs k of None \<Rightarrow> [] | Some ys \<Rightarrow> ys)"

definition advanceEpoch :: "permission_registry \<Rightarrow> nat \<Rightarrow> string \<Rightarrow> permission_registry" where
  "advanceEpoch r m i = r\<lparr>revocationEpochs :=
     AList.update m (AList.update i (epochFor r m i + 1) (inner (revocationEpochs r) m)) (revocationEpochs r)\<rparr>"

definition reviewSessionPermissionEpoch :: "session_identity \<Rightarrow> registry_slot \<Rightarrow> nat option" where
  "reviewSessionPermissionEpoch x g = map_option (\<lambda>r. epochFor r (sessionManager x) (sessionId x)) (registry g)"

definition grantReviewSessionPermission :: "session_identity \<Rightarrow> nat option \<Rightarrow> registry_slot \<Rightarrow> bool \<times> registry_slot" where
  "grantReviewSessionPermission x expected g = (case registry g of
       None \<Rightarrow> (False, g)
     | Some r \<Rightarrow>
         if expected \<noteq> None \<and> Some (epochFor r (sessionManager x) (sessionId x)) \<noteq> expected then (False, Registry r)
         else let sessions = inner (permissions r) (sessionManager x); roots = (case map_of sessions (sessionId x) of None \<Rightarrow> [] | Some rs \<Rightarrow> rs)
           in (True, Registry (r\<lparr>permissions := AList.update (sessionManager x)
             (AList.update (sessionId x) (if repositoryIdentity x \<in> set roots then roots else roots @ [repositoryIdentity x]) sessions)
             (permissions r)\<rparr>)))"

definition hasReviewSessionPermission :: "session_identity \<Rightarrow> registry_slot \<Rightarrow> bool" where
  "hasReviewSessionPermission x g = (case registry g of None \<Rightarrow> False
     | Some r \<Rightarrow> (case nested (permissions r) (sessionManager x) (sessionId x) of None \<Rightarrow> False
         | Some roots \<Rightarrow> repositoryIdentity x \<in> set roots))"

definition put_sessions :: "nat \<Rightarrow> (string \<times> string list) list \<Rightarrow> permission_registry \<Rightarrow> permission_registry" where
  "put_sessions m sessions r = r\<lparr>permissions := (if sessions = [] then AList.delete m (permissions r) else AList.update m sessions (permissions r))\<rparr>"

definition revokeReviewSessionPermission :: "session_identity \<Rightarrow> registry_slot \<Rightarrow> bool \<times> registry_slot" where
  "revokeReviewSessionPermission x g = (case registry g of
       None \<Rightarrow> (False, g)
     | Some r \<Rightarrow> let r1 = advanceEpoch r (sessionManager x) (sessionId x) in
         (case nested (permissions r1) (sessionManager x) (sessionId x) of
            None \<Rightarrow> (False, Registry r1)
          | Some roots \<Rightarrow>
              let roots1 = removeAll (repositoryIdentity x) roots; sessions = inner (permissions r1) (sessionManager x) in
              (repositoryIdentity x \<in> set roots, Registry (put_sessions (sessionManager x)
                (if roots1 = [] then AList.delete (sessionId x) sessions else AList.update (sessionId x) roots1 sessions) r1))))"

definition revokeReviewSessionPermissionsForSession :: "nat \<Rightarrow> string \<Rightarrow> registry_slot \<Rightarrow> bool \<times> registry_slot" where
  "revokeReviewSessionPermissionsForSession m i g =
     (if i = [] then (False, g) else case registry g of
       None \<Rightarrow> (False, g)
     | Some r \<Rightarrow> let r1 = advanceEpoch r m i in
         (case map_of (permissions r1) m of
            None \<Rightarrow> (False, Registry r1)
          | Some sessions \<Rightarrow> (i \<in> fst ` set sessions, Registry (put_sessions m (AList.delete i sessions) r1))))"

section \<open>What the registry promises\<close>

text \<open>The contract: a set of (manager, session, repository) that may review, and a counter of revocations per session.\<close>

record permission_contract =
  allowed :: "(nat \<times> string \<times> string) set"
  revocations :: "nat \<times> string \<Rightarrow> nat"

datatype permission_action =
    Grant session_identity "nat option"
  | Revoke session_identity
  | RevokeSession nat string

fun permission_do :: "permission_action \<Rightarrow> registry_slot \<Rightarrow> bool \<times> registry_slot" where
  "permission_do (Grant x e) g = grantReviewSessionPermission x e g"
| "permission_do (Revoke x) g = revokeReviewSessionPermission x g"
| "permission_do (RevokeSession m i) g = revokeReviewSessionPermissionsForSession m i g"

definition triple :: "session_identity \<Rightarrow> nat \<times> string \<times> string" where
  "triple x = (sessionManager x, sessionId x, repositoryIdentity x)"

fun contract_do :: "permission_action \<Rightarrow> permission_contract \<Rightarrow> bool \<times> permission_contract" where
  "contract_do (Grant x e) c =
     (if e \<noteq> None \<and> e \<noteq> Some (revocations c (sessionManager x, sessionId x)) then (False, c)
      else (True, c\<lparr>allowed := insert (triple x) (allowed c)\<rparr>))"
| "contract_do (Revoke x) c = (triple x \<in> allowed c, c\<lparr>allowed := allowed c - {triple x},
     revocations := (revocations c)((sessionManager x, sessionId x) := revocations c (sessionManager x, sessionId x) + 1)\<rparr>)"
| "contract_do (RevokeSession m i) c =
     (if i = [] then (False, c)
      else (\<exists>t. (m, i, t) \<in> allowed c, c\<lparr>allowed := {(n, j, t). (n, j, t) \<in> allowed c \<and> (n, j) \<noteq> (m, i)},
        revocations := (revocations c)((m, i) := revocations c (m, i) + 1)\<rparr>))"

definition contract_of :: "permission_registry \<Rightarrow> permission_contract" where
  "contract_of r = \<lparr>allowed = {(m, i, t). \<exists>ts. nested (permissions r) m i = Some ts \<and> t \<in> set ts},
     revocations = (\<lambda>(m, i). epochFor r m i)\<rparr>"

definition no_empty_set :: "permission_registry \<Rightarrow> bool" where
  "no_empty_set r \<longleftrightarrow> (\<forall>m i ts. nested (permissions r) m i = Some ts \<longrightarrow> ts \<noteq> [])"

section \<open>The registry implements it\<close>

lemma nested_inner: "nested xs k l = map_of (inner xs k) l"
  by (simp add: nested_def inner_def split: option.splits)

lemma nested_update: "nested (AList.update k ys xs) m i = (if m = k then map_of ys i else nested xs m i)"
  by (simp add: nested_def AList.update_conv')

lemma nested_delete: "nested (AList.delete k xs) m i = (if m = k then None else nested xs m i)"
  by (simp add: nested_def AList.delete_conv')

lemma nested_put: "nested (permissions (put_sessions k ys r)) m i = (if m = k then map_of ys i else nested (permissions r) m i)"
  by (simp add: put_sessions_def nested_update nested_delete)

lemma epoch_advance: "epochFor (advanceEpoch r m i) n j = (if n = m \<and> j = i then epochFor r m i + 1 else epochFor r n j)"
  by (simp add: epochFor_def advanceEpoch_def nested_update nested_inner[symmetric] AList.update_conv')

lemma registry_fields [simp]:
  "permissions (advanceEpoch r m i) = permissions r"
  "revocationEpochs (put_sessions m ys r) = revocationEpochs r"
  "epochFor (put_sessions m ys r) n j = epochFor r n j"
  "epochFor (r\<lparr>permissions := ps\<rparr>) n j = epochFor r n j"
  by (simp_all add: advanceEpoch_def put_sessions_def epochFor_def)

definition implements :: "bool \<times> registry_slot \<Rightarrow> bool \<times> permission_contract \<Rightarrow> bool" where
  "implements x c \<longleftrightarrow> fst x = fst c \<and> (\<exists>r. registry (snd x) = Some r \<and> contract_of r = snd c \<and> no_empty_set r)"

lemma contract_eqI:
  assumes "\<And>m i t. (\<exists>ts. nested (permissions r) m i = Some ts \<and> t \<in> set ts) \<longleftrightarrow> (m, i, t) \<in> allowed c"
    and "\<And>m i. epochFor r m i = revocations c (m, i)"
  shows "contract_of r = c"
  using assms by (cases c) (auto simp: contract_of_def fun_eq_iff)

lemma registry_Registry [simp]: "registry (Registry r) = Some r"
  by (simp add: registry_def)

lemma implementsI:
  assumes "contract_of r = snd c" and "no_empty_set r" and "b = fst c"
  shows "implements (b, Registry r) c"
  using assms by (simp add: implements_def)

lemma grant_implements:
  assumes "registry g = Some r" and "no_empty_set r"
  shows "implements (grantReviewSessionPermission x e g) (contract_do (Grant x e) (contract_of r))"
proof (cases "e \<noteq> None \<and> e \<noteq> Some (epochFor r (sessionManager x) (sessionId x))")
  case True
  then show ?thesis using assms by (auto simp: implements_def grantReviewSessionPermission_def contract_of_def)
next
  case False
  let ?s = "inner (permissions r) (sessionManager x)"
  let ?o = "case map_of ?s (sessionId x) of None \<Rightarrow> [] | Some rs \<Rightarrow> rs"
  let ?n = "if repositoryIdentity x \<in> set ?o then ?o else ?o @ [repositoryIdentity x]"
  let ?r = "r\<lparr>permissions := AList.update (sessionManager x) (AList.update (sessionId x) ?n ?s) (permissions r)\<rparr>"
  have g: "grantReviewSessionPermission x e g = (True, Registry ?r)"
    using False assms(1) by (auto simp: grantReviewSessionPermission_def Let_def)
  have s: "set ?n = insert (repositoryIdentity x) (set ?o)" by auto
  have n: "nested (permissions ?r) m i = (if m = sessionManager x \<and> i = sessionId x then Some ?n else nested (permissions r) m i)" for m i
    by (simp add: nested_update AList.update_conv' nested_inner[symmetric])
  have o: "t \<in> set ?o \<longleftrightarrow> (\<exists>ts. nested (permissions r) (sessionManager x) (sessionId x) = Some ts \<and> t \<in> set ts)" for t
    unfolding nested_inner by (cases "map_of ?s (sessionId x)") auto
  have "contract_of ?r = snd (contract_do (Grant x e) (contract_of r))"
  proof (rule contract_eqI)
    fix m i t
    show "(\<exists>ts. nested (permissions ?r) m i = Some ts \<and> t \<in> set ts) \<longleftrightarrow> (m, i, t) \<in> allowed (snd (contract_do (Grant x e) (contract_of r)))"
      using False o[of t] unfolding n by (auto simp: s contract_of_def triple_def)
  qed (use False in \<open>auto simp: contract_of_def\<close>)
  moreover have "no_empty_set ?r" using assms(2) s unfolding no_empty_set_def n by (metis insert_not_empty option.inject set_empty)
  moreover have "True = fst (contract_do (Grant x e) (contract_of r))" using False by (auto simp: contract_of_def)
  ultimately show ?thesis unfolding g by (rule implementsI)
qed

lemma revoke_implements:
  assumes "registry g = Some r" and "no_empty_set r"
  shows "implements (revokeReviewSessionPermission x g) (contract_do (Revoke x) (contract_of r))"
proof (cases "nested (permissions r) (sessionManager x) (sessionId x)")
  case None
  have "contract_of (advanceEpoch r (sessionManager x) (sessionId x)) = snd (contract_do (Revoke x) (contract_of r))"
    by (rule contract_eqI) (use None in \<open>auto simp: contract_of_def triple_def epoch_advance\<close>)
  then show ?thesis using assms None
    by (auto simp: implements_def revokeReviewSessionPermission_def Let_def contract_of_def triple_def no_empty_set_def)
next
  case (Some ts)
  let ?r1 = "advanceEpoch r (sessionManager x) (sessionId x)"
  let ?t = "removeAll (repositoryIdentity x) ts"
  let ?s = "inner (permissions r) (sessionManager x)"
  let ?r = "put_sessions (sessionManager x) (if ?t = [] then AList.delete (sessionId x) ?s else AList.update (sessionId x) ?t ?s) ?r1"
  have g: "revokeReviewSessionPermission x g = (repositoryIdentity x \<in> set ts, Registry ?r)"
    using Some assms(1) by (simp add: revokeReviewSessionPermission_def Let_def)
  have n: "nested (permissions ?r) m i = (if m = sessionManager x \<and> i = sessionId x then (if ?t = [] then None else Some ?t)
      else nested (permissions r) m i)" for m i
    by (simp add: nested_put AList.update_conv' AList.delete_conv' nested_inner[symmetric])
  have "contract_of ?r = snd (contract_do (Revoke x) (contract_of r))"
  proof (rule contract_eqI)
    fix m i t
    have t: "(\<exists>us. (if ?t = [] then None else Some ?t) = Some us \<and> t \<in> set us) \<longleftrightarrow> t \<in> set ts \<and> t \<noteq> repositoryIdentity x"
      using set_removeAll[of "repositoryIdentity x" ts] by (cases "?t = []") auto
    show "(\<exists>us. nested (permissions ?r) m i = Some us \<and> t \<in> set us) \<longleftrightarrow> (m, i, t) \<in> allowed (snd (contract_do (Revoke x) (contract_of r)))"
    proof (cases "m = sessionManager x \<and> i = sessionId x")
      case True
      then show ?thesis using Some t unfolding n by (simp add: contract_of_def triple_def)
    next
      case False
      then show ?thesis unfolding n by (auto simp: contract_of_def triple_def)
    qed
  qed (auto simp: contract_of_def epoch_advance)
  moreover have "no_empty_set ?r" using assms(2) unfolding no_empty_set_def n by (auto split: if_splits)
  moreover have "(repositoryIdentity x \<in> set ts) = fst (contract_do (Revoke x) (contract_of r))"
    using Some by (simp add: contract_of_def triple_def)
  ultimately show ?thesis unfolding g by (rule implementsI)
qed

lemma revoke_session_implements:
  assumes "registry g = Some r" and "no_empty_set r"
  shows "implements (revokeReviewSessionPermissionsForSession m i g) (contract_do (RevokeSession m i) (contract_of r))"
proof (cases "i = []")
  case True
  then show ?thesis using assms by (simp add: implements_def revokeReviewSessionPermissionsForSession_def)
next
  case False
  note i = False
  show ?thesis
  proof (cases "map_of (permissions r) m")
    case None
    have "contract_of (advanceEpoch r m i) = snd (contract_do (RevokeSession m i) (contract_of r))"
      by (rule contract_eqI) (use None i in \<open>auto simp: contract_of_def epoch_advance nested_def\<close>)
    then show ?thesis using assms None i
      by (auto simp: implements_def revokeReviewSessionPermissionsForSession_def Let_def contract_of_def no_empty_set_def nested_def)
  next
    case (Some ss)
    let ?r = "put_sessions m (AList.delete i ss) (advanceEpoch r m i)"
    have g: "revokeReviewSessionPermissionsForSession m i g = (i \<in> fst ` set ss, Registry ?r)"
      using Some i assms(1) by (simp add: revokeReviewSessionPermissionsForSession_def Let_def)
    have n: "nested (permissions ?r) n j = (if n = m \<and> j = i then None else nested (permissions r) n j)" for n j
    proof -
      have "nested (permissions r) m k = map_of ss k" for k using Some by (simp add: nested_def)
      then show ?thesis by (simp add: nested_put AList.delete_conv')
    qed
    have "contract_of ?r = snd (contract_do (RevokeSession m i) (contract_of r))"
      by (rule contract_eqI) (use i in \<open>auto simp: n contract_of_def epoch_advance\<close>)
    moreover have "no_empty_set ?r" using assms(2) unfolding no_empty_set_def n by auto
    moreover have "i \<in> fst ` set ss \<longleftrightarrow> (\<exists>t. (m, i, t) \<in> allowed (contract_of r))"
    proof -
      have "i \<in> fst ` set ss \<longleftrightarrow> (\<exists>ts. nested (permissions r) m i = Some ts)"
        using Some map_of_eq_None_iff[of ss i] by (auto simp: nested_def)
      also have "\<dots> \<longleftrightarrow> (\<exists>t. (m, i, t) \<in> allowed (contract_of r))"
        using assms(2) by (fastforce simp: contract_of_def no_empty_set_def neq_Nil_conv)
      finally show ?thesis .
    qed
    then have "(i \<in> fst ` set ss) = fst (contract_do (RevokeSession m i) (contract_of r))" using i by simp
    ultimately show ?thesis unfolding g by (intro implementsI)
  qed
qed

lemma action_implements:
  assumes "registry g = Some r" and "no_empty_set r"
  shows "implements (permission_do a g) (contract_do a (contract_of r))"
  by (cases a) (simp_all only: permission_do.simps grant_implements[OF assms] revoke_implements[OF assms] revoke_session_implements[OF assms])

fun run_permissions :: "permission_action list \<Rightarrow> registry_slot \<Rightarrow> bool list \<times> registry_slot" where
  "run_permissions [] g = ([], g)"
| "run_permissions (a # as) g = (case permission_do a g of (b, g1) \<Rightarrow> (case run_permissions as g1 of (bs, g2) \<Rightarrow> (b # bs, g2)))"

fun run_contract :: "permission_action list \<Rightarrow> permission_contract \<Rightarrow> bool list \<times> permission_contract" where
  "run_contract [] c = ([], c)"
| "run_contract (a # as) c = (case contract_do a c of (b, c1) \<Rightarrow> (case run_contract as c1 of (bs, c2) \<Rightarrow> (b # bs, c2)))"

lemma run_Cons [simp]:
  "fst (run_permissions (a # as) g) = fst (permission_do a g) # fst (run_permissions as (snd (permission_do a g)))"
  "snd (run_permissions (a # as) g) = snd (run_permissions as (snd (permission_do a g)))"
  "fst (run_contract (a # as) c) = fst (contract_do a c) # fst (run_contract as (snd (contract_do a c)))"
  "snd (run_contract (a # as) c) = snd (run_contract as (snd (contract_do a c)))"
  by (simp_all split: prod.splits)

declare run_permissions.simps(2) [simp del] run_contract.simps(2) [simp del]

definition no_permissions :: permission_contract where
  "no_permissions = \<lparr>allowed = {}, revocations = (\<lambda>_. 0)\<rparr>"

lemma run_implements:
  assumes "registry g = Some r" and "no_empty_set r"
  shows "fst (run_permissions as g) = fst (run_contract as (contract_of r))
    \<and> (\<exists>r'. registry (snd (run_permissions as g)) = Some r' \<and> contract_of r' = snd (run_contract as (contract_of r)) \<and> no_empty_set r')"
  using assms
proof (induction as arbitrary: g r)
  case (Cons a as)
  obtain b g1 where p: "permission_do a g = (b, g1)" by (cases "permission_do a g")
  obtain r1 where r1: "registry g1 = Some r1" "no_empty_set r1" "contract_do a (contract_of r) = (b, contract_of r1)"
    using action_implements[OF Cons.prems, of a] by (cases "contract_do a (contract_of r)") (auto simp: implements_def p)
  from Cons.IH[OF r1(1,2)] show ?case by (simp add: p r1(3))
qed auto

lemma has_contract: "registry g = Some r \<Longrightarrow> hasReviewSessionPermission x g \<longleftrightarrow> triple x \<in> allowed (contract_of r)"
  by (auto simp: hasReviewSessionPermission_def contract_of_def triple_def split: option.splits)

lemma no_registry_contract: "registry NoRegistry = Some \<lparr>permissions = [], revocationEpochs = []\<rparr>"
    "contract_of \<lparr>permissions = [], revocationEpochs = []\<rparr> = no_permissions" "no_empty_set \<lparr>permissions = [], revocationEpochs = []\<rparr>"
  by (simp_all add: registry_def contract_of_def no_permissions_def nested_def epochFor_def no_empty_set_def fun_eq_iff)

text \<open>
  C34: the permission registry is a set of grants with a revocation counter. For every sequence of grants and
  revocations in a process that starts without a registry, every call returns what the contract returns, and a
  session has permission for a repository exactly when the contract allows that manager, session and repository: a grant counts for
  every worktree of the repository, only for it, and only until it or its session is revoked.
\<close>

theorem permission_registry_implements_contract:
  "fst (run_permissions as NoRegistry) = fst (run_contract as no_permissions)
    \<and> hasReviewSessionPermission x (snd (run_permissions as NoRegistry)) = (triple x \<in> allowed (snd (run_contract as no_permissions)))"
  using run_implements[OF no_registry_contract(1,3), of as] has_contract[of "snd (run_permissions as NoRegistry)"]
  by (auto simp: no_registry_contract(2))

section \<open>A revocation outruns a grant that was asked for before it\<close>

definition revokes :: "permission_action \<Rightarrow> nat \<Rightarrow> string \<Rightarrow> bool" where
  "revokes a m i = (case a of Grant x e \<Rightarrow> False | Revoke x \<Rightarrow> sessionManager x = m \<and> sessionId x = i
     | RevokeSession n j \<Rightarrow> n = m \<and> j = i \<and> i \<noteq> [])"

lemma contract_epoch: "revocations (snd (contract_do a c)) (m, i) = revocations c (m, i) + (if revokes a m i then 1 else 0)"
  by (cases a) (auto simp: revokes_def)

lemma run_contract_epoch:
  "revocations (snd (run_contract as c)) (m, i) = revocations c (m, i) + length (filter (\<lambda>a. revokes a m i) as)"
proof (induction as arbitrary: c)
  case (Cons a as)
  then show ?case using contract_epoch[of a c m i] by simp
qed simp

text \<open>
  C35: a revocation outruns a grant that was asked for before it. When the epoch of a session was read, and afterwards,
  among any other calls, the session's permission or the session itself was revoked, a grant with that epoch is refused
  and changes nothing.
\<close>

theorem grant_after_revocation_refused:
  assumes "registry g = Some r" and "no_empty_set r" and "reviewSessionPermissionEpoch x g = Some e"
    and "a \<in> set as" and "revokes a (sessionManager x) (sessionId x)"
  shows "fst (grantReviewSessionPermission x (Some e) (snd (run_permissions as g))) = False
    \<and> hasReviewSessionPermission y (snd (grantReviewSessionPermission x (Some e) (snd (run_permissions as g))))
      = hasReviewSessionPermission y (snd (run_permissions as g))"
proof -
  obtain r' where r': "registry (snd (run_permissions as g)) = Some r'" "contract_of r' = snd (run_contract as (contract_of r))"
    using run_implements[OF assms(1,2), of as] by blast
  have "0 < length (filter (\<lambda>a. revokes a (sessionManager x) (sessionId x)) as)"
    using assms(4,5) by (auto simp: filter_empty_conv)
  then have "epochFor r' (sessionManager x) (sessionId x) \<noteq> epochFor r (sessionManager x) (sessionId x)"
    using run_contract_epoch[of as "contract_of r" "sessionManager x" "sessionId x"]
    by (simp add: r'(2)[symmetric]) (simp add: contract_of_def)
  moreover have "e = epochFor r (sessionManager x) (sessionId x)"
    using assms(1,3) by (simp add: reviewSessionPermissionEpoch_def)
  ultimately show ?thesis using r'(1) by (simp add: grantReviewSessionPermission_def hasReviewSessionPermission_def)
qed

definition sample_session :: session_identity where
  "sample_session = \<lparr>sessionManager = 1, sessionId = ''s'', worktreeRoot = ''/w'', repositoryIdentity = ''sha256:1''\<rparr>"

theorem grant_after_revocation_refused_witness:
  "fst (grantReviewSessionPermission sample_session (Some 0) (snd (run_permissions [Grant sample_session None, Revoke sample_session] NoRegistry))) = False"
  by (rule grant_after_revocation_refused[OF no_registry_contract(1,3), of _ _ "Revoke sample_session", THEN conjunct1])
    (simp_all add: reviewSessionPermissionEpoch_def registry_def epochFor_def nested_def revokes_def sample_session_def)

end
