(* ===== verification/ChildMessaging.thy ===== *)
theory ChildMessaging
  imports Canonical "HOL-Library.Word"
begin

text \<open>
  The channel between a child agent and its parent (\<open>lib/agents-messaging.ts\<close>): frames with a correlation id and a
  bounded, well-formed text, and the child's messenger, which sends notifications and queries and settles each
  when an acknowledgement, a reply, a timeout, a failure or the end of the channel comes first. A text is a list of 16-bit
  code units; keys, kinds and ids are ASCII.
\<close>

section \<open>Text\<close>

type_synonym code_unit = "16 word"
type_synonym text16 = "code_unit list"

definition high_surrogate :: "code_unit \<Rightarrow> bool" where
  "high_surrogate u \<longleftrightarrow> 0xD800 \<le> u \<and> u \<le> 0xDBFF"

definition low_surrogate :: "code_unit \<Rightarrow> bool" where
  "low_surrogate u \<longleftrightarrow> 0xDC00 \<le> u \<and> u \<le> 0xDFFF"

fun wellFormedUnicode :: "text16 \<Rightarrow> bool" where
  "wellFormedUnicode [] = True"
| "wellFormedUnicode [u] = (\<not>  high_surrogate u \<and> \<not>  low_surrogate u)"
| "wellFormedUnicode (u # v # us) =
     (if high_surrogate u then low_surrogate v \<and> wellFormedUnicode us
      else \<not>  low_surrogate u \<and> wellFormedUnicode (v # us))"

text \<open>\<open>Buffer.byteLength(value, "utf8")\<close>: a surrogate on its own becomes the three bytes of U+FFFD.\<close>

definition unit_bytes :: "code_unit \<Rightarrow> nat" where
  "unit_bytes u = (if u < 0x80 then 1 else if u < 0x800 then 2 else 3)"

fun byteLength :: "text16 \<Rightarrow> nat" where
  "byteLength [] = 0"
| "byteLength [u] = unit_bytes u"
| "byteLength (u # v # us) = (if high_surrogate u \<and> low_surrogate v then 4 + byteLength us else unit_bytes u + byteLength (v # us))"

definition CHILD_MESSAGE_MAX_BYTES :: nat where "CHILD_MESSAGE_MAX_BYTES = 8 * 1024"
definition CHILD_ACK_ERROR_MAX_BYTES :: nat where "CHILD_ACK_ERROR_MAX_BYTES = 256"
definition CHILD_QUERY_ERROR_MAX_BYTES :: nat where "CHILD_QUERY_ERROR_MAX_BYTES = 256"
definition CHILD_MESSAGE_MAX_INFLIGHT :: nat where "CHILD_MESSAGE_MAX_INFLIGHT = 8"
definition CHILD_QUERY_MAX_INFLIGHT :: nat where "CHILD_QUERY_MAX_INFLIGHT = 4"
definition MAX_SAFE_INTEGER :: nat where "MAX_SAFE_INTEGER = 9007199254740991"

section \<open>Frames\<close>

text \<open>The values a channel delivers, as far as the code looks at them.\<close>

datatype ipc_value = IpcText text16 | IpcBool bool | IpcObject "(string \<times> ipc_value) list" | IpcOther | IpcUndefined

definition ipc_member :: "string \<Rightarrow> ipc_value \<Rightarrow> ipc_value" where
  "ipc_member k v = (case v of IpcObject kvs \<Rightarrow> (case map_of kvs k of None \<Rightarrow> IpcUndefined | Some x \<Rightarrow> x) | _ \<Rightarrow> IpcUndefined)"

definition ipc_record :: "ipc_value \<Rightarrow> bool" where
  "ipc_record v = (case v of IpcObject _ \<Rightarrow> True | _ \<Rightarrow> False)"

definition ipc_exact :: "string list \<Rightarrow> ipc_value \<Rightarrow> bool" where
  "ipc_exact keys v = (case v of IpcObject kvs \<Rightarrow> list_all (\<lambda>(k, x). k \<in> set keys) kvs | _ \<Rightarrow> True)"

definition units_of :: "string \<Rightarrow> text16" where
  "units_of s = map (\<lambda>c. word_of_nat (of_char c)) s"

definition ascii_of :: "text16 \<Rightarrow> string option" where
  "ascii_of t = (if list_all (\<lambda>u. u < 128) t then Some (map (\<lambda>u. char_of (unat u)) t) else None)"

definition boundedText :: "nat \<Rightarrow> ipc_value \<Rightarrow> text16 option" where
  "boundedText mx v = (case v of IpcText t \<Rightarrow> if wellFormedUnicode t \<and> byteLength t \<le> mx then Some t else None | _ \<Rightarrow> None)"

text \<open>\<open>^n[1-9]\d{0,15}$\<close> with a safe integer behind the letter.\<close>

definition correlation :: "char \<Rightarrow> string \<Rightarrow> bool" where
  "correlation prefix s \<longleftrightarrow> (case s of [] \<Rightarrow> False | c # ds \<Rightarrow> c = prefix \<and> ds \<noteq> [] \<and> hd ds \<noteq> CHR ''0'' \<and> length ds \<le> 16
     \<and> list_all is_digit ds \<and> 0 < digits_value ds \<and> digits_value ds \<le> MAX_SAFE_INTEGER)"

definition validCorrelation :: "char \<Rightarrow> ipc_value \<Rightarrow> string option" where
  "validCorrelation prefix v = (case v of
       IpcText t \<Rightarrow> (case ascii_of t of Some s \<Rightarrow> if correlation prefix s then Some s else None | None \<Rightarrow> None)
     | _ \<Rightarrow> None)"

abbreviation "validChildId \<equiv> validCorrelation CHR ''n''"
abbreviation "validChildQueryId \<equiv> validCorrelation CHR ''q''"
abbreviation "validChildMessage \<equiv> boundedText CHILD_MESSAGE_MAX_BYTES"

datatype frame_kind = NotificationFrame | QueryFrame

record child_frame =
  frame_id :: string
  frame_kind :: frame_kind
  frame_message :: text16

definition ipc_kind :: "ipc_value \<Rightarrow> frame_kind option" where
  "ipc_kind v = (if v = IpcText (units_of ''notification'') then Some NotificationFrame
     else if v = IpcText (units_of ''query'') then Some QueryFrame else None)"

text \<open>A refused frame is an error with the id it can be answered under, when it has one.\<close>

definition parseChildFrame :: "ipc_value \<Rightarrow> (string \<times> string option) + child_frame" where
  "parseChildFrame v =
     (if \<not>  ipc_record v then Inl (''invalid child IPC frame'', None)
      else let i = (case validChildQueryId (ipc_member ''id'' v) of Some s \<Rightarrow> Some s | None \<Rightarrow> validChildId (ipc_member ''id'' v)) in
        if \<not>  ipc_exact [''id'', ''kind'', ''message''] v then Inl (''invalid child IPC frame'', i)
        else case i of None \<Rightarrow> Inl (''invalid child IPC correlation'', None)
        | Some s \<Rightarrow> (case ipc_kind (ipc_member ''kind'' v) of
            None \<Rightarrow> Inl (''unsupported child IPC kind'', i)
          | Some k \<Rightarrow>
              if \<not>  correlation (if k = NotificationFrame then CHR ''n'' else CHR ''q'') s then Inl (''invalid child IPC correlation'', i)
              else (case validChildMessage (ipc_member ''message'' v) of
                  None \<Rightarrow> Inl (''invalid child IPC message'', i)
                | Some t \<Rightarrow> Inr \<lparr>frame_id = s, frame_kind = k, frame_message = t\<rparr>)))"

definition parseAck :: "ipc_value \<Rightarrow> (string \<times> bool \<times> text16 option) option" where
  "parseAck v = (if \<not>  ipc_record v \<or> \<not>  ipc_exact [''id'', ''kind'', ''accepted'', ''error''] v then None
     else case (validChildId (ipc_member ''id'' v), ipc_member ''accepted'' v) of
       (Some s, IpcBool b) \<Rightarrow>
         let e = ipc_member ''error'' v in
         if ipc_member ''kind'' v \<noteq> IpcText (units_of ''ack'') then None
         else if b \<and> e \<noteq> IpcUndefined then None
         else if e = IpcUndefined then Some (s, b, None)
         else (case boundedText CHILD_ACK_ERROR_MAX_BYTES e of None \<Rightarrow> None | Some t \<Rightarrow> Some (s, b, Some t))
     | _ \<Rightarrow> None)"

text \<open>A reply is a message (\<open>Inr\<close>) or an error (\<open>Inl\<close>).\<close>

definition parseReply :: "ipc_value \<Rightarrow> (string \<times> (text16 + text16)) option" where
  "parseReply v = (if \<not>  ipc_record v \<or> ipc_member ''kind'' v \<noteq> IpcText (units_of ''reply'') then None
     else case validChildQueryId (ipc_member ''id'' v) of
       None \<Rightarrow> None
     | Some s \<Rightarrow>
         (case (if ipc_exact [''id'', ''kind'', ''message''] v then validChildMessage (ipc_member ''message'' v) else None) of
            Some t \<Rightarrow> Some (s, Inr t)
          | None \<Rightarrow> (case (if ipc_exact [''id'', ''kind'', ''error''] v then boundedText CHILD_QUERY_ERROR_MAX_BYTES (ipc_member ''error'' v) else None) of
              Some t \<Rightarrow> Some (s, Inl t)
            | None \<Rightarrow> None)))"

section \<open>The messenger\<close>

datatype settlement = Resolved | Answered text16 | Rejected text16

text \<open>
  \<open>pendings\<close> and \<open>queries\<close> are the ids in flight in the order they were sent; \<open>settled\<close> is what the promises saw, \<open>sent\<close>
  the frames handed to the endpoint.
\<close>

record messenger =
  pendings :: "string list"
  queries :: "string list"
  nextId :: nat
  nextQueryId :: nat
  messenger_closed :: bool
  settled :: "(string \<times> settlement) list"
  sent :: "ipc_value list"

definition new_messenger :: messenger where
  "new_messenger = \<lparr>pendings = [], queries = [], nextId = 0, nextQueryId = 0, messenger_closed = False, settled = [], sent = []\<rparr>"

definition settle_pending :: "string \<Rightarrow> settlement \<Rightarrow> messenger \<Rightarrow> messenger" where
  "settle_pending i x m = (if i \<notin> set (pendings m) then m
     else m\<lparr>pendings := remove1 i (pendings m), settled := settled m @ [(i, x)]\<rparr>)"

definition settle_query :: "string \<Rightarrow> settlement \<Rightarrow> messenger \<Rightarrow> messenger" where
  "settle_query i x m = (if i \<notin> set (queries m) then m
     else m\<lparr>queries := remove1 i (queries m), settled := settled m @ [(i, x)]\<rparr>)"

definition closeMessenger :: "text16 \<Rightarrow> messenger \<Rightarrow> messenger" where
  "closeMessenger reason m = (if messenger_closed m then m
     else fold (\<lambda>i. settle_query i (Rejected reason)) (queries m)
       (fold (\<lambda>i. settle_pending i (Rejected reason)) (pendings m) (m\<lparr>messenger_closed := True\<rparr>)))"

abbreviation "channel_closed \<equiv> units_of ''parent notification channel closed''"

definition available :: "bool \<Rightarrow> messenger \<Rightarrow> bool \<times> messenger" where
  "available connected m = (if \<not>  messenger_closed m \<and> connected then (True, m) else (False, closeMessenger channel_closed m))"

definition message_frame :: "string \<Rightarrow> string \<Rightarrow> text16 \<Rightarrow> ipc_value" where
  "message_frame i kind t = IpcObject [(''id'', IpcText (units_of i)), (''kind'', IpcText (units_of kind)), (''message'', IpcText t)]"

text \<open>
  The promise of a call: rejected at once, or in flight under an id. \<open>thrown\<close> is what \<open>endpoint.send\<close> throws, if it does.
\<close>

definition notify :: "bool \<Rightarrow> text16 option \<Rightarrow> text16 \<Rightarrow> messenger \<Rightarrow> (text16 + string) \<times> messenger" where
  "notify connected thrown t m = (case available connected m of
       (False, m1) \<Rightarrow> (Inl channel_closed, m1)
     | (True, m1) \<Rightarrow>
         if validChildMessage (IpcText t) = None then (Inl (units_of ''message is not well-formed UTF-16 or exceeds 8KiB''), m1)
         else if CHILD_MESSAGE_MAX_INFLIGHT \<le> length (pendings m1) then (Inl (units_of ''too many pending parent-message admissions''), m1)
         else if MAX_SAFE_INTEGER \<le> nextId m1 then (Inl (units_of ''parent-message correlation exhausted''), m1)
         else let n = nextId m1 + 1; i = CHR ''n'' # digits n;
             m2 = m1\<lparr>nextId := n, pendings := pendings m1 @ [i], sent := sent m1 @ [message_frame i ''notification'' t]\<rparr>
           in (Inr i, case thrown of None \<Rightarrow> m2 | Some e \<Rightarrow> settle_pending i (Rejected e) m2))"

definition query :: "bool \<Rightarrow> text16 option \<Rightarrow> text16 \<Rightarrow> messenger \<Rightarrow> (text16 + string) \<times> messenger" where
  "query connected thrown t m = (case available connected m of
       (False, m1) \<Rightarrow> (Inl channel_closed, m1)
     | (True, m1) \<Rightarrow>
         if validChildMessage (IpcText t) = None then (Inl (units_of ''query is not well-formed UTF-16 or exceeds 8KiB''), m1)
         else if CHILD_QUERY_MAX_INFLIGHT \<le> length (queries m1) then (Inl (units_of ''too many pending parent queries''), m1)
         else if MAX_SAFE_INTEGER \<le> nextQueryId m1 then (Inl (units_of ''parent query correlation exhausted''), m1)
         else let n = nextQueryId m1 + 1; i = CHR ''q'' # digits n;
             m2 = m1\<lparr>nextQueryId := n, queries := queries m1 @ [i], sent := sent m1 @ [message_frame i ''query'' t]\<rparr>
           in (Inr i, case thrown of None \<Rightarrow> m2 | Some e \<Rightarrow> settle_query i (Rejected e) m2))"

text \<open>An empty reason of the peer is replaced.\<close>

definition reason_or :: "string \<Rightarrow> text16 \<Rightarrow> text16" where
  "reason_or d t = (if t = [] then units_of d else t)"

definition receive :: "ipc_value \<Rightarrow> messenger \<Rightarrow> messenger" where
  "receive v m = (case parseAck v of
       Some (i, b, e) \<Rightarrow> settle_pending i (if b then Resolved else Rejected (reason_or ''parent rejected notification'' (case e of None \<Rightarrow> [] | Some t \<Rightarrow> t))) m
     | None \<Rightarrow> (case parseReply v of
         Some (i, Inr t) \<Rightarrow> settle_query i (Answered t) m
       | Some (i, Inl t) \<Rightarrow> settle_query i (Rejected (reason_or ''parent rejected query'' t)) m
       | None \<Rightarrow> m))"

text \<open>What can happen: calls, values from the channel, timers, failed sends, and the end of the channel.\<close>

datatype messenger_event =
    Notify bool "text16 option" text16
  | Query bool "text16 option" text16
  | Receive ipc_value
  | SendTimesOut string
  | SendFails string text16
  | Close text16

definition timeout_reason :: "string \<Rightarrow> text16" where
  "timeout_reason i = units_of (if hd i = CHR ''n'' then ''parent-message admission timed out'' else ''parent query timed out'')"

definition messenger_do :: "messenger_event \<Rightarrow> messenger \<Rightarrow> messenger" where
  "messenger_do e m = (case e of
       Notify c x t \<Rightarrow> snd (notify c x t m)
     | Query c x t \<Rightarrow> snd (query c x t m)
     | Receive v \<Rightarrow> receive v m
     | SendTimesOut i \<Rightarrow> settle_query i (Rejected (timeout_reason i)) (settle_pending i (Rejected (timeout_reason i)) m)
     | SendFails i r \<Rightarrow> settle_query i (Rejected r) (settle_pending i (Rejected r) m)
     | Close r \<Rightarrow> closeMessenger r m)"

end
