(* ===== verification/MessagingClaims.thy ===== *)
theory MessagingClaims
  imports ChildMessaging "HOL-Library.Multiset"
begin

text \<open>
  What the channel of a child agent guarantees: the texts it accepts are exactly the short encodings of Unicode text,
  the frames it sends are frames the parent reads back, and every call is settled once.
\<close>

section \<open>Well-formed text is encoded text\<close>

definition scalar :: "nat \<Rightarrow> bool" where
  "scalar n \<longleftrightarrow> n < 0xD800 \<or> (0xE000 \<le> n \<and> n < 0x110000)"

definition utf16 :: "nat \<Rightarrow> text16" where
  "utf16 n = (if n < 0x10000 then [word_of_nat n]
     else [word_of_nat (0xD800 + (n - 0x10000) div 1024), word_of_nat (0xDC00 + (n - 0x10000) mod 1024)])"

definition utf8_size :: "nat \<Rightarrow> nat" where
  "utf8_size n = (if n < 0x80 then 1 else if n < 0x800 then 2 else if n < 0x10000 then 3 else 4)"

lemma surrogates_nat:
  "high_surrogate u \<longleftrightarrow> 0xD800 \<le> unat u \<and> unat u \<le> 0xDBFF"
  "low_surrogate u \<longleftrightarrow> 0xDC00 \<le> unat u \<and> unat u \<le> 0xDFFF"
  by (simp_all add: high_surrogate_def low_surrogate_def word_le_nat_alt)

lemma unit_bytes_nat: "unit_bytes u = (if unat u < 0x80 then 1 else if unat u < 0x800 then 2 else 3)"
  by (simp add: unit_bytes_def word_less_nat_alt)

lemma unat_small: "n < 65536 \<Longrightarrow> unat (word_of_nat n :: code_unit) = n"
  by (simp add: unat_of_nat take_bit_nat_eq_self_iff)

lemma unat_bound: "unat (u :: code_unit) < 65536"
  using unsigned_less[of u] by simp

lemma utf16_unit: "n < 0x10000 \<Longrightarrow> utf16 n = [word_of_nat n]"
  by (simp add: utf16_def)

lemma utf16_pair:
  assumes "0x10000 \<le> n" and "n < 0x110000"
  obtains u v where "utf16 n = [u, v]" and "high_surrogate u" and "low_surrogate v" and "\<not>  low_surrogate u"
proof -
  define U V :: code_unit where "U = word_of_nat (0xD800 + (n - 0x10000) div 1024)" and "V = word_of_nat (0xDC00 + (n - 0x10000) mod 1024)"
  have d: "(n - 0x10000) div 1024 < 1024" using assms by (simp add: div_less_iff_less_mult)
  then have u: "unat U = 0xD800 + (n - 0x10000) div 1024"
    unfolding U_def by (intro unat_small) simp
  have m: "(n - 0x10000) mod 1024 < 1024" by simp
  then have v: "unat V = 0xDC00 + (n - 0x10000) mod 1024"
    unfolding V_def by (intro unat_small) simp
  show thesis
  proof (rule that[of U V])
    show "utf16 n = [U, V]" using assms(1) by (simp only: utf16_def U_def V_def not_less[symmetric] if_False)
    show "high_surrogate U" "low_surrogate V" "\<not>  low_surrogate U"
      unfolding surrogates_nat u v using d m by linarith+
  qed
qed

lemma encode_one:
  assumes "scalar n"
  shows "wellFormedUnicode (utf16 n @ us) = wellFormedUnicode us" and "byteLength (utf16 n @ us) = utf8_size n + byteLength us"
proof -
  have "wellFormedUnicode (utf16 n @ us) = wellFormedUnicode us \<and> byteLength (utf16 n @ us) = utf8_size n + byteLength us"
  proof (cases "n < 0x10000")
    case True
    then have "unat (word_of_nat n :: code_unit) = n" by (intro unat_small) simp
    then show ?thesis using assms True
      by (cases us) (auto simp: utf16_unit surrogates_nat unit_bytes_nat scalar_def utf8_size_def)
  next
    case False
    then obtain u v where "utf16 n = [u, v]" "high_surrogate u" "low_surrogate v" "\<not>  low_surrogate u"
      using assms utf16_pair[of n] by (auto simp: scalar_def)
    then show ?thesis using False by (simp add: utf8_size_def)
  qed
  then show "wellFormedUnicode (utf16 n @ us) = wellFormedUnicode us" "byteLength (utf16 n @ us) = utf8_size n + byteLength us"
    by simp_all
qed

lemma encoded_well_formed:
  "list_all scalar cs \<Longrightarrow> wellFormedUnicode (concat (map utf16 cs)) \<and> byteLength (concat (map utf16 cs)) = sum_list (map utf8_size cs)"
  by (induction cs) (simp_all add: encode_one)

lemma single_unit:
  assumes "\<not>  high_surrogate u" and "\<not>  low_surrogate u"
  shows "scalar (unat u) \<and> utf16 (unat u) = [u]"
  using assms unat_bound[of u] by (auto simp: scalar_def utf16_unit surrogates_nat)

lemma surrogate_pair:
  assumes "high_surrogate u" and "low_surrogate v"
  shows "\<exists>n. scalar n \<and> utf16 n = [u, v]"
proof -
  define q r where "q = unat u - 0xD800" and "r = unat v - 0xDC00"
  have u: "unat u = 0xD800 + q" "q < 1024" and v: "unat v = 0xDC00 + r" "r < 1024"
    using assms unfolding surrogates_nat q_def r_def by (linarith, linarith, linarith, linarith)
  let ?n = "0x10000 + (q * 1024 + r)"
  have d: "(?n - 0x10000) div 1024 = q" "(?n - 0x10000) mod 1024 = r" using v(2) by simp_all
  have "scalar ?n" using u(2) v(2) by (simp add: scalar_def)
  moreover have "utf16 ?n = [word_of_nat (unat u), word_of_nat (unat v)]"
    unfolding utf16_def d u(1) v(1) by simp
  ultimately show ?thesis by (intro exI[of _ ?n]) simp
qed

lemma well_formed_encoded: "wellFormedUnicode t \<Longrightarrow> \<exists>cs. list_all scalar cs \<and> t = concat (map utf16 cs)"
proof (induction t rule: wellFormedUnicode.induct)
  case 1
  show ?case by (intro exI[of _ "[]"]) simp
next
  case (2 u)
  then show ?case using single_unit[of u] by (intro exI[of _ "[unat u]"]) simp
next
  case (3 u v us)
  show ?case
  proof (cases "high_surrogate u")
    case True
    then obtain cs where "list_all scalar cs" "us = concat (map utf16 cs)" using 3 by auto
    moreover obtain n where "scalar n" "utf16 n = [u, v]" using surrogate_pair[of u v] 3(3) True by auto
    ultimately show ?thesis by (intro exI[of _ "n # cs"]) simp
  next
    case False
    then obtain cs where "list_all scalar cs" "v # us = concat (map utf16 cs)" using 3 by auto
    moreover have "scalar (unat u)" "utf16 (unat u) = [u]" using single_unit[of u] 3(3) False by auto
    ultimately show ?thesis by (intro exI[of _ "unat u # cs"]) simp
  qed
qed

text \<open>
  C37: the messages of the channel are exactly the Unicode texts of at most 8 KiB. A list of code units is accepted as a
  message if and only if it is the UTF-16 encoding of a list of Unicode scalar values whose UTF-8 encoding has at most 8192
  bytes, the size the byte count of the code computes.
\<close>

theorem message_is_bounded_unicode:
  "validChildMessage (IpcText t) = Some u \<longleftrightarrow>
     u = t \<and> (\<exists>cs. list_all scalar cs \<and> t = concat (map utf16 cs) \<and> sum_list (map utf8_size cs) \<le> 8192)"
proof -
  have "(\<exists>cs. list_all scalar cs \<and> t = concat (map utf16 cs) \<and> sum_list (map utf8_size cs) \<le> 8192)
      \<longleftrightarrow> wellFormedUnicode t \<and> byteLength t \<le> 8192"
  proof
    assume "wellFormedUnicode t \<and> byteLength t \<le> 8192"
    then show "\<exists>cs. list_all scalar cs \<and> t = concat (map utf16 cs) \<and> sum_list (map utf8_size cs) \<le> 8192"
      using well_formed_encoded[of t] encoded_well_formed by metis
  qed (auto simp: encoded_well_formed)
  then show ?thesis by (auto simp: boundedText_def CHILD_MESSAGE_MAX_BYTES_def)
qed

section \<open>Ids\<close>

lemma ascii_units: "\<forall>c \<in> set s. of_char c < (128 :: nat) \<Longrightarrow> ascii_of (units_of s) = Some s"
proof -
  assume a: "\<forall>c \<in> set s. of_char c < (128 :: nat)"
  have u: "unat (word_of_nat (of_char c) :: code_unit) = of_char c" if "c \<in> set s" for c
    using a that by (intro unat_small) auto
  have "word_of_nat (of_char c) < (128 :: code_unit)" if "c \<in> set s" for c
    using a that u[OF that] by (simp add: word_less_nat_alt)
  moreover have "map (\<lambda>u. char_of (unat u)) (units_of s) = s"
    using u by (simp add: units_of_def map_idI)
  ultimately show ?thesis by (simp add: ascii_of_def units_of_def list_all_iff)
qed

lemma hd_digits_pos: "0 < n \<Longrightarrow> hd (digits n) \<noteq> CHR ''0''"
proof (induction n rule: digits.induct)
  case (1 n)
  show ?case
  proof (cases "n < 10")
    case True
    have "(char_of (48 + n) :: char) \<noteq> CHR ''0''"
    proof
      assume e: "(char_of (48 + n) :: char) = CHR ''0''"
      have "of_char (char_of (48 + n) :: char) = (of_char CHR ''0'' :: nat)" unfolding e ..
      then show False using True 1(2) by simp
    qed
    then show ?thesis using True by (subst digits.simps) simp
  next
    case False
    then have "hd (digits (n div 10)) \<noteq> CHR ''0''" using 1 by simp
    then show ?thesis using False by (subst digits.simps) simp
  qed
qed

lemma length_digits: "n < 10 ^ k \<Longrightarrow> 0 < k \<Longrightarrow> length (digits n) \<le> k"
proof (induction n arbitrary: k rule: digits.induct)
  case (1 n)
  show ?case
  proof (cases "n < 10")
    case True
    then show ?thesis using 1(3) by (subst digits.simps) simp
  next
    case False
    obtain j where k: "k = Suc j" using 1(3) by (cases k) auto
    have j: "0 < j" using False 1(2) k by (cases j) auto
    have "n div 10 < 10 ^ j" using 1(2) k by (simp add: div_less_iff_less_mult mult.commute)
    from 1(1)[OF False this j] show ?thesis using False k by (subst digits.simps) simp
  qed
qed

lemma correlation_digits: "0 < n \<Longrightarrow> n \<le> MAX_SAFE_INTEGER \<Longrightarrow> correlation c (c # digits n)"
  using digits_all[of n] hd_digits_pos[of n] length_digits[of n 16]
  by (simp add: correlation_def list_all_iff digits_value_digits MAX_SAFE_INTEGER_def)

lemma ascii_id: "c \<in> {CHR ''n'', CHR ''q''} \<Longrightarrow> ascii_of (units_of (c # digits n)) = Some (c # digits n)"
  using digits_all[of n] by (intro ascii_units) (auto simp: is_digit_code)

lemma digits_inj: "digits n = digits k \<longleftrightarrow> n = k"
  by (metis digits_value_digits)

section \<open>The messenger\<close>

definition in_flight :: "messenger \<Rightarrow> string list" where
  "in_flight m = pendings m @ queries m"

definition n_id :: "nat \<Rightarrow> string" where "n_id k = CHR ''n'' # digits k"
definition q_id :: "nat \<Rightarrow> string" where "q_id k = CHR ''q'' # digits k"

definition sent_id :: "ipc_value \<Rightarrow> string" where
  "sent_id v = (case ipc_member ''id'' v of IpcText t \<Rightarrow> (case ascii_of t of Some s \<Rightarrow> s | None \<Rightarrow> []) | _ \<Rightarrow> [])"

definition issued_ids :: "messenger \<Rightarrow> string set" where
  "issued_ids m = n_id ` {1..nextId m} \<union> q_id ` {1..nextQueryId m}"

definition frame_ok :: "ipc_value \<Rightarrow> bool" where
  "frame_ok v \<longleftrightarrow> (\<exists>f. parseChildFrame v = Inr f \<and> sent_id v = frame_id f
     \<and> v = message_frame (frame_id f) (if frame_kind f = NotificationFrame then ''notification'' else ''query'') (frame_message f))"

definition messenger_ok :: "messenger \<Rightarrow> bool" where
  "messenger_ok m \<longleftrightarrow> distinct (map sent_id (sent m)) \<and> set (map sent_id (sent m)) = issued_ids m
     \<and> mset (map sent_id (sent m)) = mset (map fst (settled m)) + mset (in_flight m)
     \<and> length (pendings m) \<le> CHILD_MESSAGE_MAX_INFLIGHT \<and> length (queries m) \<le> CHILD_QUERY_MAX_INFLIGHT
     \<and> nextId m \<le> MAX_SAFE_INTEGER \<and> nextQueryId m \<le> MAX_SAFE_INTEGER
     \<and> (messenger_closed m \<longrightarrow> in_flight m = []) \<and> (\<forall>v \<in> set (sent m). frame_ok v)"

lemma new_ok: "messenger_ok new_messenger"
  by (simp add: messenger_ok_def new_messenger_def issued_ids_def in_flight_def)

text \<open>Settling moves an id from the flight to the settled ones; everything else stays.\<close>

definition settles :: "messenger \<Rightarrow> messenger \<Rightarrow> bool" where
  "settles m m' \<longleftrightarrow> sent m' = sent m \<and> nextId m' = nextId m \<and> nextQueryId m' = nextQueryId m \<and> messenger_closed m' = messenger_closed m
     \<and> mset (map fst (settled m')) + mset (in_flight m') = mset (map fst (settled m)) + mset (in_flight m)
     \<and> length (pendings m') \<le> length (pendings m) \<and> length (queries m') \<le> length (queries m)"

lemma settles_refl [simp]: "settles m m"
  by (simp add: settles_def)

lemma settles_trans: "settles m m' \<Longrightarrow> settles m' m'' \<Longrightarrow> settles m m''"
  unfolding settles_def by (auto intro: le_trans)

lemma settles_pending: "settles m (settle_pending i x m)"
  by (simp add: settle_pending_def settles_def in_flight_def length_remove1)

lemma settles_query: "settles m (settle_query i x m)"
  by (simp add: settle_query_def settles_def in_flight_def length_remove1)

lemma settles_fold: "(\<And>i m. settles m (f i m)) \<Longrightarrow> settles m (fold f is m)"
  by (induction "is" arbitrary: m) (auto intro: settles_trans)

lemma settles_ok:
  assumes "settles m m'" and "messenger_ok m"
  shows "messenger_ok m'"
proof -
  have "in_flight m' = []" if "in_flight m = []"
    using assms(1) that by (simp add: settles_def in_flight_def)
  then show ?thesis using assms by (auto simp: messenger_ok_def settles_def issued_ids_def)
qed

lemma fold_remove_pendings:
  "pendings (fold (\<lambda>i. settle_pending i x) is m) = fold remove1 is (pendings m) \<and> queries (fold (\<lambda>i. settle_pending i x) is m) = queries m"
  by (induction "is" arbitrary: m) (simp_all add: settle_pending_def remove1_idem)

lemma fold_remove_queries:
  "queries (fold (\<lambda>i. settle_query i x) is m) = fold remove1 is (queries m) \<and> pendings (fold (\<lambda>i. settle_query i x) is m) = pendings m"
  by (induction "is" arbitrary: m) (simp_all add: settle_query_def remove1_idem)

lemma fold_remove_all: "fold remove1 xs xs = []"
proof -
  have "fold remove1 xs (xs @ ys) = ys" for ys by (induction xs arbitrary: ys) simp_all
  from this[of "[]"] show ?thesis by simp
qed

lemma close_ok:
  assumes "messenger_ok m"
  shows "messenger_ok (closeMessenger r m) \<and> messenger_closed (closeMessenger r m) \<and> in_flight (closeMessenger r m) = []"
proof (cases "messenger_closed m")
  case True
  then show ?thesis using assms by (simp add: closeMessenger_def messenger_ok_def)
next
  case False
  let ?m0 = "m\<lparr>messenger_closed := True\<rparr>"
  let ?m1 = "fold (\<lambda>i. settle_pending i (Rejected r)) (pendings m) ?m0"
  let ?m2 = "fold (\<lambda>i. settle_query i (Rejected r)) (queries m) ?m1"
  have c: "closeMessenger r m = ?m2" using False by (simp add: closeMessenger_def)
  have s: "settles ?m0 ?m2"
    by (rule settles_trans[OF settles_fold settles_fold]) (rule settles_pending settles_query)+
  have e: "pendings ?m2 = []" "queries ?m2 = []"
    using fold_remove_queries[of "Rejected r" "queries m" ?m1] fold_remove_pendings[of "Rejected r" "pendings m" ?m0]
    by (simp_all add: fold_remove_all)
  have "messenger_closed ?m2" using s by (simp add: settles_def)
  moreover have "messenger_ok ?m2"
    using assms s e by (auto simp: messenger_ok_def settles_def issued_ids_def in_flight_def)
  ultimately show ?thesis unfolding c using e by (simp add: in_flight_def)
qed

lemma ids_apart_kinds [simp]: "n_id j \<noteq> q_id k" "q_id k \<noteq> n_id j" "n_id j = n_id k \<longleftrightarrow> j = k" "q_id j = q_id k \<longleftrightarrow> j = k"
  by (simp_all add: n_id_def q_id_def digits_inj)

lemma id_parts: "ascii_of (units_of (n_id k)) = Some (n_id k)" "ascii_of (units_of (q_id k)) = Some (q_id k)"
  using ascii_id by (simp_all add: n_id_def q_id_def)

lemma correlation_kinds [simp]:
  "correlation CHR ''q'' (n_id k) = False" "correlation CHR ''n'' (q_id k) = False"
  by (simp_all add: correlation_def n_id_def q_id_def)

lemma units_of_inj_words [simp]: "units_of ''query'' \<noteq> units_of ''notification''" "units_of ''notification'' \<noteq> units_of ''query''"
  by (simp_all add: units_of_def)

lemma sent_frame_ok:
  assumes "0 < k" and "k \<le> MAX_SAFE_INTEGER" and "validChildMessage (IpcText t) \<noteq> None"
  shows "frame_ok (message_frame (n_id k) ''notification'' t)" and "frame_ok (message_frame (q_id k) ''query'' t)"
    and "sent_id (message_frame (n_id k) ''notification'' t) = n_id k" and "sent_id (message_frame (q_id k) ''query'' t) = q_id k"
proof -
  obtain u where "validChildMessage (IpcText t) = Some u" using assms(3) by blast
  then have m: "validChildMessage (IpcText t) = Some t" using message_is_bounded_unicode by metis
  have c: "correlation CHR ''n'' (n_id k)" "correlation CHR ''q'' (q_id k)"
    using correlation_digits[OF assms(1,2)] by (simp_all add: n_id_def q_id_def)
  show s: "sent_id (message_frame (n_id k) ''notification'' t) = n_id k" "sent_id (message_frame (q_id k) ''query'' t) = q_id k"
    by (simp_all add: sent_id_def message_frame_def ipc_member_def id_parts)
  show "frame_ok (message_frame (n_id k) ''notification'' t)"
    unfolding frame_ok_def s
    by (rule exI[of _ "\<lparr>frame_id = n_id k, frame_kind = NotificationFrame, frame_message = t\<rparr>"])
      (simp add: parseChildFrame_def message_frame_def ipc_record_def ipc_member_def ipc_exact_def validCorrelation_def id_parts c ipc_kind_def m)
  show "frame_ok (message_frame (q_id k) ''query'' t)"
    unfolding frame_ok_def s
    by (rule exI[of _ "\<lparr>frame_id = q_id k, frame_kind = QueryFrame, frame_message = t\<rparr>"])
      (simp add: parseChildFrame_def message_frame_def ipc_record_def ipc_member_def ipc_exact_def validCorrelation_def id_parts c ipc_kind_def m)
qed

lemma ids_upto: "f ` {1..Suc n} = insert (f (Suc n)) (f ` {1..n})"
  by (simp add: atLeastAtMostSuc_conv)

lemma notify_ok:
  assumes "messenger_ok m"
  shows "messenger_ok (snd (notify c x t m))"
proof (cases "available c m")
  case (Pair b m1)
  show ?thesis
  proof (cases b)
    case False
    then have "m1 = closeMessenger channel_closed m" using Pair by (auto simp: available_def split: if_splits)
    then show ?thesis using close_ok[OF assms] False Pair by (simp add: notify_def)
  next
    case True
    then have m1: "m1 = m" and op: "\<not>  messenger_closed m" using Pair by (auto simp: available_def split: if_splits)
    show ?thesis
    proof (cases "validChildMessage (IpcText t) \<noteq> None \<and> length (pendings m) < CHILD_MESSAGE_MAX_INFLIGHT \<and> nextId m < MAX_SAFE_INTEGER")
      case False
      then show ?thesis using assms Pair True m1 by (auto simp: notify_def)
    next
      case ok: True
      let ?k = "nextId m + 1"
      let ?v = "message_frame (n_id ?k) ''notification'' t"
      let ?m2 = "m\<lparr>nextId := ?k, pendings := pendings m @ [n_id ?k], sent := sent m @ [?v]\<rparr>"
      have k: "0 < ?k" "?k \<le> MAX_SAFE_INTEGER" using ok by simp_all
      note f = sent_frame_ok[OF k conjunct1[OF ok]]
      have "n_id ?k \<notin> issued_ids m" by (auto simp: issued_ids_def)
      then have "messenger_ok ?m2"
        using assms ok op k f by (auto simp: messenger_ok_def issued_ids_def in_flight_def ids_upto)
      then have "messenger_ok (case x of None \<Rightarrow> ?m2 | Some e \<Rightarrow> settle_pending (n_id ?k) (Rejected e) ?m2)"
        using settles_ok[OF settles_pending] by (simp split: option.splits)
      then show ?thesis using Pair True m1 ok by (auto simp: notify_def Let_def n_id_def split: option.splits)
    qed
  qed
qed

lemma query_ok:
  assumes "messenger_ok m"
  shows "messenger_ok (snd (query c x t m))"
proof (cases "available c m")
  case (Pair b m1)
  show ?thesis
  proof (cases b)
    case False
    then have "m1 = closeMessenger channel_closed m" using Pair by (auto simp: available_def split: if_splits)
    then show ?thesis using close_ok[OF assms] False Pair by (simp add: query_def)
  next
    case True
    then have m1: "m1 = m" and op: "\<not>  messenger_closed m" using Pair by (auto simp: available_def split: if_splits)
    show ?thesis
    proof (cases "validChildMessage (IpcText t) \<noteq> None \<and> length (queries m) < CHILD_QUERY_MAX_INFLIGHT \<and> nextQueryId m < MAX_SAFE_INTEGER")
      case False
      then show ?thesis using assms Pair True m1 by (auto simp: query_def)
    next
      case ok: True
      let ?k = "nextQueryId m + 1"
      let ?v = "message_frame (q_id ?k) ''query'' t"
      let ?m2 = "m\<lparr>nextQueryId := ?k, queries := queries m @ [q_id ?k], sent := sent m @ [?v]\<rparr>"
      have k: "0 < ?k" "?k \<le> MAX_SAFE_INTEGER" using ok by simp_all
      note f = sent_frame_ok[OF k conjunct1[OF ok]]
      have "q_id ?k \<notin> issued_ids m" by (auto simp: issued_ids_def)
      then have "messenger_ok ?m2"
        using assms ok op k f by (auto simp: messenger_ok_def issued_ids_def in_flight_def ids_upto)
      then have "messenger_ok (case x of None \<Rightarrow> ?m2 | Some e \<Rightarrow> settle_query (q_id ?k) (Rejected e) ?m2)"
        using settles_ok[OF settles_query] by (simp split: option.splits)
      then show ?thesis using Pair True m1 ok by (auto simp: query_def Let_def q_id_def split: option.splits)
    qed
  qed
qed

lemma receive_settles: "settles m (receive v m)"
  by (auto simp: receive_def intro: settles_pending settles_query split: option.splits sum.splits)

lemma messenger_do_ok: "messenger_ok m \<Longrightarrow> messenger_ok (messenger_do e m)"
  by (cases e) (simp_all add: messenger_do_def notify_ok query_ok settles_ok[OF receive_settles] close_ok
      settles_ok[OF settles_trans[OF settles_pending settles_query]])

definition messenger_run :: "messenger_event list \<Rightarrow> messenger" where
  "messenger_run es = fold messenger_do es new_messenger"

lemma run_ok: "messenger_ok (messenger_run es)"
proof -
  have "messenger_ok (fold messenger_do es m)" if "messenger_ok m" for m
    using that by (induction es arbitrary: m) (simp_all add: messenger_do_ok)
  then show ?thesis unfolding messenger_run_def using new_ok by blast
qed

text \<open>What a promise saw came through the channel: an acknowledgement or a reply under the id of the call.\<close>

definition caused :: "messenger_event list \<Rightarrow> string \<times> settlement \<Rightarrow> bool" where
  "caused es x \<longleftrightarrow> (case x of
       (i, Resolved) \<Rightarrow> \<exists>v e. Receive v \<in> set es \<and> parseAck v = Some (i, True, e)
     | (i, Answered t) \<Rightarrow> \<exists>v. Receive v \<in> set es \<and> parseReply v = Some (i, Inr t)
     | (i, Rejected t) \<Rightarrow> True)"

lemma settle_adds:
  "set (settled (settle_pending i x m)) \<subseteq> insert (i, x) (set (settled m))"
  "set (settled (settle_query i x m)) \<subseteq> insert (i, x) (set (settled m))"
  by (auto simp: settle_pending_def settle_query_def)

lemma fold_settle_adds:
  "set (settled (fold (\<lambda>i. settle_pending i x) is m)) \<subseteq> set (settled m) \<union> {(i, y). y = x}"
  "set (settled (fold (\<lambda>i. settle_query i x) is m)) \<subseteq> set (settled m) \<union> {(i, y). y = x}"
  by (induction "is" arbitrary: m) (fastforce dest: settle_adds[THEN subsetD])+

lemma close_adds: "set (settled (closeMessenger r m)) \<subseteq> set (settled m) \<union> {(i, y). y = Rejected r}"
proof (cases "messenger_closed m")
  case False
  then show ?thesis
    using fold_settle_adds(1)[of "Rejected r" "pendings m" "m\<lparr>messenger_closed := True\<rparr>"]
      fold_settle_adds(2)[of "Rejected r" "queries m" "fold (\<lambda>i. settle_pending i (Rejected r)) (pendings m) (m\<lparr>messenger_closed := True\<rparr>)"]
    by (auto simp: closeMessenger_def)
qed (simp add: closeMessenger_def)

lemma available_adds: "available c m = (b, m1) \<Longrightarrow> set (settled m1) \<subseteq> set (settled m) \<union> {(i, y). \<exists>r. y = Rejected r}"
  using close_adds[of channel_closed m] by (auto simp: available_def split: if_splits)

lemma call_adds:
  "set (settled (snd (notify c x t m))) \<subseteq> set (settled m) \<union> {(i, y). \<exists>r. y = Rejected r}"
  "set (settled (snd (query c x t m))) \<subseteq> set (settled m) \<union> {(i, y). \<exists>r. y = Rejected r}"
  by (cases "available c m"; frule available_adds;
      auto simp: notify_def query_def Let_def settle_pending_def settle_query_def split: option.splits bool.splits if_splits)+

lemma messenger_do_adds: "x \<in> set (settled (messenger_do e m)) \<Longrightarrow> x \<in> set (settled m) \<or> caused [e] x"
proof (cases e)
  case (Receive v)
  assume "x \<in> set (settled (messenger_do e m))"
  then show ?thesis unfolding Receive
    by (auto simp: messenger_do_def receive_def caused_def settle_pending_def settle_query_def split: option.splits sum.splits if_splits)
qed (auto simp: messenger_do_def caused_def settle_pending_def settle_query_def split: if_splits settlement.splits
    dest: call_adds[THEN subsetD] close_adds[THEN subsetD])

lemma caused_mono: "caused es x \<Longrightarrow> set es \<subseteq> set fs \<Longrightarrow> caused fs x"
  by (auto simp: caused_def split: prod.splits settlement.splits)

lemma run_caused: "x \<in> set (settled (messenger_run es)) \<Longrightarrow> caused es x"
proof -
  have k: "x \<in> set (settled m) \<or> caused es x" if "x \<in> set (settled (fold messenger_do es m))" for m
    using that
  proof (induction es arbitrary: m)
    case (Cons e es)
    then have "x \<in> set (settled (messenger_do e m)) \<or> caused es x" by simp
    then show ?case using messenger_do_adds[of x e m] caused_mono[of "[e]" x "e # es"] caused_mono[of es x "e # es"] by auto
  qed simp
  assume "x \<in> set (settled (messenger_run es))"
  moreover have "settled new_messenger = []" by (simp add: new_messenger_def)
  ultimately show ?thesis using k[of new_messenger] by (simp add: messenger_run_def)
qed

text \<open>
  C36: every call of a child to its parent is settled once, and the channel is bounded. Whatever calls, values from the channel,
  timeouts, failed sends and closings come in whatever order, no two frames carry the same id, every frame that was
  sent is settled exactly once or still in flight, never both, at most 8 notifications and 4 queries are in flight, nothing is in
  flight once the messenger is closed, every frame that was sent is read back by the parent's decoder as the same id, kind and message,
  and a call only resolves with an acknowledgement or an answer that came through the channel under its id.
\<close>

theorem messenger_settles_once:
  assumes "m = messenger_run es"
  shows "distinct (map sent_id (sent m)) \<and> distinct (map fst (settled m))
    \<and> mset (map sent_id (sent m)) = mset (map fst (settled m)) + mset (pendings m @ queries m)
    \<and> length (pendings m) \<le> 8 \<and> length (queries m) \<le> 4 \<and> (messenger_closed m \<longrightarrow> pendings m @ queries m = [])
    \<and> (\<forall>v \<in> set (sent m). \<exists>f. parseChildFrame v = Inr f
         \<and> v = message_frame (frame_id f) (if frame_kind f = NotificationFrame then ''notification'' else ''query'') (frame_message f))
    \<and> (\<forall>x \<in> set (settled m). caused es x)"
proof -
  have i: "messenger_ok m" unfolding assms by (rule run_ok)
  have d: "distinct (map fst (settled m) @ in_flight m)"
    using i mset_eq_imp_distinct_iff[of "map sent_id (sent m)" "map fst (settled m) @ in_flight m"] by (simp add: messenger_ok_def)
  have "\<forall>v \<in> set (sent m). frame_ok v" using i unfolding messenger_ok_def by blast
  then have f: "\<forall>v \<in> set (sent m). \<exists>f. parseChildFrame v = Inr f
      \<and> v = message_frame (frame_id f) (if frame_kind f = NotificationFrame then ''notification'' else ''query'') (frame_message f)"
    unfolding frame_ok_def by blast
  have p: "distinct (map sent_id (sent m)) \<and> mset (map sent_id (sent m)) = mset (map fst (settled m)) + mset (pendings m @ queries m)
    \<and> length (pendings m) \<le> 8 \<and> length (queries m) \<le> 4 \<and> (messenger_closed m \<longrightarrow> pendings m @ queries m = [])"
    using i unfolding messenger_ok_def in_flight_def CHILD_MESSAGE_MAX_INFLIGHT_def CHILD_QUERY_MAX_INFLIGHT_def by blast
  have "distinct (map fst (settled m))" using d by simp
  moreover have "\<forall>x \<in> set (settled m). caused es x" using run_caused unfolding assms by blast
  ultimately show ?thesis using p f by (elim conjE) (intro conjI; assumption)
qed

theorem messenger_settles_once_witness:
  "settled (messenger_run [Notify True None [], Query True None [], Close []]) = [(''n1'', Rejected []), (''q1'', Rejected [])]
   \<and> length (pendings (messenger_run [Notify True None [], Query True None [], Close []])) \<le> 8"
proof
  have d: "digits (Suc 0) = ''1''" by (subst digits.simps) code_simp
  show "settled (messenger_run [Notify True None [], Query True None [], Close []]) = [(''n1'', Rejected []), (''q1'', Rejected [])]"
    by (simp add: messenger_run_def messenger_do_def new_messenger_def notify_def query_def available_def boundedText_def
        CHILD_MESSAGE_MAX_BYTES_def CHILD_MESSAGE_MAX_INFLIGHT_def CHILD_QUERY_MAX_INFLIGHT_def MAX_SAFE_INTEGER_def
        closeMessenger_def settle_pending_def settle_query_def Let_def d)
qed (rule messenger_settles_once[OF refl, THEN conjunct2, THEN conjunct2, THEN conjunct2, THEN conjunct1])

end
