(* ===== verification/AgentTasks.thy ===== *)
theory AgentTasks
  imports ChildMessaging "HOL-Library.AList"
begin

text \<open>
  The subagent tasks as the host sees them (\<open>lib/agents-protocol.ts\<close>, \<open>lib/terminal-theme.ts\<close>): the sanitizer of terminal
  text, the bounded thread of a task, what an event means for its record, and the store of tasks. Costs, which nothing
  reads, and the listeners are left out.
\<close>

section \<open>Terminal text\<close>

abbreviation ESC :: code_unit where "ESC \<equiv> 0x1B"

definition between :: "code_unit \<Rightarrow> code_unit \<Rightarrow> code_unit \<Rightarrow> bool" where
  "between a b u \<longleftrightarrow> a \<le> u \<and> u \<le> b"

text \<open>\<open>[\s\S]*?(?:\x07|\x1B\\|\x9C|$)\<close>: up to the first terminator, or to the end.\<close>

fun skip_osc :: "text16 \<Rightarrow> text16" where
  "skip_osc [] = []"
| "skip_osc (u # us) = (if u = 0x07 \<or> u = 0x9C then us
     else if u = ESC \<and> us \<noteq> [] \<and> hd us = 0x5C then tl us else skip_osc us)"

lemma skip_osc_shorter: "length (skip_osc us) \<le> length us"
  by (induction us) auto

function stripOsc :: "text16 \<Rightarrow> text16" where
  "stripOsc [] = []"
| "stripOsc (u # us) = (if u = ESC \<and> us \<noteq> [] \<and> hd us = 0x5D then stripOsc (skip_osc (tl us))
     else if u = 0x9D then stripOsc (skip_osc us) else u # stripOsc us)"
  by pat_completeness auto
termination
  by (relation "measure length") (use skip_osc_shorter le_trans in \<open>auto simp: less_Suc_eq_le intro: le_trans[OF skip_osc_shorter]\<close>)

text \<open>\<open>[0-?]*[ -/]*[@-~]\<close>, the parameters, intermediates and final byte of a control sequence.\<close>

definition csi_rest :: "text16 \<Rightarrow> text16 option" where
  "csi_rest us = (case dropWhile (between 0x20 0x2F) (dropWhile (between 0x30 0x3F) us) of
       [] \<Rightarrow> None | u # vs \<Rightarrow> if between 0x40 0x7E u then Some vs else None)"

definition two_byte_escape :: "code_unit \<Rightarrow> bool" where
  "two_byte_escape u \<longleftrightarrow> between 0x40 0x5A u \<or> between 0x5C 0x5F u"

text \<open>What an escape at the head of a text leaves, or nothing when there is none.\<close>

definition escape_rest :: "text16 \<Rightarrow> text16 option" where
  "escape_rest us = (case us of [] \<Rightarrow> None
     | u # vs \<Rightarrow>
         if u = ESC then (case vs of [] \<Rightarrow> None
             | v # ws \<Rightarrow> if v = 0x5B then csi_rest ws else if two_byte_escape v then Some ws else None)
         else if u = 0x9B then csi_rest vs else None)"

lemma csi_rest_shorter: "csi_rest us = Some vs \<Longrightarrow> length vs < length us"
proof -
  assume "csi_rest us = Some vs"
  then obtain u where "dropWhile (between 0x20 0x2F) (dropWhile (between 0x30 0x3F) us) = u # vs"
    by (auto simp: csi_rest_def split: list.splits if_splits)
  then have "Suc (length vs) \<le> length us"
    using length_dropWhile_le[of "between 0x20 0x2F" "dropWhile (between 0x30 0x3F) us"] length_dropWhile_le[of "between 0x30 0x3F" us]
    by simp
  then show ?thesis by simp
qed

lemma escape_rest_shorter: "escape_rest us = Some vs \<Longrightarrow> length vs < length us"
  by (auto simp: escape_rest_def split: list.splits if_splits dest: csi_rest_shorter)

function stripEscapes :: "text16 \<Rightarrow> text16" where
  "stripEscapes [] = []"
| "stripEscapes (u # us) = (case escape_rest (u # us) of Some vs \<Rightarrow> stripEscapes vs | None \<Rightarrow> u # stripEscapes us)"
  by pat_completeness auto
termination
  by (relation "measure length") (use escape_rest_shorter in \<open>force+\<close>)

definition stripAnsi :: "text16 \<Rightarrow> text16" where
  "stripAnsi t = stripEscapes (stripOsc t)"

definition control_char :: "code_unit \<Rightarrow> bool" where
  "control_char u \<longleftrightarrow> u \<le> 0x08 \<or> between 0x0B 0x0D u \<or> between 0x0E 0x1F u \<or> between 0x7F 0x9F u"

definition sanitizeTerminalText :: "text16 \<Rightarrow> text16" where
  "sanitizeTerminalText t = filter (\<lambda>u. \<not>  control_char u) (stripAnsi t)"

section \<open>Tasks\<close>

datatype task_status = Queued | Running | Waiting | Completed | Failed | Cancelled | TimedOut

definition isFinished :: "task_status \<Rightarrow> bool" where
  "isFinished s \<longleftrightarrow> s \<in> {Completed, Failed, Cancelled, TimedOut}"

datatype agent_outcome = Success | ErrorOutcome | Aborted | Empty

record ask_request =
  ask_id :: text16
  ask_method :: text16
  ask_title :: text16

text \<open>A JSON value a child sends, with 16-bit text; \<open>RUndefined\<close> is a member that is absent. Its numbers are integers.\<close>

datatype rpc_value = RUndefined | RNull | RBool bool | RInt int | RText text16 | RArr "rpc_value list" | RObj "(string \<times> rpc_value) list"

record child_response =
  response_provider :: "text16 option"
  response_model :: "text16 option"
  response_responseModel :: "text16 option"
  response_thinking :: "text16 option"
  response_stop :: text16
  response_tokens :: "(string \<times> int option) list"

datatype task_event =
    TextEvent text16
  | ThinkingEvent text16
  | ToolStart text16 text16 rpc_value
  | ToolUpdate text16 text16
  | ToolEnd text16 text16 bool
  | TurnEnd
  | AgentEnd text16 agent_outcome "text16 option"
  | AgentSettled
  | ErrorEvent text16
  | AskEvent ask_request
  | NoteEvent text16
  | UsageEvent int
  | ResponseObservation child_response

datatype thread_item =
    TextItem text16
  | ThinkingItem text16
  | ToolItem (tool_call: text16) (tool_name: text16) (tool_args: rpc_value) (tool_output: text16) (tool_running: bool) (tool_failed: bool)
  | NoteItem text16

record task_thread =
  items :: "thread_item list"
  dropped :: nat
  version :: nat
  maxItems :: nat
  maxOutputChars :: nat

definition TEXT_CAP :: nat where "TEXT_CAP = 20000"

definition emptyThread :: "nat \<Rightarrow> nat \<Rightarrow> task_thread" where
  "emptyThread n k = \<lparr>items = [], dropped = 0, version = 0, maxItems = n, maxOutputChars = k\<rparr>"

text \<open>\<open>\<dots>\<close> and the last \<open>max - 1\<close> code units.\<close>

definition keepTail :: "text16 \<Rightarrow> nat \<Rightarrow> text16" where
  "keepTail t n = (if length t \<le> n then t else 0x2026 # drop (length t + 1 - n) t)"

definition withItems :: "task_thread \<Rightarrow> thread_item list \<Rightarrow> nat \<Rightarrow> task_thread" where
  "withItems t xs d = t\<lparr>items := xs, dropped := d, version := version t + 1\<rparr>"

definition push_item :: "task_thread \<Rightarrow> thread_item \<Rightarrow> task_thread" where
  "push_item t x = (let xs = items t @ [x]; overflow = length xs - maxItems t in withItems t (drop overflow xs) (dropped t + overflow))"

text \<open>Text of the same kind as the last item is appended to it.\<close>

definition merge_text :: "thread_item \<Rightarrow> thread_item \<Rightarrow> thread_item option" where
  "merge_text old fresh = (case (old, fresh) of
       (TextItem a, TextItem b) \<Rightarrow> Some (TextItem (keepTail (a @ b) TEXT_CAP))
     | (ThinkingItem a, ThinkingItem b) \<Rightarrow> Some (ThinkingItem (keepTail (a @ b) TEXT_CAP))
     | _ \<Rightarrow> None)"

definition appendText :: "task_thread \<Rightarrow> (text16 \<Rightarrow> thread_item) \<Rightarrow> text16 \<Rightarrow> task_thread" where
  "appendText t kind raw = (let text = sanitizeTerminalText raw in
     if text = [] then t
     else case (if items t = [] then None else merge_text (last (items t)) (kind text)) of
       Some x \<Rightarrow> withItems t (butlast (items t) @ [x]) (dropped t)
     | None \<Rightarrow> push_item t (kind text))"

definition is_call :: "text16 \<Rightarrow> thread_item \<Rightarrow> bool" where
  "is_call c x = (case x of ToolItem d _ _ _ _ _ \<Rightarrow> d = c | _ \<Rightarrow> False)"

fun update_first :: "('a \<Rightarrow> bool) \<Rightarrow> ('a \<Rightarrow> 'a ) \<Rightarrow> 'a list \<Rightarrow> 'a list option" where
  "update_first p f [] = None"
| "update_first p f (x # xs) = (if p x then Some (f x # xs) else map_option ((#) x) (update_first p f xs))"

definition updateTool :: "task_thread \<Rightarrow> text16 \<Rightarrow> text16 \<Rightarrow> (bool \<Rightarrow> bool) \<Rightarrow> (bool \<Rightarrow> bool) \<Rightarrow> task_thread" where
  "updateTool t c out running failed = (case update_first (is_call c) (\<lambda>x. case x of
         ToolItem d n a ou r e \<Rightarrow> ToolItem d n a (keepTail (sanitizeTerminalText out) (maxOutputChars t)) (running r) (failed e)
       | y \<Rightarrow> y) (items t) of
       None \<Rightarrow> t | Some xs \<Rightarrow> withItems t xs (dropped t))"

definition askNote :: "ask_request \<Rightarrow> text16" where
  "askNote r = units_of ''asked: '' @ ask_title r"

definition applyTaskEvent :: "task_thread \<Rightarrow> task_event \<Rightarrow> task_thread" where
  "applyTaskEvent t e = (case e of
       TextEvent x \<Rightarrow> appendText t TextItem x
     | ThinkingEvent x \<Rightarrow> appendText t ThinkingItem x
     | ToolStart c n a \<Rightarrow> push_item t (ToolItem c n a [] True False)
     | ToolUpdate c out \<Rightarrow> updateTool t c out id id
     | ToolEnd c out b \<Rightarrow> updateTool t c out (\<lambda>_. False) (\<lambda>_. b)
     | ErrorEvent x \<Rightarrow> push_item t (NoteItem (units_of ''error: '' @ x))
     | AskEvent r \<Rightarrow> push_item t (NoteItem (askNote r))
     | NoteEvent x \<Rightarrow> push_item t (NoteItem (sanitizeTerminalText x))
     | _ \<Rightarrow> t)"

record task_record =
  task_id :: string
  task_agent :: string
  task_mode :: string
  task_prompt :: text16
  task_label :: text16
  task_cwd :: string
  parentSessionId :: string
  task_status :: task_status
  createdAt :: int
  startedAt :: "int option"
  endedAt :: "int option"
  task_model :: text16
  task_thinking :: "text16 option"
  sessionPath :: "text16 option"
  task_error :: "text16 option"
  task_result :: "text16 option"
  lastStep :: text16
  lastActivityAt :: int
  turns :: nat
  toolCalls :: nat
  task_tokens :: int

text \<open>What an event means for the record: steps, counters, and waiting for the user.\<close>

definition resumed :: "task_record \<Rightarrow> task_record" where
  "resumed t = (if task_status t = Waiting then t\<lparr>task_status := Running\<rparr> else t)"

definition or_else :: "text16 option \<Rightarrow> string \<Rightarrow> text16" where
  "or_else x d = (case x of Some t \<Rightarrow> t | None \<Rightarrow> units_of d)"

definition recordPatch :: "task_record \<Rightarrow> task_event \<Rightarrow> task_record" where
  "recordPatch t e = (case e of
       ToolStart c n a \<Rightarrow> (resumed t)\<lparr>lastStep := n, toolCalls := toolCalls t + 1\<rparr>
     | TurnEnd \<Rightarrow> (resumed t)\<lparr>turns := turns t + 1\<rparr>
     | AgentEnd x out d \<Rightarrow>
         if out = Success then (resumed t)\<lparr>task_result := Some x, task_error := None, lastStep := units_of ''responded''\<rparr>
         else (resumed t)\<lparr>task_result := None, task_error := Some (or_else d ''assistant did not produce a final report''),
           lastStep := or_else d ''assistant failed''\<rparr>
     | ErrorEvent x \<Rightarrow> (resumed t)\<lparr>lastStep := units_of ''error: '' @ x\<rparr>
     | AskEvent r \<Rightarrow> t\<lparr>task_status := Waiting, lastStep := askNote r\<rparr>
     | TextEvent x \<Rightarrow> (resumed t)\<lparr>lastStep := (if lastStep t \<in> {units_of ''queued'', units_of ''starting''} then units_of ''writing'' else lastStep t)\<rparr>
     | UsageEvent n \<Rightarrow> (resumed t)\<lparr>task_tokens := task_tokens t + n\<rparr>
     | _ \<Rightarrow> resumed t)"

section \<open>The store\<close>

record task_summary =
  summary_running :: nat
  summary_queued :: nat
  summary_waiting :: nat
  summary_finished :: nat

definition summarize :: "task_record list \<Rightarrow> task_summary" where
  "summarize ts = \<lparr>summary_running = length (filter (\<lambda>t. task_status t = Running) ts),
     summary_queued = length (filter (\<lambda>t. task_status t = Queued) ts),
     summary_waiting = length (filter (\<lambda>t. task_status t = Waiting) ts),
     summary_finished = length (filter (\<lambda>t. task_status t \<notin> {Running, Queued, Waiting}) ts)\<rparr>"

record task_store =
  store_tasks :: "(string \<times> task_record) list"
  store_threads :: "(string \<times> task_thread) list"
  limit_items :: nat
  limit_output :: nat

definition new_store :: "nat \<Rightarrow> nat \<Rightarrow> task_store" where
  "new_store n k = \<lparr>store_tasks = [], store_threads = [], limit_items = n, limit_output = k\<rparr>"

definition get_task :: "task_store \<Rightarrow> string \<Rightarrow> task_record option" where
  "get_task s i = map_of (store_tasks s) i"

definition get_thread :: "task_store \<Rightarrow> string \<Rightarrow> task_thread" where
  "get_thread s i = (case map_of (store_threads s) i of Some t \<Rightarrow> t | None \<Rightarrow> emptyThread (limit_items s) (limit_output s))"

definition add_task :: "task_record \<Rightarrow> task_store \<Rightarrow> task_store" where
  "add_task t s = s\<lparr>store_tasks := AList.update (task_id t) t (store_tasks s),
     store_threads := AList.update (task_id t) (emptyThread (limit_items s) (limit_output s)) (store_threads s)\<rparr>"

definition restore_task :: "task_record \<Rightarrow> task_thread \<Rightarrow> task_store \<Rightarrow> bool \<times> task_store" where
  "restore_task t th s = (if get_task s (task_id t) \<noteq> None then (False, s)
     else (True, s\<lparr>store_tasks := AList.update (task_id t) t (store_tasks s),
       store_threads := AList.update (task_id t) (th\<lparr>maxItems := limit_items s, maxOutputChars := limit_output s\<rparr>) (store_threads s)\<rparr>))"

text \<open>The most recently active tasks first.\<close>

definition recent_first :: "task_record \<Rightarrow> task_record \<Rightarrow> int" where
  "recent_first a b = (if lastActivityAt b - lastActivityAt a \<noteq> 0 then lastActivityAt b - lastActivityAt a else createdAt b - createdAt a)"

definition list_tasks :: "task_store \<Rightarrow> string option \<Rightarrow> task_record list" where
  "list_tasks s p = sort_by recent_first (filter (\<lambda>t. p = None \<or> p = Some (parentSessionId t)) (map snd (store_tasks s)))"

definition store_summary :: "task_store \<Rightarrow> string option \<Rightarrow> task_summary" where
  "store_summary s p = summarize (list_tasks s p)"

text \<open>A patch is a function on the record of a task that is there.\<close>

definition update_task :: "string \<Rightarrow> (task_record \<Rightarrow> task_record) \<Rightarrow> task_store \<Rightarrow> task_store" where
  "update_task i f s = (case get_task s i of None \<Rightarrow> s | Some t \<Rightarrow> s\<lparr>store_tasks := AList.update i (f t) (store_tasks s)\<rparr>)"

definition apply_event :: "string \<Rightarrow> task_event \<Rightarrow> int \<Rightarrow> task_store \<Rightarrow> task_store" where
  "apply_event i e at s = (case get_task s i of None \<Rightarrow> s
     | Some t \<Rightarrow> update_task i (\<lambda>_. (recordPatch t e)\<lparr>lastActivityAt := at\<rparr>)
         (s\<lparr>store_threads := AList.update i (applyTaskEvent (get_thread s i) e) (store_threads s)\<rparr>))"

section \<open>Sanitized text is inert\<close>

lemma no_escape:
  assumes "\<forall>u \<in> set t. \<not>  control_char u"
  shows "stripOsc t = t" and "stripEscapes t = t"
proof -
  have c: "control_char ESC" "control_char 0x9B" "control_char 0x9D" by (simp_all add: control_char_def between_def)
  have n: "u \<noteq> ESC \<and> u \<noteq> 0x9B \<and> u \<noteq> 0x9D" if "u \<in> set t" for u using assms that c by blast
  have "(\<forall>u \<in> set xs. u \<noteq> ESC \<and> u \<noteq> 0x9B \<and> u \<noteq> 0x9D) \<Longrightarrow> stripOsc xs = xs \<and> stripEscapes xs = xs" for xs
    by (induction xs) (auto simp: escape_rest_def)
  then show "stripOsc t = t" "stripEscapes t = t" using n by blast+
qed

text \<open>
  Text that goes to the terminal cannot control it. What the sanitizer returns holds no control character but the tab
  and the newline, so no escape sequence either; a text is left alone exactly when it holds none already; sanitizing
  twice changes nothing more.
\<close>

theorem sanitized_text_is_inert:
  "(\<forall>u \<in> set (sanitizeTerminalText t). \<not>  control_char u)
    \<and> (sanitizeTerminalText t = t) = (\<forall>u \<in> set t. \<not>  control_char u)
    \<and> sanitizeTerminalText (sanitizeTerminalText t) = sanitizeTerminalText t
    \<and> (control_char u = (u \<noteq> 0x09 \<and> u \<noteq> 0x0A \<and> (u < 0x20 \<or> (0x7F \<le> u \<and> u \<le> 0x9F))))"
proof -
  have f: "sanitizeTerminalText s = s" if "\<forall>u \<in> set s. \<not>  control_char u" for s
    using no_escape[OF that] that by (simp add: sanitizeTerminalText_def stripAnsi_def)
  have c: "\<forall>u \<in> set (sanitizeTerminalText s). \<not>  control_char u" for s
    by (simp add: sanitizeTerminalText_def)
  have k: "control_char u = (u \<noteq> 0x09 \<and> u \<noteq> 0x0A \<and> (u < 0x20 \<or> (0x7F \<le> u \<and> u \<le> 0x9F)))"
  proof -
    have "unat u = 9 \<longleftrightarrow> u = 9" "unat u = 10 \<longleftrightarrow> u = 10"
      by (simp_all add: word_unat_eq_iff)
    then show ?thesis by (auto simp: control_char_def between_def word_le_nat_alt word_less_nat_alt)
  qed
  show ?thesis using f c k by metis
qed

section \<open>The thread of a task is bounded\<close>

lemma length_keepTail: "1 \<le> n \<Longrightarrow> length (keepTail t n) \<le> n"
  by (auto simp: keepTail_def)

lemma set_update_first: "update_first p f xs = Some ys \<Longrightarrow> length ys = length xs \<and> (\<forall>y \<in> set ys. y \<in> set xs \<or> (\<exists>x \<in> set xs. p x \<and> y = f x))"
proof (induction xs arbitrary: ys)
  case (Cons x xs)
  then show ?case by (cases "p x") (auto, blast)
qed simp

text \<open>The lengths a thread allows: tool output by its own limit, running text by the cap or the longest single piece.\<close>

definition item_bounded :: "nat \<Rightarrow> nat \<Rightarrow> thread_item \<Rightarrow> bool" where
  "item_bounded k l x \<longleftrightarrow> (case x of ToolItem c n a out r e \<Rightarrow> length out \<le> k | TextItem t \<Rightarrow> length t \<le> max TEXT_CAP l
     | ThinkingItem t \<Rightarrow> length t \<le> max TEXT_CAP l | NoteItem t \<Rightarrow> True)"

definition event_piece :: "task_event \<Rightarrow> nat" where
  "event_piece e = (case e of TextEvent t \<Rightarrow> length t | ThinkingEvent t \<Rightarrow> length t | _ \<Rightarrow> 0)"

definition thread_ok :: "nat \<Rightarrow> nat \<Rightarrow> nat \<Rightarrow> task_thread \<Rightarrow> bool" where
  "thread_ok n k l t \<longleftrightarrow> maxItems t = n \<and> maxOutputChars t = k \<and> length (items t) \<le> n
     \<and> (0 < dropped t \<longrightarrow> length (items t) = n) \<and> (\<forall>x \<in> set (items t). item_bounded k l x)"

lemma push_ok: "thread_ok n k l t \<Longrightarrow> item_bounded k l x \<Longrightarrow> thread_ok n k l (push_item t x)"
  by (auto simp: thread_ok_def push_item_def withItems_def Let_def dest: in_set_dropD)

lemma stripOsc_le: "length (stripOsc t) \<le> length t"
proof (induction t rule: stripOsc.induct)
  case (2 u us)
  have s: "length (stripOsc (skip_osc vs)) \<le> length vs" if "length (stripOsc (skip_osc vs)) \<le> length (skip_osc vs)" for vs
    using that skip_osc_shorter[of vs] by simp
  show ?case using 2 s[of "tl us"] s[of us] by (cases us) auto
qed simp

lemma stripEscapes_le: "length (stripEscapes t) \<le> length t"
proof (induction t rule: stripEscapes.induct)
  case (2 u us)
  show ?case
  proof (cases "escape_rest (u # us)")
    case None
    then show ?thesis using 2(1)[OF None] by simp
  next
    case (Some vs)
    then show ?thesis using 2(2)[OF Some] escape_rest_shorter[OF Some] by simp
  qed
qed simp

lemma sanitize_le: "length (sanitizeTerminalText t) \<le> length t"
  unfolding sanitizeTerminalText_def stripAnsi_def
  using length_filter_le le_trans stripEscapes_le stripOsc_le by meson

lemma append_ok:
  assumes "thread_ok n k l t" and "length raw \<le> l" and "kind \<in> {TextItem, ThinkingItem}"
  shows "thread_ok n k l (appendText t kind raw)"
proof (cases "sanitizeTerminalText raw = []")
  case False
  let ?x = "kind (sanitizeTerminalText raw)"
  have x: "item_bounded k l ?x"
    using assms(2,3) sanitize_le[of raw] by (auto simp: item_bounded_def)
  show ?thesis
  proof (cases "if items t = [] then None else merge_text (last (items t)) ?x")
    case None
    then show ?thesis using push_ok[OF assms(1) x] False by (simp add: appendText_def Let_def)
  next
    case (Some y)
    then have "items t \<noteq> []" "merge_text (last (items t)) ?x = Some y" by (auto split: if_splits)
    then have "item_bounded k l y"
      using length_keepTail[of TEXT_CAP] by (auto simp: merge_text_def item_bounded_def TEXT_CAP_def le_max_iff_disj split: thread_item.splits)
    moreover have "length (butlast (items t) @ [y]) = length (items t)" using \<open>items t \<noteq> []\<close> by (cases "items t" rule: rev_cases) simp_all
    ultimately show ?thesis using assms(1) Some False
      by (auto simp: appendText_def Let_def thread_ok_def withItems_def dest: in_set_butlastD)
  qed
qed (use assms(1) in \<open>simp add: appendText_def\<close>)

lemma tool_ok:
  assumes "thread_ok n k l t" and "1 \<le> k"
  shows "thread_ok n k l (updateTool t c out r f)"
proof (cases "update_first (is_call c) (\<lambda>x. case x of
         ToolItem d n a ou r' e \<Rightarrow> ToolItem d n a (keepTail (sanitizeTerminalText out) (maxOutputChars t)) (r r') (f e)
       | y \<Rightarrow> y) (items t)")
  case (Some ys)
  have "item_bounded k l y" if "y \<in> set ys" for y
    using set_update_first[OF Some] that assms length_keepTail[of k]
    by (fastforce simp: thread_ok_def item_bounded_def is_call_def split: thread_item.splits)
  then show ?thesis using assms(1) set_update_first[OF Some] Some
    by (simp add: updateTool_def thread_ok_def withItems_def)
qed (use assms(1) in \<open>simp add: updateTool_def\<close>)

lemma event_ok_thread:
  assumes "thread_ok n k l t" and "1 \<le> k" and "event_piece e \<le> l"
  shows "thread_ok n k l (applyTaskEvent t e)"
  using assms by (cases e) (auto simp: applyTaskEvent_def event_piece_def item_bounded_def intro: push_ok append_ok tool_ok)

section \<open>What a bounded thread shows\<close>

text \<open>
  The journal of a task is what its thread would be without bounds: the pieces of a running text one by one, the whole
  last output of a tool. A report on a tool goes to the first call with its id among the newest \<open>n\<close> entries.
\<close>

datatype journal_entry =
    TextPieces "text16 list"
  | ThinkingPieces "text16 list"
  | ToolCall text16 text16 rpc_value text16 bool bool
  | NoteLine text16

definition journal_text :: "journal_entry list \<Rightarrow> text16 \<Rightarrow> journal_entry list" where
  "journal_text J x = (if x = [] then J
     else if J = [] then [TextPieces [x]]
     else case last J of TextPieces ps \<Rightarrow> butlast J @ [TextPieces (ps @ [x])] | _ \<Rightarrow> J @ [TextPieces [x]])"

definition journal_thinking :: "journal_entry list \<Rightarrow> text16 \<Rightarrow> journal_entry list" where
  "journal_thinking J x = (if x = [] then J
     else if J = [] then [ThinkingPieces [x]]
     else case last J of ThinkingPieces ps \<Rightarrow> butlast J @ [ThinkingPieces (ps @ [x])] | _ \<Rightarrow> J @ [ThinkingPieces [x]])"

fun report_tool :: "text16 \<Rightarrow> (text16 \<Rightarrow> text16 \<Rightarrow> rpc_value \<Rightarrow> bool \<Rightarrow> bool \<Rightarrow> journal_entry) \<Rightarrow> journal_entry list \<Rightarrow> journal_entry list" where
  "report_tool c f [] = []"
| "report_tool c f (ToolCall d m a out r e # J) = (if d = c then f d m a r e # J else ToolCall d m a out r e # report_tool c f J)"
| "report_tool c f (j # J) = j # report_tool c f J"

definition journal_tool :: "nat \<Rightarrow> text16 \<Rightarrow> (text16 \<Rightarrow> text16 \<Rightarrow> rpc_value \<Rightarrow> bool \<Rightarrow> bool \<Rightarrow> journal_entry) \<Rightarrow> journal_entry list \<Rightarrow> journal_entry list" where
  "journal_tool n c f J = take (length J - n) J @ report_tool c f (drop (length J - n) J)"

definition journal_event :: "nat \<Rightarrow> task_event \<Rightarrow> journal_entry list \<Rightarrow> journal_entry list" where
  "journal_event n e J = (case e of
       TextEvent x \<Rightarrow> journal_text J (sanitizeTerminalText x)
     | ThinkingEvent x \<Rightarrow> journal_thinking J (sanitizeTerminalText x)
     | ToolStart c m a \<Rightarrow> J @ [ToolCall c m a [] True False]
     | ToolUpdate c out \<Rightarrow> journal_tool n c (\<lambda>d m a r b. ToolCall d m a (sanitizeTerminalText out) r b) J
     | ToolEnd c out failed \<Rightarrow> journal_tool n c (\<lambda>d m a r b. ToolCall d m a (sanitizeTerminalText out) False failed) J
     | ErrorEvent x \<Rightarrow> J @ [NoteLine (units_of ''error: '' @ x)]
     | AskEvent r \<Rightarrow> J @ [NoteLine (units_of ''asked: '' @ ask_title r)]
     | NoteEvent x \<Rightarrow> J @ [NoteLine (sanitizeTerminalText x)]
     | _ \<Rightarrow> J)"

text \<open>What an entry shows: a text that fits whole, a longer one as an ellipsis and its newest units.\<close>

definition newest :: "nat \<Rightarrow> text16 \<Rightarrow> text16" where
  "newest n s = (if length s \<le> n then s else 0x2026 # rev (take (n - 1) (rev s)))"

definition shown_pieces :: "text16 list \<Rightarrow> text16" where
  "shown_pieces ps = (case ps of [p] \<Rightarrow> p | _ \<Rightarrow> newest 20000 (concat ps))"

definition shown :: "nat \<Rightarrow> journal_entry \<Rightarrow> thread_item" where
  "shown k j = (case j of TextPieces ps \<Rightarrow> TextItem (shown_pieces ps) | ThinkingPieces ps \<Rightarrow> ThinkingItem (shown_pieces ps)
     | ToolCall c m a out r e \<Rightarrow> ToolItem c m a (newest k out) r e | NoteLine x \<Rightarrow> NoteItem x)"

lemma shown_simps [simp]:
  "shown k (TextPieces ps) = TextItem (shown_pieces ps)" "shown k (ThinkingPieces ps) = ThinkingItem (shown_pieces ps)"
  "shown k (ToolCall c m a out r e) = ToolItem c m a (newest k out) r e" "shown k (NoteLine x) = NoteItem x"
  by (simp_all add: shown_def)

lemma keepTail_newest: "keepTail s n = newest n s"
  by (cases n) (auto simp: keepTail_def newest_def take_rev Suc_diff_le)

text \<open>Cutting a text again after a piece has been added cuts the whole text.\<close>

lemma newest_newest:
  assumes "x \<noteq> []" and "1 \<le> n"
  shows "newest n (newest n s @ x) = newest n (s @ x)"
proof (cases "length s \<le> n")
  case False
  then have "length (newest n s) = n" using assms(2) by (simp add: newest_def)
  moreover have "take (n - 1) (rev (newest n s @ x)) = take (n - 1) (rev (s @ x))"
    using False by (simp add: newest_def min_absorb1)
  moreover have "length (newest n s @ x) > n" "length (s @ x) > n"
    using assms(1) False calculation(1) by (cases x; simp)+
  ultimately show ?thesis by (simp add: newest_def)
qed (simp add: newest_def)

lemma shown_append:
  assumes "ps \<noteq> []" and "x \<noteq> []"
  shows "newest 20000 (shown_pieces ps @ x) = shown_pieces (ps @ [x])"
proof (cases ps)
  case (Cons p qs)
  show ?thesis
  proof (cases qs)
    case Nil
    then show ?thesis by (simp add: shown_pieces_def Cons)
  next
    case (Cons q rs)
    then show ?thesis using newest_newest[OF assms(2), of 20000 "concat ps"] \<open>ps = p # qs\<close>
      by (simp add: shown_pieces_def split: list.split)
  qed
qed (use assms(1) in simp)

definition journal_ok :: "journal_entry list \<Rightarrow> bool" where
  "journal_ok J \<longleftrightarrow> TextPieces [] \<notin> set J \<and> ThinkingPieces [] \<notin> set J"

definition shows_journal :: "nat \<Rightarrow> nat \<Rightarrow> journal_entry list \<Rightarrow> task_thread \<Rightarrow> bool" where
  "shows_journal n k J t \<longleftrightarrow> maxItems t = n \<and> maxOutputChars t = k \<and> journal_ok J
     \<and> items t = map (shown k) (drop (length J - n) J) \<and> dropped t = length J - n"

lemma push_shows:
  assumes "shows_journal n k J t" and "x = shown k j" and "j \<notin> {TextPieces [], ThinkingPieces []}"
  shows "shows_journal n k (J @ [j]) (push_item t x)"
proof (cases "length J < n")
  case True
  then show ?thesis using assms
    by (auto simp: shows_journal_def push_item_def withItems_def journal_ok_def Let_def)
next
  case False
  then have l: "Suc (length J) - n = Suc (length J - n)" by simp
  have "drop (Suc (length J - n)) (J @ [j]) = drop 1 (drop (length J - n) (J @ [j]))" by simp
  also have "\<dots> = drop 1 (drop (length J - n) J @ [j])" by simp
  finally have d: "drop (Suc (length J) - n) (J @ [j]) = drop 1 (drop (length J - n) J @ [j])" unfolding l .
  have i: "items t = map (shown k) (drop (length J - n) J)" "maxItems t = n" using assms(1) by (simp_all add: shows_journal_def)
  have "length (items t @ [x]) - n = 1" using False by (simp add: i)
  then have "push_item t x = withItems t (drop 1 (items t @ [x])) (dropped t + 1)"
    by (simp add: push_item_def Let_def i(2))
  moreover have x: "items t @ [x] = map (shown k) (drop (length J - n) J @ [j])" by (simp add: i(1) assms(2))
  have "drop 1 (items t @ [x]) = map (shown k) (drop (length (J @ [j]) - n) (J @ [j]))"
    unfolding x length_append_singleton d by (rule drop_map)
  ultimately show ?thesis using assms(1,3) l
    by (auto simp: shows_journal_def withItems_def journal_ok_def)
qed

lemma last_shown:
  assumes "shows_journal n k J t" and "1 \<le> n" and "J \<noteq> []"
  shows "items t \<noteq> []" and "last (items t) = shown k (last J)"
    and "butlast (items t) @ [shown k j] = map (shown k) (drop (length J - n) (butlast J @ [j]))"
proof -
  have d: "drop (length J - n) J \<noteq> []" using assms(2,3) by (cases J) simp_all
  show "items t \<noteq> []" "last (items t) = shown k (last J)"
    using assms(1) d by (simp_all add: shows_journal_def last_map last_drop)
  have "length J - n \<le> length (butlast J)" using assms(2) by simp
  then show "butlast (items t) @ [shown k j] = map (shown k) (drop (length J - n) (butlast J @ [j]))"
    using assms(1) by (simp add: shows_journal_def map_butlast drop_butlast)
qed

lemma replace_shows:
  assumes "shows_journal n k J t" and "1 \<le> n" and "J \<noteq> []" and "x = shown k j" and "j \<notin> {TextPieces [], ThinkingPieces []}"
  shows "shows_journal n k (butlast J @ [j]) (withItems t (butlast (items t) @ [x]) (dropped t))"
  using assms(1,3,5) last_shown(3)[OF assms(1-3), of j] unfolding assms(4)
  by (auto simp: shows_journal_def withItems_def journal_ok_def dest: in_set_butlastD)

lemma text_shows:
  assumes "shows_journal n k J t" and "1 \<le> n"
  shows "shows_journal n k (journal_text J (sanitizeTerminalText raw)) (appendText t TextItem raw)"
    and "shows_journal n k (journal_thinking J (sanitizeTerminalText raw)) (appendText t ThinkingItem raw)"
proof -
  let ?x = "sanitizeTerminalText raw"
  have e: "items t = []" if "J = []" using assms(1) that by (simp add: shows_journal_def)
  have p: "shows_journal n k (J @ [TextPieces [?x]]) (push_item t (TextItem ?x))"
    "shows_journal n k (J @ [ThinkingPieces [?x]]) (push_item t (ThinkingItem ?x))"
    by (rule push_shows[OF assms(1)]; simp add: shown_def shown_pieces_def)+
  have ok: "last J \<noteq> TextPieces []" "last J \<noteq> ThinkingPieces []" if "J \<noteq> []"
    using assms(1) last_in_set[OF that] unfolding shows_journal_def journal_ok_def by metis+
  have m: "TextItem (keepTail (shown_pieces ps @ ?x) TEXT_CAP) = shown k (TextPieces (ps @ [?x]))"
    "ThinkingItem (keepTail (shown_pieces ps @ ?x) TEXT_CAP) = shown k (ThinkingPieces (ps @ [?x]))"
    if "ps \<noteq> []" "?x \<noteq> []" for ps
    using shown_append[OF that] by (simp_all add: shown_def TEXT_CAP_def keepTail_newest)
  show "shows_journal n k (journal_text J ?x) (appendText t TextItem raw)"
  proof (cases "J = [] \<or> ?x = []")
    case True
    then show ?thesis using assms(1) p e by (auto simp: journal_text_def appendText_def Let_def)
  next
    case False
    then have J: "J \<noteq> []" and x: "?x \<noteq> []" by simp_all
    show ?thesis
    proof (cases "last J")
      case (TextPieces ps)
      then show ?thesis
        using last_shown(1,2)[OF assms J] ok[OF J] x J m[OF _ x, of ps] replace_shows[OF assms J refl, of "TextPieces (ps @ [?x])"]
        by (auto simp: journal_text_def appendText_def Let_def merge_text_def)
    qed (use last_shown(1,2)[OF assms J] p x J in \<open>auto simp: journal_text_def appendText_def Let_def merge_text_def\<close>)
  qed
  show "shows_journal n k (journal_thinking J ?x) (appendText t ThinkingItem raw)"
  proof (cases "J = [] \<or> ?x = []")
    case True
    then show ?thesis using assms(1) p e by (auto simp: journal_thinking_def appendText_def Let_def)
  next
    case False
    then have J: "J \<noteq> []" and x: "?x \<noteq> []" by simp_all
    show ?thesis
    proof (cases "last J")
      case (ThinkingPieces ps)
      then show ?thesis
        using last_shown(1,2)[OF assms J] ok[OF J] x J m[OF _ x, of ps] replace_shows[OF assms J refl, of "ThinkingPieces (ps @ [?x])"]
        by (auto simp: journal_thinking_def appendText_def Let_def merge_text_def)
    qed (use last_shown(1,2)[OF assms J] p x J in \<open>auto simp: journal_thinking_def appendText_def Let_def merge_text_def\<close>)
  qed
qed

lemma report_shows:
  assumes "\<And>d m a out r e. shown k (f d m a r e) = g (ToolItem d m a out r e)"
  shows "update_first (is_call c) g (map (shown k) J) =
      (if list_ex (\<lambda>x. is_call c (shown k x)) J then Some (map (shown k) (report_tool c f J)) else None)
    \<and> (\<not> list_ex (\<lambda>x. is_call c (shown k x)) J \<longrightarrow> report_tool c f J = J) \<and> length (report_tool c f J) = length J"
proof (induction J)
  case (Cons j J)
  then show ?case by (cases j) (auto simp: is_call_def assms[symmetric])
qed simp

lemma report_ok: "journal_ok J \<Longrightarrow> (\<And>d m a r e. f d m a r e \<notin> {TextPieces [], ThinkingPieces []}) \<Longrightarrow> journal_ok (report_tool c f J)"
  by (induction c f J rule: report_tool.induct) (force simp: journal_ok_def)+

lemma tool_shows:
  assumes "shows_journal n k J t"
    and "\<And>d m a r e. f d m a r e = ToolCall d m a (sanitizeTerminalText out) (running r) (failed e)"
  shows "shows_journal n k (journal_tool n c f J) (updateTool t c out running failed)"
proof -
  let ?D = "drop (length J - n) J"
  let ?g = "\<lambda>x. case x of ToolItem d n a ou r e \<Rightarrow> ToolItem d n a (keepTail (sanitizeTerminalText out) k) (running r) (failed e) | y \<Rightarrow> y"
  have g: "shown k (f d m a r e) = ?g (ToolItem d m a ou r e)" for d m a ou r e
    by (simp add: assms(2) keepTail_newest)
  note u = report_shows[of k f ?g c ?D, OF g]
  have i: "items t = map (shown k) ?D" "maxOutputChars t = k" using assms(1) by (simp_all add: shows_journal_def)
  have ok: "journal_ok (journal_tool n c f J)"
  proof -
    have "journal_ok (take (length J - n) J)" "journal_ok ?D"
      using assms(1) by (auto simp: shows_journal_def journal_ok_def dest: in_set_takeD in_set_dropD)
    then show ?thesis using report_ok[of ?D f c] assms(2) by (auto simp: journal_tool_def journal_ok_def)
  qed
  have l: "length (journal_tool n c f J) = length J"
    "drop (length J - n) (journal_tool n c f J) = report_tool c f ?D"
    using u by (simp_all add: journal_tool_def)
  have "updateTool t c out running failed = (case update_first (is_call c) ?g (items t) of None \<Rightarrow> t | Some xs \<Rightarrow> withItems t xs (dropped t))"
    unfolding updateTool_def i(2) by (rule refl)
  then have e: "updateTool t c out running failed =
      (if list_ex (\<lambda>x. is_call c (shown k x)) ?D then withItems t (map (shown k) (report_tool c f ?D)) (dropped t) else t)"
    unfolding i(1) u[THEN conjunct1] by simp
  show ?thesis
  proof (cases "list_ex (\<lambda>x. is_call c (shown k x)) ?D")
    case True
    then show ?thesis using assms(1) ok l unfolding e by (simp add: shows_journal_def withItems_def)
  next
    case False
    then have "journal_tool n c f J = J" using u by (simp add: journal_tool_def)
    then show ?thesis using assms(1) False unfolding e by simp
  qed
qed

lemma event_shows:
  assumes "shows_journal n k J t" and "1 \<le> n"
  shows "shows_journal n k (journal_event n e J) (applyTaskEvent t e)"
  using assms push_shows[OF assms(1) refl, of "ToolCall c m a [] True False" for c m a] push_shows[OF assms(1) refl, of "NoteLine x" for x] text_shows[OF assms] tool_shows[OF assms(1)]
  by (cases e) (simp_all add: journal_event_def applyTaskEvent_def askNote_def newest_def)

text \<open>
  C39: the thread of a task keeps the newest and drops the oldest. Whatever events a child sends, the items of its
  thread are the newest \<open>n\<close> entries of the unbounded journal of these events, in order, and the entries dropped are
  counted; of a tool's last output an item shows all, when it has at most \<open>k\<close> units, and else an ellipsis and its
  newest \<open>k - 1\<close> units; of a running text all, when it is a single piece or has at most 20000 units, and else an
  ellipsis and its newest 19999 units. So a thread has at most \<open>n\<close> items, an output at most \<open>k\<close> units, and a running text
  at most 20000 or the length of the longest piece.
\<close>

theorem thread_stays_bounded:
  assumes "1 \<le> n" and "1 \<le> k" and "\<forall>e \<in> set es. event_piece e \<le> l" and "t = fold (\<lambda>e t. applyTaskEvent t e) es (emptyThread n k)"
    and "J = fold (journal_event n) es []"
  shows "items t = map (shown k) (drop (length J - n) J) \<and> dropped t = length J - n \<and> length (items t) \<le> n
    \<and> (\<forall>x \<in> set (items t). case x of ToolItem c n a out r e \<Rightarrow> length out \<le> k | TextItem u \<Rightarrow> length u \<le> max 20000 l
        | ThinkingItem u \<Rightarrow> length u \<le> max 20000 l | NoteItem u \<Rightarrow> True)"
proof -
  have "shows_journal n k (fold (journal_event n) es J) (fold (\<lambda>e t. applyTaskEvent t e) es t)" if "shows_journal n k J t" for J t
    using that by (induction es arbitrary: J t) (simp_all add: event_shows[OF _ assms(1)])
  moreover have "shows_journal n k [] (emptyThread n k)" by (simp add: shows_journal_def emptyThread_def journal_ok_def)
  ultimately have "shows_journal n k J t" unfolding assms(4,5) .
  moreover have "thread_ok n k l (fold (\<lambda>e t. applyTaskEvent t e) es t)" if "thread_ok n k l t" for t
    using assms(3) that by (induction es arbitrary: t) (simp_all add: event_ok_thread[OF _ assms(2)])
  moreover have "thread_ok n k l (emptyThread n k)" by (simp add: thread_ok_def emptyThread_def)
  ultimately have "shows_journal n k J t" "thread_ok n k l t" unfolding assms(4) by blast+
  then show ?thesis unfolding shows_journal_def thread_ok_def item_bounded_def TEXT_CAP_def by blast
qed

definition sample_events :: "task_event list" where
  "sample_events = [NoteEvent (units_of ''old''), ToolStart (units_of ''c'') (units_of ''bash'') RNull,
     ToolEnd (units_of ''c'') (units_of ''abcdefg'') False, TextEvent (units_of ''on''), TextEvent (units_of ''ward'')]"

theorem thread_stays_bounded_witness:
  "items (fold (\<lambda>e t. applyTaskEvent t e) sample_events (emptyThread 2 5)) =
    [ToolItem (units_of ''c'') (units_of ''bash'') RNull (0x2026 # units_of ''defg'') False False, TextItem (units_of ''onward'')]"
proof -
  have l: "\<forall>e \<in> set sample_events. event_piece e \<le> 10"
    by (simp add: sample_events_def event_piece_def units_of_def)
  have "map (shown 5) (drop (length (fold (journal_event 2) sample_events []) - 2) (fold (journal_event 2) sample_events [])) =
      [ToolItem (units_of ''c'') (units_of ''bash'') RNull (0x2026 # units_of ''defg'') False False, TextItem (units_of ''onward'')]"
    by code_simp
  then show ?thesis using thread_stays_bounded[OF _ _ l refl refl, of 2 5] by simp
qed

end
