(* ===== verification/RpcEvents.thy ===== *)
theory RpcEvents
  imports AgentTasks
begin

text \<open>
  From the lines of a child to task events (\<open>lib/agents-protocol.ts\<close>): \<open>normalizeRpcEvent\<close> and the label of a task. \<open>String(x)\<close>
  is \<open>js_string\<close>; \<open>Number(x)\<close>, which only counts tokens, is the argument \<open>number\<close>.
\<close>

section \<open>Values\<close>

definition rget :: "string \<Rightarrow> rpc_value \<Rightarrow> rpc_value" where
  "rget k v = (case v of RObj kvs \<Rightarrow> (case map_of kvs k of Some x \<Rightarrow> x | None \<Rightarrow> RUndefined) | _ \<Rightarrow> RUndefined)"



abbreviation rstr :: "string \<Rightarrow> rpc_value" where "rstr s \<equiv> RText (units_of s)"

fun join16 :: "text16 \<Rightarrow> text16 list \<Rightarrow> text16" where
  "join16 sep [] = []"
| "join16 sep [x] = x"
| "join16 sep (x # y # xs) = x @ sep @ join16 sep (y # xs)"



definition clean :: "rpc_value \<Rightarrow> text16" where
  "clean v = (case v of RText t \<Rightarrow> sanitizeTerminalText t | _ \<Rightarrow> [])"

definition contentText :: "rpc_value \<Rightarrow> text16" where
  "contentText v = (case v of
       RArr ps \<Rightarrow> join16 [0x0A] (filter (\<lambda>t. t \<noteq> []) (map (\<lambda>p. if rget ''type'' p = rstr ''text'' then clean (rget ''text'' p) else []) ps))
     | _ \<Rightarrow> [])"

section \<open>The end of an agent\<close>


abbreviation "no_report \<equiv> units_of ''assistant returned no final report''"



section \<open>Response observations\<close>







section \<open>Events\<close>






section \<open>The label of a task\<close>

definition space16 :: "code_unit \<Rightarrow> bool" where
  "space16 u \<longleftrightarrow> between 0x09 0x0D u \<or> u = 0x20 \<or> u = 0xA0 \<or> u = 0x1680 \<or> between 0x2000 0x200A u \<or> u = 0x2028 \<or> u = 0x2029
     \<or> u = 0x202F \<or> u = 0x205F \<or> u = 0x3000 \<or> u = 0xFEFF"

text \<open>\<open>replace(/\s+/g, " ")\<close>, \<open>trim()\<close> and \<open>split("\n")\<close>.\<close>

fun collapse_spaces :: "text16 \<Rightarrow> text16" where
  "collapse_spaces [] = []"
| "collapse_spaces [u] = [if space16 u then 0x20 else u]"
| "collapse_spaces (u # v # us) = (if \<not>  space16 u then u # collapse_spaces (v # us)
     else if space16 v then collapse_spaces (v # us) else 0x20 # collapse_spaces (v # us))"

definition trim16 :: "text16 \<Rightarrow> text16" where
  "trim16 t = rev (dropWhile space16 (rev (dropWhile space16 t)))"

fun lines16 :: "text16 \<Rightarrow> text16 list" where
  "lines16 [] = [[]]"
| "lines16 (u # us) = (if u = 0x0A then [] # lines16 us else (u # hd (lines16 us)) # tl (lines16 us))"

text \<open>\<open>split(/(?<=[.!?])\s/)[0]\<close>: up to the first space behind the end of a sentence.\<close>

fun first_sentence :: "text16 \<Rightarrow> text16" where
  "first_sentence [] = []"
| "first_sentence [u] = [u]"
| "first_sentence (u # v # us) = (if u \<in> set (units_of ''.!?'') \<and> space16 v then [u] else u # first_sentence (v # us))"

definition LABEL_MAX :: nat where "LABEL_MAX = 72"

definition clip_label :: "text16 \<Rightarrow> text16" where
  "clip_label t = (if LABEL_MAX < length t then take (LABEL_MAX - 1) t @ [0x2026] else t)"

definition drop_final_mark :: "text16 \<Rightarrow> text16" where
  "drop_final_mark t = (if t \<noteq> [] \<and> last t \<in> set (units_of ''.:'') then butlast t else t)"

definition taskLabel :: "text16 \<Rightarrow> text16 option \<Rightarrow> text16" where
  "taskLabel prompt label =
     (let explicit = trim16 (collapse_spaces (case label of Some l \<Rightarrow> sanitizeTerminalText l | None \<Rightarrow> [])) in
      if explicit \<noteq> [] then clip_label explicit
      else let firstLine = (case find (\<lambda>l. l \<noteq> []) (map trim16 (lines16 (sanitizeTerminalText prompt))) of Some l \<Rightarrow> l | None \<Rightarrow> [])
        in clip_label (drop_final_mark (collapse_spaces (first_sentence firstLine))))"


section \<open>What the view draws of a thread\<close>

text \<open>
  \<open>lib/agents-thread-view.ts\<close>. The theme and the terminal library (\<open>truncateToWidth\<close>, \<open>wrapTextWithAnsi\<close>) are
  arguments. \<open>thread_parts\<close> is the case distinction of \<open>renderThreadItem\<close> over what it does with a line and with
  a content; \<open>drawn_texts\<close> collects the texts of both.
\<close>

record terminal_library =
  fg :: "string \<Rightarrow> text16 \<Rightarrow> text16"
  truncateToWidth :: "text16 \<Rightarrow> int \<Rightarrow> text16 \<Rightarrow> text16"
  wrapTextWithAnsi :: "text16 \<Rightarrow> int \<Rightarrow> text16 list"

definition thread_line :: "terminal_library \<Rightarrow> string \<Rightarrow> text16 \<Rightarrow> int \<Rightarrow> text16" where
  "thread_line L role t width = fg L role (truncateToWidth L t (max 1 width) [0x2026])"

definition contentLines :: "terminal_library \<Rightarrow> string \<Rightarrow> text16 \<Rightarrow> int \<Rightarrow> int \<Rightarrow> text16 list" where
  "contentLines L role t width requestedIndent =
     (let indent = min requestedIndent (max 0 (width - 1)); prefix = replicate (nat indent) 0x20; contentWidth = max 1 (width - indent)
      in concat (map (\<lambda>source. if source = [] then [fg L role prefix]
           else let wrapped = wrapTextWithAnsi L source contentWidth
             in map (\<lambda>part. fg L role (prefix @ part)) (if wrapped \<noteq> [] then wrapped else [source])) (lines16 t)))"

definition toolStatus :: "bool \<Rightarrow> bool \<Rightarrow> string" where
  "toolStatus running failed = (if failed then ''Error'' else if running then ''Running'' else ''Complete'')"

definition middle_dot :: text16 where
  "middle_dot = [0x20, 0xB7, 0x20]"

definition thread_parts :: "(string \<Rightarrow> text16 \<Rightarrow> 'a) \<Rightarrow> (string \<Rightarrow> text16 \<Rightarrow> int \<Rightarrow> 'a list) \<Rightarrow> thread_item \<Rightarrow> 'a list" where
  "thread_parts line content x = (case x of
       TextItem t \<Rightarrow> line ''customMessageLabel'' (units_of ''Text'') # content ''text'' t 2
     | ThinkingItem t \<Rightarrow> line ''customMessageLabel'' (units_of ''Thinking'') # content ''dim'' t 2
     | NoteItem t \<Rightarrow> line ''muted'' (units_of ''Note'') # content ''muted'' t 2
     | ToolItem c name a out running failed \<Rightarrow>
         line (if failed then ''error'' else ''accent'')
           (units_of ''Tool'' @ middle_dot @ name @ middle_dot @ units_of (toolStatus running failed))
         # (if out = [] then [] else line ''muted'' (units_of ''  Output'') # content ''muted'' out 4))"

definition renderThreadItem :: "terminal_library \<Rightarrow> thread_item \<Rightarrow> int \<Rightarrow> text16 list" where
  "renderThreadItem L x width = (if width \<le> 0 then []
     else thread_parts (\<lambda>role t. thread_line L role t width) (\<lambda>role t indent. contentLines L role t width indent) x)"

definition drawn_texts :: "thread_item \<Rightarrow> text16 list" where
  "drawn_texts = thread_parts (\<lambda>role t. t) (\<lambda>role t indent. [t])"

lemma lines16_ne: "lines16 t \<noteq> []"
  by (induction t) auto

lemma lines16_subset: "l \<in> set (lines16 t) \<Longrightarrow> set l \<subseteq> set t"
proof (induction t arbitrary: l)
  case (Cons u us)
  obtain a as where r: "lines16 us = a # as" using lines16_ne[of us] by (cases "lines16 us") auto
  have "set a \<subseteq> set us" "\<And>k. k \<in> set as \<Longrightarrow> set k \<subseteq> set us" using Cons.IH r by auto
  then show ?case using Cons.prems r by (fastforce split: if_splits)
qed simp

section \<open>What reaches a terminal is inert\<close>

text \<open>
  A unit a terminal takes for text: tab, newline, printable ASCII, or beyond the C1 controls. None of them is \<open>ESC\<close>,
  \<open>DEL\<close> or a C1 control such as the one-unit CSI 0x9B.
\<close>

definition text_unit :: "code_unit \<Rightarrow> bool" where
  "text_unit u \<longleftrightarrow> u = 0x09 \<or> u = 0x0A \<or> (0x20 \<le> u \<and> u \<le> 0x7E) \<or> 0xA0 \<le> u"

definition inert :: "text16 \<Rightarrow> bool" where
  "inert t \<longleftrightarrow> list_all text_unit t"

lemma control_or_text: "control_char u \<longleftrightarrow> \<not> text_unit u"
proof -
  have "u = 9 \<longleftrightarrow> unat u = 9" "u = 10 \<longleftrightarrow> unat u = 10"
    by (simp_all add: word_unat_eq_iff)
  then show ?thesis by (auto simp: control_char_def text_unit_def between_def word_le_nat_alt)
qed

lemma inert_control: "inert t \<longleftrightarrow> (\<forall>u \<in> set t. \<not> control_char u)"
  by (simp add: inert_def list_all_iff control_or_text)

lemma inert_simps [simp]: "inert []" "inert (u # t) \<longleftrightarrow> \<not>  control_char u \<and> inert t" "inert (s @ t) \<longleftrightarrow> inert s \<and> inert t"
  by (auto simp: inert_control)

lemma inert_subset: "inert t \<Longrightarrow> set s \<subseteq> set t \<Longrightarrow> inert s"
  by (auto simp: inert_control)

lemma inert_sanitize [simp]: "inert (sanitizeTerminalText t)"
  by (simp add: inert_control sanitizeTerminalText_def)

lemma inert_clean [simp]: "inert (clean v)"
  by (simp add: clean_def split: rpc_value.splits)

lemma join16_inert: "inert sep \<Longrightarrow> \<forall>t \<in> set ts. inert t \<Longrightarrow> inert (join16 sep ts)"
  by (induction sep ts rule: join16.induct) auto

lemma plain_unit: "n < 128 \<Longrightarrow> \<not>  control_char (word_of_nat n) \<longleftrightarrow> n = 9 \<or> n = 10 \<or> (32 \<le> n \<and> n \<noteq> 127)" for n :: nat
proof -
  assume "n < 128"
  then have "unat (word_of_nat n :: code_unit) = n" by (simp add: unat_of_nat take_bit_nat_eq_self_iff)
  then show ?thesis using \<open>n < 128\<close> by (auto simp: control_char_def between_def word_le_nat_alt)
qed

lemma inert_units: "list_all (\<lambda>c. 32 \<le> (of_char c :: nat) \<and> of_char c < (127 :: nat)) s \<Longrightarrow> inert (units_of s)"
proof -
  assume a: "list_all (\<lambda>c. 32 \<le> (of_char c :: nat) \<and> of_char c < (127 :: nat)) s"
  have "\<not>  control_char (word_of_nat (of_char c))" if "c \<in> set s" for c
  proof -
    have "32 \<le> (of_char c :: nat) \<and> of_char c < (127 :: nat)" using a that by (simp add: list_all_iff)
    then show ?thesis using plain_unit[of "of_char c"] by auto
  qed
  then show ?thesis by (simp add: inert_control units_of_def)
qed

lemma inert_contentText [simp]: "inert (contentText v)"
  by (cases v) (auto simp: contentText_def plain_unit[of 10, simplified] intro!: join16_inert)







definition item_inert :: "thread_item \<Rightarrow> bool" where
  "item_inert x \<longleftrightarrow> (case x of TextItem t \<Rightarrow> inert t | ThinkingItem t \<Rightarrow> inert t | NoteItem t \<Rightarrow> inert t
     | ToolItem c n a out r e \<Rightarrow> inert n \<and> inert out)"





lemma item_inert_simps [simp]: "item_inert (NoteItem t) = inert t" "item_inert (ToolItem c n a out r e) = (inert n \<and> inert out)"
  by (simp_all add: item_inert_def)



lemma middle_dot_inert [simp]: "inert middle_dot"
  by (simp add: middle_dot_def control_char_def between_def)

lemma drawn_inert: "item_inert x \<Longrightarrow> t \<in> set (drawn_texts x) \<Longrightarrow> inert t"
  by (cases x) (auto simp: drawn_texts_def thread_parts_def item_inert_def toolStatus_def inert_units split: if_splits)

text \<open>
  Of an inert item the terminal library is asked to cut and wrap inert texts only: two libraries that agree on these
  draw the same.
\<close>

lemma content_agree:
  assumes "inert t" and "fg L = fg M" and "\<And>s w. inert s \<Longrightarrow> wrapTextWithAnsi L s w = wrapTextWithAnsi M s w"
  shows "contentLines L role t width i = contentLines M role t width i"
proof -
  have "inert l" if "l \<in> set (lines16 t)" for l
    using inert_subset[OF assms(1) lines16_subset[OF that]] .
  then show ?thesis unfolding contentLines_def Let_def assms(2)
    by (intro arg_cong[where f = concat] map_cong refl) (simp add: assms(3))
qed

lemma library_sees_inert:
  assumes "item_inert x" and "fg L = fg M" and "\<And>s w. inert s \<Longrightarrow> wrapTextWithAnsi L s w = wrapTextWithAnsi M s w"
    and "\<And>s w e. inert s \<Longrightarrow> truncateToWidth L s w e = truncateToWidth M s w e"
  shows "renderThreadItem L x width = renderThreadItem M x width"
proof -
  have "thread_line L role t width = thread_line M role t width" if "t \<in> set (drawn_texts x)" for role t
    using drawn_inert[OF assms(1) that] by (simp add: thread_line_def assms(2,4))
  moreover have "contentLines L role t width i = contentLines M role t width i" if "t \<in> set (drawn_texts x)" for role t i
    by (rule content_agree[OF drawn_inert[OF assms(1) that] assms(2,3)])
  ultimately show ?thesis
    by (cases x) (simp_all add: renderThreadItem_def drawn_texts_def thread_parts_def)
qed


section \<open>A label is one line\<close>

definition label_unit :: "code_unit \<Rightarrow> bool" where
  "label_unit u \<longleftrightarrow> \<not>  control_char u \<and> u \<noteq> 0x09 \<and> u \<noteq> 0x0A"

lemma label_unit_space [simp]: "label_unit 0x20" "label_unit 0x2026"
  by (simp_all add: label_unit_def control_char_def between_def)

lemma collapse_units: "u \<in> set (collapse_spaces t) \<Longrightarrow> u = 0x20 \<or> u \<in> set t \<and> \<not>  space16 u"
  by (induction t rule: collapse_spaces.induct) (auto split: if_splits)

lemma collapse_label: "inert t \<Longrightarrow> \<forall>u \<in> set (collapse_spaces t). label_unit u"
  using collapse_units by (fastforce simp: inert_control label_unit_def space16_def between_def control_char_def)

lemma trim16_subset: "set (trim16 t) \<subseteq> set t"
  by (auto simp: trim16_def dest!: set_dropWhileD)

lemma first_sentence_subset: "set (first_sentence t) \<subseteq> set t"
  by (induction t rule: first_sentence.induct) auto

lemma clip_ok: "\<forall>u \<in> set t. label_unit u \<Longrightarrow> length (clip_label t) \<le> 72 \<and> (\<forall>u \<in> set (clip_label t). label_unit u)"
  by (auto simp: clip_label_def LABEL_MAX_def dest: in_set_takeD)

text \<open>
  The label of a task is one short inert line. Whatever prompt and label are given, what the card shows has at most 72
  code units, none of them a control character, a tab or a newline.
\<close>

theorem label_is_one_line: "length (taskLabel p l) \<le> 72 \<and> list_all label_unit (taskLabel p l)"
proof -
  let ?e = "trim16 (collapse_spaces (case l of Some l \<Rightarrow> sanitizeTerminalText l | None \<Rightarrow> []))"
  let ?f = "case find (\<lambda>l. l \<noteq> []) (map trim16 (lines16 (sanitizeTerminalText p))) of Some l \<Rightarrow> l | None \<Rightarrow> []"
  have e: "\<forall>u \<in> set ?e. label_unit u"
    using collapse_label[of "case l of Some l \<Rightarrow> sanitizeTerminalText l | None \<Rightarrow> []"] trim16_subset by (fastforce split: option.splits)
  have "inert ?f"
  proof (cases "find (\<lambda>l. l \<noteq> []) (map trim16 (lines16 (sanitizeTerminalText p)))")
    case (Some x)
    then have "x \<in> set (map trim16 (lines16 (sanitizeTerminalText p)))" by (auto simp: find_Some_iff)
    then obtain y where "x = trim16 y" "y \<in> set (lines16 (sanitizeTerminalText p))" by auto
    then have "set x \<subseteq> set (sanitizeTerminalText p)" using trim16_subset lines16_subset by blast
    then show ?thesis using inert_subset[OF inert_sanitize] Some by simp
  qed simp
  then have "\<forall>u \<in> set (collapse_spaces (first_sentence ?f)). label_unit u"
    using first_sentence_subset collapse_label inert_subset by blast
  then have f: "\<forall>u \<in> set (drop_final_mark (collapse_spaces (first_sentence ?f))). label_unit u"
    by (auto simp: drop_final_mark_def dest: in_set_butlastD)
  show ?thesis using clip_ok[OF e] clip_ok[OF f] by (simp add: taskLabel_def Let_def list_all_iff)
qed

end
