(* ===== verification/Spec2Isabelle.thy ===== *)
theory Spec2Isabelle
  imports ReviewRisk JudgmentClaims ReviewLock ObjectClaims GateClaims StoreClaims StatusClaims
    ConsentReplay ConsentSafety CompletionQueue SessionPermission MessagingClaims RpcEvents
begin

text \<open>
  Verification of the review authority of gentle-shell.

  The program lets agents review changes and decides whether a change may be committed, pushed,
  proposed or released. A review is a state that pure reducers advance; the states of a review are
  a chain of events in an immutable, content-addressed store; the store is published through
  three pointers of which two must agree; a lock of directories serialises the writers; a receipt
  of a finished review opens a gate when git confirms that the target is the reviewed tree.

  \<^bold>\<open>Theories\<close> (files under \<open>src/lib\<close>):

  \<^item> \<open>Prelude\<close>: results, guards, sorting by a comparator, JavaScript string operations, the host
    functions (\<open>sha256\<close>, \<open>localeCompare\<close>) as arguments.
  \<^item> \<open>Canonical\<close> (\<open>review-canonical.ts\<close>, the private canonicalizer of \<open>review-transaction.ts\<close>): values,
    their canonical text and domain hashes; the text determines the value.
  \<^item> \<open>PathRegex\<close>, \<open>ReviewTriggers\<close> (\<open>review-triggers.ts\<close>), \<open>ReviewRisk\<close> (\<open>review-risk.ts\<close>): path patterns
    with a verified matcher, the route and the lenses of a review, the risk tier, the correction budget.
  \<^item> \<open>ReviewData\<close>, \<open>FrozenLedger\<close>, \<open>ReviewState\<close> (\<open>review-transaction.ts\<close>): the records and their encodings,
    the frozen ledger of findings, \<open>assertState\<close> and \<open>createReviewState\<close>.
  \<^item> \<open>OrdinaryPolicy\<close> (\<open>review-policy-ordinary.ts\<close>), \<open>JudgmentPolicy\<close> (\<open>review-policy-judgment-day.ts\<close>),
    \<open>ReviewReducer\<close>: the reducers. \<open>PolicyLaws\<close> states what every policy promises as a locale and
    interprets it three times; \<open>OrdinaryLifecycle\<close>, \<open>OrdinaryClaims\<close>, \<open>JudgmentLifecycle\<close> and
    \<open>JudgmentClaims\<close> prove over whole histories what an approval means, that reviews end and what never changes.
  \<^item> \<open>ReviewLock\<close> (\<open>review-lock.ts\<close>): the lock, alone and with interleaved processes.
  \<^item> \<open>ReviewGraph\<close> (\<open>review-graph-schema.ts\<close>), \<open>ObjectStore\<close> (\<open>review-object-store.ts\<close>), \<open>ObjectClaims\<close>: events,
    root sets, pointers, publication and repair with a crash between any two pointer writes.
  \<^item> \<open>TransactionStore\<close> (\<open>ReviewTransactionStore\<close> of \<open>review-transaction.ts\<close>): lineages on the object store.
    \<open>StoreChains\<close> shows that a read is a replayed chain of events and that a write extends one chain;
    \<open>StoreOps\<close> states the store as a locale over the view of its lineages and interprets it on the code;
    \<open>StoreHistory\<close> carries histories of operations and crashes; \<open>SampleStore\<close> is a concrete disk for
    the witnesses of \<open>StoreClaims\<close>.
  \<^item> \<open>Repository\<close> (\<open>review-repository.ts\<close>), \<open>PublicationGate\<close> (\<open>review-publication-gate.ts\<close>), \<open>Receipts\<close>,
    \<open>ReviewGate\<close>, \<open>GateClaims\<close> (\<open>review-transaction.ts\<close>): the authority of a repository, where a push goes,
    receipts, and what an open gate proves.
  \<^item> \<open>Decoding\<close>, \<open>CapabilityDecoder\<close>, \<open>TransitionDecoder\<close>, \<open>NextTransition\<close>, \<open>StartDecoder\<close>,
    \<open>StatusDecoder\<close>, \<open>AnswerDecoder\<close>, \<open>ClosureDecoder\<close> (\<open>review-integration-v2.ts\<close>): the closed-shape
    decoders of everything the native review provider answers, one function per decoder of the module.
    \<open>IntegrationClaims\<close>, \<open>TransitionClaims\<close> and \<open>StatusClaims\<close> show what an admitted answer guarantees: the
    advertised surface, the slot of a submission, the binding of a validator input, the coherence of a status, and
    that a start and an acknowledgement run only what they name.
  \<^item> \<open>ConsentReplay\<close> (\<open>answerConsent\<close> of \<open>native-review-cli.ts\<close>): how an answer to a consent question is turned into
    a provider command, exactly. \<open>ConsentRegistry\<close> (\<open>extensions/gentle-ai.ts\<close>): the consents that wait for an answer;
    \<open>ConsentInvariant\<close> and \<open>ConsentSafety\<close> carry every history of starts, answers, timers and shutdowns.
  \<^item> \<open>SessionPermission\<close> (\<open>review-session-standing-permission.ts\<close>): permissions of a session refine a set of grants with
    a revocation counter.
  \<^item> \<open>CompletionQueue\<close> (\<open>agents-completion-delivery.ts\<close>), \<open>ChildMessaging\<close>, \<open>MessagingClaims\<close> (\<open>agents-messaging.ts\<close>),
    \<open>AgentTasks\<close>, \<open>RpcEvents\<close> (\<open>agents-protocol.ts\<close>, \<open>terminal-theme.ts\<close>, \<open>renderThreadItem\<close> of
    \<open>agents-thread-view.ts\<close>): the agents of a session: completions delivered once, calls settled once, a thread that
    shows the newest of its journal, drawn texts that cannot control the terminal. Texts are lists of 16-bit code units here.

  \<^bold>\<open>Modelling\<close>. A function of the code is a function of the same name; what it throws is the left of a
  sum; an object is a record, an optional property an option; numbers are integers with the code's own
  safe-integer checks; strings are lists of the code units below 256. The disk of the object store is a
  record of parsed files and a crash is a fault before a pointer replace. Git, gh, JSON.parse, SHA-256,
  localeCompare and the file system outside the store are arguments; one evaluation sees one fixed world.
  A decoder reads a JSON value whose keys are distinct; a member that is absent is the value undefined,
  an optional member is an option; decoded items are compared as values, not by their canonical text.

  \<^bold>\<open>Hypotheses\<close> that theorems name: \<open>collation\<close> (localeCompare is a total preorder), \<open>digest_host\<close> (a
  digest is 64 hexadecimal digits), \<open>texts_apart\<close> and \<open>hash_apart\<close> (two given texts do not collide),
  \<open>signal_sound\<close> (a process that a signal finds missing does not come back).

  \<^bold>\<open>Bounds\<close>. Nothing needs fuel: walks down an event chain are bounded by the sequence number of its head,
  canonical texts read from disk by the limit of one MiB that the code checks.

  \<^bold>\<open>Not modelled\<close>. The extension entry points and, but for the items of a thread, the terminal interface (rendering and host callbacks),
  the driving of the native binary (its answers are decoded here), the listeners
  and costs of tasks, git plumbing of snapshots and candidate views,
  process management of agents, installers. Flushes and temporary files are left out. An event whose
  reducer input was written for another transition is refused where the code would cast it.
\<close>

end
